(* ===== verification/Prelude.thy ===== *)
theory Prelude
  imports Main "HOL-Library.Word" "HOL-Library.Monad_Syntax" "HOL-Library.Char_ord"
    "HOL-Library.List_Lexorder"
begin

text \<open>
  Shared vocabulary of the development: bytes and byte strings, the little-endian
  encodings the protocol uses, C strings, results of calls that may fail, the
  collections of facts the component theories extend, and the generic lemmas on
  lists and words they share.
\<close>

unbundle bit_operations_syntax

named_theorems link_simps \<open>effect of the link layer's operations on its fields\<close>
named_theorems ncp_simps \<open>effect of the NCP's operations on its fields\<close>

section \<open>Bytes\<close>

type_synonym byte = "8 word"
type_synonym bytes = "byte list"

text \<open>Reading a byte at an offset; \<open>None\<close> is a read outside the contents.\<close>

definition getByte :: "bytes \<Rightarrow> nat \<Rightarrow> byte option" where
  "getByte b i = (if i < length b then Some (b ! i) else None)"

text \<open>
  \<open>a & 0xff, (a >> 8) & 0xff, \<dots>\<close> of a C integer: the argument is an \<open>int\<close>, so that
  negative values are encoded in two's complement as the C shifts and masks do.
\<close>

definition le16 :: "int \<Rightarrow> bytes" where
  "le16 a = [word_of_int a, word_of_int (drop_bit 8 a)]"

definition le32 :: "int \<Rightarrow> bytes" where
  "le32 a = [word_of_int a, word_of_int (drop_bit 8 a),
             word_of_int (drop_bit 16 a), word_of_int (drop_bit 24 a)]"

definition join16 :: "byte \<Rightarrow> byte \<Rightarrow> 16 word" where
  "join16 b0 b1 = ucast b0 + push_bit 8 (ucast b1)"

definition join32 :: "byte \<Rightarrow> byte \<Rightarrow> byte \<Rightarrow> byte \<Rightarrow> 32 word" where
  "join32 b0 b1 b2 b3 =
     ucast b0 + push_bit 8 (ucast b1) + push_bit 16 (ucast b2) + push_bit 24 (ucast b3)"

definition getWord :: "bytes \<Rightarrow> nat \<Rightarrow> 16 word option" where
  "getWord b i = do { b0 \<leftarrow> getByte b i; b1 \<leftarrow> getByte b (i + 1); Some (join16 b0 b1) }"

definition getDWord :: "bytes \<Rightarrow> nat \<Rightarrow> 32 word option" where
  "getDWord b i = do {
     b0 \<leftarrow> getByte b i; b1 \<leftarrow> getByte b (i + 1);
     b2 \<leftarrow> getByte b (i + 2); b3 \<leftarrow> getByte b (i + 3);
     Some (join32 b0 b1 b2 b3) }"

lemma getByte_simps [simp]:
  "getByte (x # xs) 0 = Some x"
  "getByte (x # xs) (Suc i) = getByte xs i"
  "getByte [] i = None"
  by (simp_all add: getByte_def)

lemma getByte_numeral [simp]:
  "getByte (x # xs) (numeral k) = getByte xs (pred_numeral k)"
  "getByte (x # xs) 1 = getByte xs 0"
  by (simp_all add: getByte_def numeral_eq_Suc)

lemma getByte_append1 [simp]: "i < length xs \<Longrightarrow> getByte (xs @ ys) i = getByte xs i"
  by (simp add: getByte_def nth_append)

lemma getByte_append2 [simp]:
  "length xs \<le> i \<Longrightarrow> getByte (xs @ ys) i = getByte ys (i - length xs)"
  by (auto simp add: getByte_def nth_append)

lemma getByte_eq_None [simp]: "getByte b i = None \<longleftrightarrow> length b \<le> i"
  by (simp add: getByte_def not_less)

lemma getByte_SomeD: "getByte b i = Some x \<Longrightarrow> i < length b \<and> x = b ! i"
  by (simp add: getByte_def split: if_splits)

lemma length_le16 [simp]: "length (le16 a) = 2"
  and length_le32 [simp]: "length (le32 a) = 4"
  by (simp_all add: le16_def le32_def)

lemma le16_neq_Nil [simp]: "le16 a \<noteq> []" and le32_neq_Nil [simp]: "le32 a \<noteq> []"
  by (simp_all add: le16_def le32_def)

lemma bit_byte_big [simp]: "8 \<le> n \<Longrightarrow> \<not> bit (b :: byte) n"
  and bit_word16_big [simp]: "16 \<le> n \<Longrightarrow> \<not> bit (w :: 16 word) n"
  and bit_word32_big [simp]: "32 \<le> n \<Longrightarrow> \<not> bit (d :: 32 word) n"
  by (auto dest: bit_imp_le_length)

lemma bit_join16:
  "bit (join16 b0 b1) n \<longleftrightarrow> n < 16 \<and> (if n < 8 then bit b0 n else bit b1 (n - 8))"
proof -
  have "join16 b0 b1 = ucast b0 OR push_bit 8 (ucast b1)"
    unfolding join16_def
    by (rule disjunctive_add_eq_or, rule bit_eqI)
       (auto simp: bit_simps dest: bit_imp_le_length)
  then show ?thesis
    by (auto simp: bit_simps dest: bit_imp_le_length)
qed

lemma bit_join32:
  "bit (join32 b0 b1 b2 b3) n \<longleftrightarrow> n < 32 \<and>
     (if n < 8 then bit b0 n else if n < 16 then bit b1 (n - 8)
      else if n < 24 then bit b2 (n - 16) else bit b3 (n - 24))"
proof -
  let ?a = "ucast b0 :: 32 word" and ?b = "push_bit 8 (ucast b1) :: 32 word"
    and ?c = "push_bit 16 (ucast b2) :: 32 word" and ?d = "push_bit 24 (ucast b3) :: 32 word"
  have 1: "?a + ?b = ?a OR ?b"
    by (rule disjunctive_add_eq_or, rule bit_eqI)
       (auto simp: bit_simps dest: bit_imp_le_length)
  have 2: "(?a OR ?b) + ?c = (?a OR ?b) OR ?c"
    by (rule disjunctive_add_eq_or, rule bit_eqI)
       (auto simp: bit_simps dest: bit_imp_le_length)
  have 3: "((?a OR ?b) OR ?c) + ?d = ((?a OR ?b) OR ?c) OR ?d"
    by (rule disjunctive_add_eq_or, rule bit_eqI)
       (auto simp: bit_simps dest: bit_imp_le_length)
  show ?thesis
    unfolding join32_def 1 2 3
    by (auto simp: bit_simps dest: bit_imp_le_length)
qed

lemma join16_split [simp]:
  "join16 (word_of_int a) (word_of_int (drop_bit 8 a)) = word_of_int a"
  by (rule bit_eqI) (auto simp: bit_join16 bit_simps)

lemma join32_split [simp]:
  "join32 (word_of_int a) (word_of_int (drop_bit 8 a)) (word_of_int (drop_bit 16 a))
     (word_of_int (drop_bit 24 a)) = word_of_int a"
  by (rule bit_eqI) (auto simp: bit_join32 bit_simps)

lemma getWord_le16 [simp]: "getWord (le16 a @ xs) 0 = Some (word_of_int a)"
  by (simp add: getWord_def le16_def)

lemma getDWord_le32 [simp]: "getDWord (le32 a @ xs) 0 = Some (word_of_int a)"
  by (simp add: getDWord_def le32_def)

lemma getWord_append2 [simp]:
  "length xs \<le> i \<Longrightarrow> getWord (xs @ ys) i = getWord ys (i - length xs)"
  by (simp add: getWord_def Suc_diff_le)

lemma getDWord_append2 [simp]:
  "length xs \<le> i \<Longrightarrow> getDWord (xs @ ys) i = getDWord ys (i - length xs)"
  by (simp add: getDWord_def Suc_diff_le)

lemma getWord_append1 [simp]: "i + 2 \<le> length xs \<Longrightarrow> getWord (xs @ ys) i = getWord xs i"
  by (simp add: getWord_def)

lemma getDWord_append1 [simp]: "i + 4 \<le> length xs \<Longrightarrow> getDWord (xs @ ys) i = getDWord xs i"
  by (simp add: getDWord_def)

section \<open>C strings\<close>

text \<open>
  A C++ \<open>std::string\<close> or \<open>char *\<close> argument is a list of bytes. \<open>strlen\<close> of a region of
  memory stops at the first zero byte; with no zero byte in the region the C code
  reads past it, which is \<open>None\<close>.
\<close>

definition c_str :: "bytes \<Rightarrow> bytes option" where
  "c_str b = (if 0 \<in> set b then Some (takeWhile (\<lambda>c. c \<noteq> 0) b) else None)"

definition ascii :: "string \<Rightarrow> bytes" where
  "ascii s = map (\<lambda>c. word_of_int (int (of_char c))) s"

text \<open>A C string with its terminator, as \<open>BufferStore::addStringT\<close> appends it.\<close>

definition stringT :: "string \<Rightarrow> bytes" where
  "stringT x = ascii x @ [0]"

definition chars :: "bytes \<Rightarrow> string" where
  "chars b = map (\<lambda>w. char_of (unat w)) b"

lemma chars_ascii [simp]: "chars (ascii s) = s"
  by (auto simp: chars_def ascii_def unsigned_of_nat char_of_take_bit_eq intro!: map_idI)

lemma ascii_chars [simp]: "ascii (chars b) = b"
proof -
  have "unat w mod 256 = unat w" for w :: byte
    using unsigned_less [of w, where ?'a = nat] by simp
  then show ?thesis by (auto simp: chars_def ascii_def of_char_of intro!: map_idI)
qed

lemma length_ascii [simp]: "length (ascii s) = length s"
  by (simp add: ascii_def)

lemma takeWhile_no_zero [simp]:
  "0 \<notin> set s \<Longrightarrow> takeWhile (\<lambda>c. c \<noteq> 0) (s @ 0 # r) = (s :: bytes)"
  by (induction s) auto

lemma c_str_append [simp]: "0 \<notin> set s \<Longrightarrow> c_str (s @ 0 # r) = Some s"
  by (simp add: c_str_def)

lemma c_str_no_zero: "c_str b = Some s \<Longrightarrow> 0 \<notin> set s"
  by (auto simp: c_str_def split: if_splits dest: set_takeWhileD)

section \<open>Characters of the C locale\<close>

definition isalpha :: "char \<Rightarrow> bool" where
  "isalpha c \<longleftrightarrow> (CHR ''A'' \<le> c \<and> c \<le> CHR ''Z'') \<or> (CHR ''a'' \<le> c \<and> c \<le> CHR ''z'')"

definition toupper :: "char \<Rightarrow> char" where
  "toupper c = (if CHR ''a'' \<le> c \<and> c \<le> CHR ''z'' then char_of (of_char c - 32 :: nat) else c)"

section \<open>Lists\<close>

lemma the_map_Some [simp]: "map the (map Some xs) = xs"
  by (induction xs) auto

lemma list_update_append_Nil [simp]: "(xs @ y # ys)[length xs := z] = xs @ z # ys"
  by (induction xs) auto

end
