(* ===== verification/BufferStore.thy ===== *)
theory BufferStore
  imports Prelude
begin

text \<open>
  The byte buffer of \<open>lib/bufferstore.cc\<close>. The state is the class's four private
  members: the allocated block \<open>buff\<close> with \<open>lenAllocd\<close> bytes, the end \<open>len\<close> and the
  start \<open>start\<close> of the contents in it. A cell of the block is \<open>None\<close> until it has been
  written, since \<open>malloc\<close> and \<open>realloc\<close> leave it uninitialised; an unallocated buffer is
  the empty block. Offsets and lengths are natural numbers (no caller passes a
  negative one); only \<open>addBuff\<close>'s optional limit is signed.
  The locale \<open>byte_buffer\<close> states what the rest of the program relies on, and the class
  is proved to provide it: its contents are the byte list the other theories work with.
\<close>

section \<open>The class\<close>

record bufferstore =
  bs_len :: nat
  bs_start :: nat
  bs_mem :: "byte option list"

abbreviation bs_lenAllocd :: "bufferstore \<Rightarrow> nat" where
  "bs_lenAllocd b \<equiv> length (bs_mem b)"

definition MIN_LEN :: nat where "MIN_LEN = 300"

text \<open>\<open>memcpy\<close> into a block.\<close>

definition mem_write :: "nat \<Rightarrow> byte option list \<Rightarrow> byte option list \<Rightarrow> byte option list" where
  "mem_write off xs m = take off m @ xs @ drop (off + length xs) m"

definition mem_read :: "nat \<Rightarrow> nat \<Rightarrow> byte option list \<Rightarrow> byte option list" where
  "mem_read off n m = take n (drop off m)"

definition bs_new :: bufferstore where
  "bs_new = \<lparr>bs_len = 0, bs_start = 0, bs_mem = []\<rparr>"

definition bs_getLen :: "bufferstore \<Rightarrow> nat" where
  "bs_getLen b = (if bs_start b > bs_len b then 0 else bs_len b - bs_start b)"

definition bs_empty :: "bufferstore \<Rightarrow> bool" where
  "bs_empty b \<longleftrightarrow> int (bs_len b) - int (bs_start b) = 0"

text \<open>The \<open>do \<dots> while\<close> loop of \<open>checkAllocd\<close>, for \<open>newLen \<ge> lenAllocd\<close>.\<close>

function grow :: "nat \<Rightarrow> nat \<Rightarrow> nat" where
  "grow newLen alloc =
     (let alloc' = (if alloc < MIN_LEN then MIN_LEN else alloc * 2)
      in if newLen \<ge> alloc' then grow newLen alloc' else alloc')"
  by pat_completeness auto
termination
  by (relation "measure (\<lambda>(n, a). Suc n - a)") (auto simp: MIN_LEN_def split: if_splits)

declare grow.simps [simp del]

definition bs_checkAllocd :: "bufferstore \<Rightarrow> nat \<Rightarrow> bufferstore" where
  "bs_checkAllocd b newLen =
     (if newLen \<ge> bs_lenAllocd b
      then b\<lparr>bs_mem := bs_mem b @ replicate (grow newLen (bs_lenAllocd b) - bs_lenAllocd b) None\<rparr>
      else b)"

definition bs_copy :: "bufferstore \<Rightarrow> bufferstore" where
  "bs_copy a =
     (let n = bs_getLen a; alloc = (if n > MIN_LEN then n else MIN_LEN)
      in \<lparr>bs_len = n, bs_start = 0,
          bs_mem = mem_write 0 (mem_read (bs_start a) n (bs_mem a)) (replicate alloc None)\<rparr>)"

definition bs_of :: "bytes \<Rightarrow> bufferstore" where
  "bs_of xs =
     (let n = length xs; alloc = (if n > MIN_LEN then n else MIN_LEN)
      in \<lparr>bs_len = n, bs_start = 0, bs_mem = mem_write 0 (map Some xs) (replicate alloc None)\<rparr>)"

text \<open>\<open>operator =\<close>, for a different object (self-assignment does nothing).\<close>

definition bs_assign :: "bufferstore \<Rightarrow> bufferstore \<Rightarrow> bufferstore" where
  "bs_assign b a =
     (let b' = bs_checkAllocd b (bs_getLen a); n = bs_getLen a
      in \<lparr>bs_len = n, bs_start = 0,
          bs_mem = mem_write 0 (mem_read (bs_start a) n (bs_mem a)) (bs_mem b')\<rparr>)"

definition bs_init :: "bufferstore \<Rightarrow> bufferstore" where
  "bs_init b = b\<lparr>bs_start := 0, bs_len := 0\<rparr>"

definition bs_init_with :: "bufferstore \<Rightarrow> bytes \<Rightarrow> bufferstore" where
  "bs_init_with b xs =
     (let b' = bs_checkAllocd b (length xs)
      in \<lparr>bs_len = length xs, bs_start = 0, bs_mem = mem_write 0 (map Some xs) (bs_mem b')\<rparr>)"

definition bs_getByte :: "bufferstore \<Rightarrow> nat \<Rightarrow> byte option" where
  "bs_getByte b pos =
     (if pos + bs_start b < bs_lenAllocd b then bs_mem b ! (pos + bs_start b) else None)"

definition bs_getWord :: "bufferstore \<Rightarrow> nat \<Rightarrow> 16 word option" where
  "bs_getWord b pos = do {
     b0 \<leftarrow> bs_getByte b pos; b1 \<leftarrow> bs_getByte b (pos + 1); Some (join16 b0 b1) }"

definition bs_getDWord :: "bufferstore \<Rightarrow> nat \<Rightarrow> 32 word option" where
  "bs_getDWord b pos = do {
     b0 \<leftarrow> bs_getByte b pos; b1 \<leftarrow> bs_getByte b (pos + 1);
     b2 \<leftarrow> bs_getByte b (pos + 2); b3 \<leftarrow> bs_getByte b (pos + 3);
     Some (join32 b0 b1 b2 b3) }"

definition bs_getSDWord :: "bufferstore \<Rightarrow> nat \<Rightarrow> int option" where
  "bs_getSDWord b pos = map_option sint (bs_getDWord b pos)"

text \<open>\<open>getString\<close> returns a pointer into the block: the memory from there on.\<close>

definition bs_getString :: "bufferstore \<Rightarrow> nat \<Rightarrow> byte option list" where
  "bs_getString b pos = drop (pos + bs_start b) (bs_mem b)"

definition bs_discardFirstBytes :: "bufferstore \<Rightarrow> nat \<Rightarrow> bufferstore" where
  "bs_discardFirstBytes b n =
     (let s = bs_start b + n in b\<lparr>bs_start := (if s > bs_len b then bs_len b else s)\<rparr>)"

definition bs_addByte :: "bufferstore \<Rightarrow> byte \<Rightarrow> bufferstore" where
  "bs_addByte b c =
     (let b' = bs_checkAllocd b (bs_len b + 1)
      in b'\<lparr>bs_mem := mem_write (bs_len b) [Some c] (bs_mem b'), bs_len := bs_len b + 1\<rparr>)"

definition bs_addBytes :: "bufferstore \<Rightarrow> bytes \<Rightarrow> bufferstore" where
  "bs_addBytes b s =
     (let b' = bs_checkAllocd b (bs_len b + length s)
      in b'\<lparr>bs_mem := mem_write (bs_len b) (map Some s) (bs_mem b'),
            bs_len := bs_len b + length s\<rparr>)"

text \<open>\<open>s\<close> is the C string's bytes up to, and without, its terminating zero.\<close>

definition bs_addString :: "bufferstore \<Rightarrow> bytes \<Rightarrow> bufferstore" where
  "bs_addString b s = bs_addBytes b s"

definition bs_addStringT :: "bufferstore \<Rightarrow> bytes \<Rightarrow> bufferstore" where
  "bs_addStringT b s = bs_addByte (bs_addString b s) 0"

definition bs_addBuff :: "bufferstore \<Rightarrow> bufferstore \<Rightarrow> int \<Rightarrow> bufferstore" where
  "bs_addBuff b s maxLen =
     (let l = bs_getLen s;
          b' = bs_checkAllocd b (bs_len b + l);
          l' = (if maxLen \<ge> 0 \<and> maxLen < int l then nat maxLen else l)
      in if l' > 0
         then b'\<lparr>bs_mem := mem_write (bs_len b) (mem_read (bs_start s) l' (bs_mem s)) (bs_mem b'),
                 bs_len := bs_len b + l'\<rparr>
         else b')"

definition bs_addWord :: "bufferstore \<Rightarrow> int \<Rightarrow> bufferstore" where
  "bs_addWord b a =
     (let b' = bs_checkAllocd b (bs_len b + 2)
      in b'\<lparr>bs_mem := mem_write (bs_len b) (map Some (le16 a)) (bs_mem b'),
            bs_len := bs_len b + 2\<rparr>)"

definition bs_addDWord :: "bufferstore \<Rightarrow> int \<Rightarrow> bufferstore" where
  "bs_addDWord b a =
     (let b' = bs_checkAllocd b (bs_len b + 4)
      in b'\<lparr>bs_mem := mem_write (bs_len b) (map Some (le32 a)) (bs_mem b'),
            bs_len := bs_len b + 4\<rparr>)"

definition bs_truncate :: "bufferstore \<Rightarrow> nat \<Rightarrow> bufferstore" where
  "bs_truncate b newLen = (if newLen < bs_len b then b\<lparr>bs_len := newLen\<rparr> else b)"

definition bs_prependByte :: "bufferstore \<Rightarrow> byte \<Rightarrow> bufferstore" where
  "bs_prependByte b c =
     (let b' = bs_checkAllocd b (bs_len b + 1);
          m = mem_write 1 (mem_read 0 (bs_len b) (bs_mem b')) (bs_mem b')
      in b'\<lparr>bs_mem := mem_write 0 [Some c] m, bs_len := bs_len b + 1\<rparr>)"

definition bs_prependWord :: "bufferstore \<Rightarrow> int \<Rightarrow> bufferstore" where
  "bs_prependWord b a =
     (let b' = bs_checkAllocd b (bs_len b + 2);
          m = mem_write 2 (mem_read 0 (bs_len b) (bs_mem b')) (bs_mem b')
      in b'\<lparr>bs_mem := mem_write 0 (map Some (le16 a)) m, bs_len := bs_len b + 2\<rparr>)"

section \<open>Contents and invariant\<close>

definition bs_inv :: "bufferstore \<Rightarrow> bool" where
  "bs_inv b \<longleftrightarrow> bs_start b \<le> bs_len b \<and> bs_len b \<le> bs_lenAllocd b \<and>
     (\<forall>i < bs_len b. bs_mem b ! i \<noteq> None)"

definition bs_contents :: "bufferstore \<Rightarrow> bytes" where
  "bs_contents b = map the (drop (bs_start b) (take (bs_len b) (bs_mem b)))"

text \<open>
  The invariant says that the block starts with written cells; the lemmas below work
  with those cells as a byte list \<open>w\<close> and the rest of the block as \<open>r\<close>.
\<close>

lemma bs_inv_iff:
  "bs_inv b \<longleftrightarrow> (\<exists>w r. bs_mem b = map Some w @ r \<and> length w = bs_len b \<and> bs_start b \<le> bs_len b)"
proof
  assume inv: "bs_inv b"
  let ?w = "map the (take (bs_len b) (bs_mem b))"
  have len: "length ?w = bs_len b"
    using inv by (simp add: bs_inv_def min_absorb2)
  have "map Some ?w = take (bs_len b) (bs_mem b)"
    using inv by (intro nth_equalityI) (auto simp: bs_inv_def)
  then have "bs_mem b = map Some ?w @ drop (bs_len b) (bs_mem b)"
    by simp
  with len inv show "\<exists>w r. bs_mem b = map Some w @ r \<and> length w = bs_len b \<and> bs_start b \<le> bs_len b"
    by (auto simp only: bs_inv_def)
next
  assume "\<exists>w r. bs_mem b = map Some w @ r \<and> length w = bs_len b \<and> bs_start b \<le> bs_len b"
  then show "bs_inv b"
    by (auto simp: bs_inv_def nth_append)
qed

lemma bs_invE:
  assumes "bs_inv b"
  obtains w r where "bs_mem b = map Some w @ r" "length w = bs_len b" "bs_start b \<le> bs_len b"
  using assms unfolding bs_inv_iff by blast

lemma bs_contents_eq:
  "bs_mem b = map Some w @ r \<Longrightarrow> length w = bs_len b \<Longrightarrow> bs_contents b = drop (bs_start b) w"
  by (simp add: bs_contents_def drop_map)

lemma bs_invI:
  "bs_mem b = map Some w @ r \<Longrightarrow> length w = bs_len b \<Longrightarrow> bs_start b \<le> bs_len b \<Longrightarrow> bs_inv b"
  unfolding bs_inv_iff by blast

text \<open>The growth loop ends, with room for the requested length and one byte more.\<close>

lemma grow_gt: "newLen < grow newLen alloc"
  by (induction newLen alloc rule: grow.induct) (subst grow.simps, simp add: Let_def)

lemma grow_step: "grow newLen alloc =
    (if newLen \<ge> (if alloc < MIN_LEN then MIN_LEN else alloc * 2)
     then grow newLen (if alloc < MIN_LEN then MIN_LEN else alloc * 2)
     else if alloc < MIN_LEN then MIN_LEN else alloc * 2)"
  by (subst grow.simps) (simp add: Let_def)

lemma checkAllocd_frame [simp]:
  "bs_len (bs_checkAllocd b n) = bs_len b" "bs_start (bs_checkAllocd b n) = bs_start b"
  by (simp_all add: bs_checkAllocd_def)

lemma checkAllocd_mem: "\<exists>r. bs_mem (bs_checkAllocd b n) = bs_mem b @ r"
  by (simp add: bs_checkAllocd_def)

lemma checkAllocd_room: "n < bs_lenAllocd (bs_checkAllocd b n)"
  using grow_gt [of n "bs_lenAllocd b"] by (auto simp: bs_checkAllocd_def)

lemma checkAllocd_block:
  assumes "bs_mem b = map Some w @ r"
  obtains r' where "bs_mem (bs_checkAllocd b n) = map Some w @ r'" "n < length w + length r'"
proof -
  obtain q where q: "bs_mem (bs_checkAllocd b n) = bs_mem b @ q"
    using checkAllocd_mem by blast
  then have "n < length w + length (r @ q)"
    using checkAllocd_room [of n b] assms by simp
  moreover have "bs_mem (bs_checkAllocd b n) = map Some w @ (r @ q)"
    using q assms by simp
  ultimately show thesis by (rule that [rotated])
qed

lemma mem_write_append:
  "mem_write (length w) (map Some xs) (map Some w @ r) = map Some (w @ xs) @ drop (length xs) r"
  by (simp add: mem_write_def)

lemma mem_write_0: "mem_write 0 (map Some xs) m = map Some xs @ drop (length xs) m"
  by (simp add: mem_write_def)

lemma mem_read_written:
  "bs_mem b = map Some w @ r \<Longrightarrow> length w = bs_len b \<Longrightarrow> n \<le> bs_getLen b \<Longrightarrow>
   mem_read (bs_start b) n (bs_mem b) = map Some (take n (drop (bs_start b) w))"
  by (auto simp: mem_read_def bs_getLen_def drop_map take_map split: if_splits)

section \<open>Every operation keeps the invariant and has its effect on the contents\<close>

lemma bs_append:
  fixes b xs n
  defines "b' \<equiv> bs_checkAllocd b n"
  defines "c \<equiv> b'\<lparr>bs_mem := mem_write (bs_len b) (map Some xs) (bs_mem b'),
                  bs_len := bs_len b + length xs\<rparr>"
  assumes inv: "bs_inv b"
  shows "bs_inv c" "bs_contents c = bs_contents b @ xs"
proof -
  obtain w r where w: "bs_mem b = map Some w @ r" "length w = bs_len b" "bs_start b \<le> bs_len b"
    using inv by (rule bs_invE)
  obtain r' where r': "bs_mem b' = map Some w @ r'"
    unfolding b'_def using checkAllocd_block [OF w(1), of n] by metis
  have m: "bs_mem c = map Some (w @ xs) @ drop (length xs) r'"
    by (simp add: c_def r' mem_write_append w(2) [symmetric] del: map_append)
  have len: "length (w @ xs) = bs_len c" "bs_start c = bs_start b"
    using w by (simp_all add: c_def b'_def)
  show "bs_inv c"
    using m len(1) by (rule bs_invI) (use w len in simp)
  show "bs_contents c = bs_contents b @ xs"
    using bs_contents_eq [OF m len(1)] bs_contents_eq [OF w(1,2)] w(2,3) len(2) by simp
qed

lemma bs_prepend:
  fixes b xs n
  defines "b' \<equiv> bs_checkAllocd b n"
  defines "c \<equiv> b'\<lparr>bs_mem := mem_write 0 (map Some xs)
                    (mem_write (length xs) (mem_read 0 (bs_len b) (bs_mem b')) (bs_mem b')),
                  bs_len := bs_len b + length xs\<rparr>"
  assumes mem: "bs_mem b = map Some w @ r" "length w = bs_len b" and n: "bs_len b + length xs \<le> n"
  shows "\<exists>r'. bs_mem c = map Some (xs @ w) @ r' \<and> length (xs @ w) = bs_len c \<and>
           bs_start c = bs_start b"
proof -
  obtain r' where r': "bs_mem b' = map Some w @ r'" "n < length w + length r'"
    unfolding b'_def using checkAllocd_block [OF mem(1), of n] by metis
  have "length xs \<le> length (map Some w @ r')"
    using r'(2) n mem(2) by simp
  then have "bs_mem c = map Some (xs @ w) @ drop (length xs + length w) (map Some w @ r')"
    by (simp add: c_def r'(1) mem_write_def mem_read_def mem(2) [symmetric])
  then show ?thesis
    using mem(2) by (simp add: c_def b'_def add.commute)
qed

lemma bs_new_ok [simp]: "bs_inv bs_new" "bs_contents bs_new = []"
  by (simp_all add: bs_inv_def bs_contents_def bs_new_def)

lemma bs_getLen_contents: "bs_inv b \<Longrightarrow> bs_getLen b = length (bs_contents b)"
  by (auto simp: bs_getLen_def bs_contents_def bs_inv_def)

lemma bs_empty_contents: "bs_inv b \<Longrightarrow> bs_empty b \<longleftrightarrow> bs_contents b = []"
  by (auto simp: bs_empty_def bs_contents_def bs_inv_def)

lemma bs_getByte_contents:
  assumes "bs_inv b" "i < length (bs_contents b)"
  shows "bs_getByte b i = Some (bs_contents b ! i)"
proof -
  obtain w r where w: "bs_mem b = map Some w @ r" "length w = bs_len b" "bs_start b \<le> bs_len b"
    using assms(1) by (rule bs_invE)
  have c: "bs_contents b = drop (bs_start b) w"
    using w(1,2) by (rule bs_contents_eq)
  then have "i + bs_start b < length w"
    using assms(2) by simp
  then show ?thesis
    using w c by (simp add: bs_getByte_def nth_append add.commute)
qed

lemma bs_discard_ok:
  assumes "bs_inv b"
  shows "bs_inv (bs_discardFirstBytes b n)"
    "bs_contents (bs_discardFirstBytes b n) = drop n (bs_contents b)"
  using assms
  by (auto simp: bs_inv_def bs_contents_def bs_discardFirstBytes_def Let_def drop_map add.commute)

lemma bs_addByte_ok:
  assumes "bs_inv b"
  shows "bs_inv (bs_addByte b c)" "bs_contents (bs_addByte b c) = bs_contents b @ [c]"
  using bs_append [OF assms, where n = "bs_len b + 1" and xs = "[c]"] by (simp_all add: bs_addByte_def Let_def)

lemma bs_addBytes_ok:
  assumes "bs_inv b"
  shows "bs_inv (bs_addBytes b s)" "bs_contents (bs_addBytes b s) = bs_contents b @ s"
  using bs_append [OF assms, where n = "bs_len b + length s" and xs = s] by (simp_all add: bs_addBytes_def Let_def)

lemma bs_addStringT_ok:
  assumes "bs_inv b"
  shows "bs_inv (bs_addStringT b s)" "bs_contents (bs_addStringT b s) = bs_contents b @ s @ [0]"
  using assms by (simp_all add: bs_addStringT_def bs_addString_def bs_addByte_ok bs_addBytes_ok)

lemma bs_addWord_ok:
  assumes "bs_inv b"
  shows "bs_inv (bs_addWord b a)" "bs_contents (bs_addWord b a) = bs_contents b @ le16 a"
  using bs_append [OF assms, where n = "bs_len b + 2" and xs = "le16 a"] by (simp_all add: bs_addWord_def Let_def)

lemma bs_addDWord_ok:
  assumes "bs_inv b"
  shows "bs_inv (bs_addDWord b a)" "bs_contents (bs_addDWord b a) = bs_contents b @ le32 a"
  using bs_append [OF assms, where n = "bs_len b + 4" and xs = "le32 a"] by (simp_all add: bs_addDWord_def Let_def)

lemma bs_checkAllocd_ok:
  assumes "bs_inv b"
  shows "bs_inv (bs_checkAllocd b n)" "bs_contents (bs_checkAllocd b n) = bs_contents b"
proof -
  obtain w r where w: "bs_mem b = map Some w @ r" "length w = bs_len b" "bs_start b \<le> bs_len b"
    using assms by (rule bs_invE)
  obtain r' where r': "bs_mem (bs_checkAllocd b n) = map Some w @ r'"
    using checkAllocd_block [OF w(1), of n] by metis
  show "bs_inv (bs_checkAllocd b n)"
    using r' by (rule bs_invI) (use w in simp_all)
  show "bs_contents (bs_checkAllocd b n) = bs_contents b"
    using bs_contents_eq [OF r'] bs_contents_eq [OF w(1,2)] w(2) by simp
qed

text \<open>The number of bytes \<open>addBuff\<close> takes: a negative or too large limit means all.\<close>

definition buff_limit :: "int \<Rightarrow> nat \<Rightarrow> nat" where
  "buff_limit maxLen l = (if maxLen \<ge> 0 \<and> maxLen < int l then nat maxLen else l)"

lemma bs_addBuff_ok:
  assumes "bs_inv b" "bs_inv s"
  shows "bs_inv (bs_addBuff b s m)"
    "bs_contents (bs_addBuff b s m) =
       bs_contents b @ take (buff_limit m (length (bs_contents s))) (bs_contents s)"
proof -
  obtain w r where w: "bs_mem s = map Some w @ r" "length w = bs_len s" "bs_start s \<le> bs_len s"
    using assms(2) by (rule bs_invE)
  let ?l = "buff_limit m (bs_getLen s)"
  let ?xs = "take ?l (bs_contents s)"
  have le: "?l \<le> bs_getLen s"
    by (auto simp: buff_limit_def)
  have cont: "bs_contents s = drop (bs_start s) w"
    using w(1,2) by (rule bs_contents_eq)
  have read: "mem_read (bs_start s) ?l (bs_mem s) = map Some ?xs"
    using mem_read_written [OF w(1,2) le] cont by simp
  have len: "length ?xs = ?l"
    using le bs_getLen_contents [OF assms(2)] by simp
  have eq: "bs_addBuff b s m =
      (let b' = bs_checkAllocd b (bs_len b + bs_getLen s)
       in if ?l > 0 then b'\<lparr>bs_mem := mem_write (bs_len b) (map Some ?xs) (bs_mem b'),
                            bs_len := bs_len b + length ?xs\<rparr> else b')"
    by (simp only: bs_addBuff_def Let_def buff_limit_def [symmetric] len read)
  show "bs_inv (bs_addBuff b s m)"
    unfolding eq Let_def
    by (simp add: bs_append(1) [OF assms(1)] bs_checkAllocd_ok(1) [OF assms(1)] del: length_take)
  show "bs_contents (bs_addBuff b s m) =
       bs_contents b @ take (buff_limit m (length (bs_contents s))) (bs_contents s)"
    unfolding eq Let_def bs_getLen_contents [OF assms(2), symmetric]
    by (simp add: bs_append(2) [OF assms(1)] bs_checkAllocd_ok(2) [OF assms(1)] del: length_take)
qed

lemma bs_init_ok [simp]: "bs_inv (bs_init b)" "bs_contents (bs_init b) = []"
  by (simp_all add: bs_inv_def bs_contents_def bs_init_def)

lemma bs_loaded:
  assumes "take (length xs) (bs_mem b) = map Some xs" "bs_len b = length xs" "bs_start b = 0"
  shows "bs_inv b" "bs_contents b = xs"
proof -
  have mem: "bs_mem b = map Some xs @ drop (length xs) (bs_mem b)"
    by (metis assms(1) append_take_drop_id)
  show "bs_inv b"
    using mem by (rule bs_invI) (use assms in simp_all)
  show "bs_contents b = xs"
    using bs_contents_eq [OF mem] assms(2,3) by simp
qed

lemma bs_of_ok: "bs_inv (bs_of xs)" "bs_contents (bs_of xs) = xs"
  by (rule bs_loaded; simp add: bs_of_def Let_def mem_write_0)+

lemma bs_init_with_ok: "bs_inv (bs_init_with b xs)" "bs_contents (bs_init_with b xs) = xs"
  by (rule bs_loaded; simp add: bs_init_with_def Let_def mem_write_0)+

lemma bs_copy_ok:
  assumes "bs_inv a"
  shows "bs_inv (bs_copy a)" "bs_contents (bs_copy a) = bs_contents a"
    "bs_inv (bs_assign b a)" "bs_contents (bs_assign b a) = bs_contents a"
proof -
  obtain w r where w: "bs_mem a = map Some w @ r" "length w = bs_len a" "bs_start a \<le> bs_len a"
    using assms by (rule bs_invE)
  have read: "mem_read (bs_start a) (bs_getLen a) (bs_mem a) = map Some (bs_contents a)"
    using mem_read_written [OF w(1,2) order.refl] bs_contents_eq [OF w(1,2)]
      bs_getLen_contents [OF assms] by simp
  note defs = read [unfolded bs_getLen_contents [OF assms]] mem_write_0 Let_def
    bs_getLen_contents [OF assms]
  show "bs_inv (bs_copy a)" "bs_contents (bs_copy a) = bs_contents a"
    by (rule bs_loaded; simp add: bs_copy_def defs)+
  show "bs_inv (bs_assign b a)" "bs_contents (bs_assign b a) = bs_contents a"
    by (rule bs_loaded; simp add: bs_assign_def defs)+
qed

text \<open>
  \<open>prependByte\<close> and \<open>prependWord\<close> insert at the front of the block, not at \<open>start\<close>:
  the bytes are prepended to what was ever written, of which \<open>start\<close> bytes stay
  discarded.
\<close>

lemma bs_prependByte_block:
  assumes "bs_mem b = map Some w @ r" "length w = bs_len b"
  shows "\<exists>r'. bs_mem (bs_prependByte b c) = map Some (c # w) @ r' \<and>
           length (c # w) = bs_len (bs_prependByte b c) \<and>
           bs_start (bs_prependByte b c) = bs_start b"
  using bs_prepend [OF assms, where n = "bs_len b + 1" and xs = "[c]"]
  by (simp add: bs_prependByte_def Let_def)

lemma bs_prependWord_block:
  assumes "bs_mem b = map Some w @ r" "length w = bs_len b"
  shows "\<exists>r'. bs_mem (bs_prependWord b a) = map Some (le16 a @ w) @ r' \<and>
           length (le16 a @ w) = bs_len (bs_prependWord b a) \<and>
           bs_start (bs_prependWord b a) = bs_start b"
  using bs_prepend [OF assms, where n = "bs_len b + 2" and xs = "le16 a"]
  by (simp add: bs_prependWord_def Let_def)

lemma bs_prependByte_ok:
  assumes "bs_inv b" "bs_start b = 0"
  shows "bs_inv (bs_prependByte b c)" "bs_contents (bs_prependByte b c) = c # bs_contents b"
proof -
  obtain w r where w: "bs_mem b = map Some w @ r" "length w = bs_len b" "bs_start b \<le> bs_len b"
    using assms(1) by (rule bs_invE)
  obtain r' where c: "bs_mem (bs_prependByte b c) = map Some (c # w) @ r'"
    "length (c # w) = bs_len (bs_prependByte b c)" "bs_start (bs_prependByte b c) = bs_start b"
    using bs_prependByte_block [OF w(1,2)] by blast
  show "bs_inv (bs_prependByte b c)"
    using c(1,2) by (rule bs_invI) (use c(3) assms(2) in simp)
  show "bs_contents (bs_prependByte b c) = c # bs_contents b"
    using bs_contents_eq [OF c(1,2)] bs_contents_eq [OF w(1,2)] c(3) assms(2) by simp
qed

lemma bs_prependWord_ok:
  assumes "bs_inv b" "bs_start b = 0"
  shows "bs_inv (bs_prependWord b a)" "bs_contents (bs_prependWord b a) = le16 a @ bs_contents b"
proof -
  obtain w r where w: "bs_mem b = map Some w @ r" "length w = bs_len b" "bs_start b \<le> bs_len b"
    using assms(1) by (rule bs_invE)
  obtain r' where c: "bs_mem (bs_prependWord b a) = map Some (le16 a @ w) @ r'"
    "length (le16 a @ w) = bs_len (bs_prependWord b a)" "bs_start (bs_prependWord b a) = bs_start b"
    using bs_prependWord_block [OF w(1,2)] by blast
  show "bs_inv (bs_prependWord b a)"
    using c(1,2) by (rule bs_invI) (use c(3) assms(2) in simp)
  show "bs_contents (bs_prependWord b a) = le16 a @ bs_contents b"
    using bs_contents_eq [OF c(1,2)] bs_contents_eq [OF w(1,2)] c(3) assms(2) by simp
qed

lemma bs_truncate_ok:
  assumes "bs_inv b" "bs_start b \<le> n"
  shows "bs_inv (bs_truncate b n)"
    "bs_contents (bs_truncate b n) = take (n - bs_start b) (bs_contents b)"
  using assms
  by (auto simp: bs_inv_def bs_contents_def bs_truncate_def take_map drop_take min_absorb1)

section \<open>The interface the other components use\<close>

text \<open>
  A client of the buffer appends encoded values, reads bytes at an offset, asks for the
  length, and discards bytes it has consumed. \<open>cont\<close> is the byte list the buffer
  stands for.
\<close>

locale byte_buffer =
  fixes inv :: "'b \<Rightarrow> bool"
    and cont :: "'b \<Rightarrow> bytes"
    and size_of :: "'b \<Rightarrow> nat"
    and at :: "'b \<Rightarrow> nat \<Rightarrow> byte option"
    and discard :: "'b \<Rightarrow> nat \<Rightarrow> 'b"
  assumes size_cont: "inv b \<Longrightarrow> size_of b = length (cont b)"
    and at_cont: "inv b \<Longrightarrow> i < length (cont b) \<Longrightarrow> at b i = Some (cont b ! i)"
    and inv_discard: "inv b \<Longrightarrow> inv (discard b n)"
    and cont_discard: "inv b \<Longrightarrow> cont (discard b n) = drop n (cont b)"
begin

lemma discard_discard: "inv b \<Longrightarrow> cont (discard (discard b m) n) = cont (discard b (m + n))"
  by (simp add: cont_discard inv_discard add.commute)

lemma discard_all: "inv b \<Longrightarrow> size_of (discard b (size_of b)) = 0"
  by (simp add: size_cont cont_discard inv_discard)

lemma at_discard:
  "inv b \<Longrightarrow> n + i < size_of b \<Longrightarrow> at (discard b n) i = at b (n + i)"
  by (simp add: size_cont at_cont cont_discard inv_discard)

lemma at_getByte: "inv b \<Longrightarrow> i < size_of b \<Longrightarrow> at b i = getByte (cont b) i"
  by (simp add: size_cont at_cont getByte_def)

end

locale buffer_writer = byte_buffer +
  fixes put :: "'a \<Rightarrow> 'b \<Rightarrow> 'a" and enc :: "'b \<Rightarrow> bytes"
  assumes inv_put: "inv b \<Longrightarrow> inv (put b x)"
    and cont_put: "inv b \<Longrightarrow> cont (put b x) = cont b @ enc x"
begin

lemma put_old: "inv b \<Longrightarrow> i < size_of b \<Longrightarrow> at (put b x) i = at b i"
  by (simp add: size_cont at_cont cont_put inv_put nth_append)

lemma put_new: "inv b \<Longrightarrow> i < length (enc x) \<Longrightarrow> at (put b x) (size_of b + i) = Some (enc x ! i)"
  by (simp add: size_cont at_cont cont_put inv_put nth_append)

lemma put_size: "inv b \<Longrightarrow> size_of (put b x) = size_of b + length (enc x)"
  by (simp add: size_cont cont_put inv_put)

lemma put_discard: "inv b \<Longrightarrow> cont (discard (put b x) (size_of b)) = enc x"
  by (simp add: size_cont cont_put inv_put cont_discard)

lemma puts_cont: "inv b \<Longrightarrow> inv (foldl put b xs) \<and> cont (foldl put b xs) = cont b @ concat (map enc xs)"
  by (induction xs arbitrary: b) (simp_all add: inv_put cont_put)

end

interpretation bs: byte_buffer bs_inv bs_contents bs_getLen bs_getByte bs_discardFirstBytes
  by unfold_locales
     (simp_all add: bs_getLen_contents bs_getByte_contents bs_discard_ok)

interpretation bs_byte: buffer_writer bs_inv bs_contents bs_getLen bs_getByte bs_discardFirstBytes
  bs_addByte "\<lambda>c. [c]"
  by unfold_locales (simp_all add: bs_addByte_ok)

interpretation bs_bytes: buffer_writer bs_inv bs_contents bs_getLen bs_getByte bs_discardFirstBytes
  bs_addBytes "\<lambda>s. s"
  by unfold_locales (simp_all add: bs_addBytes_ok)

interpretation bs_word: buffer_writer bs_inv bs_contents bs_getLen bs_getByte bs_discardFirstBytes
  bs_addWord le16
  by unfold_locales (simp_all add: bs_addWord_ok)

interpretation bs_dword: buffer_writer bs_inv bs_contents bs_getLen bs_getByte bs_discardFirstBytes
  bs_addDWord le32
  by unfold_locales (simp_all add: bs_addDWord_ok)

text \<open>The plain byte list is the reference implementation of the same interface.\<close>

interpretation list_buffer: byte_buffer "\<lambda>_. True" "\<lambda>b. b" length getByte "\<lambda>b n. drop n b"
  by unfold_locales (simp_all add: getByte_def)

section \<open>Properties\<close>

lemma bs_getWord_addWord:
  assumes "bs_inv b"
  shows "bs_getWord (bs_addWord b a) (bs_getLen b) = Some (word_of_int a)"
  using bs_word.put_new [OF assms, of 0 a] bs_word.put_new [OF assms, of 1 a]
  by (simp add: bs_getWord_def le16_def)

lemma bs_getDWord_addDWord:
  assumes "bs_inv b"
  shows "bs_getDWord (bs_addDWord b a) (bs_getLen b) = Some (word_of_int a)"
  using bs_dword.put_new [OF assms, of 0 a] bs_dword.put_new [OF assms, of 1 a]
    bs_dword.put_new [OF assms, of 2 a] bs_dword.put_new [OF assms, of 3 a]
  by (simp add: bs_getDWord_def le32_def numeral_2_eq_2 numeral_3_eq_3)



text \<open>
  What \<open>addWord\<close> and \<open>addDWord\<close> append at the end of a buffer, \<open>getWord\<close> and
  \<open>getDWord\<close> read back there, for any C integer, up to its low 16 and 32 bits.
\<close>

theorem bufferstore_word_roundtrip:
  assumes "bs_inv b"
  shows "bs_getWord (bs_addWord b a) (bs_getLen b) = Some (word_of_int a) \<and>
         bs_getDWord (bs_addDWord b a) (bs_getLen b) = Some (word_of_int a)"
  using assms by (simp add: bs_getWord_addWord bs_getDWord_addDWord)

theorem bufferstore_word_roundtrip_witness:
  "bs_getWord (bs_addWord (bs_of [7]) (- 2)) 1 = Some 65534"
  using bufferstore_word_roundtrip [where b = "bs_of [7]" and a = "- 2"]
  by (simp add: bs_of_ok bs_getLen_contents)

text \<open>
  \<open>prependByte\<close> puts the byte at the front of the contents only while nothing has
  been discarded. After \<open>discardFirstBytes\<close> the new byte lands in the discarded part, and
  what reappears at the front is the last byte discarded.
\<close>

theorem bufferstore_prepend_position:
  assumes "bs_inv b"
  shows "bs_contents (bs_prependByte b c) =
    (if bs_start b = 0 then c # bs_contents b
     else the (bs_mem b ! (bs_start b - 1)) # bs_contents b)"
proof (cases "bs_start b = 0")
  case True
  with assms show ?thesis by (simp add: bs_prependByte_ok)
next
  case False
  obtain w r where w: "bs_mem b = map Some w @ r" "length w = bs_len b" "bs_start b \<le> bs_len b"
    using assms by (rule bs_invE)
  obtain r' where c: "bs_mem (bs_prependByte b c) = map Some (c # w) @ r'"
    "length (c # w) = bs_len (bs_prependByte b c)" "bs_start (bs_prependByte b c) = bs_start b"
    using bs_prependByte_block [OF w(1,2)] by blast
  have less: "bs_start b - 1 < length w" and suc: "Suc (bs_start b - 1) = bs_start b"
    using w(2,3) False by linarith+
  have "bs_contents (bs_prependByte b c) = drop (bs_start b - 1) w"
    using bs_contents_eq [OF c(1,2)] c(3) False by (cases "bs_start b") simp_all
  also have "\<dots> = w ! (bs_start b - 1) # drop (bs_start b) w"
    by (rule Cons_nth_drop_Suc [OF less, symmetric, unfolded suc])
  finally show ?thesis
    using False bs_contents_eq [OF w(1,2)] w(1) less by (simp add: nth_append)
qed

theorem bufferstore_prepend_position_witness:
  "bs_contents (bs_prependByte (bs_discardFirstBytes (bs_of [1, 2, 3]) 1) 9) = [1, 2, 3]"
proof -
  let ?b = "bs_discardFirstBytes (bs_of [1, 2, 3]) 1"
  have inv: "bs_inv ?b" and cont: "bs_contents ?b = [2, 3]"
    by (simp_all add: bs_discard_ok bs_of_ok)
  have "bs_start ?b = 1" "bs_mem ?b ! 0 = Some 1"
    by (simp_all add: bs_discardFirstBytes_def bs_of_def Let_def mem_write_def MIN_LEN_def)
  then show ?thesis
    using bufferstore_prepend_position [OF inv, of 9] cont by simp
qed

end
