(* ===== verification/BufferArray.thy ===== *)
theory BufferArray
  imports BufferStore
begin

text \<open>
  The array of buffers of \<open>lib/bufferarray.cc\<close>: a block \<open>buff\<close> of \<open>lenAllocd\<close> buffers,
  of which the first \<open>len\<close> are in use. An element is the byte list its \<open>BufferStore\<close>
  stands for (theory BufferStore); fresh elements are empty. An index outside the block is
  undefined behaviour in C++ and the value \<open>None\<close> here. The locale \<open>fifo\<close> is what the
  channels rely on: elements come out in the order they went in.
\<close>

section \<open>The class\<close>

record bufferarray =
  ba_len :: nat
  ba_buff :: "bytes list"

abbreviation ba_lenAllocd :: "bufferarray \<Rightarrow> nat" where
  "ba_lenAllocd a \<equiv> length (ba_buff a)"

definition ALLOC_MIN :: nat where "ALLOC_MIN = 5"

definition ba_new :: bufferarray where
  "ba_new = \<lparr>ba_len = 0, ba_buff = replicate ALLOC_MIN []\<rparr>"

text \<open>\<open>for (i = 0; i < n; i++) dst[i + off] = src[i]\<close>, within the destination block.\<close>

fun copy_loop :: "nat \<Rightarrow> nat \<Rightarrow> bytes list \<Rightarrow> bytes list \<Rightarrow> bytes list option" where
  "copy_loop 0 off src dst = Some dst"
| "copy_loop (Suc n) off src dst =
     (case copy_loop n off src dst of
        None \<Rightarrow> None
      | Some d \<Rightarrow> if n < length src \<and> n + off < length d
                  then Some (d[n + off := src ! n]) else None)"

definition ba_copy :: "bufferarray \<Rightarrow> bufferarray option" where
  "ba_copy a =
     map_option (\<lambda>d. \<lparr>ba_len = ba_len a, ba_buff = d\<rparr>)
       (copy_loop (ba_len a) 0 (ba_buff a) (replicate (ba_lenAllocd a) []))"

definition ba_empty :: "bufferarray \<Rightarrow> bool" where
  "ba_empty a \<longleftrightarrow> ba_len a = 0"

text \<open>\<open>pop\<close>: the first element, and the others shifted down by one.\<close>

fun shift_loop :: "nat \<Rightarrow> bytes list \<Rightarrow> bytes list" where
  "shift_loop 0 b = b"
| "shift_loop (Suc n) b = (let b' = shift_loop n b in b'[n := b' ! Suc n])"

definition ba_pop :: "bufferarray \<Rightarrow> bytes \<times> bufferarray" where
  "ba_pop a =
     (if ba_len a > 0
      then (ba_buff a ! 0,
            \<lparr>ba_len = ba_len a - 1, ba_buff = shift_loop (ba_len a - 1) (ba_buff a)\<rparr>)
      else ([], a))"

definition ba_append :: "bufferarray \<Rightarrow> bytes \<Rightarrow> bufferarray option" where
  "ba_append a b = do {
     buff \<leftarrow> (if ba_len a = ba_lenAllocd a
              then copy_loop (ba_len a) 0 (ba_buff a) (replicate (ba_lenAllocd a + ALLOC_MIN) [])
              else Some (ba_buff a));
     if ba_len a < length buff
     then Some \<lparr>ba_len = ba_len a + 1, ba_buff = buff[ba_len a := b]\<rparr> else None }"

definition ba_push :: "bufferarray \<Rightarrow> bytes \<Rightarrow> bufferarray option" where
  "ba_push a b = do {
     let alloc = (if ba_len a = ba_lenAllocd a then ba_lenAllocd a + ALLOC_MIN else ba_lenAllocd a);
     buff \<leftarrow> copy_loop (ba_len a) 1 (ba_buff a) (replicate alloc []);
     if 0 < length buff then Some \<lparr>ba_len = ba_len a + 1, ba_buff = buff[0 := b]\<rparr> else None }"

definition ba_length :: "bufferarray \<Rightarrow> nat" where
  "ba_length a = ba_len a"

definition ba_clear :: "bufferarray \<Rightarrow> bufferarray" where
  "ba_clear a = \<lparr>ba_len = 0, ba_buff = replicate ALLOC_MIN []\<rparr>"

definition ba_index :: "bufferarray \<Rightarrow> nat \<Rightarrow> bytes option" where
  "ba_index a i = (if i < ba_lenAllocd a then Some (ba_buff a ! i) else None)"

text \<open>
  \<open>operator +=\<close> for an array, as written: both loops store from index \<open>len\<close> on.
\<close>

definition ba_add_array :: "bufferarray \<Rightarrow> bufferarray \<Rightarrow> bufferarray option" where
  "ba_add_array a a2 = do {
     let nb = replicate (ba_lenAllocd a + ba_lenAllocd a2) [];
     nb \<leftarrow> copy_loop (ba_len a) (ba_len a) (ba_buff a) nb;
     nb \<leftarrow> copy_loop (ba_len a2) (ba_len a) (ba_buff a2) nb;
     Some \<lparr>ba_len = ba_len a + ba_len a2, ba_buff = nb\<rparr> }"

definition ba_add :: "bufferarray \<Rightarrow> bytes \<Rightarrow> bufferarray option" where
  "ba_add a b = ba_append a b"

definition ba_plus :: "bufferarray \<Rightarrow> bytes \<Rightarrow> bufferarray option" where
  "ba_plus a b = do { res \<leftarrow> ba_copy a; ba_add res b }"

definition ba_plus_array :: "bufferarray \<Rightarrow> bufferarray \<Rightarrow> bufferarray option" where
  "ba_plus_array a a2 = do { res \<leftarrow> ba_copy a; ba_add_array res a2 }"

section \<open>Contents and invariant\<close>

definition ba_inv :: "bufferarray \<Rightarrow> bool" where
  "ba_inv a \<longleftrightarrow> ba_len a \<le> ba_lenAllocd a \<and> 0 < ba_lenAllocd a"

definition ba_list :: "bufferarray \<Rightarrow> bytes list" where
  "ba_list a = take (ba_len a) (ba_buff a)"

lemma copy_loop_eq:
  "n \<le> length src \<Longrightarrow> n + off \<le> length dst \<Longrightarrow>
   copy_loop n off src dst = Some (take off dst @ take n src @ drop (n + off) dst)"
proof (induction n)
  case 0
  then show ?case by simp
next
  case (Suc n)
  let ?d = "take off dst @ take n src @ drop (n + off) dst"
  have "?d[n + off := src ! n] = take off dst @ (take n src @ [src ! n]) @ drop (Suc n + off) dst"
    using Suc.prems by (simp add: list_update_append min_absorb2 Cons_nth_drop_Suc [symmetric])
  with Suc show ?case
    by (simp add: take_Suc_conv_app_nth min_absorb2)
qed

lemma shift_loop_eq:
  "n < length b \<Longrightarrow> shift_loop n b = take n (tl b) @ drop n b"
proof (induction n)
  case 0
  then show ?case by simp
next
  case (Suc n)
  then have "shift_loop n b = take n (tl b) @ b ! n # b ! Suc n # drop (Suc (Suc n)) b"
    by (simp add: Cons_nth_drop_Suc)
  with Suc.prems show ?case
    by (cases b) (simp_all add: list_update_append nth_append min_absorb2 take_Suc_conv_app_nth
        Cons_nth_drop_Suc)
qed

lemma length_shift_loop [simp]: "length (shift_loop n b) = length b"
  by (induction n) (simp_all add: Let_def)

lemma ba_new_ok [simp]: "ba_inv ba_new" "ba_list ba_new = []"
  by (simp_all add: ba_inv_def ba_list_def ba_new_def ALLOC_MIN_def)

lemma ba_empty_list: "ba_inv a \<Longrightarrow> ba_empty a \<longleftrightarrow> ba_list a = []"
  by (auto simp: ba_inv_def ba_empty_def ba_list_def)

lemma ba_append_ok:
  assumes "ba_inv a"
  obtains a' where "ba_append a b = Some a'" "ba_inv a'" "ba_list a' = ba_list a @ [b]"
proof -
  let ?buff = "if ba_len a = ba_lenAllocd a
               then ba_buff a @ replicate ALLOC_MIN [] else ba_buff a"
  let ?a' = "\<lparr>ba_len = ba_len a + 1, ba_buff = ?buff[ba_len a := b]\<rparr>"
  have "ba_append a b = Some ?a'"
    using assms by (auto simp: ba_append_def ba_inv_def copy_loop_eq ALLOC_MIN_def)
  moreover have "ba_inv ?a'" "ba_list ?a' = ba_list a @ [b]"
    using assms by (auto simp: ba_inv_def ba_list_def ALLOC_MIN_def take_Suc_conv_app_nth
        list_update_append nth_append)
  ultimately show thesis by (rule that)
qed

lemma ba_push_ok:
  assumes "ba_inv a"
  obtains a' where "ba_push a b = Some a'" "ba_inv a'" "ba_list a' = b # ba_list a"
proof -
  let ?alloc = "if ba_len a = ba_lenAllocd a then ba_lenAllocd a + ALLOC_MIN else ba_lenAllocd a"
  let ?a' = "\<lparr>ba_len = ba_len a + 1,
              ba_buff = b # ba_list a @ replicate (?alloc - Suc (ba_len a)) []\<rparr>"
  have "Suc (ba_len a) \<le> ?alloc" "ba_len a \<le> ba_lenAllocd a"
    using assms by (auto simp: ba_inv_def ALLOC_MIN_def)
  then have "ba_push a b = Some ?a'"
    by (simp add: ba_push_def Let_def copy_loop_eq ba_list_def take_Suc Suc_le_eq
        split del: if_split)
  moreover have "ba_inv ?a'" "ba_list ?a' = b # ba_list a"
    using assms by (auto simp: ba_inv_def ba_list_def)
  ultimately show thesis by (rule that)
qed

lemma ba_pop_ok:
  assumes "ba_inv a" "ba_list a = x # xs"
  shows "fst (ba_pop a) = x" "ba_inv (snd (ba_pop a))" "ba_list (snd (ba_pop a)) = xs"
proof -
  have len: "0 < ba_len a" "ba_len a \<le> ba_lenAllocd a"
    using assms by (auto simp: ba_inv_def ba_list_def intro: Nat.gr0I)
  then have shift: "shift_loop (ba_len a - 1) (ba_buff a) =
      take (ba_len a - 1) (tl (ba_buff a)) @ drop (ba_len a - 1) (ba_buff a)"
    by (simp add: shift_loop_eq)
  show "fst (ba_pop a) = x"
    using assms len by (cases "ba_buff a"; cases "ba_len a") (auto simp: ba_pop_def ba_list_def)
  show "ba_inv (snd (ba_pop a))"
    using assms len by (auto simp: ba_pop_def shift ba_inv_def)
  show "ba_list (snd (ba_pop a)) = xs"
    using assms len
    by (cases "ba_buff a"; cases "ba_len a") (auto simp: ba_pop_def shift [simplified] ba_list_def shift_loop_eq)
qed

section \<open>The queue interface\<close>

text \<open>
  What the channels use the array for: \<open>+=\<close> with one buffer adds at the end and \<open>pop\<close>
  takes from the front, so buffers come out in the order they went in.
\<close>

text \<open>Enqueueing a list of elements, and dequeueing a number of them.\<close>

primrec enq_all :: "('q \<Rightarrow> 'e \<Rightarrow> 'q option) \<Rightarrow> 'q \<Rightarrow> 'e list \<Rightarrow> 'q option" where
  "enq_all enq q [] = Some q"
| "enq_all enq q (x # xs) = (case enq q x of None \<Rightarrow> None | Some q' \<Rightarrow> enq_all enq q' xs)"

primrec deq_n :: "('q \<Rightarrow> 'e \<times> 'q) \<Rightarrow> nat \<Rightarrow> 'q \<Rightarrow> 'e list \<times> 'q" where
  "deq_n deq 0 q = ([], q)"
| "deq_n deq (Suc n) q = (let (x, q') = deq q; (xs, q'') = deq_n deq n q' in (x # xs, q''))"

locale fifo =
  fixes inv :: "'q \<Rightarrow> bool"
    and elems :: "'q \<Rightarrow> 'e list"
    and enq :: "'q \<Rightarrow> 'e \<Rightarrow> 'q option"
    and deq :: "'q \<Rightarrow> 'e \<times> 'q"
  assumes enq_ok: "inv q \<Longrightarrow> \<exists>q'. enq q x = Some q' \<and> inv q' \<and> elems q' = elems q @ [x]"
    and deq_ok: "inv q \<Longrightarrow> elems q = x # xs \<Longrightarrow>
                  fst (deq q) = x \<and> inv (snd (deq q)) \<and> elems (snd (deq q)) = xs"
begin

lemma enq_all_ok:
  "inv q \<Longrightarrow> \<exists>q'. enq_all enq q xs = Some q' \<and> inv q' \<and> elems q' = elems q @ xs"
proof (induction xs arbitrary: q)
  case Nil
  then show ?case by simp
next
  case (Cons x xs)
  obtain q1 where "enq q x = Some q1" "inv q1" "elems q1 = elems q @ [x]"
    using enq_ok [OF Cons.prems] by blast
  with Cons.IH [of q1] show ?case by auto
qed

lemma deq_n_ok:
  "inv q \<Longrightarrow> n \<le> length (elems q) \<Longrightarrow>
   fst (deq_n deq n q) = take n (elems q) \<and> inv (snd (deq_n deq n q)) \<and>
   elems (snd (deq_n deq n q)) = drop n (elems q)"
proof (induction n arbitrary: q)
  case 0
  then show ?case by simp
next
  case (Suc n)
  obtain x xs where q: "elems q = x # xs"
    using Suc.prems by (cases "elems q") auto
  with Suc.IH [of "snd (deq q)"] deq_ok [OF Suc.prems(1) q] Suc.prems(2) show ?case
    by (auto simp: split_beta Let_def)
qed

lemma fifo_order:
  assumes "inv q" "elems q = []"
  shows "\<exists>q'. enq_all enq q xs = Some q' \<and> fst (deq_n deq (length xs) q') = xs"
proof -
  obtain q' where "enq_all enq q xs = Some q'" "inv q'" "elems q' = xs"
    using enq_all_ok [OF assms(1), of xs] assms(2) by auto
  with deq_n_ok [of q' "length xs"] show ?thesis by auto
qed

end

interpretation ba: fifo ba_inv ba_list ba_add ba_pop
proof
  fix q :: bufferarray and x
  assume "ba_inv q"
  then show "\<exists>q'. ba_add q x = Some q' \<and> ba_inv q' \<and> ba_list q' = ba_list q @ [x]"
    by (metis ba_append_ok ba_add_def)
next
  fix q :: bufferarray and x xs
  assume "ba_inv q" "ba_list q = x # xs"
  then show "fst (ba_pop q) = x \<and> ba_inv (snd (ba_pop q)) \<and> ba_list (snd (ba_pop q)) = xs"
    using ba_pop_ok by blast
qed

section \<open>Properties\<close>

text \<open>
  buffers appended one at a time with \<open>+=\<close> to an array and then taken with \<open>pop\<close>
  come out complete and in order, across any number of reallocations, and never touch
  memory outside the block.
\<close>

theorem bufferarray_fifo:
  "\<exists>q. enq_all ba_add ba_new xs = Some q \<and> fst (deq_n ba_pop (length xs) q) = xs"
  by (rule ba.fifo_order) simp_all

text \<open>
  \<open>operator += (const BufferArray &)\<close> does not concatenate. When the block is large
  enough its result has the right length, but the first \<open>len\<close> elements are empty buffers:
  what the array held is overwritten or stored past the end. When the two allocations are
  smaller than \<open>2 * len\<close>, the first loop writes outside the new block.
\<close>

theorem bufferarray_add_array:
  assumes "ba_inv a" and "ba_inv a2"
  shows "if 2 * ba_len a \<le> ba_lenAllocd a + ba_lenAllocd a2
         then \<exists>r. ba_add_array a a2 = Some r \<and>
                  ba_list r = replicate (ba_len a) [] @ ba_list a2
         else ba_add_array a a2 = None"
proof -
  let ?n = "ba_lenAllocd a + ba_lenAllocd a2" and ?k = "ba_len a"
  have k: "?k \<le> ba_lenAllocd a" "ba_len a2 \<le> ba_lenAllocd a2"
    using assms by (simp_all add: ba_inv_def)
  show ?thesis
  proof (cases "2 * ?k \<le> ?n")
    case True
    let ?nb = "replicate ?k [] @ take ?k (ba_buff a) @ replicate (?n - 2 * ?k) []"
    have 1: "copy_loop ?k ?k (ba_buff a) (replicate ?n []) = Some ?nb"
      using True k by (simp add: copy_loop_eq mult_2)
    have "length ?nb = ?n" using True k by simp
    then have 2: "copy_loop (ba_len a2) ?k (ba_buff a2) ?nb =
        Some (take ?k ?nb @ take (ba_len a2) (ba_buff a2) @ drop (ba_len a2 + ?k) ?nb)"
      using k by (intro copy_loop_eq) simp_all
    show ?thesis
      using True k 1 2 by (simp add: ba_add_array_def Let_def ba_list_def)
  next
    case False
    have fail: "copy_loop m ?k (ba_buff a) d = None"
      if "length d < m + ?k" "length d = ?n" "m \<le> ?k" for m d
      using that
    proof (induction m)
      case 0
      with k show ?case by simp
    next
      case (Suc m)
      show ?case
      proof (cases "length d < m + ?k")
        case True
        with Suc show ?thesis by simp
      next
        case False
        with Suc.prems k show ?thesis
          by (simp add: copy_loop_eq split: option.splits)
      qed
    qed
    have "copy_loop ?k ?k (ba_buff a) (replicate ?n []) = None"
      using False by (intro fail) simp_all
    with False show ?thesis
      by (simp add: ba_add_array_def Let_def)
  qed
qed

theorem bufferarray_add_array_witness:
  "\<exists>a r. ba_list a = [[1]] \<and> ba_add_array a a = Some r \<and> ba_list r = [[], [1]]"
proof -
  let ?a = "\<lparr>ba_len = 1, ba_buff = [[1], [], [], [], []]\<rparr>"
  have inv: "ba_inv ?a" and l: "ba_list ?a = [[1]]"
    by (simp_all add: ba_inv_def ba_list_def)
  show ?thesis
    using bufferarray_add_array [OF inv inv] l by auto
qed

end
