(* ===== verification/Crc.thy ===== *)
theory Crc
  imports Prelude
begin

text \<open>
  The checksum of \<open>lib/datalink.cc\<close>: the 256-entry table the constructor of \<open>DataLink\<close>
  computes by doubling, and \<open>addToCrc\<close>, which uses it one byte at a time. The reference
  is the bit-serial CRC with polynomial \<open>0x1021\<close>, most significant bit first.
\<close>

section \<open>The code\<close>

text \<open>
  One round of the table loop, for \<open>i\<close>. Entries not yet written hold 0; each is written
  before it is read, since \<open>i < 2 * i\<close> for \<open>i > 0\<close>.
\<close>

definition crc_table_round :: "nat \<Rightarrow> 32 word list \<Rightarrow> 32 word list" where
  "crc_table_round i t =
     (let carry = (t ! i) AND 0x8000;
          tmp = (push_bit 1 (t ! i)) AND 0xffff;
          t = t[i * 2 + (if carry \<noteq> 0 then 0 else 1) := tmp XOR 0x1021]
      in t[i * 2 + (if carry \<noteq> 0 then 1 else 0) := tmp])"

definition crc_table :: "32 word list" where
  "crc_table = fold crc_table_round [0..<128] (replicate 256 0)"

definition addToCrc :: "byte \<Rightarrow> 16 word \<Rightarrow> 16 word" where
  "addToCrc a crc =
     ucast (push_bit 8 (ucast crc :: 32 word) XOR
            crc_table ! unat ((drop_bit 8 (ucast crc :: 32 word) XOR ucast a) AND 0xff))"

text \<open>The checksum of a whole packet, from the initial value 0.\<close>

definition crc_of :: "bytes \<Rightarrow> 16 word" where
  "crc_of b = fold addToCrc b 0"

section \<open>The reference\<close>

definition crc_bit :: "16 word \<Rightarrow> 16 word" where
  "crc_bit c = (if bit c 15 then push_bit 1 c XOR 0x1021 else push_bit 1 c)"

definition crc_byte :: "byte \<Rightarrow> 16 word \<Rightarrow> 16 word" where
  "crc_byte a c = (crc_bit ^^ 8) (c XOR push_bit 8 (ucast a))"

lemma crc_bit_xor: "crc_bit (a XOR b) = crc_bit a XOR crc_bit b"
  by (simp add: crc_bit_def bit_xor_iff push_bit_xor xor.left_commute xor.commute xor.assoc)

lemma crc_bit_funpow_xor: "(crc_bit ^^ n) (a XOR b) = (crc_bit ^^ n) a XOR (crc_bit ^^ n) b"
  by (induction n) (simp_all add: crc_bit_xor)

lemma crc_bit_low:
  "n \<le> 8 \<Longrightarrow> (crc_bit ^^ n) (ucast (b :: byte)) = push_bit n (ucast b)"
proof (induction n)
  case 0
  then show ?case by simp
next
  case (Suc n)
  then have "\<not> bit (push_bit n (ucast b :: 16 word)) 15"
    by (auto simp: bit_simps dest: bit_imp_le_length)
  with Suc show ?case
    by (simp add: crc_bit_def)
qed

text \<open>The table's entry for \<open>i\<close>: the bit-serial remainder of the byte \<open>i\<close>.\<close>

definition crc_entry :: "nat \<Rightarrow> 16 word" where
  "crc_entry i = (crc_bit ^^ 8) (push_bit 8 (word_of_nat i))"

lemma crc_entry_0: "crc_entry 0 = 0"
  by (simp add: crc_entry_def crc_bit_def eval_nat_numeral)

lemma crc_entry_1: "crc_entry 1 = 0x1021"
  unfolding crc_entry_def by code_simp

lemma word_bit: "n < 16 \<Longrightarrow> bit (word_of_nat m :: 16 word) n = bit m n"
  by (simp add: bit_simps)

lemma bit_1_iff_nat: "bit (1 :: nat) n \<longleftrightarrow> n = 0"
  by (simp add: bit_Suc_0_iff)

lemma bit_word16_hi: "bit (w :: 16 word) (8 + n) \<Longrightarrow> n < 8"
  using bit_imp_le_length [of w "8 + n"] by simp

lemma word_of_nat_odd:
  assumes "even k"
  shows "(word_of_nat (k + 1) :: 16 word) = word_of_nat k XOR word_of_nat 1"
proof (rule bit_word_eqI)
  fix n assume "n < LENGTH(16)"
  then have n: "n < 16" by simp
  have "bit (k + 1) n \<longleftrightarrow> bit k n \<or> n = 0"
    using even_bit_succ_iff [OF assms, of n] by (simp add: add.commute)
  moreover have "bit k 0 = False" using assms by (simp add: bit_0)
  ultimately show "bit (word_of_nat (k + 1) :: 16 word) n =
      bit (word_of_nat k XOR word_of_nat 1 :: 16 word) n"
    unfolding bit_xor_iff using n assms
    by (cases "n = 0") (simp_all only: word_bit [OF n] bit_1_iff_nat, auto simp: bit_0)
qed

lemma crc_entry_double:
  assumes "i < 128"
  shows "crc_entry (i * 2) = crc_bit (crc_entry i)"
    and "crc_entry (i * 2 + 1) = crc_bit (crc_entry i) XOR 0x1021"
proof -
  have top: "\<not> bit (push_bit 8 (word_of_nat i) :: 16 word) 15"
  proof -
    have "\<not> bit i 7"
      using assms by (simp add: bit_iff_odd)
    then show ?thesis by (simp add: bit_simps)
  qed
  have shift: "push_bit 8 (word_of_nat (i * 2)) = push_bit 1 (push_bit 8 (word_of_nat i) :: 16 word)"
    by (simp add: push_bit_eq_mult)
  have one: "push_bit 8 (word_of_nat (i * 2 + 1)) =
      push_bit 8 (word_of_nat (i * 2)) XOR (push_bit 8 (word_of_nat 1) :: 16 word)"
  proof -
    have "even (i * 2)" by simp
    then show ?thesis by (simp only: word_of_nat_odd push_bit_xor)
  qed
  show double: "crc_entry (i * 2) = crc_bit (crc_entry i)"
  proof -
    have "crc_entry (i * 2) = (crc_bit ^^ 8) (crc_bit (push_bit 8 (word_of_nat i)))"
      using top by (simp only: crc_entry_def shift crc_bit_def if_False)
    then show ?thesis
      by (simp add: crc_entry_def funpow_swap1)
  qed
  show "crc_entry (i * 2 + 1) = crc_bit (crc_entry i) XOR 0x1021"
    using crc_entry_1 double unfolding crc_entry_def one crc_bit_funpow_xor by simp
qed

lemma and_ffff: "(x :: 32 word) AND 0xffff = take_bit 16 x"
  and and_ff: "(x :: 32 word) AND 0xff = take_bit 8 x"
  by (simp_all add: take_bit_eq_mask mask_eq_exp_minus_1)

lemma crc_round_words:
  fixes s :: "16 word"
  shows "(push_bit 1 (ucast s :: 32 word)) AND 0xffff = ucast (push_bit 1 s)"
    and "((ucast s :: 32 word) AND 0x8000 \<noteq> 0) = bit s 15"
proof -
  have "take_bit 16 (push_bit n (ucast s :: 32 word)) = ucast (push_bit n s)" for n
    by (auto intro!: bit_word_eqI simp: bit_simps)
  then show "(push_bit 1 (ucast s :: 32 word)) AND 0xffff = ucast (push_bit 1 s)"
    unfolding and_ffff by blast
  have "(0x8000 :: 32 word) = push_bit 15 1" by simp
  then have "((ucast s :: 32 word) AND 0x8000 \<noteq> 0) = bit (ucast s :: 32 word) 15"
    by (simp only: bit_iff_and_push_bit_not_eq_0)
  then show "((ucast s :: 32 word) AND 0x8000 \<noteq> 0) = bit s 15"
    by (simp add: bit_simps)
qed

lemma crc_table_rounds:
  assumes "n \<le> 128"
  shows "length (fold crc_table_round [0..<n] (replicate 256 0)) = 256 \<and>
    (\<forall>k < max 1 (2 * n). fold crc_table_round [0..<n] (replicate 256 0) ! k = ucast (crc_entry k))"
  using assms
proof (induction n)
  case 0
  then show ?case by (simp add: crc_entry_0)
next
  case (Suc n)
  let ?t = "fold crc_table_round [0..<n] (replicate 256 (0 :: 32 word))"
  let ?e = "crc_entry n"
  have t: "length ?t = 256" "\<And>k. k < max 1 (2 * n) \<Longrightarrow> ?t ! k = ucast (crc_entry k)"
    using Suc by simp_all
  have n: "n < 128" "n < max 1 (2 * n)" using Suc.prems by simp_all
  have tmp: "(push_bit 1 (?t ! n)) AND 0xffff = ucast (push_bit 1 ?e)"
    and carry: "((?t ! n) AND 0x8000 \<noteq> 0) = bit ?e 15"
    unfolding t(2) [OF n(2)] by (rule crc_round_words)+
  have x: "ucast (push_bit 1 ?e) XOR 0x1021 = (ucast (push_bit 1 ?e XOR 0x1021) :: 32 word)"
    by (simp add: unsigned_xor_eq)
  have round: "crc_table_round n ?t =
      (?t[n * 2 := ucast (crc_entry (n * 2))])[n * 2 + 1 := ucast (crc_entry (n * 2 + 1))]"
    unfolding crc_table_round_def Let_def tmp carry x crc_entry_double [OF n(1)] crc_bit_def
    by (cases "bit ?e 15") (simp_all add: list_update_swap xor.assoc)
  have "\<forall>k < 2 * Suc n. crc_table_round n ?t ! k = ucast (crc_entry k)"
  proof (intro allI impI)
    fix k assume k: "k < 2 * Suc n"
    then consider "k = n * 2" | "k = n * 2 + 1" | "k < 2 * n"
      by (metis add.commute add_2_eq_Suc' less_Suc_eq mult.commute mult_Suc_right plus_1_eq_Suc)
    then show "crc_table_round n ?t ! k = ucast (crc_entry k)"
      by cases (use t k n in \<open>simp_all add: round nth_list_update\<close>)
  qed
  then show ?case
    using t(1) by (simp add: round)
qed

lemma length_crc_table: "length crc_table = 256"
  using crc_table_rounds [of 128] by (simp add: crc_table_def)

lemma crc_table_nth: "k < 256 \<Longrightarrow> crc_table ! k = ucast (crc_entry k)"
  using crc_table_rounds [of 128] by (simp add: crc_table_def)

section \<open>The table-driven checksum is the bit-serial one\<close>

lemma unat_ucast_byte: "unat (ucast (b :: byte) :: 16 word) < 256"
proof -
  have "unat (ucast b :: 16 word) \<le> unat b"
    unfolding unsigned_ucast_eq by (rule take_bit_nat_less_eq_self)
  then show ?thesis using unsigned_less [of b, where ?'a = nat] by simp
qed

lemma addToCrc_bitwise: "addToCrc a crc = crc_byte a crc"
proof -
  let ?hi = "drop_bit 8 crc XOR ucast a :: 16 word"
  have ix: "(drop_bit 8 (ucast crc :: 32 word) XOR ucast a) AND 0xff = ucast ?hi"
    unfolding and_ff using bit_word16_hi [of crc]
    by (intro bit_word_eqI) (fastforce simp: bit_simps)
  have small: "unat ?hi < 256"
  proof -
    have "?hi = ucast (ucast ?hi :: byte)"
      using bit_word16_hi [of crc] by (intro bit_word_eqI) (fastforce simp: bit_simps)
    then have "unat ?hi = unat (ucast (ucast ?hi :: byte) :: 16 word)" by (rule arg_cong)
    also have "\<dots> < 256" by (rule unat_ucast_byte)
    finally show ?thesis .
  qed
  have split: "crc XOR push_bit 8 (ucast a) = push_bit 8 ?hi XOR ucast (ucast crc :: byte)"
    using bit_word16_hi [of crc] by (intro bit_word_eqI) (fastforce simp: bit_simps)
  have "crc_byte a crc = (crc_bit ^^ 8) (push_bit 8 ?hi) XOR push_bit 8 (ucast (ucast crc :: byte))"
    by (simp add: crc_byte_def split crc_bit_funpow_xor crc_bit_low)
  moreover have "(crc_bit ^^ 8) (push_bit 8 ?hi) = crc_entry (unat ?hi)"
    by (simp add: crc_entry_def)
  moreover have "addToCrc a crc = push_bit 8 crc XOR crc_entry (unat ?hi)"
  proof -
    have "unat (ucast ?hi :: 32 word) = unat ?hi"
      using small by (simp add: unsigned_ucast_eq take_bit_nat_eq_self)
    then have "addToCrc a crc =
        ucast (push_bit 8 (ucast crc :: 32 word) XOR ucast (crc_entry (unat ?hi)))"
      unfolding addToCrc_def ix using crc_table_nth [OF small] by simp
    then show ?thesis
      by (auto intro!: bit_word_eqI simp: bit_simps)
  qed
  moreover have "push_bit 8 (ucast (ucast crc :: byte)) = push_bit 8 crc"
    by (auto intro!: bit_word_eqI simp: bit_simps dest: bit_imp_le_length)
  ultimately show ?thesis by (simp add: xor.commute)
qed

text \<open>
  C15: the packet checksum, computed byte by byte from the table that the constructor
  builds by doubling, is the bit-serial CRC-CCITT (polynomial \<open>0x1021\<close>, initial value 0)
  of the packet, for every packet.
\<close>

theorem crc_is_ccitt: "crc_of b = fold crc_byte b 0"
  by (simp add: crc_of_def addToCrc_bitwise [abs_def])

end
