(* ===== verification/RingBuffer.thy ===== *)
theory RingBuffer
  imports Prelude
begin

text \<open>
  The circular buffers of \<open>lib/datalink.cc\<close>, one for each direction of the serial line:
  a block of \<open>BUFLEN\<close> bytes with a read and a write index, both below \<open>BUFLEN\<close>.
  Masking with \<open>BUFMASK\<close> is taken modulo \<open>BUFLEN\<close>, a power of two. The ring is empty when
  the indices are equal, so at most \<open>BUFLEN - 1\<close> bytes can be told apart from none. The
  abstraction \<open>ring_list\<close> is the list of bytes from the read to the write index.
\<close>

definition BUFLEN :: nat where "BUFLEN = 4096"

definition hasSpace :: "nat \<Rightarrow> nat \<Rightarrow> bool" where
  "hasSpace read_ix write_ix \<longleftrightarrow> (write_ix + 1) mod BUFLEN \<noteq> read_ix"

definition hasData :: "nat \<Rightarrow> nat \<Rightarrow> bool" where
  "hasData read_ix write_ix \<longleftrightarrow> write_ix \<noteq> read_ix"

definition inca :: "nat \<Rightarrow> nat \<Rightarrow> nat" where
  "inca idx amount = (idx + amount) mod BUFLEN"

definition inc1 :: "nat \<Rightarrow> nat" where
  "inc1 idx = inca idx 1"

definition normalize :: "nat \<Rightarrow> nat" where
  "normalize idx = idx mod BUFLEN"

definition ring_count :: "nat \<Rightarrow> nat \<Rightarrow> nat" where
  "ring_count r w = (w + BUFLEN - r) mod BUFLEN"

definition ring_list :: "bytes \<Rightarrow> nat \<Rightarrow> nat \<Rightarrow> bytes" where
  "ring_list buf r w = map (\<lambda>k. buf ! ((r + k) mod BUFLEN)) [0..<ring_count r w]"

text \<open>\<open>for (\<dots>) { buf[w] = c; inc1(w); }\<close> over the bytes of a message.\<close>

fun ring_put :: "bytes \<Rightarrow> bytes \<Rightarrow> nat \<Rightarrow> bytes \<times> nat" where
  "ring_put [] buf w = (buf, w)"
| "ring_put (c # cs) buf w = ring_put cs (buf[w := c]) (inc1 w)"

section \<open>Index arithmetic\<close>

lemma BUFLEN_pos [simp]: "0 < BUFLEN" "BUFLEN \<noteq> 0"
  by (simp_all add: BUFLEN_def)

lemma inc1_less [simp]: "inc1 p < BUFLEN"
  by (simp add: inc1_def inca_def)

lemma inca_less [simp]: "inca p n < BUFLEN"
  by (simp add: inca_def)

lemma normalize_id [simp]: "p < BUFLEN \<Longrightarrow> normalize p = p"
  by (simp add: normalize_def)

lemma normalize_less [simp]: "normalize p < BUFLEN"
  by (simp add: normalize_def)

lemma normalize_Suc: "normalize (Suc p) = inc1 p"
  by (simp add: normalize_def inc1_def inca_def)

lemma inca_0 [simp]: "p < BUFLEN \<Longrightarrow> inca p 0 = p"
  by (simp add: inca_def)

lemma inca_inca: "inca (inca p m) n = inca p (m + n)"
  by (simp add: inca_def mod_add_left_eq add.assoc)

lemma inca_Suc: "inca p (Suc n) = inc1 (inca p n)"
  by (simp add: inc1_def inca_inca)

lemma inc1_inca: "inca (inc1 p) n = inca p (Suc n)"
  by (simp add: inc1_def inca_inca)

lemma ring_count_less [simp]: "ring_count r w < BUFLEN"
  by (simp add: ring_count_def)

lemma ring_count_self [simp]: "r < BUFLEN \<Longrightarrow> ring_count r r = 0"
  by (simp add: ring_count_def)

lemma ring_count_0: "r < BUFLEN \<Longrightarrow> w < BUFLEN \<Longrightarrow> ring_count r w = 0 \<longleftrightarrow> r = w"
  by (auto simp: ring_count_def BUFLEN_def mod_if split: if_splits)

lemma ring_count_inc_read:
  "r < BUFLEN \<Longrightarrow> w < BUFLEN \<Longrightarrow> r \<noteq> w \<Longrightarrow> Suc (ring_count (inc1 r) w) = ring_count r w"
  by (auto simp: ring_count_def inc1_def inca_def BUFLEN_def mod_if)

lemma ring_count_inc_write:
  "r < BUFLEN \<Longrightarrow> w < BUFLEN \<Longrightarrow> ring_count r w < BUFLEN - 1 \<Longrightarrow>
   ring_count r (inc1 w) = Suc (ring_count r w)"
  by (auto simp: ring_count_def inc1_def inca_def BUFLEN_def mod_if split: if_splits)

lemma ring_count_inca:
  "r < BUFLEN \<Longrightarrow> n < BUFLEN \<Longrightarrow> ring_count r (inca r n) = n"
  by (auto simp: ring_count_def inca_def BUFLEN_def mod_if)

lemma inca_ring_count: "r < BUFLEN \<Longrightarrow> w < BUFLEN \<Longrightarrow> inca r (ring_count r w) = w"
  by (auto simp: ring_count_def inca_def BUFLEN_def mod_if split: if_splits)

lemma hasSpace_count:
  "r < BUFLEN \<Longrightarrow> w < BUFLEN \<Longrightarrow> hasSpace r w \<longleftrightarrow> ring_count r w < BUFLEN - 1"
  by (auto simp: ring_count_def hasSpace_def BUFLEN_def mod_if split: if_splits)

lemma hasData_count: "r < BUFLEN \<Longrightarrow> w < BUFLEN \<Longrightarrow> hasData r w \<longleftrightarrow> 0 < ring_count r w"
  using ring_count_0 [of r w] by (auto simp: hasData_def)

section \<open>Contents\<close>

lemma length_ring_list [simp]: "length (ring_list buf r w) = ring_count r w"
  by (simp add: ring_list_def)

lemma ring_list_empty [simp]: "r < BUFLEN \<Longrightarrow> ring_list buf r r = []"
  by (simp add: ring_list_def)

lemma ring_list_Nil_iff: "r < BUFLEN \<Longrightarrow> w < BUFLEN \<Longrightarrow> ring_list buf r w = [] \<longleftrightarrow> r = w"
  using ring_count_0 by (simp add: ring_list_def)

lemma ring_list_nth:
  "k < ring_count r w \<Longrightarrow> ring_list buf r w ! k = buf ! inca r k"
  by (simp add: ring_list_def inca_def)

lemma ring_list_Cons:
  assumes "r < BUFLEN" "w < BUFLEN" "r \<noteq> w"
  shows "ring_list buf r w = buf ! r # ring_list buf (inc1 r) w"
proof (rule nth_equalityI)
  show "length (ring_list buf r w) = length (buf ! r # ring_list buf (inc1 r) w)"
    using ring_count_inc_read [OF assms] by simp
next
  fix i assume "i < length (ring_list buf r w)"
  then have i: "i < ring_count r w" by simp
  show "ring_list buf r w ! i = (buf ! r # ring_list buf (inc1 r) w) ! i"
  proof (cases i)
    case 0
    with i assms show ?thesis by (simp add: ring_list_nth)
  next
    case (Suc j)
    then have "j < ring_count (inc1 r) w"
      using i ring_count_inc_read [OF assms] by simp
    with Suc i show ?thesis by (simp add: ring_list_nth inc1_inca)
  qed
qed

lemma ring_list_drop:
  assumes "r < BUFLEN" "w < BUFLEN" "n \<le> ring_count r w"
  shows "ring_list buf (inca r n) w = drop n (ring_list buf r w)"
  using assms
proof (induction n arbitrary: r)
  case 0
  then show ?case by simp
next
  case (Suc n)
  then have "r \<noteq> w" by auto
  with Suc show ?case
    using ring_count_inc_read [of r w]
    by (simp add: ring_list_Cons inc1_inca [symmetric])
qed

lemma ring_list_update_outside:
  assumes "r < BUFLEN" "w < BUFLEN" "length buf \<ge> BUFLEN"
  shows "ring_list (buf[w := c]) r w = ring_list buf r w"
proof (rule nth_equalityI)
  fix i assume "i < length (ring_list (buf[w := c]) r w)"
  then have i: "i < ring_count r w" by simp
  have "inca r i \<noteq> w"
  proof
    assume "inca r i = w"
    then have "ring_count r w = i"
      using ring_count_inca [of r i] assms(1) i ring_count_less [of r w] by simp
    with i show False by simp
  qed
  with i show "ring_list (buf[w := c]) r w ! i = ring_list buf r w ! i"
    by (simp add: ring_list_nth)
qed simp

lemma ring_list_snoc:
  assumes "r < BUFLEN" "w < BUFLEN" "ring_count r w < BUFLEN - 1" "length buf \<ge> BUFLEN"
  shows "ring_list (buf[w := c]) r (inc1 w) = ring_list buf r w @ [c]"
proof (rule nth_equalityI)
  show "length (ring_list (buf[w := c]) r (inc1 w)) = length (ring_list buf r w @ [c])"
    using ring_count_inc_write [OF assms(1-3)] by simp
next
  fix i assume "i < length (ring_list (buf[w := c]) r (inc1 w))"
  then have i: "i < ring_count r (inc1 w)" "i \<le> ring_count r w"
    using ring_count_inc_write [OF assms(1-3)] by simp_all
  show "ring_list (buf[w := c]) r (inc1 w) ! i = (ring_list buf r w @ [c]) ! i"
  proof (cases "i = ring_count r w")
    case True
    then show ?thesis
      using i assms inca_ring_count [OF assms(1,2)] by (simp add: ring_list_nth nth_append)
  next
    case False
    then have less: "i < ring_count r w" using i(2) by simp
    have "ring_list (buf[w := c]) r w ! i = ring_list buf r w ! i"
      by (simp only: ring_list_update_outside [OF assms(1,2,4)])
    with less i show ?thesis by (simp add: ring_list_nth nth_append)
  qed
qed

lemma ring_put_frame:
  "length (fst (ring_put cs buf w)) = length buf"
  "w < BUFLEN \<Longrightarrow> snd (ring_put cs buf w) = inca w (length cs)"
  by (induction cs buf w rule: ring_put.induct) (simp_all add: inc1_inca)

lemma ring_list_put:
  assumes "r < BUFLEN" "w < BUFLEN" "ring_count r w + length cs < BUFLEN" "length buf \<ge> BUFLEN"
  shows "ring_list (fst (ring_put cs buf w)) r (snd (ring_put cs buf w)) = ring_list buf r w @ cs"
  using assms
proof (induction cs arbitrary: buf w)
  case Nil
  then show ?case by simp
next
  case (Cons c cs)
  have "ring_count r w < BUFLEN - 1" using Cons.prems(3) by simp
  then show ?case
    using Cons by (simp add: ring_count_inc_write ring_list_snoc)
qed

end
