(* ===== verification/DataLink.thy ===== *)
theory DataLink
  imports Crc RingBuffer
begin

text \<open>
  The data link of \<open>lib/datalink.cc\<close>: framing and byte stuffing on the serial line, the
  receiver's state machine over the input ring, the steps of the pump thread, the baud
  rate search and the modem status check. The record \<open>datalink\<close> holds the class's members,
  in their three groups (serial, input, output). System calls are arguments: the file
  descriptor \<open>init_serial\<close> returns, the bytes a \<open>read\<close> delivers, the number of bytes a
  \<open>write\<close> takes and the result of \<open>ioctl\<close>. Every definition is one critical section
  of the code; a \<open>send\<close> that waits for space and a scan that does not end are \<open>None\<close>.
\<close>

section \<open>State\<close>

record rxstate =
  rx_esc :: bool
  rx_crcIn :: "16 word"
  rx_crcState :: nat
  rx_receivedCRC :: "16 word"
  rx_rcv :: bytes

record datalink =
  dl_fd :: int
  dl_serialStatus :: "32 word option"
  dl_baudRateIndex :: nat
  dl_baudRate :: int
  dl_lastFatal :: bool
  dl_rx :: rxstate
  dl_justStarted :: bool
  dl_startPkt :: int
  dl_lastSYN :: int
  dl_inBuffer :: bytes
  dl_inWrite :: nat
  dl_inRead :: nat
  dl_isCancelled :: bool
  dl_outBuffer :: bytes
  dl_outWrite :: nat
  dl_outRead :: nat
  dl_noDSRCheck :: bool
  dl_requestedBaudRate :: int

section \<open>Sending\<close>

text \<open>The bytes that stand for one byte of the packet: DLE stuffing, and ETX for EPOC.\<close>

definition stuff :: "bool \<Rightarrow> byte \<Rightarrow> bytes" where
  "stuff isEPOC c =
     (if c = 0x03 then (if isEPOC then [0x10, 0x04] else [c])
      else if c = 0x10 then [0x10, 0x10]
      else [c])"

fun frame_body :: "bool \<Rightarrow> bytes \<Rightarrow> bytes \<Rightarrow> 16 word \<Rightarrow> bytes \<times> 16 word" where
  "frame_body isEPOC [] message crcOut = (message, crcOut)"
| "frame_body isEPOC (c # cs) message crcOut =
     frame_body isEPOC cs (message @ stuff isEPOC c) (addToCrc c crcOut)"

definition dl_message :: "bool \<Rightarrow> bytes \<Rightarrow> bytes" where
  "dl_message isEPOC b =
     (let (message, crcOut) = frame_body isEPOC b [0x16, 0x10, 0x02] 0
      in message @ [0x10, 0x03, ucast (drop_bit 8 crcOut), ucast crcOut])"

definition dl_outFree :: "datalink \<Rightarrow> nat" where
  "dl_outFree s = (dl_outRead s + BUFLEN - dl_outWrite s - 1) mod BUFLEN"

text \<open>
  \<open>send\<close>: waits until there is room for the whole message or the link is cancelled;
  \<open>None\<close> means that it still waits in this state.
\<close>

definition dl_send :: "datalink \<Rightarrow> bytes \<Rightarrow> bool \<Rightarrow> datalink option" where
  "dl_send s b isEPOC =
     (let message = dl_message isEPOC b
      in if dl_isCancelled s then Some s
         else if dl_outFree s \<ge> length message
         then (let (buf, w) = ring_put message (dl_outBuffer s) (dl_outWrite s)
               in Some (s\<lparr>dl_outBuffer := buf, dl_outWrite := w\<rparr>))
         else None)"

section \<open>The pump thread\<close>

definition pump_writeCount :: "datalink \<Rightarrow> nat" where
  "pump_writeCount s =
     (let count = int (dl_outWrite s) - int (dl_outRead s)
      in if count < 0 then BUFLEN - dl_outRead s else nat count)"

text \<open>\<open>res\<close> is what \<open>write\<close> returned; the bytes it took are the first component.\<close>

definition pump_write :: "datalink \<Rightarrow> nat \<Rightarrow> bytes \<times> datalink" where
  "pump_write s res =
     (take res (drop (dl_outRead s) (dl_outBuffer s)),
      if res > 0 then s\<lparr>dl_outRead := inca (dl_outRead s) res\<rparr> else s)"

definition pump_readCount :: "datalink \<Rightarrow> nat" where
  "pump_readCount s =
     (let count = int (dl_inRead s) - int (dl_inWrite s)
      in if count \<le> 0 then BUFLEN - dl_inWrite s else nat count)"

text \<open>\<open>data\<close> is what \<open>read\<close> stored at the write index.\<close>

definition pump_read :: "datalink \<Rightarrow> bytes \<Rightarrow> datalink" where
  "pump_read s data =
     (if data \<noteq> []
      then s\<lparr>dl_inBuffer := take (dl_inWrite s) (dl_inBuffer s) @ data @
                            drop (dl_inWrite s + length data) (dl_inBuffer s),
             dl_inWrite := inca (dl_inWrite s) (length data)\<rparr>
      else s)"

section \<open>Receiving\<close>

text \<open>
  The search for the start of a frame, SYN DLE STX. \<open>p\<close> is the loop's index, \<open>syn\<close> the
  member \<open>lastSYN\<close>; the result holds both and the index after STX, if the sequence was
  found. The index is normalised where the code does it, at the head of the loop and not
  before its test.
\<close>

partial_function (option) sync_search ::
  "bytes \<Rightarrow> nat \<Rightarrow> nat \<Rightarrow> int \<Rightarrow> (nat \<times> int \<times> nat option) option" where
  "sync_search buf inw p syn =
     (if p = inw then Some (p, syn, None)
      else let p = normalize p; c = buf ! p; p = p + 1
        in if c \<noteq> 0x16 then sync_search buf inw p syn
        else let syn = int p - 1; p = normalize p
        in if p = inw then Some (p, syn, None)
        else let c = buf ! p; p = p + 1
        in if c \<noteq> 0x10 then sync_search buf inw p syn
        else let p = normalize p
        in if p = inw then Some (p, syn, None)
        else let c = buf ! p; p = p + 1
        in if c \<noteq> 0x02 then sync_search buf inw p syn
        else let p = normalize p in Some (p, int p, Some p))"

definition rx_add :: "byte \<Rightarrow> rxstate \<Rightarrow> rxstate" where
  "rx_add c r = r\<lparr>rx_crcIn := addToCrc c (rx_crcIn r), rx_rcv := rx_rcv r @ [c]\<rparr>"

text \<open>One byte inside a frame: the \<open>switch\<close> on \<open>inCRCstate\<close>.\<close>

definition rx_byte :: "byte \<Rightarrow> rxstate \<Rightarrow> rxstate" where
  "rx_byte c r =
     (if rx_crcState r = 0 then
        (if rx_esc r then
           (let r = r\<lparr>rx_esc := False\<rparr>
            in if c = 0x03 then r\<lparr>rx_crcState := 1\<rparr>
               else if c = 0x04 then rx_add 0x03 r
               else rx_add c r)
         else if c = 0x10 then r\<lparr>rx_esc := True\<rparr> else rx_add c r)
      else if rx_crcState r = 1 then
        r\<lparr>rx_receivedCRC := push_bit 8 (ucast c), rx_crcState := 2\<rparr>
      else if rx_crcState r = 2 then
        r\<lparr>rx_receivedCRC := rx_receivedCRC r OR ucast c, rx_crcState := 0\<rparr>
      else r)"

text \<open>What the end of a frame hands on: the packet when its checksum is right.\<close>

definition rx_packet :: "rxstate \<Rightarrow> bytes option" where
  "rx_packet r = (if rx_receivedCRC r \<noteq> rx_crcIn r then None else Some (rx_rcv r))"

text \<open>
  The loop over the bytes of a frame: it runs to the write index, or ends after the
  second checksum byte with the packet, if any.
\<close>

partial_function (option) rx_scan ::
  "bytes \<Rightarrow> nat \<Rightarrow> nat \<Rightarrow> rxstate \<Rightarrow> (nat \<times> rxstate \<times> bytes option option) option" where
  "rx_scan buf inw p r =
     (if p = inw then Some (p, r, None)
      else if rx_crcState r = 2
      then (let r' = rx_byte (buf ! p) r
            in Some (inc1 p, r'\<lparr>rx_rcv := []\<rparr>, Some (rx_packet r')))
      else rx_scan buf inw (inc1 p) (rx_byte (buf ! p) r))"

definition rx_start :: "rxstate \<Rightarrow> rxstate" where
  "rx_start r = r\<lparr>rx_crcIn := 0, rx_crcState := 0, rx_rcv := [], rx_esc := False\<rparr>"

text \<open>
  \<open>processInputData\<close>. One round from the label \<open>outerLoop\<close> either returns, with the new
  state, the packets received and whether the link is stable (\<open>Inl\<close>), or goes back to the
  label after a complete frame (\<open>Inr\<close>).
\<close>

definition dl_findStart :: "datalink \<Rightarrow> (datalink \<times> nat) option" where
  "dl_findStart s =
     (let p = (if dl_lastSYN s \<ge> 0 then nat (dl_lastSYN s) else dl_inRead s)
      in if dl_startPkt s < 0
         then do {
           (p, syn, start) \<leftarrow> sync_search (dl_inBuffer s) (dl_inWrite s) p (dl_lastSYN s);
           Some (case start of
              None \<Rightarrow> (s\<lparr>dl_lastSYN := syn\<rparr>, p)
            | Some q \<Rightarrow> (s\<lparr>dl_lastSYN := syn, dl_startPkt := int q, dl_rx := rx_start (dl_rx s)\<rparr>, p)) }
         else Some (s, p))"

definition dl_frameEnd ::
  "datalink \<Rightarrow> bytes list \<Rightarrow> nat \<Rightarrow> rxstate \<Rightarrow> bytes option option \<Rightarrow>
   datalink \<times> bytes list \<times> bool + datalink \<times> bytes list" where
  "dl_frameEnd s received p r end_of_frame =
     (case end_of_frame of
        None \<Rightarrow> Inl (s\<lparr>dl_rx := r, dl_lastSYN := int p\<rparr>, received, True)
      | Some packet \<Rightarrow>
          let s = s\<lparr>dl_rx := r, dl_inRead := p, dl_startPkt := -1, dl_lastSYN := -1\<rparr>;
              received = received @ (case packet of None \<Rightarrow> [] | Some b \<Rightarrow> [b])
          in if hasData (dl_outRead s) (dl_outWrite s) then Inl (s, received, True)
             else Inr (s, received))"

definition dl_round ::
  "datalink \<Rightarrow> bytes list \<Rightarrow> (datalink \<times> bytes list \<times> bool + datalink \<times> bytes list) option" where
  "dl_round s received = do {
     (s, p) \<leftarrow> dl_findStart s;
     if dl_startPkt s \<ge> 0
     then do {
       let s = s\<lparr>dl_justStarted := False\<rparr>;
       (p, r, end_of_frame) \<leftarrow> rx_scan (dl_inBuffer s) (dl_inWrite s) p (dl_rx s);
       Some (dl_frameEnd s received p r end_of_frame) }
     else if dl_justStarted s
     then (let inw = dl_inWrite s;
               rx_amount = (if inw > dl_inRead s then inw - dl_inRead s
                            else BUFLEN - dl_inRead s + inw)
           in Some (Inl (s, received, \<not> rx_amount > 15)))
     else Some (Inl (s, received, True)) }"

partial_function (option) dl_processInputData ::
  "datalink \<Rightarrow> bytes list \<Rightarrow> (datalink \<times> bytes list \<times> bool) option" where
  "dl_processInputData s received = do {
     outcome \<leftarrow> dl_round s received;
     (case outcome of
        Inl result \<Rightarrow> Some result
      | Inr (s, received) \<Rightarrow> dl_processInputData s received) }"

section \<open>Baud rates and resets\<close>

definition kBaudRatesTable :: "int list" where
  "kBaudRatesTable = [115200, 57600, 38400, 19200, 9600]"

definition rx_initial :: rxstate where
  "rx_initial = \<lparr>rx_esc = False, rx_crcIn = 0, rx_crcState = 0, rx_receivedCRC = 0, rx_rcv = []\<rparr>"

text \<open>
  The constructor; \<open>new_fd\<close> is the result of \<open>init_serial\<close>, \<open>buf\<close> the contents of a
  fresh block of \<open>BUFLEN + 1\<close> bytes.
\<close>

definition dl_construct :: "int \<Rightarrow> bool \<Rightarrow> bytes \<Rightarrow> int \<Rightarrow> datalink" where
  "dl_construct baud noDSRCheck buf new_fd =
     \<lparr>dl_fd = new_fd, dl_serialStatus = None,
      dl_baudRateIndex = (if baud < 0 then 1 else 0),
      dl_baudRate = (if baud < 0 then kBaudRatesTable ! 0 else baud),
      dl_lastFatal = (new_fd = -1), dl_rx = rx_initial, dl_justStarted = True,
      dl_startPkt = -1, dl_lastSYN = -1,
      dl_inBuffer = buf, dl_inWrite = 0, dl_inRead = 0,
      dl_isCancelled = False, dl_outBuffer = buf, dl_outWrite = 0, dl_outRead = 0,
      dl_noDSRCheck = noDSRCheck, dl_requestedBaudRate = baud\<rparr>"

definition dl_internalReset :: "datalink \<Rightarrow> bool \<Rightarrow> int \<Rightarrow> datalink" where
  "dl_internalReset s resetBaudRateIndex new_fd =
     (let s = s\<lparr>dl_fd := -1, dl_outRead := 0, dl_outWrite := 0, dl_inRead := 0, dl_inWrite := 0,
                dl_rx := (dl_rx s)\<lparr>rx_esc := False, rx_crcIn := 0\<rparr>, dl_lastFatal := False,
                dl_serialStatus := None, dl_lastSYN := -1, dl_startPkt := -1,
                dl_baudRate := dl_requestedBaudRate s,
                dl_baudRateIndex := (if resetBaudRateIndex then 0 else dl_baudRateIndex s),
                dl_justStarted := True\<rparr>;
          s = (if dl_requestedBaudRate s < 0
               then (let i = dl_baudRateIndex s + 1
                     in s\<lparr>dl_baudRate := kBaudRatesTable ! dl_baudRateIndex s,
                          dl_baudRateIndex := (if i \<ge> length kBaudRatesTable then 0 else i)\<rparr>)
               else s)
      in if new_fd \<noteq> -1 then s\<lparr>dl_fd := new_fd, dl_lastFatal := False\<rparr>
         else s\<lparr>dl_fd := new_fd\<rparr>)"

definition dl_reset :: "datalink \<Rightarrow> int \<Rightarrow> datalink" where
  "dl_reset s new_fd = dl_internalReset s True new_fd"

definition dl_shutdown :: "datalink \<Rightarrow> datalink" where
  "dl_shutdown s = s\<lparr>dl_isCancelled := True\<rparr>"

definition dl_getSpeed :: "datalink \<Rightarrow> int" where
  "dl_getSpeed s = dl_baudRate s"

section \<open>Modem status\<close>

definition TIOCM_DTR :: "32 word" where "TIOCM_DTR = 0x002"
definition TIOCM_RTS :: "32 word" where "TIOCM_RTS = 0x004"
definition TIOCM_DSR :: "32 word" where "TIOCM_DSR = 0x100"

text \<open>
  \<open>linkFailed\<close>: \<open>get_ok\<close> and \<open>lines\<close> are the result of the first \<open>ioctl\<close>, \<open>set_ok\<close> that of
  the one that raises DTR and RTS. A serial status of \<open>-1\<close> is \<open>None\<close>.
\<close>

definition dl_linkFailed :: "datalink \<Rightarrow> bool \<Rightarrow> 32 word \<Rightarrow> bool \<Rightarrow> bool \<times> datalink" where
  "dl_linkFailed s get_ok lines set_ok =
     (if dl_fd s = -1 then (False, s)
      else
        (let s = (if get_ok then s else s\<lparr>dl_lastFatal := True\<rparr>);
             (s, arg) =
               (if dl_serialStatus s = None \<or> dl_serialStatus s \<noteq> Some lines
                then (let raise = \<not> ((lines AND TIOCM_RTS) \<noteq> 0 \<and> (lines AND TIOCM_DTR) \<noteq> 0);
                          arg = (if raise then lines OR (TIOCM_DTR OR TIOCM_RTS) else lines);
                          s = (if raise \<and> \<not> set_ok then s\<lparr>dl_lastFatal := True\<rparr> else s)
                      in (s\<lparr>dl_serialStatus := Some arg\<rparr>, arg))
                else (s, lines));
             failed = (\<not> dl_noDSRCheck s \<and> (arg AND TIOCM_DSR) = 0)
         in (dl_lastFatal s \<or> failed, s)))"

section \<open>The receiver on lists\<close>

text \<open>
  The frame loop read as a function of the bytes in the ring: the packet at the end of
  the frame with the bytes after it, or the state in which the input ran out.
\<close>

fun rx_list :: "bytes \<Rightarrow> rxstate \<Rightarrow> rxstate \<times> (bytes option \<times> bytes) option" where
  "rx_list [] r = (r, None)"
| "rx_list (c # cs) r =
     (if rx_crcState r = 2
      then (let r' = rx_byte c r in (r'\<lparr>rx_rcv := []\<rparr>, Some (rx_packet r', cs)))
      else rx_list cs (rx_byte c r))"

lemma rx_list_rest: "rx_list cs r = (r', Some (pkt, rest)) \<Longrightarrow> \<exists>ds. cs = ds @ rest \<and> ds \<noteq> []"
proof (induction cs r rule: rx_list.induct)
  case (2 c cs r)
  show ?case
  proof (cases "rx_crcState r = 2")
    case True
    with "2.prems" show ?thesis by (auto simp: Let_def)
  next
    case False
    with "2.prems" "2.IH" obtain ds where "cs = ds @ rest" by auto
    then have "c # cs = (c # ds) @ rest" by simp
    then show ?thesis by blast
  qed
qed simp

lemma rx_scan_list:
  assumes "p < BUFLEN" "inw < BUFLEN"
  shows "rx_scan buf inw p r =
    (case rx_list (ring_list buf p inw) r of
       (r', None) \<Rightarrow> Some (inw, r', None)
     | (r', Some (pkt, rest)) \<Rightarrow>
         Some (inca p (ring_count p inw - length rest), r', Some pkt))"
  using assms
proof (induction "ring_count p inw" arbitrary: p r rule: less_induct)
  case less
  show ?case
  proof (cases "p = inw")
    case True
    with less.prems show ?thesis by (simp add: rx_scan.simps)
  next
    case False
    have ring: "ring_list buf p inw = buf ! p # ring_list buf (inc1 p) inw"
      using less.prems False by (rule ring_list_Cons)
    have count: "Suc (ring_count (inc1 p) inw) = ring_count p inw"
      using less.prems False by (rule ring_count_inc_read)
    show ?thesis
    proof (cases "rx_crcState r = 2")
      case True
      with False show ?thesis
        by (simp add: rx_scan.simps [of buf inw p] ring Let_def count [symmetric] inca_Suc
            less.prems)
    next
      case not2: False
      let ?r = "rx_byte (buf ! p) r"
      have IH: "rx_scan buf inw (inc1 p) ?r =
          (case rx_list (ring_list buf (inc1 p) inw) ?r of
             (r', None) \<Rightarrow> Some (inw, r', None)
           | (r', Some (pkt, rest)) \<Rightarrow>
               Some (inca (inc1 p) (ring_count (inc1 p) inw - length rest), r', Some pkt))"
        using less.hyps [of "inc1 p" ?r] count less.prems(2) by simp
      have shift: "inca (inc1 p) (ring_count (inc1 p) inw - length rest) =
          inca p (ring_count p inw - length rest)"
        if "rx_list (ring_list buf (inc1 p) inw) ?r = (r', Some (pkt, rest))" for r' pkt rest
      proof -
        have "length rest \<le> ring_count (inc1 p) inw"
          using rx_list_rest [OF that] by (metis le_add2 length_append length_ring_list)
        then show ?thesis
          using count by (simp add: inc1_inca Suc_diff_le [symmetric])
      qed
      show ?thesis
        using False not2
        by (simp add: rx_scan.simps [of buf inw p] ring IH shift split: prod.splits option.splits)
    qed
  qed
qed

lemma sync_search_start:
  assumes "p < BUFLEN" "inw < BUFLEN" "ring_list buf p inw = 0x16 # 0x10 # 0x02 # rest"
  shows "sync_search buf inw p syn = Some (inca p 3, int (inca p 3), Some (inca p 3))"
    and "ring_list buf (inca p 3) inw = rest"
proof -
  let ?p1 = "inc1 p" and ?p2 = "inc1 (inc1 p)"
  have n0: "p \<noteq> inw" using assms by auto
  then have r0: "buf ! p = 0x16" "ring_list buf ?p1 inw = 0x10 # 0x02 # rest"
    using ring_list_Cons [of p inw buf] assms by auto
  then have n1: "?p1 \<noteq> inw" using assms by auto
  then have r1: "buf ! ?p1 = 0x10" "ring_list buf ?p2 inw = 0x02 # rest"
    using ring_list_Cons [of ?p1 inw buf] assms r0 by auto
  then have n2: "?p2 \<noteq> inw" using assms by auto
  then have r2: "buf ! ?p2 = 0x02" "ring_list buf (inc1 ?p2) inw = rest"
    using ring_list_Cons [of ?p2 inw buf] assms r1 by auto
  have p3: "inca p 3 = inc1 ?p2"
    using assms(1) by (simp add: inca_Suc numeral_3_eq_3)
  show "sync_search buf inw p syn = Some (inca p 3, int (inca p 3), Some (inca p 3))"
    using n0 n1 n2 r0(1) r1(1) r2(1) assms(1)
    by (simp add: sync_search.simps [of buf inw p] Let_def normalize_Suc p3)
  show "ring_list buf (inca p 3) inw = rest"
    using r2(2) by (simp add: p3)
qed

section \<open>Framing\<close>

lemma frame_body_eq:
  "frame_body e b m c = (m @ concat (map (stuff e) b), fold addToCrc b c)"
  by (induction b arbitrary: m c) simp_all

lemma dl_message_eq:
  "dl_message e b =
     [0x16, 0x10, 0x02] @ concat (map (stuff e) b) @
     [0x10, 0x03, ucast (drop_bit 8 (crc_of b)), ucast (crc_of b)]"
  by (simp add: dl_message_def frame_body_eq crc_of_def)

lemma crc_bytes_join:
  "push_bit 8 (ucast (ucast (drop_bit 8 (c :: 16 word)) :: byte)) OR ucast (ucast c :: byte) = c"
  using bit_word16_hi [of c]
  by (intro bit_word_eqI) (auto simp: bit_simps)

text \<open>A stuffed body leaves the receiver where the plain bytes would.\<close>

lemma rx_list_stuff:
  assumes "rx_crcState r = 0" "\<not> rx_esc r"
  shows "rx_list (concat (map (stuff e) b) @ cs) r =
     rx_list cs (r\<lparr>rx_crcIn := fold addToCrc b (rx_crcIn r), rx_rcv := rx_rcv r @ b\<rparr>)"
  using assms
proof (induction b arbitrary: r)
  case Nil
  then show ?case by simp
next
  case (Cons c b)
  have "rx_list (stuff e c @ ds) r = rx_list ds (rx_add c r)" for ds
    using Cons.prems by (cases r) (simp add: stuff_def rx_byte_def rx_add_def Let_def)
  with Cons show ?case
    by (simp add: rx_add_def)
qed

lemma rx_list_frame:
  "\<exists>r'. rx_list (drop 3 (dl_message e b) @ rest) (rx_start r) = (r', Some (Some b, rest))"
proof -
  let ?r = "(rx_start r)\<lparr>rx_crcIn := crc_of b, rx_rcv := b\<rparr>"
  have "rx_list (drop 3 (dl_message e b) @ rest) (rx_start r) =
      rx_list ([0x10, 0x03, ucast (drop_bit 8 (crc_of b)), ucast (crc_of b)] @ rest) ?r"
    using rx_list_stuff [of "rx_start r" e b]
    by (simp add: dl_message_eq rx_start_def crc_of_def)
  then show ?thesis
    by (simp add: rx_byte_def rx_start_def Let_def rx_packet_def crc_bytes_join)
qed

lemma length_message: "3 \<le> length (dl_message e b)"
  by (simp add: dl_message_eq)

lemma message_start: "\<exists>rest. dl_message e b = 0x16 # 0x10 # 0x02 # rest"
  by (simp add: dl_message_eq)

section \<open>Receiving frames\<close>

definition dl_wf :: "datalink \<Rightarrow> bool" where
  "dl_wf s \<longleftrightarrow> dl_inRead s < BUFLEN \<and> dl_inWrite s < BUFLEN \<and> dl_outRead s < BUFLEN \<and>
     dl_outWrite s < BUFLEN \<and> BUFLEN \<le> length (dl_inBuffer s) \<and> BUFLEN \<le> length (dl_outBuffer s)"

definition dl_input :: "datalink \<Rightarrow> bytes" where
  "dl_input s = ring_list (dl_inBuffer s) (dl_inRead s) (dl_inWrite s)"

definition dl_output :: "datalink \<Rightarrow> bytes" where
  "dl_output s = ring_list (dl_outBuffer s) (dl_outRead s) (dl_outWrite s)"

text \<open>Between frames: no frame has been started and no SYN is being remembered.\<close>

definition dl_idle :: "datalink \<Rightarrow> bool" where
  "dl_idle s \<longleftrightarrow> dl_startPkt s = -1 \<and> dl_lastSYN s = -1"

text \<open>The state after one frame of \<open>n\<close> bytes.\<close>

definition dl_consumed :: "datalink \<Rightarrow> rxstate \<Rightarrow> nat \<Rightarrow> datalink" where
  "dl_consumed s r n = s\<lparr>dl_justStarted := False, dl_rx := r, dl_inRead := inca (dl_inRead s) n,
                         dl_startPkt := -1, dl_lastSYN := -1\<rparr>"

lemma dl_consumed_simps [simp]:
  "dl_wf s \<Longrightarrow> dl_wf (dl_consumed s r n)" "dl_idle (dl_consumed s r n)"
  "dl_inWrite (dl_consumed s r n) = dl_inWrite s"
  "dl_outRead (dl_consumed s r n) = dl_outRead s" "dl_outWrite (dl_consumed s r n) = dl_outWrite s"
  "dl_justStarted (dl_consumed s r n) = False"
  by (simp_all add: dl_wf_def dl_idle_def dl_consumed_def)

lemma process_frame:
  assumes wf: "dl_wf s" and idle: "dl_idle s" and input: "dl_input s = dl_message e b @ rest"
  obtains r' where "dl_input (dl_consumed s r' (length (dl_message e b))) = rest"
    "dl_processInputData s received =
       (let s' = dl_consumed s r' (length (dl_message e b)); received' = received @ [b]
        in if hasData (dl_outRead s) (dl_outWrite s) then Some (s', received', True)
           else dl_processInputData s' received')"
proof -
  let ?buf = "dl_inBuffer s" and ?w = "dl_inWrite s" and ?p = "dl_inRead s"
  let ?n = "length (dl_message e b)"
  have ix: "?p < BUFLEN" "?w < BUFLEN" using wf by (simp_all add: dl_wf_def)
  have ring: "ring_list ?buf ?p ?w = dl_message e b @ rest"
    using input by (simp add: dl_input_def)
  then have count: "ring_count ?p ?w = ?n + length rest"
    by (metis length_append length_ring_list)
  obtain tail where tail: "dl_message e b = 0x16 # 0x10 # 0x02 # tail"
    using message_start by blast
  then have start: "ring_list ?buf ?p ?w = 0x16 # 0x10 # 0x02 # (tail @ rest)"
    using ring by simp
  have tail3: "tail = drop 3 (dl_message e b)" using tail by simp
  let ?q = "inca ?p 3"
  note sync = sync_search_start [OF ix start]
  have q: "?q < BUFLEN" by simp
  obtain r' where r': "rx_list (tail @ rest) (rx_start (dl_rx s)) = (r', Some (Some b, rest))"
    unfolding tail3 using rx_list_frame by blast
  have n3: "?n = length tail + 3" using tail by simp
  have count3: "ring_count ?q ?w = length tail + length rest"
    using sync(2) by (metis length_append length_ring_list)
  have scan: "rx_scan ?buf ?w ?q (rx_start (dl_rx s)) = Some (inca ?p ?n, r', Some (Some b))"
    using rx_scan_list [OF q ix(2), of ?buf "rx_start (dl_rx s)"]
    by (simp add: sync(2) r' count3 inca_inca n3 add.commute)
  have "dl_processInputData s received =
       (let s' = dl_consumed s r' ?n; received' = received @ [b]
        in if hasData (dl_outRead s) (dl_outWrite s) then Some (s', received', True)
           else dl_processInputData s' received')"
    using idle
    by (subst dl_processInputData.simps)
       (simp add: dl_round_def dl_findStart_def dl_frameEnd_def dl_idle_def Let_def sync(1) scan dl_consumed_def)
  moreover have "dl_input (dl_consumed s r' ?n) = rest"
    using ring_list_drop [OF ix, of ?n ?buf] count ring
    by (simp add: dl_input_def dl_consumed_def)
  ultimately show thesis using that by blast
qed

lemma process_nothing:
  assumes "dl_wf s" "dl_idle s" "dl_input s = []" "\<not> dl_justStarted s"
  shows "dl_processInputData s received = Some (s, received, True)"
proof -
  have "dl_inRead s = dl_inWrite s"
    using assms by (simp add: dl_wf_def dl_input_def ring_list_Nil_iff)
  then show ?thesis
    using assms
    by (subst dl_processInputData.simps)
       (simp add: dl_round_def dl_findStart_def dl_frameEnd_def dl_idle_def Let_def sync_search.simps)
qed

lemma process_frames:
  assumes "dl_wf s" "dl_idle s" "dl_input s = concat (map (dl_message e) ps)"
    "\<not> hasData (dl_outRead s) (dl_outWrite s)" "ps \<noteq> [] \<or> \<not> dl_justStarted s"
  shows "\<exists>s'. dl_processInputData s received = Some (s', received @ ps, True) \<and>
           dl_idle s' \<and> dl_input s' = [] \<and> dl_output s' = dl_output s"
  using assms
proof (induction ps arbitrary: s received)
  case Nil
  then show ?case using process_nothing [of s received] by auto
next
  case (Cons b ps)
  obtain r' where r': "dl_input (dl_consumed s r' (length (dl_message e b))) = concat (map (dl_message e) ps)"
    and step: "dl_processInputData s received =
       (let s' = dl_consumed s r' (length (dl_message e b)); received' = received @ [b]
        in if hasData (dl_outRead s) (dl_outWrite s) then Some (s', received', True)
           else dl_processInputData s' received')"
    using process_frame [of s e b "concat (map (dl_message e) ps)" received] Cons.prems by auto
  let ?s = "dl_consumed s r' (length (dl_message e b))"
  have "dl_output ?s = dl_output s"
    by (simp add: dl_output_def dl_consumed_def)
  with Cons.IH [of ?s "received @ [b]"] Cons.prems r' step show ?case
    by (simp add: Let_def)
qed

section \<open>The rings\<close>

lemma dl_outFree_count: "dl_wf s \<Longrightarrow> dl_outFree s = BUFLEN - 1 - length (dl_output s)"
  by (auto simp: dl_wf_def dl_outFree_def dl_output_def ring_count_def BUFLEN_def mod_if
      split: if_splits)

lemma dl_send_writes:
  assumes "dl_wf s" "\<not> dl_isCancelled s" "length (dl_message e b) \<le> dl_outFree s"
  obtains s' where "dl_send s b e = Some s'" "dl_wf s'" "dl_output s' = dl_output s @ dl_message e b"
    "dl_input s' = dl_input s"
proof -
  let ?m = "dl_message e b"
  let ?s = "s\<lparr>dl_outBuffer := fst (ring_put ?m (dl_outBuffer s) (dl_outWrite s)),
              dl_outWrite := snd (ring_put ?m (dl_outBuffer s) (dl_outWrite s))\<rparr>"
  have len: "ring_count (dl_outRead s) (dl_outWrite s) + length ?m < BUFLEN"
    using assms(3) dl_outFree_count [OF assms(1)] ring_count_less [of "dl_outRead s" "dl_outWrite s"]
    unfolding dl_output_def length_ring_list by linarith
  have "dl_send s b e = Some ?s"
    using assms(2,3) by (simp add: dl_send_def Let_def split_beta)
  moreover have "dl_wf ?s"
    using assms(1) by (simp add: dl_wf_def ring_put_frame)
  moreover have "dl_output ?s = dl_output s @ ?m"
    using assms(1) len by (simp add: dl_output_def dl_wf_def ring_list_put)
  ultimately show thesis using that by (simp add: dl_input_def)
qed

lemma pump_write_takes:
  assumes "dl_wf s" "n \<le> pump_writeCount s"
  shows "fst (pump_write s n) = take n (dl_output s)"
    and "dl_output (snd (pump_write s n)) = drop n (dl_output s)"
proof -
  let ?r = "dl_outRead s" and ?w = "dl_outWrite s" and ?buf = "dl_outBuffer s"
  have wf: "?r < BUFLEN" "?w < BUFLEN" "BUFLEN \<le> length ?buf"
    using assms(1) by (simp_all add: dl_wf_def)
  have n: "n \<le> ring_count ?r ?w" "?r + n \<le> BUFLEN"
    using assms wf by (auto simp: pump_writeCount_def Let_def ring_count_def BUFLEN_def mod_if
        split: if_splits)
  show "fst (pump_write s n) = take n (dl_output s)"
  proof (rule nth_equalityI)
    show "length (fst (pump_write s n)) = length (take n (dl_output s))"
      using n wf by (simp add: pump_write_def dl_output_def)
  next
    fix i assume "i < length (fst (pump_write s n))"
    then have i: "i < n" by (simp add: pump_write_def)
    then have "inca ?r i = ?r + i" using n by (simp add: inca_def)
    with i n wf show "fst (pump_write s n) ! i = take n (dl_output s) ! i"
      by (simp add: pump_write_def dl_output_def ring_list_nth)
  qed
  show "dl_output (snd (pump_write s n)) = drop n (dl_output s)"
    using ring_list_drop [OF wf(1,2) n(1), of ?buf] by (simp add: pump_write_def dl_output_def)
qed

lemma ring_list_write_block:
  assumes "r < BUFLEN" "w < BUFLEN" "BUFLEN \<le> length buf" "w + length xs \<le> BUFLEN"
    "ring_count r w + length xs < BUFLEN"
  shows "ring_list (take w buf @ xs @ drop (w + length xs) buf) r (inca w (length xs)) =
         ring_list buf r w @ xs"
proof -
  have "fst (ring_put xs buf w) = take w buf @ xs @ drop (w + length xs) buf"
    using assms(2-4)
  proof (induction xs arbitrary: buf w)
    case Nil
    then show ?case by simp
  next
    case (Cons x xs)
    have upd: "take (Suc w) (buf[w := x]) = take w buf @ [x]"
      using Cons.prems by (simp add: take_Suc_conv_app_nth)
    show ?case
    proof (cases xs)
      case Nil
      with Cons.prems show ?thesis
        by (simp add: upd_conv_take_nth_drop)
    next
      case (Cons y ys)
      then have "Suc w < BUFLEN" using Cons.prems by simp
      then have "inc1 w = Suc w" by (simp add: inc1_def inca_def)
      with Cons.IH [of "Suc w" "buf[w := x]"] Cons.prems \<open>Suc w < BUFLEN\<close> upd show ?thesis
        by simp
    qed
  qed
  moreover have "snd (ring_put xs buf w) = inca w (length xs)"
    using assms(2) by (rule ring_put_frame)
  ultimately show ?thesis
    using ring_list_put [OF assms(1,2,5,3)] by simp
qed

lemma pump_read_appends:
  assumes "dl_wf s" "length data \<le> pump_readCount s"
    "length (dl_input s) + length data < BUFLEN"
  shows "dl_input (pump_read s data) = dl_input s @ data" "dl_wf (pump_read s data)"
proof -
  have "dl_inWrite s + length data \<le> BUFLEN"
    using assms(1,2) by (auto simp: pump_readCount_def dl_wf_def Let_def split: if_splits)
  then show "dl_input (pump_read s data) = dl_input s @ data"
    using assms(1,3)
    by (auto simp: pump_read_def dl_input_def dl_wf_def ring_list_write_block)
  show "dl_wf (pump_read s data)"
    using assms(1) by (auto simp: pump_read_def dl_wf_def)
qed

text \<open>A \<open>read\<close> that fills the ring completely makes it look empty.\<close>

lemma pump_read_full:
  assumes "dl_wf s" "length (dl_input s) + length data = BUFLEN"
  shows "dl_input (pump_read s data) = []" "\<not> hasData (dl_inRead (pump_read s data)) (dl_inWrite (pump_read s data))"
proof -
  have r: "dl_inRead s < BUFLEN" "dl_inWrite s < BUFLEN"
    using assms(1) by (simp_all add: dl_wf_def)
  have ne: "data \<noteq> []"
    using assms(2) ring_count_less [of "dl_inRead s" "dl_inWrite s"]
    unfolding dl_input_def by (auto simp del: ring_count_less)
  have "inca (dl_inWrite s) (length data) = dl_inRead s"
    using r assms(2) by (auto simp: dl_input_def inca_def ring_count_def BUFLEN_def mod_if
        split: if_splits)
  then show "dl_input (pump_read s data) = []"
    "\<not> hasData (dl_inRead (pump_read s data)) (dl_inWrite (pump_read s data))"
    using r ne by (simp_all add: pump_read_def dl_input_def hasData_def)
qed

section \<open>The scan past the end of the ring\<close>

text \<open>
  With the write index at 0 the test \<open>p != inw\<close> does not see the index reach \<open>BUFLEN\<close>:
  it is normalised only after the test.
\<close>

lemma sync_search_noise:
  assumes "0 < p" "p \<le> BUFLEN" "\<And>i. p \<le> i \<Longrightarrow> i < BUFLEN \<Longrightarrow> buf ! i \<noteq> 0x16"
  shows "sync_search buf 0 p syn = sync_search buf 0 BUFLEN syn"
  using assms
proof (induction "BUFLEN - p" arbitrary: p)
  case 0
  then show ?case by simp
next
  case (Suc n)
  then have p: "p < BUFLEN" "n = BUFLEN - Suc p" by simp_all
  have "sync_search buf 0 p syn = sync_search buf 0 (Suc p) syn"
    using Suc.prems(1) Suc.prems(3) [of p] p(1)
    by (subst sync_search.simps) (simp add: Let_def)
  with Suc.hyps(1) [OF p(2)] Suc.prems(3) p(1) show ?case by simp
qed

lemma sync_search_wrap:
  assumes "buf ! 0 = 0x16" "buf ! Suc 0 = 0x10" "buf ! Suc (Suc 0) = 0x02"
  shows "sync_search buf 0 BUFLEN syn = Some (3, 3, Some 3)"
  using assms by (subst sync_search.simps) (simp add: Let_def normalize_def BUFLEN_def)

text \<open>
  A state in which the bytes before the read index are the frame consumed last, and the
  rest of the block, up to its end, is line noise without a SYN.
\<close>

definition dl_noisy :: "datalink \<Rightarrow> bool \<Rightarrow> bytes \<Rightarrow> bytes \<Rightarrow> bool" where
  "dl_noisy s e b noise \<longleftrightarrow>
     dl_idle s \<and> dl_inRead s = length (dl_message e b) \<and> dl_inWrite s = 0 \<and>
     take BUFLEN (dl_inBuffer s) = dl_message e b @ noise \<and> 0x16 \<notin> set noise \<and> noise \<noteq> [] \<and>
     BUFLEN \<le> length (dl_inBuffer s)"

lemma process_noisy:
  assumes "dl_noisy s e b noise"
  obtains r' where
    "\<And>received. dl_processInputData s received =
       (let s' = s\<lparr>dl_justStarted := False, dl_rx := r'\<rparr>; received' = received @ [b]
        in if hasData (dl_outRead s) (dl_outWrite s) then Some (s', received', True)
           else dl_processInputData s' received')"
proof -
  let ?buf = "dl_inBuffer s" and ?n = "length (dl_message e b)"
  have len: "?n + length noise = BUFLEN"
    using assms by (auto simp: dl_noisy_def dest: arg_cong [where f = length])
  have nz: "0 < length noise" using assms by (simp add: dl_noisy_def)
  have nth: "?buf ! i = (dl_message e b @ noise) ! i" if "i < BUFLEN" for i
    using assms that by (metis dl_noisy_def nth_take)
  obtain tail where tail: "dl_message e b = 0x16 # 0x10 # 0x02 # tail"
    using message_start by blast
  have head: "?buf ! 0 = 0x16" "?buf ! Suc 0 = 0x10" "?buf ! Suc (Suc 0) = 0x02"
    using nth [of 0] nth [of "Suc 0"] nth [of "Suc (Suc 0)"] tail by (simp_all add: BUFLEN_def)
  have "sync_search ?buf 0 ?n (-1) = sync_search ?buf 0 BUFLEN (-1)"
  proof (rule sync_search_noise)
    show "?buf ! i \<noteq> 0x16" if "?n \<le> i" "i < BUFLEN" for i
    proof -
      have "?buf ! i = noise ! (i - ?n)"
        using nth [OF that(2)] that(1) by (simp add: nth_append)
      moreover have "noise ! (i - ?n) \<in> set noise"
        using that len by (intro nth_mem) linarith
      ultimately show ?thesis
        using assms by (auto simp: dl_noisy_def)
    qed
  qed (use len tail in simp_all)
  then have sync: "sync_search ?buf 0 ?n (-1) = Some (3, 3, Some 3)"
    using sync_search_wrap [OF head] by simp
  have ring0: "ring_list ?buf 0 0 = []" by simp
  have ix: "(3::nat) < BUFLEN" "(0::nat) < BUFLEN" by (simp_all add: BUFLEN_def)
  have cnt: "ring_count 3 0 = BUFLEN - 3"
    by (simp add: ring_count_def BUFLEN_def)
  have ring: "ring_list ?buf 3 0 = tail @ noise"
  proof (rule nth_equalityI)
    show "length (ring_list ?buf 3 0) = length (tail @ noise)"
      using len tail by (simp add: cnt)
  next
    fix i assume "i < length (ring_list ?buf 3 0)"
    then have i: "i < BUFLEN - 3" by (simp add: cnt)
    then show "ring_list ?buf 3 0 ! i = (tail @ noise) ! i"
      using nth [of "3 + i"] tail by (simp add: ring_list_nth cnt inca_def)
  qed
  have tail3: "tail = drop 3 (dl_message e b)" using tail by simp
  obtain r' where r': "rx_list (tail @ noise) (rx_start (dl_rx s)) = (r', Some (Some b, noise))"
    unfolding tail3 using rx_list_frame by blast
  have "inca 3 (BUFLEN - 3 - length noise) = ?n"
    using len tail nz by (simp add: inca_def)
  then have scan: "rx_scan ?buf 0 3 (rx_start (dl_rx s)) = Some (?n, r', Some (Some b))"
    using rx_scan_list [OF ix, of ?buf "rx_start (dl_rx s)"] by (simp add: ring r' cnt)
  have "dl_processInputData s received =
       (let s' = s\<lparr>dl_justStarted := False, dl_rx := r'\<rparr>; received' = received @ [b]
        in if hasData (dl_outRead s) (dl_outWrite s) then Some (s', received', True)
           else dl_processInputData s' received')" for received
  proof -
    have s: "s\<lparr>dl_inRead := ?n, dl_startPkt := - 1, dl_lastSYN := - 1\<rparr> = s"
      using assms by (cases s) (simp add: dl_noisy_def dl_idle_def)
    have upd: "s\<lparr>dl_justStarted := False, dl_rx := r', dl_inRead := ?n, dl_startPkt := - 1, dl_lastSYN := - 1\<rparr>
        = s\<lparr>dl_justStarted := False, dl_rx := r'\<rparr>"
      by (subst (2) s [symmetric]) simp
    show ?thesis
      using assms
      by (subst dl_processInputData.simps)
         (simp add: dl_round_def dl_findStart_def dl_frameEnd_def dl_noisy_def dl_idle_def Let_def sync scan upd [simplified])
  qed
  then show thesis by (rule that)
qed

lemma dl_frameEnd_grows:
  "dl_frameEnd s received p r e = Inr (s', received') \<Longrightarrow> length received \<le> length received'"
  by (auto simp: dl_frameEnd_def Let_def split: if_splits option.splits)

lemma dl_round_grows:
  "dl_round s received = Some (Inr (s', received')) \<Longrightarrow> length received \<le> length received'"
  by (auto simp: dl_round_def Let_def bind_eq_Some_conv dl_frameEnd_grows
      split: if_splits prod.splits)

lemma dl_frameEnd_Inl:
  "dl_frameEnd s received p r e = Inl result \<Longrightarrow> length received \<le> length (fst (snd result))"
  by (auto simp: dl_frameEnd_def Let_def split: if_splits option.splits)

lemma dl_round_Inl:
  assumes "dl_round s received = Some (Inl result)"
  shows "length received \<le> length (fst (snd result))"
proof -
  obtain t p where "dl_findStart s = Some (t, p)"
    using assms by (cases "dl_findStart s") (auto simp: dl_round_def)
  with assms show ?thesis
    by (auto simp: dl_round_def Let_def bind_eq_Some_conv dl_frameEnd_Inl split: if_splits)
qed

lemma process_grows:
  assumes "dl_processInputData s received = Some r"
  shows "length received \<le> length (fst (snd r))"
proof (rule dl_processInputData.raw_induct
    [where P = "\<lambda>s received r. length received \<le> length (fst (snd r))", OF _ assms])
  fix f :: "datalink \<Rightarrow> bytes list \<Rightarrow> (datalink \<times> bytes list \<times> bool) option" and s received r
  assume IH: "\<And>s received r. f s received = Some r \<Longrightarrow> length received \<le> length (fst (snd r))"
  assume "do { outcome \<leftarrow> dl_round s received;
     (case outcome of Inl result \<Rightarrow> Some result | Inr (s, received) \<Rightarrow> f s received) } = Some r"
  then obtain outcome where o: "dl_round s received = Some outcome"
    "(case outcome of Inl result \<Rightarrow> Some result | Inr (s, received) \<Rightarrow> f s received) = Some r"
    by (auto simp: bind_eq_Some_conv)
  show "length received \<le> length (fst (snd r))"
  proof (cases outcome)
    case (Inl result)
    with o show ?thesis by (simp add: dl_round_Inl)
  next
    case (Inr again)
    obtain s' received' where n: "again = (s', received')" by (cases again)
    have "length received \<le> length received'"
      using dl_round_grows o(1) Inr n by simp
    also have "\<dots> \<le> length (fst (snd r))"
      using IH o(2) Inr n by simp
    finally show ?thesis .
  qed
qed

text \<open>Sending several packets, one call after the other.\<close>

primrec dl_send_all :: "datalink \<Rightarrow> bytes list \<Rightarrow> bool \<Rightarrow> datalink option" where
  "dl_send_all s [] e = Some s"
| "dl_send_all s (b # bs) e = do { s' \<leftarrow> dl_send s b e; dl_send_all s' bs e }"

lemma dl_send_Some:
  assumes "dl_send s b e = Some s'" "dl_wf s" "\<not> dl_isCancelled s"
  shows "dl_wf s'" "dl_output s' = dl_output s @ dl_message e b" "\<not> dl_isCancelled s'"
proof -
  have "length (dl_message e b) \<le> dl_outFree s"
    using assms(1,3) by (auto simp: dl_send_def Let_def split: if_splits)
  with assms show "dl_wf s'" "dl_output s' = dl_output s @ dl_message e b"
    by (metis dl_send_writes option.inject)+
  show "\<not> dl_isCancelled s'"
    using assms(1,3) by (auto simp: dl_send_def Let_def split_beta split: if_splits)
qed

lemma dl_send_all_output:
  "dl_send_all s bs e = Some s' \<Longrightarrow> dl_wf s \<Longrightarrow> \<not> dl_isCancelled s \<Longrightarrow>
   dl_output s' = dl_output s @ concat (map (dl_message e) bs)"
proof (induction bs arbitrary: s)
  case Nil
  then show ?case by simp
next
  case (Cons b bs)
  then obtain t where t: "dl_send s b e = Some t" "dl_send_all t bs e = Some s'"
    by (auto simp: bind_eq_Some_conv)
  then show ?case
    using Cons.IH [OF t(2)] dl_send_Some [OF t(1) Cons.prems(2,3)] by simp
qed

section \<open>Properties\<close>

text \<open>
  C1: packets survive the serial line. Whatever packets \<open>send\<close> queues one after the
  other, with or without EPOC stuffing, once the bytes of the output ring have arrived
  in the input ring of a receiver that is between frames, \<open>processInputData\<close> returns: it
  delivers exactly these packets, complete and in order, with every checksum right, and
  leaves its ring empty.
\<close>

theorem datalink_roundtrip:
  assumes "dl_wf a" and "dl_output a = []" and "\<not> dl_isCancelled a"
    and "dl_send_all a packets isEPOC = Some a'"
    and "dl_wf b" and "dl_idle b" and "\<not> hasData (dl_outRead b) (dl_outWrite b)"
    and "dl_input b = dl_output a'" and "packets \<noteq> []"
  shows "\<exists>b'. dl_processInputData b [] = Some (b', packets, True) \<and> dl_idle b' \<and> dl_input b' = []"
proof -
  have "dl_input b = concat (map (dl_message isEPOC) packets)"
    using dl_send_all_output [OF assms(4,1,3)] assms(2,8) by simp
  then show ?thesis
    using process_frames [of b isEPOC packets "[]"] assms by auto
qed

definition dl_sample :: "bytes \<Rightarrow> datalink" where
  "dl_sample input =
     (dl_construct 9600 True (replicate (BUFLEN + 1) 0) 3)
       \<lparr>dl_inBuffer := input @ replicate (BUFLEN + 1) 0, dl_inWrite := length input\<rparr>"

lemma dl_sample_input:
  assumes "length input < BUFLEN"
  shows "dl_input (dl_sample input) = input"
proof (rule nth_equalityI)
  show "length (dl_input (dl_sample input)) = length input"
    using assms by (simp add: dl_input_def dl_sample_def dl_construct_def ring_count_def)
next
  fix i assume "i < length (dl_input (dl_sample input))"
  with assms show "dl_input (dl_sample input) ! i = input ! i"
    by (simp add: dl_input_def dl_sample_def dl_construct_def ring_list_nth inca_def
        ring_count_def nth_append)
qed

theorem datalink_roundtrip_witness:
  "\<exists>a' b'. dl_send_all (dl_sample []) [[0x03, 0x10], []] True = Some a' \<and>
     dl_processInputData (dl_sample (dl_output a')) [] = Some (b', [[0x03, 0x10], []], True)"
proof -
  let ?a = "dl_sample []" and ?ps = "[[0x03, 0x10], []] :: bytes list"
  have a: "dl_wf ?a" "dl_output ?a = []" "\<not> dl_isCancelled ?a"
    by (simp_all add: dl_wf_def dl_output_def dl_sample_def dl_construct_def)
  have len: "length (dl_message True [0x03, 0x10]) = 11" "length (dl_message True []) = 7"
    by (simp_all add: dl_message_eq stuff_def)
  have free: "dl_outFree ?a = 4095"
    using dl_outFree_count [OF a(1)] a(2) by (simp add: BUFLEN_def)
  obtain a1 where a1: "dl_send ?a [0x03, 0x10] True = Some a1"
    using dl_send_writes [OF a(1,3), of True "[0x03, 0x10]"] free len by auto
  note a1' = dl_send_Some [OF a1 a(1,3)]
  have free1: "dl_outFree a1 = 4084"
    using dl_outFree_count [OF a1'(1)] a1'(2) a(2) len by (simp add: BUFLEN_def)
  obtain a2 where a2: "dl_send a1 [] True = Some a2"
    using dl_send_writes [OF a1'(1,3), of True "[]"] free1 len by auto
  have send: "dl_send_all ?a ?ps True = Some a2"
    using a1 a2 by simp
  have "length (dl_output a2) = 18"
    using dl_send_all_output [OF send a(1,3)] a(2) len by simp
  then have b: "dl_input (dl_sample (dl_output a2)) = dl_output a2"
    and wf: "dl_wf (dl_sample (dl_output a2))"
    by (simp_all add: dl_sample_input BUFLEN_def dl_wf_def) (simp_all add: dl_sample_def dl_construct_def BUFLEN_def)
  have idle: "dl_idle (dl_sample (dl_output a2))"
    "\<not> hasData (dl_outRead (dl_sample (dl_output a2))) (dl_outWrite (dl_sample (dl_output a2)))"
    by (simp_all add: dl_idle_def dl_sample_def dl_construct_def hasData_def)
  show ?thesis
    using datalink_roundtrip [OF a send wf idle b] send by auto
qed

text \<open>
  the output ring is a queue. A \<open>send\<close> that finds room appends its whole frame to
  what is waiting, and a \<open>write\<close> of the pump thread that took \<open>n\<close> bytes sent the first
  \<open>n\<close> bytes of what was waiting and leaves the rest, also when the ring wraps around.
\<close>

theorem datalink_output_queue:
  assumes "dl_wf s" and "\<not> dl_isCancelled s" and "n \<le> pump_writeCount s"
  shows "(length (dl_message e b) \<le> dl_outFree s \<longrightarrow>
            (\<exists>s'. dl_send s b e = Some s' \<and> dl_output s' = dl_output s @ dl_message e b)) \<and>
         fst (pump_write s n) = take n (dl_output s) \<and>
         dl_output (snd (pump_write s n)) = drop n (dl_output s)"
  using dl_send_writes [OF assms(1,2)] pump_write_takes [OF assms(1,3)] by metis

theorem datalink_output_queue_witness:
  "\<exists>s'. dl_send (dl_sample []) [1] False = Some s' \<and> dl_output s' = dl_message False [1]"
proof -
  have s: "dl_wf (dl_sample [])" "\<not> dl_isCancelled (dl_sample [])" "0 \<le> pump_writeCount (dl_sample [])"
    by (simp_all add: dl_wf_def dl_sample_def dl_construct_def)
  have "dl_output (dl_sample []) = []"
    by (simp add: dl_output_def dl_sample_def dl_construct_def)
  moreover have "length (dl_message False [1]) \<le> dl_outFree (dl_sample [])"
    using dl_outFree_count [OF s(1)] calculation
    by (simp add: dl_message_eq stuff_def BUFLEN_def)
  ultimately show ?thesis
    using datalink_output_queue [OF s, of False "[1]"] by simp
qed

text \<open>
  Bytes the pump thread reads are appended to the input as long as the ring does
  not become full; but the length it asks for also allows a \<open>read\<close> that fills the ring
  to the last byte, and then the ring counts as empty and everything in it is lost.
\<close>

theorem datalink_input_fill:
  assumes "dl_wf s" and "length data \<le> pump_readCount s"
  shows "length (dl_input s) + length data \<le> BUFLEN \<and>
         dl_input (pump_read s data) =
           (if length (dl_input s) + length data < BUFLEN then dl_input s @ data else [])"
proof -
  have "length (dl_input s) + length data \<le> BUFLEN"
    using assms by (auto simp: pump_readCount_def dl_wf_def dl_input_def Let_def ring_count_def
        BUFLEN_def mod_if split: if_splits)
  then show ?thesis
    using pump_read_appends(1) [OF assms] pump_read_full(1) [OF assms(1), of data] by auto
qed

theorem datalink_input_fill_witness:
  "dl_input (pump_read (dl_sample []) (replicate BUFLEN 0)) = []"
proof -
  have wf: "dl_wf (dl_sample [])"
    by (simp add: dl_wf_def dl_sample_def dl_construct_def)
  have "length (replicate BUFLEN (0 :: byte)) \<le> pump_readCount (dl_sample [])"
    by (simp add: pump_readCount_def dl_sample_def dl_construct_def)
  from datalink_input_fill [OF wf this] show ?thesis
    by (simp add: dl_sample_input)
qed

text \<open>
  C22: \<open>processInputData\<close> can run past the end of its input. When the bytes after the
  frame consumed last are noise without a SYN up to the end of the ring, so that the write
  index is 0, the scan wraps around to the old frame and delivers its packet a second
  time; with no output waiting it then starts over and never returns.
\<close>

theorem datalink_noise_redelivers:
  assumes "dl_noisy s isEPOC packet noise"
  shows "if hasData (dl_outRead s) (dl_outWrite s)
         then \<exists>s'. dl_processInputData s received = Some (s', received @ [packet], True)
         else dl_processInputData s received = None"
proof (cases "hasData (dl_outRead s) (dl_outWrite s)")
  case True
  obtain r' where "dl_processInputData s received =
       (let s' = s\<lparr>dl_justStarted := False, dl_rx := r'\<rparr>; received' = received @ [packet]
        in if hasData (dl_outRead s) (dl_outWrite s) then Some (s', received', True)
           else dl_processInputData s' received')"
    using process_noisy [OF assms] by blast
  with True show ?thesis by (simp add: Let_def)
next
  case False
  have again: "\<exists>t. dl_noisy t isEPOC packet noise \<and> \<not> hasData (dl_outRead t) (dl_outWrite t) \<and>
      dl_processInputData s received = dl_processInputData t (received @ replicate n packet)" for n
  proof (induction n)
    case 0
    with assms False show ?case by auto
  next
    case (Suc n)
    then obtain t where t: "dl_noisy t isEPOC packet noise"
      "\<not> hasData (dl_outRead t) (dl_outWrite t)"
      "dl_processInputData s received = dl_processInputData t (received @ replicate n packet)"
      by blast
    obtain r' where r': "\<And>received. dl_processInputData t received =
       (let s' = t\<lparr>dl_justStarted := False, dl_rx := r'\<rparr>; received' = received @ [packet]
        in if hasData (dl_outRead t) (dl_outWrite t) then Some (s', received', True)
           else dl_processInputData s' received')"
      by (rule process_noisy [OF t(1)]) blast
    have "dl_processInputData t (received @ replicate n packet) =
        dl_processInputData (t\<lparr>dl_justStarted := False, dl_rx := r'\<rparr>)
          ((received @ replicate n packet) @ [packet])"
      using t(2) by (subst r') (simp add: Let_def)
    moreover have "dl_noisy (t\<lparr>dl_justStarted := False, dl_rx := r'\<rparr>) isEPOC packet noise"
      using t(1) by (simp add: dl_noisy_def dl_idle_def)
    ultimately show ?case
      using t(2,3) by (intro exI [of _ "t\<lparr>dl_justStarted := False, dl_rx := r'\<rparr>"])
        (simp add: replicate_append_same)
  qed
  have "dl_processInputData s received \<noteq> Some r" for r
  proof
    assume r: "dl_processInputData s received = Some r"
    obtain t where "dl_processInputData s received =
        dl_processInputData t (received @ replicate (Suc (length (fst (snd r)))) packet)"
      using again by blast
    with r process_grows [of t "received @ replicate (Suc (length (fst (snd r)))) packet" r]
    show False by simp
  qed
  with False show ?thesis by (cases "dl_processInputData s received") auto
qed

theorem datalink_noise_redelivers_witness:
  "dl_processInputData ((dl_sample (dl_message False [1] @ replicate 4088 0))
      \<lparr>dl_inRead := 8, dl_inWrite := 0\<rparr>) [] = None"
proof -
  let ?s = "(dl_sample (dl_message False [1] @ replicate 4088 0))\<lparr>dl_inRead := 8, dl_inWrite := 0\<rparr>"
  have "dl_noisy ?s False [1] (replicate 4088 0)"
    by (simp add: dl_noisy_def dl_idle_def dl_sample_def dl_construct_def dl_message_eq stuff_def
        BUFLEN_def)
  moreover have "\<not> hasData (dl_outRead ?s) (dl_outWrite ?s)"
    by (simp add: dl_sample_def dl_construct_def hasData_def)
  ultimately show ?thesis
    using datalink_noise_redelivers [of ?s False "[1]" "replicate 4088 0" "[]"] by simp
qed

section \<open>Baud rate search\<close>

text \<open>The resets of the pump thread, one for each unstable link; the results of \<open>init_serial\<close>.\<close>

primrec dl_retry :: "datalink \<Rightarrow> int list \<Rightarrow> datalink" where
  "dl_retry s [] = s"
| "dl_retry s (fd # fds) = dl_retry (dl_internalReset s False fd) fds"

lemma dl_internalReset_auto:
  assumes "dl_requestedBaudRate s < 0" "dl_baudRateIndex s = Suc n mod 5"
    "s' = dl_internalReset s False fd"
  shows "dl_requestedBaudRate s' < 0" "dl_baudRateIndex s' = Suc (Suc n) mod 5"
    "dl_baudRate s' = kBaudRatesTable ! (Suc n mod 5)"
  using assms by (auto simp: dl_internalReset_def Let_def kBaudRatesTable_def mod_Suc)

lemma dl_retry_auto:
  assumes "dl_requestedBaudRate s < 0" "dl_baudRateIndex s = Suc n mod 5"
    "dl_baudRate s = kBaudRatesTable ! (n mod 5)"
  shows "dl_baudRate (dl_retry s fds) = kBaudRatesTable ! ((n + length fds) mod 5)"
  using assms
proof (induction fds arbitrary: s n)
  case Nil
  then show ?case by simp
next
  case (Cons fd fds)
  note next_rate = dl_internalReset_auto [OF Cons.prems(1,2) refl]
  show ?case
    using Cons.IH [of "dl_internalReset s False fd" "Suc n"] next_rate [of fd] by simp
qed

lemma dl_retry_fixed:
  "0 \<le> dl_requestedBaudRate s \<Longrightarrow> dl_baudRate s = dl_requestedBaudRate s \<Longrightarrow>
   dl_baudRate (dl_retry s fds) = dl_requestedBaudRate s"
proof (induction fds arbitrary: s)
  case Nil
  then show ?case by simp
next
  case (Cons fd fds)
  then show ?case
    using Cons.IH [of "dl_internalReset s False fd"]
    by (simp add: dl_internalReset_def Let_def split: if_splits)
qed

text \<open>
  The automatic baud rate search tries the five rates of the table in order, over and
  over: after \<open>n\<close> resets of an unstable link the line runs at rate \<open>n mod 5\<close>, never at an
  index outside the table, and an explicit reset starts again at the first rate. A rate
  that the user chose is never changed.
\<close>

theorem datalink_baud_search:
  "dl_getSpeed (dl_retry (dl_construct baud noDSR buf fd) fds) =
     (if baud < 0 then kBaudRatesTable ! (length fds mod 5) else baud) \<and>
   dl_getSpeed (dl_reset (dl_retry (dl_construct (-1) noDSR buf fd) fds) fd') = 115200"
proof -
  have requested: "dl_requestedBaudRate (dl_retry s fds) = dl_requestedBaudRate s" for s
    by (induction fds arbitrary: s) (simp_all add: dl_internalReset_def Let_def)
  have "dl_baudRate (dl_retry (dl_construct baud noDSR buf fd) fds) =
     (if baud < 0 then kBaudRatesTable ! (length fds mod 5) else baud)"
    using dl_retry_auto [of "dl_construct baud noDSR buf fd" 0 fds]
      dl_retry_fixed [of "dl_construct baud noDSR buf fd" fds]
    by (simp add: dl_construct_def kBaudRatesTable_def)
  moreover have "dl_requestedBaudRate (dl_retry (dl_construct (-1) noDSR buf fd) fds) = -1"
    by (simp add: requested) (simp add: dl_construct_def)
  ultimately show ?thesis
    by (simp add: dl_getSpeed_def dl_reset_def dl_internalReset_def Let_def kBaudRatesTable_def)
qed

end
