(* ===== verification/Link.thy ===== *)
theory Link
  imports Prelude
begin

text \<open>
  The link protocol of \<open>lib/link.cc\<close>: sequence numbers and acknowledgements, link
  establishment for SIBO and EPOC machines, the window of unacknowledged packets, flow
  control per channel and retransmission. The record \<open>link\<close> holds the members of the class
  \<open>Link\<close>. Its environment is part of the record as well: \<open>lk_line\<close> and \<open>lk_time\<close> answer the
  successive calls of \<open>DataLink::linkFailed\<close> and \<open>gettimeofday\<close> (\<open>lk_ticks\<close> counts them),
  \<open>lk_speed\<close> is what \<open>DataLink::getSpeed\<close> returns, and \<open>lk_junk\<close> is the byte that a read
  behind the end of a short buffer finds in its block. The calls to the \<open>DataLink\<close> are
  recorded in \<open>lk_out\<close>; a packet for the NCP is a result of \<open>link_receive\<close>, which calls
  \<open>NCP::receive\<close> as its last action.
\<close>

section \<open>State\<close>

datatype link_type = LINK_TYPE_UNKNOWN | LINK_TYPE_SIBO | LINK_TYPE_EPOC

record timeval =
  tv_sec :: "64 word"
  tv_usec :: "64 word"

record ackelem =
  aq_seq :: int
  aq_txcount :: int
  aq_stamp :: timeval
  aq_data :: bytes

datatype link_event = DL_send bytes bool | DL_reset

record link =
  lk_txSequence :: int
  lk_rxSequence :: int
  lk_seqMask :: int
  lk_maxOutstanding :: nat
  lk_conMagic :: "32 word"
  lk_failed :: bool
  lk_linkType :: link_type
  lk_ackWaitQueue :: "ackelem list"
  lk_holdQueue :: "bytes list"
  lk_waitQueue :: "bytes list"
  lk_xoff :: "byte \<Rightarrow> bool"
  lk_line :: "nat \<Rightarrow> bool"
  lk_time :: "nat \<Rightarrow> timeval"
  lk_ticks :: nat
  lk_speed :: int
  lk_junk :: byte
  lk_out :: "link_event list"

definition link_new :: "(nat \<Rightarrow> bool) \<Rightarrow> (nat \<Rightarrow> timeval) \<Rightarrow> 32 word \<Rightarrow> int \<Rightarrow> byte \<Rightarrow> link" where
  "link_new line clock magic speed junk =
     \<lparr>lk_txSequence = 1, lk_rxSequence = -1, lk_seqMask = 7, lk_maxOutstanding = 1,
      lk_conMagic = magic, lk_failed = False, lk_linkType = LINK_TYPE_UNKNOWN,
      lk_ackWaitQueue = [], lk_holdQueue = [], lk_waitQueue = [], lk_xoff = (\<lambda>_. False),
      lk_line = line, lk_time = clock, lk_ticks = 0, lk_speed = speed, lk_junk = junk,
      lk_out = []\<rparr>"

section \<open>Environment\<close>

definition link_peek :: "link \<Rightarrow> bytes \<Rightarrow> nat \<Rightarrow> byte" where
  "link_peek s b i = (case getByte b i of None \<Rightarrow> lk_junk s | Some c \<Rightarrow> c)"

definition dl_send_packet :: "bytes \<Rightarrow> bool \<Rightarrow> link \<Rightarrow> link" where
  "dl_send_packet b isEPOC s = s\<lparr>lk_out := lk_out s @ [DL_send b isEPOC]\<rparr>"

definition isEPOC :: "link \<Rightarrow> bool" where
  "isEPOC s \<longleftrightarrow> lk_linkType s = LINK_TYPE_EPOC"

definition link_now :: "link \<Rightarrow> timeval \<times> link" where
  "link_now s = (lk_time s (lk_ticks s), s\<lparr>lk_ticks := lk_ticks s + 1\<rparr>)"

definition link_hasFailed :: "link \<Rightarrow> bool \<times> link" where
  "link_hasFailed s =
     (let lfailed = lk_line s (lk_ticks s);
          s = s\<lparr>lk_ticks := lk_ticks s + 1, lk_failed := lk_failed s \<or> lfailed\<rparr>
      in (lk_failed s, s))"

definition link_getSpeed :: "link \<Rightarrow> int" where
  "link_getSpeed s = lk_speed s"

definition retransTimeout :: "link \<Rightarrow> 64 word" where
  "retransTimeout s = word_of_int (link_getSpeed s) * 1000 div 13200 + 200"

definition timesub :: "timeval \<Rightarrow> 64 word \<Rightarrow> timeval" where
  "timesub tv millisecs =
     (let micros = push_bit 32 (tv_sec tv);
          micros = micros + tv_usec tv;
          micros = micros - millisecs * 1000
      in \<lparr>tv_sec = drop_bit 32 micros AND 0xffffffff, tv_usec = micros AND 0xffffffff\<rparr>)"

definition olderthan :: "timeval \<Rightarrow> timeval \<Rightarrow> bool" where
  "olderthan t1 t2 \<longleftrightarrow>
     push_bit 32 (tv_sec t1) + tv_usec t1 < push_bit 32 (tv_sec t2) + tv_usec t2"

section \<open>Sending\<close>

definition link_purgeAllQueues :: "link \<Rightarrow> link" where
  "link_purgeAllQueues s = s\<lparr>lk_ackWaitQueue := [], lk_holdQueue := []\<rparr>"

definition link_purgeQueue :: "int \<Rightarrow> link \<Rightarrow> link" where
  "link_purgeQueue channel s =
     s\<lparr>lk_ackWaitQueue := filter (\<lambda>e. uint (link_peek s (aq_data e) 0) \<noteq> channel) (lk_ackWaitQueue s),
       lk_holdQueue := filter (\<lambda>b. uint (link_peek s b 0) \<noteq> channel) (lk_holdQueue s)\<rparr>"

definition ack_header :: "int \<Rightarrow> bytes" where
  "ack_header seq =
     (if seq > 7 then
        (let hseq = drop_bit 3 seq; lseq = (seq AND 7) OR 8; seq = push_bit 8 hseq + lseq in le16 seq)
      else [word_of_int seq])"

definition link_sendAck :: "int \<Rightarrow> link \<Rightarrow> link" where
  "link_sendAck seq s =
     (let (failed, s) = link_hasFailed s
      in if failed then s else dl_send_packet (ack_header seq) (isEPOC s) s)"

text \<open>The tail that \<open>sendReqReq\<close>, \<open>sendReqCon\<close> and \<open>transmit\<close> share: remember the packet and send it.\<close>

definition link_await :: "int \<Rightarrow> int \<Rightarrow> timeval \<Rightarrow> bytes \<Rightarrow> link \<Rightarrow> link" where
  "link_await seq txcount stamp data s =
     (let e = \<lparr>aq_seq = seq, aq_txcount = txcount, aq_stamp = stamp, aq_data = data\<rparr>;
          s = s\<lparr>lk_ackWaitQueue := lk_ackWaitQueue s @ [e]\<rparr>
      in dl_send_packet data (isEPOC s) s)"

definition link_sendReqCon :: "link \<Rightarrow> link" where
  "link_sendReqCon s =
     (let (failed, s) = link_hasFailed s
      in if failed then s
         else (let tmp = [0x24] @ le32 (uint (lk_conMagic s)); (stamp, s) = link_now s
               in link_await 0 4 stamp tmp s))"

definition link_sendReqReq :: "link \<Rightarrow> link" where
  "link_sendReqReq s =
     (let (failed, s) = link_hasFailed s
      in if failed then s
         else (let tmp = [0x21]; (stamp, s) = link_now s in link_await 0 4 stamp tmp s))"

definition link_sendReq :: "link_type \<Rightarrow> link \<Rightarrow> link" where
  "link_sendReq linkType s =
     (let (failed, s) = link_hasFailed s
      in if failed then s else dl_send_packet [0x20] (linkType = LINK_TYPE_EPOC) s)"

definition data_header :: "int \<Rightarrow> bytes" where
  "data_header eseq =
     (if eseq > 7 then
        (let hseq = drop_bit 3 eseq; lseq = 0x30 + ((eseq AND 7) OR 8); seq = push_bit 8 hseq + lseq
         in le16 seq)
      else [word_of_int (0x30 + eseq)])"

definition link_transmit :: "bytes \<Rightarrow> link \<Rightarrow> link" where
  "link_transmit buf s =
     (let (failed, s) = link_hasFailed s
      in if failed then s
         else let remoteChan = link_peek s buf 0
         in if lk_xoff s remoteChan then s\<lparr>lk_holdQueue := lk_holdQueue s @ [buf]\<rparr>
         else if length (lk_ackWaitQueue s) \<ge> lk_maxOutstanding s
         then s\<lparr>lk_waitQueue := lk_waitQueue s @ [buf]\<rparr>
         else let eseq = lk_txSequence s;
                  s = s\<lparr>lk_txSequence := (eseq + 1) AND lk_seqMask s\<rparr>;
                  (stamp, s) = link_now s
         in if buf = [] then link_await eseq 4 stamp [word_of_int (0x20 + eseq)] s
            else link_await eseq 8 stamp (data_header eseq @ buf) s)"

definition link_send :: "bytes \<Rightarrow> link \<Rightarrow> link" where
  "link_send buff s = (if length buff > 300 then s\<lparr>lk_failed := True\<rparr> else link_transmit buff s)"

definition link_transmitHoldQueue :: "byte \<Rightarrow> link \<Rightarrow> link" where
  "link_transmitHoldQueue channel s =
     (let tmpQueue = filter (\<lambda>b. link_peek s b 0 = channel) (lk_holdQueue s);
          s = s\<lparr>lk_holdQueue := filter (\<lambda>b. link_peek s b 0 \<noteq> channel) (lk_holdQueue s)\<rparr>
      in fold link_transmit tmpQueue s)"

definition link_transmitWaitQueue :: "link \<Rightarrow> link" where
  "link_transmitWaitQueue s =
     (let tmpQueue = lk_waitQueue s in fold link_transmit tmpQueue (s\<lparr>lk_waitQueue := []\<rparr>))"

definition link_multiAck :: "timeval \<Rightarrow> link \<Rightarrow> link" where
  "link_multiAck refstamp s =
     s\<lparr>lk_ackWaitQueue := filter (\<lambda>e. \<not> olderthan (aq_stamp e) refstamp) (lk_ackWaitQueue s)\<rparr>"

definition link_reset :: "link \<Rightarrow> link" where
  "link_reset s =
     (let s = s\<lparr>lk_txSequence := 1, lk_rxSequence := -1, lk_failed := False, lk_seqMask := 7,
                lk_maxOutstanding := 1, lk_linkType := LINK_TYPE_UNKNOWN\<rparr>;
          s = (link_purgeAllQueues s)\<lparr>lk_xoff := (\<lambda>_. False)\<rparr>;
          s = s\<lparr>lk_out := lk_out s @ [DL_reset]\<rparr>
      in link_sendReqReq s)"

definition link_construct :: "(nat \<Rightarrow> bool) \<Rightarrow> (nat \<Rightarrow> timeval) \<Rightarrow> 32 word \<Rightarrow> int \<Rightarrow> byte \<Rightarrow> link" where
  "link_construct line clock magic speed junk = link_sendReqReq (link_new line clock magic speed junk)"

definition link_stuffToSend :: "link \<Rightarrow> bool" where
  "link_stuffToSend s \<longleftrightarrow> \<not> lk_failed s \<and> lk_ackWaitQueue s \<noteq> []"

definition link_getLinkType :: "link \<Rightarrow> link_type" where
  "link_getLinkType s = lk_linkType s"

section \<open>Retransmission\<close>

text \<open>
  The loop of \<open>retransmit\<close> over the packets that wait for an acknowledgement: the packets
  that stay, the data to send again, and whether one has run out of retries.
\<close>

fun retransmit_loop ::
  "timeval \<Rightarrow> timeval \<Rightarrow> ackelem list \<Rightarrow> ackelem list \<times> bytes list \<times> bool" where
  "retransmit_loop now expired [] = ([], [], False)"
| "retransmit_loop now expired (e # es) =
     (let (queue, pendingData, gave_up) = retransmit_loop now expired es
      in if olderthan (aq_stamp e) expired
         then if aq_txcount e = 0 then (queue, pendingData, True)
              else (e\<lparr>aq_txcount := aq_txcount e - 1, aq_stamp := now\<rparr> # queue,
                    aq_data e # pendingData, gave_up)
         else (e # queue, pendingData, gave_up))"

definition link_retransmit :: "link \<Rightarrow> link" where
  "link_retransmit s =
     (let (failed, s) = link_hasFailed s
      in if failed then link_purgeAllQueues s
         else let (now, s) = link_now s;
                  expired = timesub now (retransTimeout s);
                  (queue, pendingData, gave_up) = retransmit_loop now expired (lk_ackWaitQueue s);
                  s = s\<lparr>lk_ackWaitQueue := queue, lk_failed := lk_failed s \<or> gave_up\<rparr>
         in fold (\<lambda>b. dl_send_packet b (isEPOC s)) pendingData s)"

section \<open>Receiving\<close>

text \<open>The packet's type, sequence number and contents.\<close>

definition link_header :: "link \<Rightarrow> bytes \<Rightarrow> byte \<times> int \<times> bytes" where
  "link_header s buff =
     (let type_byte = link_peek s buff 0; seq = uint (type_byte AND 0x0f)
      in if seq AND 8 \<noteq> 0
         then (type_byte AND 0xf0, push_bit 3 (uint (link_peek s buff 1)) + (seq AND 7), drop 2 buff)
         else (type_byte AND 0xf0, seq, drop 1 buff))"

text \<open>Normal data: type \<open>0x30\<close>. The second component is what goes to the NCP.\<close>

definition link_receiveData :: "int \<Rightarrow> bytes \<Rightarrow> link \<Rightarrow> link \<times> bytes option" where
  "link_receiveData seq buff s =
     (if (lk_rxSequence s + 1) AND lk_seqMask s = seq
      then (let s = s\<lparr>lk_rxSequence := (lk_rxSequence s + 1) AND lk_seqMask s\<rparr>;
                s = link_sendAck (lk_rxSequence s) s
            in if length buff = 3 \<and> buff ! 0 = 0
               then if buff ! 2 = 1 then (s\<lparr>lk_xoff := (lk_xoff s)(buff ! 1 := True)\<rparr>, None)
                    else if buff ! 2 = 2
                    then (link_transmitHoldQueue (buff ! 1)
                            (s\<lparr>lk_xoff := (lk_xoff s)(buff ! 1 := False)\<rparr>), None)
                    else (s, Some buff)
               else (s, Some buff))
      else (link_sendAck (lk_rxSequence s) s, None))"

text \<open>The first element with the given number, and the queue without it.\<close>

fun ack_find :: "int \<Rightarrow> ackelem list \<Rightarrow> (ackelem \<times> ackelem list) option" where
  "ack_find seq [] = None"
| "ack_find seq (e # es) =
     (if aq_seq e = seq then Some (e, es)
      else map_option (\<lambda>(x, xs). (x, e # xs)) (ack_find seq es))"

text \<open>The loop for an unmatched acknowledgement: the queue and the data to send at once.\<close>

fun resend_next :: "int \<Rightarrow> timeval \<Rightarrow> ackelem list \<Rightarrow> ackelem list \<times> bytes list" where
  "resend_next seq now [] = ([], [])"
| "resend_next seq now (e # es) =
     (if aq_seq e = seq + 1
      then if aq_txcount e = 0 then (es, [])
           else (e\<lparr>aq_txcount := aq_txcount e - 1, aq_stamp := now\<rparr> # es, [aq_data e])
      else (let (queue, pendingData) = resend_next seq now es in (e # queue, pendingData)))"

definition link_receiveAck :: "int \<Rightarrow> link \<Rightarrow> link" where
  "link_receiveAck seq s =
     (case ack_find seq (lk_ackWaitQueue s) of
        Some (e, queue) \<Rightarrow>
          (let refstamp = aq_stamp e;
               s = s\<lparr>lk_ackWaitQueue := queue\<rparr>;
               s = (if lk_linkType s = LINK_TYPE_UNKNOWN \<and> seq = 0
                    then link_purgeAllQueues
                           (s\<lparr>lk_failed := False, lk_linkType := LINK_TYPE_SIBO, lk_seqMask := 7,
                              lk_maxOutstanding := 1, lk_rxSequence := 0, lk_txSequence := 1\<rparr>)
                    else s)
           in link_transmitWaitQueue (link_multiAck refstamp s))
      | None \<Rightarrow>
          (let (now, s) = link_now s;
               (queue, pendingData) = resend_next seq now (lk_ackWaitQueue s);
               s = s\<lparr>lk_ackWaitQueue := queue\<rparr>
           in fold (\<lambda>b. dl_send_packet b (isEPOC s)) pendingData s))"

text \<open>Removes the first outstanding link request; \<open>None\<close> if there is none.\<close>

fun con_find :: "link \<Rightarrow> ackelem list \<Rightarrow> ackelem list option" where
  "con_find s [] = None"
| "con_find s (e # es) =
     (if aq_seq e = 0 \<and> link_peek s (aq_data e) 0 = 0x21 then Some es
      else map_option (Cons e) (con_find s es))"

definition link_receiveReq :: "int \<Rightarrow> link \<Rightarrow> link" where
  "link_receiveReq seq s =
     (case (if seq > 3 then con_find s (lk_ackWaitQueue s) else None) of
        Some queue \<Rightarrow>
          link_sendAck 0
            (s\<lparr>lk_ackWaitQueue := queue, lk_linkType := LINK_TYPE_EPOC, lk_failed := False,
               lk_seqMask := 0x7ff, lk_maxOutstanding := 8, lk_rxSequence := 0, lk_txSequence := 1\<rparr>)
      | None \<Rightarrow>
          (let s = s\<lparr>lk_rxSequence := 0, lk_txSequence := 0\<rparr>
           in if seq > 0
              then link_sendReqCon
                     (s\<lparr>lk_linkType := LINK_TYPE_EPOC, lk_seqMask := 0x7ff, lk_maxOutstanding := 8,
                        lk_failed := False\<rparr>)
              else link_sendAck 0
                     (link_purgeAllQueues
                        (s\<lparr>lk_linkType := LINK_TYPE_SIBO, lk_failed := False, lk_seqMask := 7,
                           lk_maxOutstanding := 1, lk_rxSequence := 0, lk_txSequence := 1\<rparr>))))"

definition link_receive :: "bytes \<Rightarrow> link \<Rightarrow> link \<times> bytes option" where
  "link_receive buff s =
     (let (type, seq, buff) = link_header s buff
      in if type = 0x30 then link_receiveData seq buff s
         else if type = 0x00 then (link_receiveAck seq s, None)
         else if type = 0x20 then (link_receiveReq seq s, None)
         else if type = 0x10 then (s\<lparr>lk_failed := True\<rparr>, None)
         else (s, None))"

section \<open>Sequence numbers\<close>

lemma and_7 [simp]: "(x :: int) AND 7 = x mod 8"
  using take_bit_eq_mask [of 3 x] by (simp add: take_bit_eq_mod mask_eq_exp_minus_1)

lemma and_2047 [simp]: "(x :: int) AND 2047 = x mod 2048"
  using take_bit_eq_mask [of 11 x] by (simp add: take_bit_eq_mod mask_eq_exp_minus_1)

lemma below_8:
  "0 \<le> l \<Longrightarrow> l < (8 :: int) \<Longrightarrow> l = 0 \<or> l = 1 \<or> l = 2 \<or> l = 3 \<or> l = 4 \<or> l = 5 \<or> l = 6 \<or> l = 7"
  by arith

lemma header_octets:
  assumes "0 \<le> l" "l < 8" "hi = 0x30 \<or> hi = 0"
  shows "(word_of_int (hi + l) :: byte) AND 0xf0 = word_of_int hi" "uint ((word_of_int (hi + l) :: byte) AND 0x0f) = l"
    "(word_of_int (hi + (l OR 8)) :: byte) AND 0xf0 = word_of_int hi"
    "uint ((word_of_int (hi + (l OR 8)) :: byte) AND 0x0f) = l + 8"
proof -
  from below_8 [OF assms(1,2)] assms(3) show "(word_of_int (hi + l) :: byte) AND 0xf0 = word_of_int hi" 
    "uint ((word_of_int (hi + l) :: byte) AND 0x0f) = l"
    "(word_of_int (hi + (l OR 8)) :: byte) AND 0xf0 = word_of_int hi"
    "uint ((word_of_int (hi + (l OR 8)) :: byte) AND 0x0f) = l + 8"
    by (elim disjE; simp)+
qed

lemma le16_extended:
  assumes "0 \<le> h" "h < 256" "0 \<le> l" "l < 256"
  shows "le16 (push_bit 8 h + l) = [word_of_int l, word_of_int h]"
proof -
  have "(word_of_int (h * 256 + l) :: byte) = word_of_int l"
    by (simp only: word_of_int_eq_iff) (simp add: take_bit_eq_mod)
  then show ?thesis
    using assms by (simp add: le16_def push_bit_eq_mult drop_bit_eq_div del: of_int_add of_int_mult)
qed


lemma seq_split:
  fixes seq :: int
  assumes "0 \<le> seq" "seq < 2048"
  shows "0 \<le> seq div 8" "seq div 8 < 256" "0 \<le> seq mod 8" "seq mod 8 < 8"
    "push_bit 3 (seq div 8) + (seq mod 8 + 8) mod 8 = seq"
  using assms by (simp_all add: push_bit_eq_mult)

lemma or_8_low: "0 \<le> l \<Longrightarrow> l < 8 \<Longrightarrow> l OR 8 = l + (8 :: int)"
proof -
  assume "0 \<le> l" "l < 8"
  from below_8 [OF this] show ?thesis by (elim disjE) simp_all
qed

lemma header_short:
  assumes "0 \<le> seq" "seq \<le> 7" "hi = 0x30 \<or> hi = 0"
  shows "link_header s (word_of_int (hi + seq) # b) = (word_of_int hi, seq, b)"
proof -
  have "seq AND 8 = 0"
  proof -
    have "seq < 8" using assms by simp
    from below_8 [OF assms(1) this] show ?thesis by (elim disjE) simp_all
  qed
  then show ?thesis
    using assms header_octets(1,2) [of seq hi]
    by (simp add: link_header_def link_peek_def Let_def)
qed

lemma header_long:
  assumes "0 \<le> seq" "seq < 2048" "hi = 0x30 \<or> hi = 0"
  shows "link_header s (le16 (push_bit 8 (drop_bit 3 seq) + (hi + ((seq AND 7) OR 8))) @ b)
     = (word_of_int hi, seq, b)"
proof -
  note split = seq_split [OF assms(1,2)]
  have oct: "le16 (push_bit 8 (seq div 8) + (hi + (seq mod 8 OR 8))) =
      [word_of_int (hi + (seq mod 8 OR 8)), word_of_int (seq div 8)]"
    using split assms(3) by (intro le16_extended) (auto simp: or_8_low)
  have "(seq mod 8 + 8) AND 8 \<noteq> 0"
  proof -
    from below_8 [OF split(3,4)] show ?thesis by (elim disjE) simp_all
  qed
  moreover have "uint (word_of_int (seq div 8) :: byte) = seq div 8"
    using split by (simp add: unsigned_of_int take_bit_eq_mod)
  ultimately show ?thesis
    using header_octets(3,4) [OF split(3,4) assms(3)] split(5) oct
    by (simp add: link_header_def link_peek_def Let_def drop_bit_eq_div)
qed

lemma link_header_encoded:
  assumes "0 \<le> seq" and "seq < 2048"
  shows "link_header s (data_header seq @ b) = (0x30, seq, b)"
    "link_header s (ack_header seq @ b) = (0x00, seq, b)"
    "length (data_header seq) \<le> 2"
  using assms header_short [where seq = seq and hi = "0x30"] header_short [where seq = seq and hi = 0]
    header_long [where seq = seq and hi = "0x30"] header_long [where seq = seq and hi = 0]
  by (auto simp: data_header_def ack_header_def Let_def)

text \<open>
  Sequence numbers survive the packet header. For every number below 2048 the receiver
  reads back the type, the number and the contents that the sender put in a data packet or
  in an acknowledgement, in the one-byte form up to 7 and in the extended form above.
\<close>

theorem link_header_roundtrip:
  assumes "0 \<le> seq" and "seq < 2048"
  shows "link_header s (data_header seq @ b) = (0x30, seq, b) \<and>
         link_header s (ack_header seq @ b) = (0x00, seq, b) \<and>
         length (data_header seq) \<le> 2"
  using link_header_encoded [OF assms] by simp

theorem link_header_roundtrip_witness:
  "link_header (link_new (\<lambda>_. False) (\<lambda>_. \<lparr>tv_sec = 0, tv_usec = 0\<rparr>) 0 0 0) (data_header 1000 @ [7]) = (0x30, 1000, [7])"
  using link_header_roundtrip [of 1000] by simp


section \<open>Invariant\<close>

definition link_mode :: "link \<Rightarrow> bool" where
  "link_mode s \<longleftrightarrow>
     (if lk_linkType s = LINK_TYPE_EPOC then lk_seqMask s = 0x7ff \<and> lk_maxOutstanding s = 8
      else lk_seqMask s = 7 \<and> lk_maxOutstanding s = 1)"

definition link_inv :: "link \<Rightarrow> bool" where
  "link_inv s \<longleftrightarrow> link_mode s \<and> 0 \<le> lk_txSequence s \<and> lk_txSequence s \<le> lk_seqMask s \<and>
     -1 \<le> lk_rxSequence s \<and> lk_rxSequence s \<le> lk_seqMask s \<and>
     (\<forall>e\<in>set (lk_ackWaitQueue s). 0 \<le> aq_seq e \<and> aq_seq e \<le> lk_seqMask s \<and> aq_data e \<noteq> [])"

lemma link_mode_and:
  assumes "link_mode s"
  shows "0 \<le> x AND lk_seqMask s" "x AND lk_seqMask s \<le> lk_seqMask s" "7 \<le> lk_seqMask s"
  using assms by (auto simp: link_mode_def split: if_splits)

text \<open>The fields that an operation leaves alone, for \<open>simp\<close>.\<close>

lemma dl_send_packet_simps [link_simps]:
  "link_inv (dl_send_packet b e s) = link_inv s"
  "lk_ackWaitQueue (dl_send_packet b e s) = lk_ackWaitQueue s"
  "lk_holdQueue (dl_send_packet b e s) = lk_holdQueue s"
  "lk_waitQueue (dl_send_packet b e s) = lk_waitQueue s"
  "lk_xoff (dl_send_packet b e s) = lk_xoff s"
  "lk_failed (dl_send_packet b e s) = lk_failed s"
  "lk_rxSequence (dl_send_packet b e s) = lk_rxSequence s"
  "lk_txSequence (dl_send_packet b e s) = lk_txSequence s"
  "lk_seqMask (dl_send_packet b e s) = lk_seqMask s"
  "lk_maxOutstanding (dl_send_packet b e s) = lk_maxOutstanding s"
  "lk_linkType (dl_send_packet b e s) = lk_linkType s"
  "lk_line (dl_send_packet b e s) = lk_line s"
  "lk_ticks (dl_send_packet b e s) = lk_ticks s"
  "lk_junk (dl_send_packet b e s) = lk_junk s"
  "lk_out (dl_send_packet b e s) = lk_out s @ [DL_send b e]"
  by (simp_all add: dl_send_packet_def link_inv_def link_mode_def)

lemma link_hasFailed_simps [link_simps]:
  "fst (link_hasFailed s) = (lk_failed s \<or> lk_line s (lk_ticks s))"
  "snd (link_hasFailed s) =
     s\<lparr>lk_ticks := lk_ticks s + 1, lk_failed := lk_failed s \<or> lk_line s (lk_ticks s)\<rparr>"
  by (simp_all add: link_hasFailed_def Let_def)

lemma link_inv_updates [link_simps]:
  "link_inv (s\<lparr>lk_ticks := n\<rparr>) = link_inv s"
  "link_inv (s\<lparr>lk_failed := f\<rparr>) = link_inv s"
  "link_inv (s\<lparr>lk_holdQueue := q\<rparr>) = link_inv s"
  "link_inv (s\<lparr>lk_waitQueue := q\<rparr>) = link_inv s"
  "link_inv (s\<lparr>lk_xoff := x\<rparr>) = link_inv s"
  "link_inv (s\<lparr>lk_out := out\<rparr>) = link_inv s"
  by (simp_all add: link_inv_def link_mode_def)

lemma dl_send_all_packets:
  "link_inv (fold (\<lambda>b. dl_send_packet b e) bs s) = link_inv s"
  "lk_ackWaitQueue (fold (\<lambda>b. dl_send_packet b e) bs s) = lk_ackWaitQueue s"
  "lk_failed (fold (\<lambda>b. dl_send_packet b e) bs s) = lk_failed s"
  "lk_out (fold (\<lambda>b. dl_send_packet b e) bs s) = lk_out s @ map (\<lambda>b. DL_send b e) bs"
  by (induction bs arbitrary: s) (simp_all add: link_simps)

lemma link_await_inv:
  "link_inv s \<Longrightarrow> 0 \<le> q \<Longrightarrow> q \<le> lk_seqMask s \<Longrightarrow> d \<noteq> [] \<Longrightarrow> link_inv (link_await q n t d s)"
  by (auto simp: link_await_def Let_def link_simps) (auto simp: link_inv_def link_mode_def)

lemma link_inv_mask: "link_inv s \<Longrightarrow> 7 \<le> lk_seqMask s"
  by (auto simp: link_inv_def link_mode_def split: if_splits)

lemma link_sendAck_inv: "link_inv s \<Longrightarrow> link_inv (link_sendAck q s)"
  by (simp add: link_sendAck_def Let_def split_beta link_simps)

lemma link_sendReq_inv:
  "link_inv s \<Longrightarrow> link_inv (link_sendReqReq s)"
  "link_inv s \<Longrightarrow> link_inv (link_sendReqCon s)"
  by (simp_all add: link_sendReqReq_def link_sendReqCon_def link_now_def Let_def split_beta
      link_simps link_await_inv link_inv_mask)
    (use link_inv_mask in \<open>force intro!: link_await_inv simp: link_simps\<close>)+

lemma data_header_neq [simp]: "data_header q \<noteq> []"
  by (simp add: data_header_def Let_def)

lemma link_transmit_inv: "link_inv s \<Longrightarrow> link_inv (link_transmit b s)"
proof -
  assume inv: "link_inv s"
  have seq: "link_inv (s\<lparr>lk_ticks := n, lk_failed := f, lk_txSequence := x AND lk_seqMask s, lk_ticks := m\<rparr>)"
    "0 \<le> lk_txSequence s" "lk_txSequence s \<le> lk_seqMask s" for n f x m
    using inv link_mode_and(1,2) [of s x] by (simp_all add: link_inv_def link_mode_def)
  show ?thesis
    using inv seq by (simp add: link_transmit_def link_now_def Let_def split_beta link_simps link_await_inv)
qed

lemma fold_transmit_inv: "link_inv s \<Longrightarrow> link_inv (fold link_transmit bs s)"
  by (induction bs arbitrary: s) (simp_all add: link_transmit_inv)

lemma link_queue_inv:
  "link_inv s \<Longrightarrow> set q \<subseteq> set (lk_ackWaitQueue s) \<Longrightarrow> link_inv (s\<lparr>lk_ackWaitQueue := q\<rparr>)"
  by (auto simp: link_inv_def link_mode_def)

lemma link_inv_purge: "link_inv s \<Longrightarrow> link_inv (link_purgeAllQueues s)" 
  "link_inv s \<Longrightarrow> link_inv (link_purgeQueue c s)"
  by (auto simp: link_purgeAllQueues_def link_purgeQueue_def link_inv_def link_mode_def)


lemma ack_find_Some:
  "ack_find q es = Some (e, es') \<Longrightarrow>
   aq_seq e = q \<and> (\<exists>xs ys. es = xs @ e # ys \<and> es' = xs @ ys \<and> q \<notin> aq_seq ` set xs)"
proof (induction es arbitrary: es')
  case Nil
  then show ?case by simp
next
  case (Cons x es)
  show ?case
  proof (cases "aq_seq x = q")
    case True
    with Cons.prems have "e = x" "es' = es" by simp_all
    with True show ?thesis
      by simp (intro exI [of _ "[]"] exI [of _ es], simp)
  next
    case False
    with Cons.prems obtain zs where zs: "ack_find q es = Some (e, zs)" "es' = x # zs"
      by (auto simp: map_option_case split: option.splits)
    with Cons.IH obtain xs ys where "es = xs @ e # ys" "zs = xs @ ys" "q \<notin> aq_seq ` set xs"
      by blast
    moreover have "aq_seq e = q" using Cons.IH zs by blast
    ultimately show ?thesis
      using zs False by simp (intro exI [of _ "x # xs"] exI [of _ ys], simp)
  qed
qed

lemma ack_find_set: "ack_find q es = Some (e, es') \<Longrightarrow> set es' \<subseteq> set es"
  by (auto dest: ack_find_Some)

lemma con_find_Some: "con_find s es = Some es' \<Longrightarrow> set es' \<subseteq> set es"
  by (induction es arbitrary: es') (auto split: if_splits)

definition queue_ok :: "int \<Rightarrow> ackelem list \<Rightarrow> bool" where
  "queue_ok m q \<longleftrightarrow> (\<forall>e\<in>set q. 0 \<le> aq_seq e \<and> aq_seq e \<le> m \<and> aq_data e \<noteq> [])"

lemma queue_ok_simps [simp]:
  "queue_ok m []"
  "queue_ok m (e # es) \<longleftrightarrow> 0 \<le> aq_seq e \<and> aq_seq e \<le> m \<and> aq_data e \<noteq> [] \<and> queue_ok m es"
  by (auto simp: queue_ok_def)

lemma resend_next_ok: "queue_ok m q \<Longrightarrow> queue_ok m (fst (resend_next n now q))"
  by (induction q) (simp_all add: Let_def split_beta)

lemma retransmit_loop_ok: "queue_ok m q \<Longrightarrow> queue_ok m (fst (retransmit_loop now x q))"
  by (induction q) (simp_all add: Let_def split_beta)

lemma link_inv_queue:
  "link_inv s \<Longrightarrow> queue_ok (lk_seqMask s) q \<Longrightarrow> link_inv (s\<lparr>lk_ackWaitQueue := q\<rparr>)"
  "link_inv s \<Longrightarrow> queue_ok (lk_seqMask s) (lk_ackWaitQueue s)"
  by (auto simp: link_inv_def link_mode_def queue_ok_def)

lemma link_retransmit_inv: 
  assumes "link_inv s" shows "link_inv (link_retransmit s)"
  using assms retransmit_loop_ok [OF link_inv_queue(2) [OF assms]]
  by (simp add: link_retransmit_def link_now_def Let_def split_beta link_simps dl_send_all_packets link_inv_purge link_inv_queue)

lemma link_transmitWaitQueue_inv: "link_inv s \<Longrightarrow> link_inv (link_transmitWaitQueue s)"
  by (simp add: link_transmitWaitQueue_def Let_def fold_transmit_inv link_simps)

lemma link_transmitHoldQueue_inv: "link_inv s \<Longrightarrow> link_inv (link_transmitHoldQueue c s)"
  by (simp add: link_transmitHoldQueue_def Let_def fold_transmit_inv link_simps)

lemma link_multiAck_inv: "link_inv s \<Longrightarrow> link_inv (link_multiAck t s)"
  by (auto simp: link_multiAck_def link_inv_def link_mode_def)

lemma link_receiveAck_inv: 
  assumes "link_inv s" shows "link_inv (link_receiveAck q s)"
proof (cases "ack_find q (lk_ackWaitQueue s)")
  case None
  then show ?thesis
    using assms resend_next_ok [OF link_inv_queue(2) [OF assms]]
    by (simp add: link_receiveAck_def link_now_def Let_def split_beta link_simps dl_send_all_packets link_inv_queue)
next
  case (Some p)
  obtain e es where p: "p = (e, es)" by (cases p)
  have "link_inv (s\<lparr>lk_ackWaitQueue := es\<rparr>)"
    using ack_find_set Some p assms by (blast intro: link_queue_inv)
  moreover have "link_inv (link_purgeAllQueues
      (s\<lparr>lk_ackWaitQueue := es, lk_failed := False, lk_linkType := LINK_TYPE_SIBO, lk_seqMask := 7,
         lk_maxOutstanding := 1, lk_rxSequence := 0, lk_txSequence := 1\<rparr>))"
    by (simp add: link_inv_def link_mode_def link_purgeAllQueues_def)
  ultimately show ?thesis
    by (simp add: link_receiveAck_def Some p Let_def link_transmitWaitQueue_inv link_multiAck_inv)
qed

lemma link_receiveReq_inv: 
  assumes "link_inv s" shows "link_inv (link_receiveReq q s)"
proof -
  have epoc: "link_inv (s\<lparr>lk_ackWaitQueue := es, lk_linkType := LINK_TYPE_EPOC, lk_failed := False,
      lk_seqMask := 0x7ff, lk_maxOutstanding := 8, lk_rxSequence := 0, lk_txSequence := 1\<rparr>)"
    "link_inv (s\<lparr>lk_rxSequence := 0, lk_txSequence := 0, lk_linkType := LINK_TYPE_EPOC,
       lk_seqMask := 0x7ff, lk_maxOutstanding := 8, lk_failed := False\<rparr>)"
    if "set es \<subseteq> set (lk_ackWaitQueue s)" for es
    using assms that by (fastforce simp: link_inv_def link_mode_def split: if_splits)+
  have sibo: "link_inv (link_purgeAllQueues (s\<lparr>lk_rxSequence := 0, lk_txSequence := 0,
      lk_linkType := LINK_TYPE_SIBO, lk_failed := False, lk_seqMask := 7, lk_maxOutstanding := 1,
      lk_rxSequence := 0, lk_txSequence := 1\<rparr>))"
    by (simp add: link_inv_def link_mode_def link_purgeAllQueues_def)
  show ?thesis
    using epoc(1) epoc(2) [of "[]"] sibo con_find_Some [of s "lk_ackWaitQueue s"]
    by (auto simp: link_receiveReq_def Let_def link_sendAck_inv link_sendReq_inv split: option.splits)
qed

lemma link_receiveData_inv: 
  assumes "link_inv s" shows "link_inv (fst (link_receiveData q b s))"
proof -
  have "link_inv (s\<lparr>lk_rxSequence := x AND lk_seqMask s\<rparr>)" for x
  proof -
    have mode: "link_mode s" using assms by (simp add: link_inv_def)
    then have "-1 \<le> x AND lk_seqMask s"
      using link_mode_and(1) [of s x] by linarith
    moreover have "link_mode (s\<lparr>lk_rxSequence := q\<rparr>)" for q
      using mode by (simp add: link_mode_def)
    ultimately show ?thesis
      using assms link_mode_and(2) [OF mode, of x] by (simp add: link_inv_def)
  qed
  from this [of "lk_rxSequence s + 1"] show ?thesis
    using assms
    by (cases "lk_rxSequence s + 1 AND lk_seqMask s = q")
      (simp_all add: link_receiveData_def Let_def link_sendAck_inv link_transmitHoldQueue_inv link_simps)
qed

lemma link_receive_inv: "link_inv s \<Longrightarrow> link_inv (fst (link_receive b s))"
  by (simp add: link_receive_def Let_def split_beta link_receiveData_inv link_receiveAck_inv
      link_receiveReq_inv link_simps)

lemma link_reset_inv: "link_inv (link_reset s)"
  unfolding link_reset_def Let_def
  by (rule link_sendReq_inv) (simp add: link_inv_def link_mode_def link_purgeAllQueues_def)

lemma link_construct_inv: "link_inv (link_construct line clock magic speed junk)"
  unfolding link_construct_def 
  by (rule link_sendReq_inv) (simp add: link_inv_def link_mode_def link_new_def)

text \<open>The states a link can reach, by the calls of the NCP, the data link and its own thread.\<close>

inductive link_reachable :: "link \<Rightarrow> bool" where
  construct: "link_reachable (link_construct line clock magic speed junk)"
| reset: "link_reachable s \<Longrightarrow> link_reachable (link_reset s)"
| send: "link_reachable s \<Longrightarrow> link_reachable (link_send b s)"
| receive: "link_reachable s \<Longrightarrow> link_reachable (fst (link_receive b s))"
| retransmit: "link_reachable s \<Longrightarrow> link_reachable (link_retransmit s)"
| purge: "link_reachable s \<Longrightarrow> link_reachable (link_purgeQueue channel s)"
| failed: "link_reachable s \<Longrightarrow> link_reachable (snd (link_hasFailed s))"

lemma link_reachable_inv: "link_reachable s \<Longrightarrow> link_inv s"
proof (induction rule: link_reachable.induct)
  case (send s b)
  then show ?case by (simp add: link_send_def link_transmit_inv link_simps)
next
  case (failed s)
  then show ?case by (simp add: link_simps)
qed (simp_all add: link_construct_inv link_reset_inv link_receive_inv link_retransmit_inv link_inv_purge)

text \<open>
  C11: invariant of the link in every reachable state: the sequence mask and the window
  size are those of the link type, the sequence numbers are within the mask, and every
  packet that waits for an acknowledgement has a header and a number that an
  acknowledgement can name.
\<close>

theorem link_reachable_invariant:
  assumes "link_reachable s"
  shows "link_mode s \<and> 0 \<le> lk_txSequence s \<and> lk_txSequence s \<le> lk_seqMask s \<and>
         -1 \<le> lk_rxSequence s \<and> lk_rxSequence s \<le> lk_seqMask s \<and>
         (\<forall>e\<in>set (lk_ackWaitQueue s). 0 \<le> aq_seq e \<and> aq_seq e \<le> lk_seqMask s \<and> aq_data e \<noteq> [])"
  using link_reachable_inv [OF assms] by (simp add: link_inv_def)

theorem link_reachable_invariant_witness:
  "link_mode (link_send [1, 2] (link_construct (\<lambda>_. False) (\<lambda>_. \<lparr>tv_sec = 0, tv_usec = 0\<rparr>) 0 9600 0))"
  using link_reachable_invariant [OF link_reachable.send [OF link_reachable.construct]] by blast

section \<open>Delivery in order\<close>

definition flow_control :: "bytes \<Rightarrow> bool" where
  "flow_control b \<longleftrightarrow> length b = 3 \<and> b ! 0 = 0 \<and> (b ! 2 = 1 \<or> b ! 2 = 2)"

fun link_receive_all :: "bytes list \<Rightarrow> link \<Rightarrow> link \<times> bytes list" where
  "link_receive_all [] s = (s, [])"
| "link_receive_all (b # bs) s =
     (let (s, packet) = link_receive b s; (s, packets) = link_receive_all bs s
      in (s, (case packet of None \<Rightarrow> [] | Some p \<Rightarrow> [p]) @ packets))"

text \<open>The last packet of a prefix \<open>1, 2, \<dots>\<close> that arrived in order.\<close>

fun in_order :: "nat \<Rightarrow> nat list \<Rightarrow> nat" where
  "in_order e [] = e"
| "in_order e (n # ns) = in_order (if n = Suc e then n else e) ns"

text \<open>Every arriving number is less than \<open>M\<close> away from the expected one.\<close>

fun unambiguous :: "nat \<Rightarrow> nat \<Rightarrow> nat list \<Rightarrow> bool" where
  "unambiguous M e [] = True"
| "unambiguous M e (n # ns) =
     (n < Suc e + M \<and> Suc e < n + M \<and> unambiguous M (if n = Suc e then n else e) ns)"

lemma in_order_mono: "e \<le> in_order e ns"
  by (induction e ns rule: in_order.induct) (auto split: if_splits)

lemma link_transmit_rx:
  "lk_rxSequence (link_transmit b s) = lk_rxSequence s"
  "link_mode (link_transmit b s) = link_mode s" "lk_seqMask (link_transmit b s) = lk_seqMask s"
  by (simp_all add: link_transmit_def link_now_def Let_def split_beta link_simps link_await_def link_mode_def)

lemma fold_transmit_rx:
  "lk_rxSequence (fold link_transmit bs s) = lk_rxSequence s"
  "link_mode (fold link_transmit bs s) = link_mode s" "lk_seqMask (fold link_transmit bs s) = lk_seqMask s"
  by (induction bs arbitrary: s) (simp_all add: link_transmit_rx)

lemma link_sendAck_rx:
  "lk_rxSequence (link_sendAck q s) = lk_rxSequence s"
  "link_mode (link_sendAck q s) = link_mode s" "lk_seqMask (link_sendAck q s) = lk_seqMask s"
  by (simp_all add: link_sendAck_def Let_def split_beta link_simps link_mode_def)

lemma link_mode_rx [simp]: "link_mode (s\<lparr>lk_rxSequence := q\<rparr>) = link_mode s"
  "link_mode (s\<lparr>lk_xoff := x\<rparr>) = link_mode s" "link_mode (s\<lparr>lk_holdQueue := h\<rparr>) = link_mode s"
  by (simp_all add: link_mode_def)

lemma link_receiveData_rx:
  "lk_rxSequence (fst (link_receiveData q b s)) =
     (if (lk_rxSequence s + 1) AND lk_seqMask s = q then q else lk_rxSequence s)"
  "link_mode (fst (link_receiveData q b s)) = link_mode s"
  "lk_seqMask (fst (link_receiveData q b s)) = lk_seqMask s"
  "snd (link_receiveData q b s) =
     (if (lk_rxSequence s + 1) AND lk_seqMask s = q \<and> \<not> flow_control b then Some b else None)"
  by (auto simp: link_receiveData_def Let_def link_sendAck_rx link_transmitHoldQueue_def
      fold_transmit_rx flow_control_def)

lemma link_mode_cases:
  assumes "link_mode s"
  obtains "lk_seqMask s = 7" "\<And>x. x AND lk_seqMask s = x mod 8"
    | "lk_seqMask s = 2047" "\<And>x. x AND lk_seqMask s = x mod 2048"
  using assms by (auto simp: link_mode_def split: if_splits)

lemma mod_near:
  fixes n e M :: nat
  assumes "n < Suc e + M" "Suc e < n + M" "0 < M"
  shows "(int e mod int M + 1) mod int M = int n mod int M \<longleftrightarrow> n = Suc e"
proof -
  have "(int e mod int M + 1) mod int M = int n mod int M \<longleftrightarrow> (int e + 1) mod int M = int n mod int M"
    by (simp add: mod_add_left_eq)
  also have "\<dots> \<longleftrightarrow> int M dvd (int e + 1 - int n)"
    by (simp add: mod_eq_dvd_iff)
  also have "\<dots> \<longleftrightarrow> n = Suc e"
  proof
    assume "int M dvd int e + 1 - int n"
    then obtain k where k: "int e + 1 - int n = int M * k" by blast
    have "k = 0"
    proof (rule ccontr)
      assume "k \<noteq> 0"
      then have "int M \<le> \<bar>int M * k\<bar>"
        using assms(3) by (simp add: abs_mult)
      with k assms show False by linarith
    qed
    with k show "n = Suc e" by simp
  qed simp
  finally show ?thesis .
qed

lemma link_receive_data:
  assumes "0 \<le> q" "q < 2048"
  shows "link_receive (data_header q @ b) s = link_receiveData q b s"
  using link_header_encoded(1) [OF assms, of s b] by (simp add: link_receive_def)


lemma deliver_all:
  assumes "link_mode s" "M = nat (lk_seqMask s + 1)" "lk_rxSequence s = int e mod int M"
    "unambiguous M e ns"
  shows "snd (link_receive_all (map (\<lambda>n. data_header (int n mod int M) @ packet n) ns) s) =
           filter (\<lambda>b. \<not> flow_control b) (map packet [Suc e..<Suc (in_order e ns)]) \<and>
         lk_rxSequence (fst (link_receive_all (map (\<lambda>n. data_header (int n mod int M) @ packet n) ns) s)) =
           int (in_order e ns) mod int M"
  using assms
proof (induction ns arbitrary: e s)
  case Nil
  then show ?case by simp
next
  case (Cons n ns e s)
  define b where "b = packet n"
  define q where "q = int n mod int M"
  define s' where "s' = fst (link_receiveData q b s)"
  define e' where "e' = (if n = Suc e then n else e)"
    note prems = Cons.prems
    have M: "0 < M" "M \<le> 2048" "int M = lk_seqMask s + 1"
      using prems(1,2) by (auto elim: link_mode_cases)
    have q: "0 \<le> q" "q < 2048"
      using M pos_mod_bound [of "int M" "int n"] by (auto simp: q_def)
    have "(lk_rxSequence s + 1) AND lk_seqMask s = (lk_rxSequence s + 1) mod int M"
      using prems(1) M(3) by (auto elim!: link_mode_cases)
    then have next_one: "(lk_rxSequence s + 1) AND lk_seqMask s = q \<longleftrightarrow> n = Suc e"
      using mod_near [of n e M] prems(3,4) M(1) by (simp add: q_def)
    have step: "link_receive (data_header q @ b) s = (s', if n = Suc e \<and> \<not> flow_control b then Some b else None)"
      using link_receiveData_rx(4) [of q b s] next_one
      by (auto simp: link_receive_data [OF q] s'_def prod_eq_iff)
    have s': "link_mode s'" "M = nat (lk_seqMask s' + 1)" "lk_rxSequence s' = int e' mod int M"
      "unambiguous M e' ns"
      using prems link_receiveData_rx(1-3) [of q b s] next_one by (auto simp: s'_def e'_def q_def)
    have mono: "e' \<le> in_order e' ns" by (rule in_order_mono)
    have "snd (link_receive_all (map (\<lambda>n. data_header (int n mod int M) @ packet n) (n # ns)) s) =
        (if n = Suc e \<and> \<not> flow_control b then [b] else []) @
        filter (\<lambda>b. \<not> flow_control b) (map packet [Suc e'..<Suc (in_order e' ns)])"
      using Cons.IH [OF s'] step unfolding q_def b_def
      by (auto simp: split_beta Let_def simp del: upt_Suc)
    also have "\<dots> = filter (\<lambda>b. \<not> flow_control b) (map packet [Suc e..<Suc (in_order e (n # ns))])"
    proof (cases "n = Suc e")
      case True
      with mono have "[Suc e..<Suc (in_order e (n # ns))] = n # [Suc e'..<Suc (in_order e' ns)]"
        by (simp add: e'_def upt_conv_Cons del: upt_Suc)
      with True show ?thesis by (simp add: b_def del: upt_Suc)
    next
      case False
      then show ?thesis by (simp add: e'_def)
    qed
    finally have *: "snd (link_receive_all (map (\<lambda>n. data_header (int n mod int M) @ packet n) (n # ns)) s) =
      filter (\<lambda>b. \<not> flow_control b) (map packet [Suc e..<Suc (in_order e (n # ns))])" .
    have "lk_rxSequence (fst (link_receive_all (map (\<lambda>n. data_header (int n mod int M) @ packet n) (n # ns)) s)) =
      int (in_order e (n # ns)) mod int M"
      using Cons.IH [OF s'] step by (simp add: q_def b_def split_beta Let_def e'_def)
    with * show ?case by blast
qed

text \<open>
  C2: packets are delivered to the NCP exactly once and in order. Whatever sequence of data
  packets arrives, with repetitions, gaps and old packets, as long as no number is a full
  cycle of sequence numbers away from the expected one: the NCP gets the contents of the
  packets \<open>e + 1, e + 2, \<dots>\<close> up to the last that arrived in order, each once, and the
  link's own flow control packets do not reach it.
\<close>

theorem link_delivers_in_order:
  assumes "link_reachable s" and "M = nat (lk_seqMask s + 1)"
    and "lk_rxSequence s = int e mod int M" and "unambiguous M e ns"
  shows "snd (link_receive_all (map (\<lambda>n. data_header (int n mod int M) @ packet n) ns) s) =
           filter (\<lambda>b. \<not> flow_control b) (map packet [Suc e..<Suc (in_order e ns)])"
  using link_reachable_inv [OF assms(1)] assms(2-4)
  by (intro deliver_all [THEN conjunct1]) (simp_all add: link_inv_def)

text \<open>A link that an EPOC machine has just confirmed.\<close>

definition link_sample :: link where
  "link_sample = fst (link_receive [0x24, 1, 2, 3, 4]
     (link_construct (\<lambda>_. False) (\<lambda>n. \<lparr>tv_sec = 1000 + of_nat n, tv_usec = 0\<rparr>) 0 115200 0))"

lemma link_sample_fields:
  "link_reachable link_sample" "lk_seqMask link_sample = 2047" "lk_rxSequence link_sample = 0"
  "lk_txSequence link_sample = 1" "lk_maxOutstanding link_sample = 8"
  "lk_ackWaitQueue link_sample = []" "lk_waitQueue link_sample = []" "lk_holdQueue link_sample = []"
  "\<not> lk_failed link_sample" "lk_line link_sample = (\<lambda>_. False)" "lk_xoff link_sample = (\<lambda>_. False)"
proof -
  show "link_reachable link_sample"
    unfolding link_sample_def by (rule link_reachable.intros)+
  show "lk_seqMask link_sample = 2047" "lk_rxSequence link_sample = 0"
    "lk_txSequence link_sample = 1" "lk_maxOutstanding link_sample = 8"
    "lk_ackWaitQueue link_sample = []" "lk_waitQueue link_sample = []" "lk_holdQueue link_sample = []"
    "\<not> lk_failed link_sample" "lk_line link_sample = (\<lambda>_. False)" "lk_xoff link_sample = (\<lambda>_. False)"
    by (simp_all add: link_sample_def link_construct_def link_new_def link_sendReqReq_def link_now_def
        link_await_def link_receive_def link_header_def link_peek_def link_receiveReq_def
        link_sendAck_def isEPOC_def Let_def split_beta link_simps)
qed

theorem link_delivers_in_order_witness:
  "snd (link_receive_all (map (\<lambda>n. data_header (int n mod 2048) @ [of_nat n]) [1, 1, 3, 2, 1, 3])
          link_sample) = [[1], [2], [3]]"
  using link_delivers_in_order [of link_sample 2048 0 "[1, 1, 3, 2, 1, 3]" "\<lambda>n. [of_nat n]"]
    link_sample_fields
  by (simp add: flow_control_def upt_rec numeral_nat)

section \<open>The window\<close>

text \<open>The data packets for a list of contents, numbered from \<open>tx\<close>.\<close>

fun numbered :: "int \<Rightarrow> int \<Rightarrow> bytes list \<Rightarrow> bytes list" where
  "numbered m tx [] = []"
| "numbered m tx (b # bs) = (data_header tx @ b) # numbered m ((tx + 1) AND m) bs"

text \<open>A link that works: it has not failed, the line holds, and no channel is stopped.\<close>

definition link_up :: "link \<Rightarrow> bool" where
  "link_up s \<longleftrightarrow> \<not> lk_failed s \<and> (\<forall>n. \<not> lk_line s n) \<and> (\<forall>c. \<not> lk_xoff s c)"

lemma link_up_updates [simp]:
  "link_up (s\<lparr>lk_ackWaitQueue := q\<rparr>) = link_up s" "link_up (s\<lparr>lk_waitQueue := w\<rparr>) = link_up s"
  "link_up (s\<lparr>lk_ticks := n\<rparr>) = link_up s" "link_up (s\<lparr>lk_txSequence := x\<rparr>) = link_up s"
  "link_up (s\<lparr>lk_out := out\<rparr>) = link_up s" "link_up (s\<lparr>lk_holdQueue := h\<rparr>) = link_up s"
  by (simp_all add: link_up_def)

lemma link_transmit_up:
  assumes "link_up s" "b \<noteq> []"
  shows "link_transmit b s =
    (if length (lk_ackWaitQueue s) \<ge> lk_maxOutstanding s
     then s\<lparr>lk_ticks := lk_ticks s + 1, lk_waitQueue := lk_waitQueue s @ [b]\<rparr>
     else s\<lparr>lk_ticks := lk_ticks s + 2, lk_txSequence := (lk_txSequence s + 1) AND lk_seqMask s,
            lk_ackWaitQueue := lk_ackWaitQueue s @ [\<lparr>aq_seq = lk_txSequence s, aq_txcount = 8,
              aq_stamp = lk_time s (lk_ticks s + 1), aq_data = data_header (lk_txSequence s) @ b\<rparr>],
            lk_out := lk_out s @ [DL_send (data_header (lk_txSequence s) @ b) (isEPOC s)]\<rparr>)"
  using assms
  by (simp add: link_transmit_def link_up_def link_now_def link_await_def dl_send_packet_def
      Let_def split_beta link_simps isEPOC_def)

lemma fold_transmit_full:
  assumes "link_up s" "[] \<notin> set bs" "length (lk_ackWaitQueue s) \<ge> lk_maxOutstanding s"
  shows "lk_waitQueue (fold link_transmit bs s) = lk_waitQueue s @ bs \<and>
    lk_ackWaitQueue (fold link_transmit bs s) = lk_ackWaitQueue s \<and>
    lk_out (fold link_transmit bs s) = lk_out s"
  using assms
proof (induction bs arbitrary: s)
  case (Cons b bs)
  then show ?case by (cases b) (simp_all add: link_transmit_up)
qed simp

lemma fold_transmit_window:
  assumes "link_up s" "[] \<notin> set bs" "k = lk_maxOutstanding s - length (lk_ackWaitQueue s)"
  shows "lk_waitQueue (fold link_transmit bs s) = lk_waitQueue s @ drop k bs \<and>
    map aq_data (lk_ackWaitQueue (fold link_transmit bs s)) =
      map aq_data (lk_ackWaitQueue s) @ numbered (lk_seqMask s) (lk_txSequence s) (take k bs) \<and>
    lk_out (fold link_transmit bs s) =
      lk_out s @ map (\<lambda>d. DL_send d (isEPOC s)) (numbered (lk_seqMask s) (lk_txSequence s) (take k bs))"
  using assms
proof (induction bs arbitrary: s k)
  case Nil
  then show ?case by simp
next
  case (Cons b bs)
  show ?case
  proof (cases "length (lk_ackWaitQueue s) \<ge> lk_maxOutstanding s")
    case True
    with Cons.prems fold_transmit_full [of s "b # bs"] show ?thesis by simp
  next
    case False
    then have "k \<noteq> 0" using Cons.prems(3) by simp
    then obtain k' where k: "k = Suc k'" using not0_implies_Suc by blast
    define t where "t = link_transmit b s"
    have t: "t = s\<lparr>lk_ticks := lk_ticks s + 2, lk_txSequence := (lk_txSequence s + 1) AND lk_seqMask s,
            lk_ackWaitQueue := lk_ackWaitQueue s @ [\<lparr>aq_seq = lk_txSequence s, aq_txcount = 8,
              aq_stamp = lk_time s (lk_ticks s + 1), aq_data = data_header (lk_txSequence s) @ b\<rparr>],
            lk_out := lk_out s @ [DL_send (data_header (lk_txSequence s) @ b) (isEPOC s)]\<rparr>"
      using False Cons.prems(1,2) by (cases b) (simp_all add: link_transmit_up t_def)
    have "link_up t" "k' = lk_maxOutstanding t - length (lk_ackWaitQueue t)"
      using Cons.prems(1,3) False k by (simp_all add: t)
    with Cons.IH [of t k'] Cons.prems(2)
    have "lk_waitQueue (fold link_transmit bs t) = lk_waitQueue t @ drop k' bs \<and>
      map aq_data (lk_ackWaitQueue (fold link_transmit bs t)) =
        map aq_data (lk_ackWaitQueue t) @ numbered (lk_seqMask t) (lk_txSequence t) (take k' bs) \<and>
      lk_out (fold link_transmit bs t) =
        lk_out t @ map (\<lambda>d. DL_send d (isEPOC t)) (numbered (lk_seqMask t) (lk_txSequence t) (take k' bs))"
      by simp
    then show ?thesis
      by (simp add: t_def [symmetric] k) (simp add: t isEPOC_def)
  qed
qed

text \<open>
  C10: the sliding window. When an acknowledgement for an outstanding packet arrives on a
  working link, that packet and all older ones are forgotten, the packets that wait are
  sent in their order and with consecutive numbers as far as the window has room, and the
  rest keeps waiting in order.
\<close>

theorem link_window_slides:
  assumes "link_up s" and "lk_linkType s \<noteq> LINK_TYPE_UNKNOWN" and "[] \<notin> set (lk_waitQueue s)"
    and "ack_find seq (lk_ackWaitQueue s) = Some (e, queue)"
    and "rest = filter (\<lambda>x. \<not> olderthan (aq_stamp x) (aq_stamp e)) queue"
    and "room = lk_maxOutstanding s - length rest"
    and "0 \<le> seq" and "seq < 2048"
    and "s' = fst (link_receive (ack_header seq) s)"
  shows "lk_waitQueue s' = drop room (lk_waitQueue s) \<and>
         map aq_data (lk_ackWaitQueue s') = map aq_data rest @
           numbered (lk_seqMask s) (lk_txSequence s) (take room (lk_waitQueue s)) \<and>
         lk_out s' = lk_out s @ map (\<lambda>d. DL_send d (isEPOC s))
           (numbered (lk_seqMask s) (lk_txSequence s) (take room (lk_waitQueue s)))"
proof -
  let ?t = "s\<lparr>lk_ackWaitQueue := rest, lk_waitQueue := []\<rparr>"
  have "link_receive (ack_header seq) s = (link_receiveAck seq s, None)"
    using link_header_encoded(2) [OF assms(7,8), of s "[]"] by (simp add: link_receive_def)
  then have "s' = fold link_transmit (lk_waitQueue s) ?t"
    using assms(2,4,5,9)
    by (simp add: link_receiveAck_def Let_def link_multiAck_def link_transmitWaitQueue_def)
  then show ?thesis
    using fold_transmit_window [of ?t "lk_waitQueue s" room] assms(1,3,6) by (simp add: isEPOC_def)
qed

section \<open>Retransmission\<close>

lemma unat_stamp:
  fixes s u :: "64 word"
  assumes "unat s < 2 ^ 31" "unat u < 2 ^ 32"
  shows "unat (push_bit 32 s + u) = unat s * 2 ^ 32 + unat u"
proof -
  have "unat (push_bit 32 s) = unat s * 2 ^ 32"
    using assms(1) by (simp add: push_bit_eq_mult unat_word_ariths)
  then show ?thesis
    using assms by (simp add: unat_word_ariths)
qed

lemma stamp_recombine:
  "push_bit 32 (drop_bit 32 (m :: 64 word) AND 0xffffffff) + (m AND 0xffffffff) = m"
proof -
  have mask: "(0xffffffff :: 64 word) = mask 32" by (simp add: mask_eq_exp_minus_1)
  have "push_bit 32 (drop_bit 32 m AND mask 32) + (m AND mask 32) =
      push_bit 32 (drop_bit 32 m AND mask 32) OR (m AND mask 32)"
    by (rule disjunctive_add_eq_or, rule bit_eqI) (auto simp: bit_simps)
  also have "\<dots> = m"
    by (rule bit_eqI) (auto simp: bit_simps dest: bit_imp_le_length)
  finally show ?thesis unfolding mask .
qed

lemma stamp_compare:
  fixes S S1 U U1 K :: nat
  assumes "U < 1000000" "U1 < 1000000" "K < 4000000000"
  shows "S1 * 2 ^ 32 + U1 < S * 2 ^ 32 + U - K \<longleftrightarrow> S1 < S \<or> S1 = S \<and> U1 + K < U"
proof (cases S1 S rule: linorder_cases)
  case less
  then have "S1 * 4294967296 + 4294967296 \<le> S * 4294967296" by linarith
  with less assms show ?thesis by (simp add: less_diff_conv)
next
  case equal
  then show ?thesis by (simp add: less_diff_conv)
next
  case greater
  then have "S * 4294967296 + 4294967296 \<le> S1 * 4294967296" by linarith
  with greater assms show ?thesis by (simp add: less_diff_conv)
qed

lemma timesub_value:
  "push_bit 32 (tv_sec (timesub tv ms)) + tv_usec (timesub tv ms) =
     push_bit 32 (tv_sec tv) + tv_usec tv - ms * 1000"
  by (simp only: timesub_def Let_def timeval.simps stamp_recombine)

lemma expired_iff:
  assumes "unat (tv_sec now) < 2 ^ 31" and "0 < unat (tv_sec now)" and "unat (tv_usec now) < 1000000"
    and "unat (tv_sec stamp) < 2 ^ 31" and "unat (tv_usec stamp) < 1000000"
    and "unat ms < 4000000"
  shows "olderthan stamp (timesub now ms) \<longleftrightarrow>
           tv_sec stamp < tv_sec now \<or>
           tv_sec stamp = tv_sec now \<and> unat (tv_usec stamp) + unat ms * 1000 < unat (tv_usec now)"
proof -
  let ?S = "unat (tv_sec now)" and ?U = "unat (tv_usec now)"
  let ?S1 = "unat (tv_sec stamp)" and ?U1 = "unat (tv_usec stamp)" and ?K = "unat ms * 1000"
  have K: "unat (ms * 1000) = ?K"
    using assms(6) by (simp add: unat_word_ariths)
  have m: "unat (push_bit 32 (tv_sec now) + tv_usec now) = ?S * 2 ^ 32 + ?U"
    using assms(1,3) by (intro unat_stamp) simp_all
  have "?K \<le> ?S * 2 ^ 32 + ?U"
    using assms(2,6) by simp
  then have sub: "unat (push_bit 32 (tv_sec now) + tv_usec now - ms * 1000) = ?S * 2 ^ 32 + ?U - ?K"
    using m K by (simp add: unat_sub word_le_nat_alt)
  have "olderthan stamp (timesub now ms) \<longleftrightarrow> ?S1 * 2 ^ 32 + ?U1 < ?S * 2 ^ 32 + ?U - ?K"
    using unat_stamp [of "tv_sec stamp" "tv_usec stamp"] assms(4,5) sub
    by (simp add: olderthan_def timesub_value word_less_nat_alt)
  also have "\<dots> \<longleftrightarrow> ?S1 < ?S \<or> ?S1 = ?S \<and> ?U1 + ?K < ?U"
    using stamp_compare [OF assms(3,5), of ?K ?S1 ?S] assms(6) by simp
  finally show ?thesis
    by (simp add: word_less_nat_alt word_unat_eq_iff)
qed

text \<open>
  what \<open>retransmit\<close> takes for expired. For every timeout the stamps are compared as if
  a second had \<open>2 ^ 32\<close> microseconds: a packet has expired when it was sent in an earlier
  second of the clock, however short ago, or in the same second and longer ago than the
  timeout. A timeout of a second or more (8927 ms at 115200 baud) is never respected.
\<close>

theorem link_expiry:
  assumes "unat (tv_sec now) < 2 ^ 31" and "0 < unat (tv_sec now)" and "unat (tv_usec now) < 1000000"
    and "unat (tv_sec stamp) < 2 ^ 31" and "unat (tv_usec stamp) < 1000000"
    and "unat ms < 4000000"
  shows "olderthan stamp (timesub now ms) \<longleftrightarrow>
           tv_sec stamp < tv_sec now \<or>
           tv_sec stamp = tv_sec now \<and> unat (tv_usec stamp) + unat ms * 1000 < unat (tv_usec now)"
  using expired_iff [OF assms] .

theorem link_expiry_witness:
  "olderthan \<lparr>tv_sec = 999, tv_usec = 999999\<rparr> (timesub \<lparr>tv_sec = 1000, tv_usec = 0\<rparr> 8927)"
  using link_expiry [of "\<lparr>tv_sec = 1000, tv_usec = 0\<rparr>" "\<lparr>tv_sec = 999, tv_usec = 999999\<rparr>" 8927]
  by simp


text \<open>
  A packet that is never acknowledged on a working line, when every check finds its last
  transmission too long ago.
\<close>

lemma link_retransmit_once:
  assumes "\<not> lk_failed s" "\<And>n. \<not> lk_line s n" "lk_ackWaitQueue s = [e]"
    "olderthan (aq_stamp e) (timesub (lk_time s (Suc (lk_ticks s))) (retransTimeout s))"
  shows "link_retransmit s =
    (if aq_txcount e = 0 then s\<lparr>lk_ticks := lk_ticks s + 2, lk_ackWaitQueue := [], lk_failed := True\<rparr>
     else s\<lparr>lk_ticks := lk_ticks s + 2,
            lk_ackWaitQueue := [e\<lparr>aq_txcount := aq_txcount e - 1,
                                  aq_stamp := lk_time s (Suc (lk_ticks s))\<rparr>],
            lk_out := lk_out s @ [DL_send (aq_data e) (isEPOC s)]\<rparr>)"
  using assms
  by (simp add: link_retransmit_def link_now_def Let_def split_beta link_simps dl_send_packet_def
      isEPOC_def retransTimeout_def link_getSpeed_def)

text \<open>
  C23: a packet that is never acknowledged is sent again \<open>txcount\<close> times, and then the link
  gives up: the check after the last retry empties the queue and marks the link as failed.
\<close>

theorem link_gives_up:
  assumes "\<not> lk_failed s" and "\<And>n. \<not> lk_line s n" and "lk_ackWaitQueue s = [e]"
    and "aq_txcount e = int k"
    and "olderthan (aq_stamp e) (timesub (lk_time s (Suc (lk_ticks s))) (retransTimeout s))"
    and "\<And>m n. m < n \<Longrightarrow> n < lk_ticks s + 2 * k + 2 \<Longrightarrow> olderthan (lk_time s m) (timesub (lk_time s n) (retransTimeout s))"
    and "s' = (link_retransmit ^^ Suc k) s"
  shows "lk_failed s' \<and> lk_ackWaitQueue s' = [] \<and>
         lk_out s' = lk_out s @ replicate k (DL_send (aq_data e) (isEPOC s))"
proof -
  have rounds: "\<exists>x. (link_retransmit ^^ i) s = s\<lparr>lk_ticks := lk_ticks s + 2 * i, lk_ackWaitQueue := [x],
        lk_out := lk_out s @ replicate i (DL_send (aq_data e) (isEPOC s))\<rparr> \<and>
      aq_txcount x = int k - int i \<and> aq_data x = aq_data e \<and>
      olderthan (aq_stamp x) (timesub (lk_time s (Suc (lk_ticks s + 2 * i))) (retransTimeout s))"
    if "i \<le> k" for i
    using that
  proof (induction i)
    case 0
    have "(link_retransmit ^^ 0) s = s\<lparr>lk_ticks := lk_ticks s + 2 * 0, lk_ackWaitQueue := [e],
        lk_out := lk_out s @ replicate 0 (DL_send (aq_data e) (isEPOC s))\<rparr>"
      using assms(3) by simp
    then show ?case using assms(4,5) by auto
  next
    case (Suc i)
    then obtain x where x: "(link_retransmit ^^ i) s = s\<lparr>lk_ticks := lk_ticks s + 2 * i,
        lk_ackWaitQueue := [x], lk_out := lk_out s @ replicate i (DL_send (aq_data e) (isEPOC s))\<rparr>"
      "aq_txcount x = int k - int i" "aq_data x = aq_data e"
      "olderthan (aq_stamp x) (timesub (lk_time s (Suc (lk_ticks s + 2 * i))) (retransTimeout s))"
      by auto
    let ?t = "(link_retransmit ^^ i) s"
    have "aq_txcount x \<noteq> 0" using x(2) Suc.prems by simp
    then have "link_retransmit ?t = ?t\<lparr>lk_ticks := lk_ticks ?t + 2,
        lk_ackWaitQueue := [x\<lparr>aq_txcount := aq_txcount x - 1, aq_stamp := lk_time ?t (Suc (lk_ticks ?t))\<rparr>],
        lk_out := lk_out ?t @ [DL_send (aq_data x) (isEPOC ?t)]\<rparr>"
      using link_retransmit_once [of ?t x] assms(1,2) x(1,4)
      by (simp add: retransTimeout_def link_getSpeed_def)
    then show ?case
      using x assms(6) [of "Suc (lk_ticks s + 2 * i)" "Suc (lk_ticks s + 2 * Suc i)"] Suc.prems
      by (intro exI [of _ "x\<lparr>aq_txcount := aq_txcount x - 1, aq_stamp := lk_time ?t (Suc (lk_ticks ?t))\<rparr>"])
        (simp add: isEPOC_def replicate_append_same)
  qed
  obtain x where x: "(link_retransmit ^^ k) s = s\<lparr>lk_ticks := lk_ticks s + 2 * k, lk_ackWaitQueue := [x],
        lk_out := lk_out s @ replicate k (DL_send (aq_data e) (isEPOC s))\<rparr>"
    "aq_txcount x = 0"
    "olderthan (aq_stamp x) (timesub (lk_time s (Suc (lk_ticks s + 2 * k))) (retransTimeout s))"
    using rounds [of k] by auto
  show ?thesis
    using link_retransmit_once [of "(link_retransmit ^^ k) s" x] assms(1,2,7) x
    by (simp add: retransTimeout_def link_getSpeed_def)
qed

definition link_waiting :: link where
  "link_waiting = link_construct (\<lambda>_. False) (\<lambda>n. \<lparr>tv_sec = 1000 + of_nat n, tv_usec = 0\<rparr>) 0 9600 0"

theorem link_gives_up_witness:
  "lk_failed ((link_retransmit ^^ 5) link_waiting) \<and>
   lk_out ((link_retransmit ^^ 5) link_waiting) = replicate 5 (DL_send [0x21] False)"
proof -
  let ?s = link_waiting and ?e = "\<lparr>aq_seq = 0, aq_txcount = 4, aq_stamp = \<lparr>tv_sec = 1001, tv_usec = 0\<rparr>, aq_data = [0x21]\<rparr>"
  have s: "\<not> lk_failed ?s" "\<And>n. \<not> lk_line ?s n" "lk_ackWaitQueue ?s = [?e]" "lk_ticks ?s = 2"
    "lk_out ?s = [DL_send [0x21] False]" "lk_speed ?s = 9600" "\<not> isEPOC ?s"
    "lk_time ?s = (\<lambda>n. \<lparr>tv_sec = 1000 + of_nat n, tv_usec = 0\<rparr>)"
    by (simp_all add: link_waiting_def link_construct_def link_new_def link_sendReqReq_def link_now_def
        link_await_def dl_send_packet_def isEPOC_def Let_def split_beta link_simps)
  have timeout: "retransTimeout ?s = 927"
    by (simp add: retransTimeout_def link_getSpeed_def s)
  have sec: "unat (1000 + of_nat n :: 64 word) = 1000 + n" if "n < 100" for n
    using that by (simp add: unat_word_ariths unat_of_nat)
  have clock: "olderthan \<lparr>tv_sec = 1000 + of_nat m, tv_usec = 0\<rparr>
      (timesub \<lparr>tv_sec = 1000 + of_nat n, tv_usec = 0\<rparr> 927)" if "m < n" "n < 100" for m n
    using that sec [of m] sec [of n]
    by (subst expired_iff) (simp_all add: word_less_nat_alt)
  show ?thesis
    using link_gives_up [of ?s ?e 4 "(link_retransmit ^^ 5) ?s"] clock [of 1 3] clock s timeout
    by (simp add: numeral_eq_Suc)
qed

theorem link_window_slides_witness:
  "lk_waitQueue (fst (link_receive (ack_header 2) (link_sample
       \<lparr>lk_ackWaitQueue := replicate 8 \<lparr>aq_seq = 2, aq_txcount = 8, aq_stamp = \<lparr>tv_sec = 1, tv_usec = 1\<rparr>, aq_data = [0x32, 9]\<rparr>,
        lk_waitQueue := [[1], [2], [3]]\<rparr>))) = [[2], [3]]"
proof -
  let ?e = "\<lparr>aq_seq = 2, aq_txcount = 8, aq_stamp = \<lparr>tv_sec = 1, tv_usec = 1\<rparr>, aq_data = [0x32, 9 :: byte]\<rparr>"
  let ?s = "link_sample\<lparr>lk_ackWaitQueue := replicate 8 ?e, lk_waitQueue := [[1], [2], [3]]\<rparr>"
  have up: "link_up ?s"
    using link_sample_fields by (simp add: link_up_def)
  have type: "lk_linkType ?s \<noteq> LINK_TYPE_UNKNOWN"
    by (simp add: link_sample_def link_construct_def link_new_def link_sendReqReq_def link_now_def
        link_await_def link_receive_def link_header_def link_peek_def link_receiveReq_def
        link_sendAck_def isEPOC_def dl_send_packet_def Let_def split_beta link_simps)
  have find: "ack_find 2 (lk_ackWaitQueue ?s) = Some (?e, replicate 7 ?e)"
    by (simp add: numeral_eq_Suc)
  have rest: "replicate 7 ?e = filter (\<lambda>x. \<not> olderthan (aq_stamp x) (aq_stamp ?e)) (replicate 7 ?e)"
    by (simp add: olderthan_def)
  from link_window_slides [OF up type _ find rest refl _ _ refl] show ?thesis
    using link_sample_fields(5) by simp
qed

section \<open>Flow control\<close>

lemma fold_transmit_hold:
  "link_up s \<Longrightarrow> [] \<notin> set bs \<Longrightarrow> lk_holdQueue (fold link_transmit bs s) = lk_holdQueue s"
proof (induction bs arbitrary: s)
  case (Cons b bs)
  then show ?case by (cases b) (simp_all add: link_transmit_up)
qed simp

text \<open>
  flow control per channel. While a channel is stopped its packets are kept and not
  sent. The XON packet for it is acknowledged and not passed to the NCP, and the kept
  packets of that channel are sent in their order as far as the window has room; the rest
  waits, and packets kept for other channels stay where they are.
\<close>

theorem link_flow_control:
  assumes "link_up (s\<lparr>lk_xoff := (lk_xoff s)(c := False)\<rparr>)" and "lk_xoff s c"
    and "[] \<notin> set (lk_holdQueue s)" and "0 \<le> q" and "q < 2048"
    and "(lk_rxSequence s + 1) AND lk_seqMask s = q"
    and "mine = filter (\<lambda>b. hd b = c) (lk_holdQueue s)"
    and "room = lk_maxOutstanding s - length (lk_ackWaitQueue s)"
    and "s' = fst (link_receive (data_header q @ [0, c, 2]) s)"
  shows "link_transmit (c # b) s = s\<lparr>lk_ticks := lk_ticks s + 1, lk_holdQueue := lk_holdQueue s @ [c # b]\<rparr> \<and>
         snd (link_receive (data_header q @ [0, c, 2]) s) = None \<and>
         lk_holdQueue s' = filter (\<lambda>b. hd b \<noteq> c) (lk_holdQueue s) \<and>
         lk_waitQueue s' = lk_waitQueue s @ drop room mine \<and>
         lk_out s' = lk_out s @ [DL_send (ack_header q) (isEPOC s)] @ map (\<lambda>d. DL_send d (isEPOC s))
           (numbered (lk_seqMask s) (lk_txSequence s) (take room mine))"
proof -
  have ok: "\<not> lk_failed s" "\<And>n. \<not> lk_line s n"
    using assms(1) by (simp_all add: link_up_def)
  have hold: "link_transmit (c # b) s = s\<lparr>lk_ticks := lk_ticks s + 1, lk_holdQueue := lk_holdQueue s @ [c # b]\<rparr>"
    using ok assms(2) by (simp add: link_transmit_def link_peek_def Let_def split_beta link_simps)
  let ?others = "filter (\<lambda>b. hd b \<noteq> c) (lk_holdQueue s)"
  define t where "t = s\<lparr>lk_rxSequence := q, lk_ticks := lk_ticks s + 1,
      lk_out := lk_out s @ [DL_send (ack_header q) (isEPOC s)], lk_xoff := (lk_xoff s)(c := False),
      lk_holdQueue := ?others\<rparr>"
  have peek: "x \<in> set (lk_holdQueue s) \<Longrightarrow> link_peek s' x 0 = hd x" for x s'
    using assms(3) by (cases x) (auto simp: link_peek_def)
  have ack: "link_sendAck q (s\<lparr>lk_rxSequence := q\<rparr>) =
      s\<lparr>lk_rxSequence := q, lk_ticks := lk_ticks s + 1, lk_out := lk_out s @ [DL_send (ack_header q) (isEPOC s)]\<rparr>"
    using ok by (simp add: link_sendAck_def dl_send_packet_def isEPOC_def Let_def split_beta link_simps)
  have "link_receive (data_header q @ [0, c, 2]) s = (fold link_transmit mine t, None)"
    using assms(6,7) link_header_encoded(1) [OF assms(4,5), of s "[0, c, 2]"] peek
    by (simp add: link_receive_def link_receiveData_def Let_def ack link_transmitHoldQueue_def
        t_def cong: filter_cong)
  moreover have "link_up t" "[] \<notin> set mine"
    using assms(1,3,7) by (simp_all add: t_def link_up_def)
  ultimately show ?thesis
    using hold fold_transmit_window [of t mine room] fold_transmit_hold [of t mine] assms(8,9)
    by (simp add: t_def isEPOC_def)
qed

theorem link_flow_control_witness:
  "lk_out (fst (link_receive (data_header 1 @ [0, 5, 2])
     (link_sample\<lparr>lk_xoff := (\<lambda>_. False)(5 := True), lk_holdQueue := [[5, 1], [6, 2], [5, 3]]\<rparr>))) =
   lk_out link_sample @ [DL_send [1] True, DL_send [0x31, 5, 1] True, DL_send [0x32, 5, 3] True]"
proof -
  let ?s = "link_sample\<lparr>lk_xoff := (\<lambda>_. False)(5 := True), lk_holdQueue := [[5, 1], [6, 2], [5, 3]]\<rparr>"
  have up: "link_up (?s\<lparr>lk_xoff := (lk_xoff ?s)(5 := False)\<rparr>)"
    using link_sample_fields by (simp add: link_up_def)
  have next_one: "(lk_rxSequence ?s + 1) AND lk_seqMask ?s = 1"
    using link_sample_fields by simp
  have epoc: "isEPOC ?s"
    by (simp add: link_sample_def link_construct_def link_new_def link_sendReqReq_def link_now_def
        link_await_def link_receive_def link_header_def link_peek_def link_receiveReq_def
        link_sendAck_def isEPOC_def dl_send_packet_def Let_def split_beta link_simps)
  have "lk_xoff ?s 5" "[] \<notin> set (lk_holdQueue ?s)" by simp_all
  from link_flow_control [OF up this _ _ next_one refl refl refl] epoc show ?thesis
    using link_sample_fields(2,4,5,6) by (simp add: ack_header_def data_header_def)
qed

section \<open>Establishing a link\<close>

text \<open>
  establishing a link, on a line that works, with the request of the own side
  outstanding. A confirmation makes it an EPOC link with extended sequence numbers and a
  window of 8; an acknowledgement of the request or a request with number 0 makes it a SIBO
  link with numbers up to 7 and a window of 1; a request with another number is answered
  with a confirmation packet that carries the magic number. Each time both sequences start
  afresh.
\<close>

theorem link_establishment:
  assumes "\<And>n. \<not> lk_line s n" and "lk_linkType s = LINK_TYPE_UNKNOWN" and "lk_waitQueue s = []"
    and "lk_ackWaitQueue s = [e]" and "aq_seq e = 0" and "aq_data e = [0x21]"
    and "confirmed = fst (link_receive (0x24 # body) s)"
    and "acked = fst (link_receive [0x00] s)"
    and "requested = fst (link_receive (0x20 # body) s)"
    and "requested1 = fst (link_receive (0x21 # body) s)"
  shows "(lk_linkType confirmed, lk_seqMask confirmed, lk_maxOutstanding confirmed,
          lk_rxSequence confirmed, lk_txSequence confirmed) = (LINK_TYPE_EPOC, 2047, 8, 0, 1) \<and>
         lk_ackWaitQueue confirmed = [] \<and> lk_out confirmed = lk_out s @ [DL_send [0] True] \<and>
         (lk_linkType acked, lk_seqMask acked, lk_maxOutstanding acked,
          lk_rxSequence acked, lk_txSequence acked) = (LINK_TYPE_SIBO, 7, 1, 0, 1) \<and>
         lk_ackWaitQueue acked = [] \<and> lk_out acked = lk_out s \<and>
         (lk_linkType requested, lk_seqMask requested, lk_maxOutstanding requested,
          lk_rxSequence requested, lk_txSequence requested) = (LINK_TYPE_SIBO, 7, 1, 0, 1) \<and>
         lk_ackWaitQueue requested = [] \<and> lk_out requested = lk_out s @ [DL_send [0] False] \<and>
         (lk_linkType requested1, lk_seqMask requested1, lk_maxOutstanding requested1,
          lk_rxSequence requested1, lk_txSequence requested1) = (LINK_TYPE_EPOC, 2047, 8, 0, 0) \<and>
         lk_out requested1 = lk_out s @ [DL_send (0x24 # le32 (uint (lk_conMagic s))) True]"
proof -
  note defs = link_receive_def link_header_def link_peek_def link_receiveReq_def link_receiveAck_def
    link_sendAck_def link_sendReqCon_def link_await_def link_now_def isEPOC_def dl_send_packet_def
    link_purgeAllQueues_def link_multiAck_def link_transmitWaitQueue_def ack_header_def
  have "(lk_linkType confirmed, lk_seqMask confirmed, lk_maxOutstanding confirmed,
          lk_rxSequence confirmed, lk_txSequence confirmed) = (LINK_TYPE_EPOC, 2047, 8, 0, 1)"
    "lk_ackWaitQueue confirmed = []" "lk_out confirmed = lk_out s @ [DL_send [0] True]"
    using assms(1-7) by (simp_all add: defs Let_def split_beta link_simps)
  moreover have "(lk_linkType acked, lk_seqMask acked, lk_maxOutstanding acked,
          lk_rxSequence acked, lk_txSequence acked) = (LINK_TYPE_SIBO, 7, 1, 0, 1)"
    "lk_ackWaitQueue acked = []" "lk_out acked = lk_out s"
    using assms(1-6,8) by (simp_all add: defs Let_def split_beta link_simps)
  moreover have "(lk_linkType requested, lk_seqMask requested, lk_maxOutstanding requested,
          lk_rxSequence requested, lk_txSequence requested) = (LINK_TYPE_SIBO, 7, 1, 0, 1)"
    "lk_ackWaitQueue requested = []" "lk_out requested = lk_out s @ [DL_send [0] False]"
    using assms(1-6,9) by (simp_all add: defs Let_def split_beta link_simps)
  moreover have "(lk_linkType requested1, lk_seqMask requested1, lk_maxOutstanding requested1,
          lk_rxSequence requested1, lk_txSequence requested1) = (LINK_TYPE_EPOC, 2047, 8, 0, 0)"
    "lk_out requested1 = lk_out s @ [DL_send (0x24 # le32 (uint (lk_conMagic s))) True]"
    using assms(1-6,10) by (simp_all add: defs Let_def split_beta link_simps)
  ultimately show ?thesis by blast
qed

theorem link_establishment_witness:
  "lk_linkType (fst (link_receive [0x24, 1, 2, 3, 4] link_waiting)) = LINK_TYPE_EPOC"
proof -
  let ?e = "\<lparr>aq_seq = 0, aq_txcount = 4, aq_stamp = \<lparr>tv_sec = 1001, tv_usec = 0\<rparr>, aq_data = [0x21]\<rparr>"
  have "\<And>n. \<not> lk_line link_waiting n" "lk_linkType link_waiting = LINK_TYPE_UNKNOWN"
    "lk_waitQueue link_waiting = []" "lk_ackWaitQueue link_waiting = [?e]"
    by (simp_all add: link_waiting_def link_construct_def link_new_def link_sendReqReq_def link_now_def
        link_await_def dl_send_packet_def isEPOC_def Let_def split_beta link_simps)
  from link_establishment [OF this _ _ refl refl refl refl, of "[1, 2, 3, 4]"] show ?thesis
    by simp
qed

text \<open>
  a reset forgets the packets that wait for an acknowledgement or for XON, but not
  those that wait for room in the window: the first packet sent on the new link, with
  number 1, is a packet of the old one.
\<close>

theorem link_reset_stale_packet:
  assumes "\<And>n. \<not> lk_line s n" and "lk_waitQueue s = (c # b) # bs" and "[] \<notin> set bs"
    and "s' = fst (link_receive [0x00] (link_reset s))"
  shows "lk_ackWaitQueue (link_reset s) \<noteq> [] \<and> lk_holdQueue (link_reset s) = [] \<and>
         lk_linkType s' = LINK_TYPE_SIBO \<and>
         lk_out s' = lk_out (link_reset s) @ [DL_send (0x31 # c # b) False] \<and> lk_waitQueue s' = bs"
proof -
  have reset: "link_reset s = s\<lparr>lk_txSequence := 1, lk_rxSequence := -1, lk_failed := False,
      lk_seqMask := 7, lk_maxOutstanding := 1, lk_linkType := LINK_TYPE_UNKNOWN,
      lk_ackWaitQueue := [\<lparr>aq_seq = 0, aq_txcount = 4, aq_stamp = lk_time s (Suc (lk_ticks s)), aq_data = [0x21]\<rparr>],
      lk_holdQueue := [], lk_xoff := (\<lambda>_. False), lk_ticks := lk_ticks s + 2,
      lk_out := lk_out s @ [DL_reset, DL_send [0x21] False]\<rparr>"
    using assms(1) by (simp add: link_reset_def link_purgeAllQueues_def link_sendReqReq_def link_now_def
        link_await_def dl_send_packet_def isEPOC_def Let_def split_beta link_simps)
  define u where "u = s\<lparr>lk_xoff := (\<lambda>_. False), lk_ticks := Suc (Suc (lk_ticks s)),
      lk_out := lk_out s @ [DL_reset, DL_send [0x21] False], lk_failed := False,
      lk_linkType := LINK_TYPE_SIBO, lk_seqMask := 7, lk_maxOutstanding := 1, lk_rxSequence := 0,
      lk_txSequence := 1, lk_holdQueue := [], lk_ackWaitQueue := [], lk_waitQueue := []\<rparr>"
  have up: "link_up u"
    using assms(1) by (simp add: u_def link_up_def)
  have "link_receive [0] (link_reset s) = (fold link_transmit ((c # b) # bs) u, None)"
    by (simp add: reset link_receive_def link_header_def link_peek_def link_receiveAck_def Let_def
        link_purgeAllQueues_def link_multiAck_def link_transmitWaitQueue_def assms(2) u_def
        del: fold_simps)
  then have s': "s' = fold link_transmit ((c # b) # bs) u"
    using assms(4) by simp
  have type: "lk_linkType (fold link_transmit cs v) = lk_linkType v" for cs v
    by (induction cs arbitrary: v)
      (simp_all add: link_transmit_def link_now_def Let_def split_beta link_simps link_await_def)
  have "lk_linkType (fold link_transmit ((c # b) # bs) u) = LINK_TYPE_SIBO"
    by (simp only: type) (simp add: u_def)
  then show ?thesis
    unfolding s' using fold_transmit_window [OF up, of "(c # b) # bs" 1] assms(3)
    by (simp add: reset u_def isEPOC_def data_header_def del: fold_simps)
qed

theorem link_reset_stale_packet_witness:
  "lk_waitQueue (fst (link_receive [0x00] (link_reset (link_sample\<lparr>lk_waitQueue := [[4, 5], [6]]\<rparr>)))) = [[6]]"
  using link_reset_stale_packet [of "link_sample\<lparr>lk_waitQueue := [[4, 5], [6]]\<rparr>" 4 "[5]" "[[6]]", OF _ _ _ refl]
    link_sample_fields(10)
  by simp

end
