(* ===== verification/Ncp.thy ===== *)
theory Ncp
  imports Link
begin

text \<open>
  The channel multiplexer of \<open>lib/ncp.cc\<close>: its state and the operations the channels
  call (\<open>lib/channel.cc\<close>, and \<open>LinkChannel::Register\<close>, which \<open>NCP::Register\<close> needs). The
  record \<open>ncp\<close> holds the members of the class \<open>NCP\<close>, with the \<open>Link\<close> object inside. Channel
  objects live in the store \<open>n_chans\<close>, pointers to them are numbers, and \<open>delete\<close> removes
  them from the store; \<open>n_uaf\<close> records that a deleted object has been used. The record
  \<open>channel\<close> has the members of \<open>Channel\<close> and of both subclasses. Packets to a client's TCP
  socket and calls of the status callback are recorded in \<open>n_sock\<close> and \<open>n_status\<close>.
  What the code reads behind the end of a short message is \<open>lk_junk\<close> for a byte and
  \<open>n_tail\<close> for the rest of an unterminated string.
\<close>

section \<open>State\<close>

definition MAX_CHANNELS_PSION :: nat where "MAX_CHANNELS_PSION = 256"
definition MAX_CHANNELS_SIBO :: nat where "MAX_CHANNELS_SIBO = 8"
definition NCP_SENDLEN :: nat where "NCP_SENDLEN = 250"

definition PV_SERIES_5 :: int where "PV_SERIES_5 = 6"
definition PV_SERIES_3 :: int where "PV_SERIES_3 = 3"

datatype slot = Null | Deadbeef | Ptr nat

datatype chan_kind = LinkChan | SocketChan nat

record channel =
  ch_kind :: chan_kind
  ch_ncpChannel :: int
  ch_connectName :: "bytes option"
  ch_terminate :: bool
  ch_registerSer :: int
  ch_registerStack :: "bytes list"
  ch_registerName :: "bytes option"
  ch_isConnected :: bool
  ch_connectTry :: int
  ch_connectTryTimestamp :: int

datatype sock_event = Sock_send nat bytes | Sock_close nat

record ncp =
  n_link :: link
  n_channelPtr :: "slot list"
  n_messageList :: "bytes list"
  n_remoteChanList :: "byte list"
  n_failed :: bool
  n_protocolVersion :: int
  n_lChan :: "nat option"
  n_maxChannels :: nat
  n_pcServers :: "bytes list"
  n_lastSentChannel :: int
  n_hasCallback :: bool
  n_chans :: "nat \<Rightarrow> channel option"
  n_fresh :: nat
  n_uaf :: bool
  n_tail :: bytes
  n_status :: "(bool \<times> int) list"
  n_sock :: "sock_event list"

text \<open>\<open>remote\<close> and \<open>last_sent\<close> stand for the members that the constructor does not set.\<close>

definition ncp_new :: "link \<Rightarrow> bool \<Rightarrow> byte list \<Rightarrow> int \<Rightarrow> bytes \<Rightarrow> ncp" where
  "ncp_new l callback remote last_sent tail =
     \<lparr>n_link = l, n_channelPtr = replicate (MAX_CHANNELS_PSION + 1) Null,
      n_messageList = replicate (MAX_CHANNELS_PSION + 1) [], n_remoteChanList = remote,
      n_failed = False, n_protocolVersion = PV_SERIES_5, n_lChan = None,
      n_maxChannels = MAX_CHANNELS_SIBO, n_pcServers = [], n_lastSentChannel = last_sent,
      n_hasCallback = callback, n_chans = (\<lambda>_. None), n_fresh = 0, n_uaf = False,
      n_tail = tail, n_status = [], n_sock = []\<rparr>"

section \<open>Memory\<close>

definition ncp_peek :: "ncp \<Rightarrow> bytes \<Rightarrow> nat \<Rightarrow> byte" where
  "ncp_peek s b i = link_peek (n_link s) b i"

text \<open>The C string that starts at an offset of a buffer.\<close>

definition ncp_string :: "ncp \<Rightarrow> bytes \<Rightarrow> nat \<Rightarrow> bytes" where
  "ncp_string s b i = takeWhile (\<lambda>c. c \<noteq> 0) (drop i b @ n_tail s)"

definition chan_new :: "chan_kind \<Rightarrow> channel" where
  "chan_new kind =
     \<lparr>ch_kind = kind, ch_ncpChannel = 0, ch_connectName = None, ch_terminate = False,
      ch_registerSer = 0x1234, ch_registerStack = [],
      ch_registerName = (case kind of LinkChan \<Rightarrow> Some (ascii ''LINK'') | SocketChan _ \<Rightarrow> None),
      ch_isConnected = False, ch_connectTry = 0, ch_connectTryTimestamp = 0\<rparr>"

definition ncp_alloc :: "channel \<Rightarrow> ncp \<Rightarrow> nat \<times> ncp" where
  "ncp_alloc ch s =
     (n_fresh s, s\<lparr>n_chans := (n_chans s)(n_fresh s := Some ch), n_fresh := n_fresh s + 1\<rparr>)"

definition ncp_delete :: "nat \<Rightarrow> ncp \<Rightarrow> ncp" where
  "ncp_delete p s = s\<lparr>n_chans := (n_chans s)(p := None)\<rparr>"

definition chan_modify :: "nat \<Rightarrow> (channel \<Rightarrow> channel) \<Rightarrow> ncp \<Rightarrow> ncp" where
  "chan_modify p f s =
     (case n_chans s p of
        None \<Rightarrow> s\<lparr>n_uaf := True\<rparr>
      | Some ch \<Rightarrow> s\<lparr>n_chans := (n_chans s)(p := Some (f ch))\<rparr>)"

text \<open>Reading a member; of a deleted object, whatever \<open>chan_new\<close> has.\<close>

definition chan_of :: "nat \<Rightarrow> ncp \<Rightarrow> channel" where
  "chan_of p s = (case n_chans s p of None \<Rightarrow> chan_new LinkChan | Some ch \<Rightarrow> ch)"

definition getNcpChannel :: "nat \<Rightarrow> ncp \<Rightarrow> int" where
  "getNcpChannel p s = ch_ncpChannel (chan_of p s)"

definition setNcpChannel :: "nat \<Rightarrow> int \<Rightarrow> ncp \<Rightarrow> ncp" where
  "setNcpChannel p chan = chan_modify p (\<lambda>ch. ch\<lparr>ch_ncpChannel := chan\<rparr>)"

definition terminateWhenAsked :: "nat \<Rightarrow> ncp \<Rightarrow> ncp" where
  "terminateWhenAsked p = chan_modify p (\<lambda>ch. ch\<lparr>ch_terminate := True\<rparr>)"

definition setNcpConnectName :: "nat \<Rightarrow> bytes \<Rightarrow> ncp \<Rightarrow> ncp" where
  "setNcpConnectName p name = chan_modify p (\<lambda>ch. ch\<lparr>ch_connectName := Some name\<rparr>)"

definition shouldTerminate :: "nat \<Rightarrow> ncp \<Rightarrow> bool" where
  "shouldTerminate p s = ch_terminate (chan_of p s)"

section \<open>The channel table\<close>

definition set_slot :: "nat \<Rightarrow> slot \<Rightarrow> ncp \<Rightarrow> ncp" where
  "set_slot i x s = s\<lparr>n_channelPtr := (n_channelPtr s)[i := x]\<rparr>"

definition isValidChannel :: "nat \<Rightarrow> ncp \<Rightarrow> bool" where
  "isValidChannel channel s \<longleftrightarrow>
     n_channelPtr s ! channel \<noteq> Null \<and> n_channelPtr s ! channel \<noteq> Deadbeef"

definition slot_ptr :: "nat \<Rightarrow> ncp \<Rightarrow> nat" where
  "slot_ptr channel s = (case n_channelPtr s ! channel of Ptr p \<Rightarrow> p | _ \<Rightarrow> 0)"

definition maxLinks :: "ncp \<Rightarrow> nat" where
  "maxLinks s = n_maxChannels s"

fun first_unused :: "slot list \<Rightarrow> nat list \<Rightarrow> nat" where
  "first_unused slots [] = 0"
| "first_unused slots (cNum # cNums) =
     (if slots ! cNum = Null then cNum else first_unused slots cNums)"

definition getFirstUnusedChan :: "ncp \<Rightarrow> nat \<times> ncp" where
  "getFirstUnusedChan s =
     (let cNum = first_unused (n_channelPtr s) [1..<maxLinks s]
      in if cNum = 0 then (0, s) else (cNum, set_slot cNum Deadbeef s))"

section \<open>Sending\<close>

definition ncp_l_send :: "bytes \<Rightarrow> ncp \<Rightarrow> ncp" where
  "ncp_l_send b s = s\<lparr>n_link := link_send b (n_link s)\<rparr>"

definition NCON_MSG_CONNECT_TO_SERVER :: byte where "NCON_MSG_CONNECT_TO_SERVER = 3"
definition NCON_MSG_CONNECT_RESPONSE :: byte where "NCON_MSG_CONNECT_RESPONSE = 4"
definition NCON_MSG_NCP_INFO :: byte where "NCON_MSG_NCP_INFO = 6"
definition NCON_MSG_CHANNEL_DISCONNECT :: byte where "NCON_MSG_CHANNEL_DISCONNECT = 7"
definition NCON_MSG_NCP_END :: byte where "NCON_MSG_NCP_END = 8"

definition LAST_MESS :: byte where "LAST_MESS = 1"
definition NOT_LAST_MESS :: byte where "NOT_LAST_MESS = 2"

definition controlChannel :: "int \<Rightarrow> byte \<Rightarrow> bytes \<Rightarrow> ncp \<Rightarrow> ncp" where
  "controlChannel chan t command = ncp_l_send ([0, word_of_int chan, t] @ command)"

function ncp_fragments :: "bytes \<Rightarrow> (byte \<times> bytes) list" where
  "ncp_fragments a =
     (if length a > NCP_SENDLEN
      then (NOT_LAST_MESS, take NCP_SENDLEN a) # ncp_fragments (drop NCP_SENDLEN a)
      else [(LAST_MESS, take NCP_SENDLEN a)])"
  by pat_completeness auto
termination
  by (relation "measure length") (auto simp: NCP_SENDLEN_def)

definition ncp_send :: "nat \<Rightarrow> bytes \<Rightarrow> ncp \<Rightarrow> ncp" where
  "ncp_send channel a s =
     (let s = fold (\<lambda>(flag, b). ncp_l_send ([n_remoteChanList s ! channel, of_nat channel, flag] @ b))
                (ncp_fragments a) s
      in s\<lparr>n_lastSentChannel := int channel\<rparr>)"

section \<open>Connecting\<close>

definition ncp_connect :: "nat \<Rightarrow> ncp \<Rightarrow> int \<times> ncp" where
  "ncp_connect ch s =
     (let cNum = getNcpChannel ch s;
          (cNum, s) = (if cNum = 0 then (let (n, s) = getFirstUnusedChan s in (int n, s)) else (cNum, s))
      in if cNum > 0
         then (let s = set_slot (nat cNum) (Ptr ch) s;
                   s = setNcpChannel ch cNum s;
                   b = (case ch_connectName (chan_of ch s) of
                          Some name \<Rightarrow> name
                        | None \<Rightarrow> (case ch_registerName (chan_of ch s) of None \<Rightarrow> [] | Some name \<Rightarrow> name)
                                 @ ascii ''.*'')
               in (cNum, controlChannel cNum NCON_MSG_CONNECT_TO_SERVER (b @ [0]) s))
         else (-1, s))"

text \<open>The constructor of \<open>LinkChannel\<close>, which connects at once.\<close>

definition linkchan_new :: "int \<Rightarrow> ncp \<Rightarrow> nat \<times> ncp" where
  "linkchan_new ncpChannel s =
     (let ch = chan_new LinkChan;
          ch = (if ncpChannel \<noteq> -1 then ch\<lparr>ch_ncpChannel := ncpChannel\<rparr> else ch);
          (p, s) = ncp_alloc ch s
      in (p, snd (ncp_connect p s)))"

text \<open>\<open>Channel::ncpSend\<close> of a channel.\<close>

definition ncpSend :: "nat \<Rightarrow> bytes \<Rightarrow> ncp \<Rightarrow> ncp" where
  "ncpSend p a s = ncp_send (nat (getNcpChannel p s)) a s"

text \<open>\<open>LinkChannel::Register\<close> of the link channel \<open>lp\<close> for the channel \<open>ch\<close>.\<close>

definition linkchan_Register :: "nat \<Rightarrow> nat \<Rightarrow> ncp \<Rightarrow> ncp" where
  "linkchan_Register lp ch s =
     (let ser = ch_registerSer (chan_of lp s);
          stack = le16 ser @ le16 (getNcpChannel ch s);
          a = [0] @ le16 ser @ (case ch_registerName (chan_of ch s) of None \<Rightarrow> [] | Some name \<Rightarrow> name) @ [0];
          s = chan_modify lp (\<lambda>c. c\<lparr>ch_registerStack := ch_registerStack c @ [stack],
                                    ch_registerSer := ser + 1\<rparr>) s
      in ncpSend lp a s)"

definition ncp_Register :: "nat \<Rightarrow> ncp \<Rightarrow> ncp" where
  "ncp_Register ch s =
     (case n_lChan s of
        None \<Rightarrow> s
      | Some lp \<Rightarrow>
          (let cNum = getNcpChannel ch s;
               (cNum, s) = (if cNum = 0 then (let (n, s) = getFirstUnusedChan s in (int n, s)) else (cNum, s))
           in if cNum > 0
              then linkchan_Register lp ch (setNcpChannel ch cNum (set_slot (nat cNum) (Ptr ch) s))
              else s))"

definition ncp_disconnect :: "nat \<Rightarrow> ncp \<Rightarrow> ncp" where
  "ncp_disconnect channel s =
     (if \<not> isValidChannel channel s then s
      else (let s = terminateWhenAsked (slot_ptr channel s) s;
                s = set_slot channel Null s;
                b = [n_remoteChanList s ! channel]
            in controlChannel (int channel) NCON_MSG_CHANNEL_DISCONNECT b s))"

section \<open>Servers on the PC side\<close>

text \<open>\<open>PcServer::clientConnect\<close> always refuses, so a server is its name.\<close>

definition clientConnect :: "int \<Rightarrow> int \<Rightarrow> bool" where
  "clientConnect localChan remoteChan = False"

definition findPcServer :: "bytes \<Rightarrow> ncp \<Rightarrow> bool" where
  "findPcServer name s \<longleftrightarrow> name \<in> set (n_pcServers s)"

definition registerPcServer :: "bytes \<Rightarrow> ncp \<Rightarrow> ncp" where
  "registerPcServer name s = s\<lparr>n_pcServers := n_pcServers s @ [name]\<rparr>"

definition unregisterPcServer :: "nat \<Rightarrow> ncp \<Rightarrow> ncp" where
  "unregisterPcServer i s =
     s\<lparr>n_pcServers := take i (n_pcServers s) @ drop (i + 1) (n_pcServers s)\<rparr>"

end
