(* ===== verification/Errors.thy ===== *)
theory Errors
  imports Prelude
begin

text \<open>
  The enumerations of \<open>lib/rfsv.h\<close> that the other parts share: the error codes
  \<open>RFSV::errs\<close> (integers, as on the wire), the table of the values that the class
  \<open>Enum<RFSV::errs>\<close> knows (\<open>lib/rfsv.cc\<close>), and the file attributes \<open>PSI_A_*\<close>.
\<close>

section \<open>Error codes\<close>

definition E_PSI_GEN_NONE :: int where "E_PSI_GEN_NONE = 0"
definition E_PSI_GEN_FAIL :: int where "E_PSI_GEN_FAIL = -1"
definition E_PSI_GEN_ARG :: int where "E_PSI_GEN_ARG = -2"
definition E_PSI_GEN_OS :: int where "E_PSI_GEN_OS = -3"
definition E_PSI_GEN_NSUP :: int where "E_PSI_GEN_NSUP = -4"
definition E_PSI_GEN_UNDER :: int where "E_PSI_GEN_UNDER = -5"
definition E_PSI_GEN_OVER :: int where "E_PSI_GEN_OVER = -6"
definition E_PSI_GEN_RANGE :: int where "E_PSI_GEN_RANGE = -7"
definition E_PSI_GEN_DIVIDE :: int where "E_PSI_GEN_DIVIDE = -8"
definition E_PSI_GEN_INUSE :: int where "E_PSI_GEN_INUSE = -9"
definition E_PSI_GEN_NOMEMORY :: int where "E_PSI_GEN_NOMEMORY = -10"
definition E_PSI_GEN_NOSEGMENTS :: int where "E_PSI_GEN_NOSEGMENTS = -11"
definition E_PSI_GEN_NOSEM :: int where "E_PSI_GEN_NOSEM = -12"
definition E_PSI_GEN_NOPROC :: int where "E_PSI_GEN_NOPROC = -13"
definition E_PSI_GEN_OPEN :: int where "E_PSI_GEN_OPEN = -14"
definition E_PSI_GEN_NOTOPEN :: int where "E_PSI_GEN_NOTOPEN = -15"
definition E_PSI_GEN_IMAGE :: int where "E_PSI_GEN_IMAGE = -16"
definition E_PSI_GEN_RECEIVER :: int where "E_PSI_GEN_RECEIVER = -17"
definition E_PSI_GEN_DEVICE :: int where "E_PSI_GEN_DEVICE = -18"
definition E_PSI_GEN_FSYS :: int where "E_PSI_GEN_FSYS = -19"
definition E_PSI_GEN_START :: int where "E_PSI_GEN_START = -20"
definition E_PSI_GEN_NOFONT :: int where "E_PSI_GEN_NOFONT = -21"
definition E_PSI_GEN_TOOWIDE :: int where "E_PSI_GEN_TOOWIDE = -22"
definition E_PSI_GEN_TOOMANY :: int where "E_PSI_GEN_TOOMANY = -23"
definition E_PSI_FILE_EXIST :: int where "E_PSI_FILE_EXIST = -32"
definition E_PSI_FILE_NXIST :: int where "E_PSI_FILE_NXIST = -33"
definition E_PSI_FILE_WRITE :: int where "E_PSI_FILE_WRITE = -34"
definition E_PSI_FILE_READ :: int where "E_PSI_FILE_READ = -35"
definition E_PSI_FILE_EOF :: int where "E_PSI_FILE_EOF = -36"
definition E_PSI_FILE_FULL :: int where "E_PSI_FILE_FULL = -37"
definition E_PSI_FILE_NAME :: int where "E_PSI_FILE_NAME = -38"
definition E_PSI_FILE_ACCESS :: int where "E_PSI_FILE_ACCESS = -39"
definition E_PSI_FILE_LOCKED :: int where "E_PSI_FILE_LOCKED = -40"
definition E_PSI_FILE_DEVICE :: int where "E_PSI_FILE_DEVICE = -41"
definition E_PSI_FILE_DIR :: int where "E_PSI_FILE_DIR = -42"
definition E_PSI_FILE_RECORD :: int where "E_PSI_FILE_RECORD = -43"
definition E_PSI_FILE_RDONLY :: int where "E_PSI_FILE_RDONLY = -44"
definition E_PSI_FILE_INV :: int where "E_PSI_FILE_INV = -45"
definition E_PSI_FILE_PENDING :: int where "E_PSI_FILE_PENDING = -46"
definition E_PSI_FILE_VOLUME :: int where "E_PSI_FILE_VOLUME = -47"
definition E_PSI_FILE_CANCEL :: int where "E_PSI_FILE_CANCEL = -48"
definition E_PSI_FILE_ALLOC :: int where "E_PSI_FILE_ALLOC = -49"
definition E_PSI_FILE_DISC :: int where "E_PSI_FILE_DISC = -50"
definition E_PSI_FILE_CONNECT :: int where "E_PSI_FILE_CONNECT = -51"
definition E_PSI_FILE_RETRAN :: int where "E_PSI_FILE_RETRAN = -52"
definition E_PSI_FILE_LINE :: int where "E_PSI_FILE_LINE = -53"
definition E_PSI_FILE_INACT :: int where "E_PSI_FILE_INACT = -54"
definition E_PSI_FILE_PARITY :: int where "E_PSI_FILE_PARITY = -55"
definition E_PSI_FILE_FRAME :: int where "E_PSI_FILE_FRAME = -56"
definition E_PSI_FILE_OVERRUN :: int where "E_PSI_FILE_OVERRUN = -57"
definition E_PSI_MDM_CONFAIL :: int where "E_PSI_MDM_CONFAIL = -58"
definition E_PSI_MDM_BUSY :: int where "E_PSI_MDM_BUSY = -59"
definition E_PSI_MDM_NOANS :: int where "E_PSI_MDM_NOANS = -60"
definition E_PSI_MDM_BLACKLIST :: int where "E_PSI_MDM_BLACKLIST = -61"
definition E_PSI_FILE_NOTREADY :: int where "E_PSI_FILE_NOTREADY = -62"
definition E_PSI_FILE_UNKNOWN :: int where "E_PSI_FILE_UNKNOWN = -63"
definition E_PSI_FILE_DIRFULL :: int where "E_PSI_FILE_DIRFULL = -64"
definition E_PSI_FILE_PROTECT :: int where "E_PSI_FILE_PROTECT = -65"
definition E_PSI_FILE_CORRUPT :: int where "E_PSI_FILE_CORRUPT = -66"
definition E_PSI_FILE_ABORT :: int where "E_PSI_FILE_ABORT = -67"
definition E_PSI_FILE_ERASE :: int where "E_PSI_FILE_ERASE = -68"
definition E_PSI_FILE_INVALID :: int where "E_PSI_FILE_INVALID = -69"
definition E_PSI_GEN_POWER :: int where "E_PSI_GEN_POWER = -100"
definition E_PSI_FILE_TOOBIG :: int where "E_PSI_FILE_TOOBIG = -101"
definition E_PSI_GEN_DESCR :: int where "E_PSI_GEN_DESCR = -102"
definition E_PSI_GEN_LIB :: int where "E_PSI_GEN_LIB = -103"
definition E_PSI_FILE_NDISC :: int where "E_PSI_FILE_NDISC = -104"
definition E_PSI_FILE_DRIVER :: int where "E_PSI_FILE_DRIVER = -105"
definition E_PSI_FILE_COMPLETION :: int where "E_PSI_FILE_COMPLETION = -106"
definition E_PSI_GEN_BUSY :: int where "E_PSI_GEN_BUSY = -107"
definition E_PSI_GEN_TERMINATED :: int where "E_PSI_GEN_TERMINATED = -108"
definition E_PSI_GEN_DIED :: int where "E_PSI_GEN_DIED = -109"
definition E_PSI_FILE_HANDLE :: int where "E_PSI_FILE_HANDLE = -110"
definition E_PSI_NOT_SIBO :: int where "E_PSI_NOT_SIBO = -200"
definition E_PSI_INTERNAL :: int where "E_PSI_INTERNAL = -201"

lemmas errs_defs =
  E_PSI_GEN_NONE_def E_PSI_GEN_FAIL_def E_PSI_GEN_ARG_def E_PSI_GEN_OS_def E_PSI_GEN_NSUP_def
  E_PSI_GEN_UNDER_def E_PSI_GEN_OVER_def E_PSI_GEN_RANGE_def E_PSI_GEN_DIVIDE_def
  E_PSI_GEN_INUSE_def E_PSI_GEN_NOMEMORY_def E_PSI_GEN_NOSEGMENTS_def E_PSI_GEN_NOSEM_def
  E_PSI_GEN_NOPROC_def E_PSI_GEN_OPEN_def E_PSI_GEN_NOTOPEN_def E_PSI_GEN_IMAGE_def
  E_PSI_GEN_RECEIVER_def E_PSI_GEN_DEVICE_def E_PSI_GEN_FSYS_def E_PSI_GEN_START_def
  E_PSI_GEN_NOFONT_def E_PSI_GEN_TOOWIDE_def E_PSI_GEN_TOOMANY_def E_PSI_FILE_EXIST_def
  E_PSI_FILE_NXIST_def E_PSI_FILE_WRITE_def E_PSI_FILE_READ_def E_PSI_FILE_EOF_def
  E_PSI_FILE_FULL_def E_PSI_FILE_NAME_def E_PSI_FILE_ACCESS_def E_PSI_FILE_LOCKED_def
  E_PSI_FILE_DEVICE_def E_PSI_FILE_DIR_def E_PSI_FILE_RECORD_def E_PSI_FILE_RDONLY_def
  E_PSI_FILE_INV_def E_PSI_FILE_PENDING_def E_PSI_FILE_VOLUME_def E_PSI_FILE_CANCEL_def
  E_PSI_FILE_ALLOC_def E_PSI_FILE_DISC_def E_PSI_FILE_CONNECT_def E_PSI_FILE_RETRAN_def
  E_PSI_FILE_LINE_def E_PSI_FILE_INACT_def E_PSI_FILE_PARITY_def E_PSI_FILE_FRAME_def
  E_PSI_FILE_OVERRUN_def E_PSI_MDM_CONFAIL_def E_PSI_MDM_BUSY_def E_PSI_MDM_NOANS_def
  E_PSI_MDM_BLACKLIST_def E_PSI_FILE_NOTREADY_def E_PSI_FILE_UNKNOWN_def E_PSI_FILE_DIRFULL_def
  E_PSI_FILE_PROTECT_def E_PSI_FILE_CORRUPT_def E_PSI_FILE_ABORT_def E_PSI_FILE_ERASE_def
  E_PSI_FILE_INVALID_def E_PSI_GEN_POWER_def E_PSI_FILE_TOOBIG_def E_PSI_GEN_DESCR_def
  E_PSI_GEN_LIB_def E_PSI_FILE_NDISC_def E_PSI_FILE_DRIVER_def E_PSI_FILE_COMPLETION_def
  E_PSI_GEN_BUSY_def E_PSI_GEN_TERMINATED_def E_PSI_GEN_DIED_def E_PSI_FILE_HANDLE_def
  E_PSI_NOT_SIBO_def E_PSI_INTERNAL_def

text \<open>The keys of \<open>Enum<RFSV::errs>\<close>; constructing an \<open>Enum\<close> of another value fails an assertion.\<close>

definition errs_table :: "int list" where
  "errs_table =
     [E_PSI_GEN_NONE, E_PSI_GEN_FAIL, E_PSI_GEN_ARG, E_PSI_GEN_OS, E_PSI_GEN_NSUP,
      E_PSI_GEN_UNDER, E_PSI_GEN_OVER, E_PSI_GEN_RANGE, E_PSI_GEN_INUSE, E_PSI_GEN_NOMEMORY,
      E_PSI_GEN_NOSEGMENTS, E_PSI_GEN_NOSEM, E_PSI_GEN_NOPROC, E_PSI_GEN_OPEN, E_PSI_GEN_NOTOPEN,
      E_PSI_GEN_IMAGE, E_PSI_GEN_RECEIVER, E_PSI_GEN_DEVICE, E_PSI_GEN_FSYS, E_PSI_GEN_START,
      E_PSI_GEN_NOFONT, E_PSI_GEN_TOOWIDE, E_PSI_GEN_TOOMANY, E_PSI_FILE_EXIST, E_PSI_FILE_NXIST,
      E_PSI_FILE_WRITE, E_PSI_FILE_READ, E_PSI_FILE_EOF, E_PSI_FILE_FULL, E_PSI_FILE_NAME,
      E_PSI_FILE_ACCESS, E_PSI_FILE_LOCKED, E_PSI_FILE_DEVICE, E_PSI_FILE_DIR, E_PSI_FILE_RECORD,
      E_PSI_FILE_RDONLY, E_PSI_FILE_INV, E_PSI_FILE_PENDING, E_PSI_FILE_VOLUME,
      E_PSI_FILE_CANCEL, E_PSI_FILE_ALLOC, E_PSI_FILE_DISC, E_PSI_FILE_CONNECT,
      E_PSI_FILE_RETRAN, E_PSI_FILE_LINE, E_PSI_FILE_INACT, E_PSI_FILE_PARITY, E_PSI_FILE_FRAME,
      E_PSI_FILE_OVERRUN, E_PSI_MDM_CONFAIL, E_PSI_MDM_BUSY, E_PSI_MDM_NOANS,
      E_PSI_MDM_BLACKLIST, E_PSI_FILE_NOTREADY, E_PSI_FILE_UNKNOWN, E_PSI_FILE_DIRFULL,
      E_PSI_FILE_PROTECT, E_PSI_FILE_CORRUPT, E_PSI_FILE_ABORT, E_PSI_FILE_ERASE,
      E_PSI_FILE_INVALID, E_PSI_GEN_POWER, E_PSI_FILE_TOOBIG, E_PSI_GEN_DESCR, E_PSI_GEN_LIB,
      E_PSI_FILE_NDISC, E_PSI_FILE_DRIVER, E_PSI_FILE_COMPLETION, E_PSI_GEN_BUSY,
      E_PSI_GEN_TERMINATED, E_PSI_GEN_DIED, E_PSI_FILE_HANDLE, E_PSI_NOT_SIBO, E_PSI_INTERNAL]"

definition inRange :: "int \<Rightarrow> bool" where
  "inRange i \<longleftrightarrow> i \<in> set errs_table"

section \<open>File attributes\<close>

definition PSI_A_RDONLY :: "32 word" where "PSI_A_RDONLY = 0x0001"
definition PSI_A_HIDDEN :: "32 word" where "PSI_A_HIDDEN = 0x0002"
definition PSI_A_SYSTEM :: "32 word" where "PSI_A_SYSTEM = 0x0004"
definition PSI_A_DIR :: "32 word" where "PSI_A_DIR = 0x0008"
definition PSI_A_ARCHIVE :: "32 word" where "PSI_A_ARCHIVE = 0x0010"
definition PSI_A_VOLUME :: "32 word" where "PSI_A_VOLUME = 0x0020"
definition PSI_A_NORMAL :: "32 word" where "PSI_A_NORMAL = 0x0040"
definition PSI_A_TEMP :: "32 word" where "PSI_A_TEMP = 0x0080"
definition PSI_A_COMPRESSED :: "32 word" where "PSI_A_COMPRESSED = 0x0100"
definition PSI_A_READ :: "32 word" where "PSI_A_READ = 0x0200"
definition PSI_A_EXEC :: "32 word" where "PSI_A_EXEC = 0x0400"
definition PSI_A_STREAM :: "32 word" where "PSI_A_STREAM = 0x0800"
definition PSI_A_TEXT :: "32 word" where "PSI_A_TEXT = 0x1000"

lemmas psi_attr_defs =
  PSI_A_RDONLY_def PSI_A_HIDDEN_def PSI_A_SYSTEM_def PSI_A_DIR_def PSI_A_ARCHIVE_def
  PSI_A_VOLUME_def PSI_A_NORMAL_def PSI_A_TEMP_def PSI_A_COMPRESSED_def PSI_A_READ_def
  PSI_A_EXEC_def PSI_A_STREAM_def PSI_A_TEXT_def

end
