(* ===== verification/Channels.thy ===== *)
theory Channels
  imports Ncp Errors
begin

text \<open>
  The channels of \<open>lib/socketchannel.cc\<close> and \<open>lib/linkchannel.cc\<close>, and the dispatch of
  \<open>lib/ncp.cc\<close> that calls them: incoming messages, control messages, reset and failure. The
  virtual callbacks of \<open>Channel\<close> are functions on the kind of the object. \<open>now\<close> is the
  result of \<open>time(0)\<close>; the outcome of \<open>TCPSocket::getBufferStore\<close> is an argument of
  \<open>socketPoll\<close>.
\<close>

section \<open>Socket channels\<close>

definition sock_send :: "nat \<Rightarrow> bytes \<Rightarrow> ncp \<Rightarrow> ncp" where
  "sock_send k b s = s\<lparr>n_sock := n_sock s @ [Sock_send k b]\<rparr>"

definition sock_close :: "nat \<Rightarrow> ncp \<Rightarrow> ncp" where
  "sock_close k s = s\<lparr>n_sock := n_sock s @ [Sock_close k]\<rparr>"

definition socketchan_new :: "nat \<Rightarrow> ncp \<Rightarrow> nat \<times> ncp" where
  "socketchan_new k s = ncp_alloc (chan_new (SocketChan k)) s"


text \<open>
  \<open>ncpCommand\<close>: the result and the state. REGS reads the name after \<open>a.init()\<close>, from the
  block's old contents, which \<open>init\<close> leaves in place.
\<close>

definition ncpCommand :: "nat \<Rightarrow> bytes \<Rightarrow> ncp \<Rightarrow> bool \<times> ncp" where
  "ncpCommand k a s =
     (let str = take 4 (drop 4 a)
      in if str = ascii ''INFO'' then
           (True, sock_send k (stringT (if n_protocolVersion s = PV_SERIES_3 then ''Series 3''
                                        else if n_protocolVersion s = PV_SERIES_5 then ''Series 5''
                                        else ''Unknown!'')) s)
         else if str = ascii ''CONN'' then (True, s)
         else if str = ascii ''CHAL'' then (True, s)
         else if str = ascii ''RESP'' then (True, s)
         else if str = ascii ''GSPD'' then
           (True, sock_send k (word_of_int E_PSI_GEN_NONE # le32 (link_getSpeed (n_link s))) s)
         else if str = ascii ''REGS'' then
           (let name = ncp_string s a 8
            in if findPcServer name s
               then (True, sock_send k [word_of_int E_PSI_FILE_EXIST] s)
               else (True, sock_send k [word_of_int E_PSI_GEN_NONE] (registerPcServer name s)))
         else (False, sock_send k [word_of_int E_PSI_GEN_NSUP] s))"

definition socketchan_ncpConnectAck :: "nat \<Rightarrow> nat \<Rightarrow> ncp \<Rightarrow> ncp" where
  "socketchan_ncpConnectAck p k s =
     chan_modify p (\<lambda>ch. ch\<lparr>ch_isConnected := True, ch_connectTry := 3\<rparr>)
       (sock_send k (stringT ''Ok'') s)"

definition socketchan_ncpConnectTerminate :: "nat \<Rightarrow> nat \<Rightarrow> ncp \<Rightarrow> ncp" where
  "socketchan_ncpConnectTerminate p k s =
     (let s = sock_send k (stringT ''NAK'') s in ncp_disconnect (nat (getNcpChannel p s)) s)"

definition socketchan_ncpRegisterAck :: "nat \<Rightarrow> ncp \<Rightarrow> ncp" where
  "socketchan_ncpRegisterAck p s =
     snd (ncp_connect p (chan_modify p (\<lambda>ch. ch\<lparr>ch_connectTry := ch_connectTry ch + 1\<rparr>) s))"

definition socketchan_ncpConnectNak :: "int \<Rightarrow> nat \<Rightarrow> nat \<Rightarrow> ncp \<Rightarrow> ncp" where
  "socketchan_ncpConnectNak now p k s =
     (if ch_registerName (chan_of p s) = None \<or> ch_connectTry (chan_of p s) > 1
      then socketchan_ncpConnectTerminate p k s
      else ncp_Register p
             (chan_modify p (\<lambda>ch. ch\<lparr>ch_connectTry := ch_connectTry ch + 1,
                                     ch_connectTryTimestamp := now\<rparr>) s))"

definition is_ncp_command :: "bytes \<Rightarrow> bool" where
  "is_ncp_command a \<longleftrightarrow> length a > 8 \<and> take 4 a = ascii ''NCP$''"

text \<open>\<open>res\<close> and \<open>a\<close> are the result of \<open>getBufferStore\<close> and the buffer it fills.\<close>

definition socketPoll :: "int \<Rightarrow> nat \<Rightarrow> nat \<Rightarrow> int \<Rightarrow> bytes \<Rightarrow> ncp \<Rightarrow> ncp" where
  "socketPoll now p k res a s =
     (let ch = chan_of p s
      in if ch_registerName ch = None then
           (if res = 1 then
              (if 0 \<notin> set a then s
               else if is_ncp_command a then snd (ncpCommand k a s)
               else (let name = ncp_string s a 0;
                         s = chan_modify p (\<lambda>ch. ch\<lparr>ch_registerName := Some name,
                               ch_connectTry := ch_connectTry ch + 1,
                               ch_connectTryTimestamp := now\<rparr>) s
                     in if take 8 name = ascii ''SYS$RFSV'' then snd (ncp_connect p s)
                        else ncp_Register p s))
            else if res = -1 then terminateWhenAsked p s
            else s)
         else if ch_isConnected ch then
           (if res = -1 then
              chan_modify p (\<lambda>ch. ch\<lparr>ch_registerName := None\<rparr>)
                (sock_close k (ncp_disconnect (nat (getNcpChannel p s)) s))
            else if res = 1 then
              (if is_ncp_command a then snd (ncpCommand k a s) else ncpSend p a s)
            else s)
         else if now > ch_connectTryTimestamp ch + 15 then terminateWhenAsked p s
         else s)"

section \<open>Callbacks\<close>

definition ncpConnectAck :: "nat \<Rightarrow> ncp \<Rightarrow> ncp" where
  "ncpConnectAck p s =
     (case ch_kind (chan_of p s) of
        LinkChan \<Rightarrow> s
      | SocketChan k \<Rightarrow> socketchan_ncpConnectAck p k s)"

definition ncpConnectNak :: "int \<Rightarrow> nat \<Rightarrow> ncp \<Rightarrow> ncp" where
  "ncpConnectNak now p s =
     (case ch_kind (chan_of p s) of
        LinkChan \<Rightarrow> terminateWhenAsked p s
      | SocketChan k \<Rightarrow> socketchan_ncpConnectNak now p k s)"

definition ncpRegisterAck :: "nat \<Rightarrow> ncp \<Rightarrow> ncp" where
  "ncpRegisterAck p s =
     (case ch_kind (chan_of p s) of
        LinkChan \<Rightarrow> s
      | SocketChan _ \<Rightarrow> socketchan_ncpRegisterAck p s)"

text \<open>\<open>NCP::RegisterAck\<close>: the first valid channel with this number gets the name.\<close>

fun register_search :: "int \<Rightarrow> nat list \<Rightarrow> ncp \<Rightarrow> nat option" where
  "register_search chan [] s = None"
| "register_search chan (cNum # cNums) s =
     (if isValidChannel cNum s \<and> getNcpChannel (slot_ptr cNum s) s = chan
      then Some (slot_ptr cNum s) else register_search chan cNums s)"

definition RegisterAck :: "int \<Rightarrow> bytes \<Rightarrow> ncp \<Rightarrow> ncp" where
  "RegisterAck chan name s =
     (case register_search chan [1..<maxLinks s] s of
        None \<Rightarrow> s
      | Some ch \<Rightarrow> ncpRegisterAck ch (setNcpConnectName ch name s))"

text \<open>
  \<open>LinkChannel::ncpDataCallback\<close>. \<open>srvName\<close> is the string of at most 17 bytes in a block of
  20; one that is longer has no terminator in the block.
\<close>

fun registerAck_loop ::
  "16 word \<Rightarrow> bytes \<Rightarrow> bytes list \<Rightarrow> bytes list \<Rightarrow> ncp \<Rightarrow> bytes list \<times> ncp" where
  "registerAck_loop ser srvName [] newStack s = (newStack, s)"
| "registerAck_loop ser srvName (se # ses) newStack s =
     (if getWord se 0 = Some ser
      then (let srvName = (if length srvName < 4 then srvName @ ascii ''.*'' else srvName)
            in registerAck_loop ser srvName ses newStack
                 (RegisterAck (case getWord se 2 of None \<Rightarrow> 0 | Some w \<Rightarrow> uint w) srvName s))
      else registerAck_loop ser srvName ses (newStack @ [se]) s)"

definition linkchan_ncpDataCallback :: "nat \<Rightarrow> bytes \<Rightarrow> ncp \<Rightarrow> ncp" where
  "linkchan_ncpDataCallback p a s =
     (if length a \<ge> 5 \<and> a ! 0 = 1
      then (let ser = (case getWord a 1 of None \<Rightarrow> 0 | Some w \<Rightarrow> w);
                name = ncp_string s a 7;
                srvName = (if length name < 17 then name else take 17 name @ takeWhile (\<lambda>c. c \<noteq> 0) (n_tail s));
                (newStack, s) = registerAck_loop ser srvName (ch_registerStack (chan_of p s)) [] s
            in chan_modify p (\<lambda>ch. ch\<lparr>ch_registerStack := newStack\<rparr>) s)
      else s)"

definition ncpDataCallback :: "nat \<Rightarrow> bytes \<Rightarrow> ncp \<Rightarrow> ncp" where
  "ncpDataCallback p a s =
     (case ch_kind (chan_of p s) of
        LinkChan \<Rightarrow> linkchan_ncpDataCallback p a s
      | SocketChan k \<Rightarrow> (if ch_registerName (chan_of p s) \<noteq> None then sock_send k a s else s))"

section \<open>Messages from the link\<close>

definition statusCallback :: "bool \<Rightarrow> int \<Rightarrow> ncp \<Rightarrow> ncp" where
  "statusCallback connected version s =
     (if n_hasCallback s then s\<lparr>n_status := n_status s @ [(connected, version)]\<rparr> else s)"

text \<open>CONNECT_TO_SERVER for the server \<open>LINK.*\<close>.\<close>

definition decode_connect_link :: "byte \<Rightarrow> ncp \<Rightarrow> ncp" where
  "decode_connect_link remoteChan s =
     (let (localChan, s) =
            (case n_lChan s of
               Some lp \<Rightarrow> (getNcpChannel lp s, s)
             | None \<Rightarrow> (let (n, s) = getFirstUnusedChan s in (int n, s)));
          s = controlChannel localChan NCON_MSG_CONNECT_RESPONSE [remoteChan, 0] s;
          s = statusCallback True (n_protocolVersion s) s
      in case n_lChan s of
           Some lp \<Rightarrow> ncpConnectAck lp s
         | None \<Rightarrow>
             (let (p, s) = linkchan_new localChan s;
                  s = (set_slot (nat localChan) (Ptr p) s)\<lparr>n_lChan := Some p\<rparr>
              in ncpConnectAck p s))"

text \<open>CONNECT_TO_SERVER for any other name.\<close>

definition decode_connect_other :: "byte \<Rightarrow> bytes \<Rightarrow> ncp \<Rightarrow> ncp" where
  "decode_connect_other remoteChan name s =
     (let (localChan, ok, s) =
            (if findPcServer name s
             then (let (localChan, s) = getFirstUnusedChan s;
                       ok = clientConnect (int localChan) (uint remoteChan)
                   in (localChan, ok, if ok then s else set_slot localChan Null s))
             else (0, False, s));
          (localChan, status) = (if ok then (localChan, E_PSI_GEN_NONE) else (0, E_PSI_FILE_NXIST));
          s = controlChannel (int localChan) NCON_MSG_CONNECT_RESPONSE [remoteChan, word_of_int status] s
      in case n_lChan s of
           Some _ \<Rightarrow> s
         | None \<Rightarrow>
             (let (p, s) = linkchan_new (-1) s
              in (set_slot localChan (Ptr p) s)\<lparr>n_lChan := Some p\<rparr>))"

definition decode_connect_response :: "int \<Rightarrow> byte \<Rightarrow> bytes \<Rightarrow> ncp \<Rightarrow> ncp" where
  "decode_connect_response now remoteChan buff s =
     (let s = s\<lparr>n_failed := False\<rparr>; forChan = unat (ncp_peek s buff 0)
      in if ncp_peek s buff 1 = 0
         then (if isValidChannel forChan s
               then ncpConnectAck (slot_ptr forChan s)
                      (s\<lparr>n_remoteChanList := (n_remoteChanList s)[forChan := remoteChan]\<rparr>)
               else s)
         else (if isValidChannel forChan s then ncpConnectNak now (slot_ptr forChan s) s else s))"

definition decode_info :: "int \<Rightarrow> bytes \<Rightarrow> ncp \<Rightarrow> ncp" where
  "decode_info now buff s =
     (let s = s\<lparr>n_failed := False\<rparr>; ver = uint (ncp_peek s buff 0)
      in if ver = PV_SERIES_5 \<or> ver = PV_SERIES_3
         then (let s = s\<lparr>n_protocolVersion := ver\<rparr>;
                   (ver, s) = (if ver = PV_SERIES_3 then (2, s)
                               else (ver, s\<lparr>n_maxChannels := MAX_CHANNELS_PSION\<rparr>))
               in controlChannel 0 NCON_MSG_NCP_INFO (word_of_int ver # le32 now) s)
         else s\<lparr>n_failed := True\<rparr>)"

definition decodeControlMessage :: "int \<Rightarrow> bytes \<Rightarrow> ncp \<Rightarrow> ncp" where
  "decodeControlMessage now buff s =
     (let remoteChan = ncp_peek s buff 0; imt = ncp_peek s buff 1; buff = drop 2 buff
      in if imt = NCON_MSG_CONNECT_TO_SERVER
         then (let s = s\<lparr>n_failed := False\<rparr>; name = ncp_string s buff 0
               in if name = ascii ''LINK.*'' then decode_connect_link remoteChan s
                  else decode_connect_other remoteChan name s)
         else if imt = NCON_MSG_CONNECT_RESPONSE then decode_connect_response now remoteChan buff s
         else if imt = NCON_MSG_NCP_INFO then decode_info now buff s
         else if imt = NCON_MSG_CHANNEL_DISCONNECT
         then (let s = ncp_disconnect (unat (ncp_peek s buff 0)) s;
                   s = s\<lparr>n_link := link_purgeQueue (uint remoteChan) (n_link s)\<rparr>
               in statusCallback False 0 s)
         else s)"

definition ncp_receive :: "int \<Rightarrow> bytes \<Rightarrow> ncp \<Rightarrow> ncp" where
  "ncp_receive now b s =
     (if length b > 1
      then (let channel = uint (b ! 0); b = drop 1 b
            in if channel = 0 then decodeControlMessage now b s
               else (let allData = ncp_peek s b 1; b = drop 2 b;
                         channel = nat (if n_protocolVersion s = PV_SERIES_3 then n_lastSentChannel s
                                        else channel)
                     in if \<not> isValidChannel channel s then s
                        else (let s = s\<lparr>n_messageList := (n_messageList s)
                                          [channel := n_messageList s ! channel @ b]\<rparr>
                              in if allData = LAST_MESS
                                 then (let s = ncpDataCallback (slot_ptr channel s) (n_messageList s ! channel) s
                                       in s\<lparr>n_messageList := (n_messageList s)[channel := []]\<rparr>)
                                 else s)))
      else s)"

text \<open>A packet from the data link: \<open>Link::receive\<close>, which hands on to \<open>NCP::receive\<close>.\<close>

definition ncp_link_receive :: "int \<Rightarrow> bytes \<Rightarrow> ncp \<Rightarrow> ncp" where
  "ncp_link_receive now b s =
     (let (l, packet) = link_receive b (n_link s); s = s\<lparr>n_link := l\<rparr>
      in case packet of None \<Rightarrow> s | Some b \<Rightarrow> ncp_receive now b s)"

section \<open>Reset, failure and shutdown\<close>

fun terminate_all :: "nat list \<Rightarrow> ncp \<Rightarrow> ncp" where
  "terminate_all [] s = s"
| "terminate_all (i # is) s =
     (let s = (if isValidChannel i s then terminateWhenAsked (slot_ptr i s) s else s)
      in terminate_all is (set_slot i Null s))"

definition ncp_reset :: "ncp \<Rightarrow> ncp" where
  "ncp_reset s =
     (let s = terminate_all [0..<maxLinks s] s;
          s = s\<lparr>n_failed := False\<rparr>;
          s = (case n_lChan s of None \<Rightarrow> s | Some lp \<Rightarrow> ncp_delete lp s);
          s = s\<lparr>n_lChan := None, n_protocolVersion := PV_SERIES_5\<rparr>
      in s\<lparr>n_link := link_reset (n_link s)\<rparr>)"

definition ncp_hasFailed :: "ncp \<Rightarrow> bool \<times> ncp" where
  "ncp_hasFailed s =
     (let (lfailed, l) = link_hasFailed (n_link s);
          s = s\<lparr>n_link := l, n_failed := n_failed s \<or> lfailed\<rparr>
      in if n_failed s
         then (let s = statusCallback False 0 s;
                   s = (case n_lChan s of
                          None \<Rightarrow> s
                        | Some lp \<Rightarrow> ncp_delete lp (set_slot (nat (getNcpChannel lp s)) Null s))
               in (True, s\<lparr>n_lChan := None\<rparr>))
         else (False, s))"

definition ncp_gotLinkChannel :: "ncp \<Rightarrow> bool" where
  "ncp_gotLinkChannel s \<longleftrightarrow> n_lChan s \<noteq> None"

fun disconnect_all :: "nat list \<Rightarrow> ncp \<Rightarrow> ncp" where
  "disconnect_all [] s = s"
| "disconnect_all (i # is) s =
     (let s = (if isValidChannel i s
               then controlChannel (int i) NCON_MSG_CHANNEL_DISCONNECT [n_remoteChanList s ! i] s else s)
      in disconnect_all is (set_slot i Null s))"

text \<open>What the destructor does before it deletes its parts.\<close>

definition ncp_shutdown :: "ncp \<Rightarrow> ncp" where
  "ncp_shutdown s =
     controlChannel 0 NCON_MSG_NCP_END [] (disconnect_all [0..<maxLinks s] s)"

section \<open>Sample states\<close>

definition ncp_sample :: ncp where
  "ncp_sample = ncp_new link_sample False (replicate 257 0) 0 [0]"

text \<open>With a client on socket 7 as object 0, not yet connected, and connected on channel 1.\<close>

definition ncp_client :: ncp where
  "ncp_client = ncp_sample\<lparr>n_chans := [0 \<mapsto> chan_new (SocketChan 7)], n_fresh := 1\<rparr>"

definition ncp_connected :: ncp where
  "ncp_connected = ncp_sample
     \<lparr>n_chans := [0 \<mapsto> (chan_new (SocketChan 7))\<lparr>ch_registerName := Some [65], ch_ncpChannel := 1\<rparr>],
      n_fresh := 1, n_channelPtr := (replicate 257 Null)[1 := Ptr 0]\<rparr>"

section \<open>Fragments\<close>

declare ncp_fragments.simps [simp del]

lemma ncp_fragments_short [ncp_simps]:
  "length a \<le> NCP_SENDLEN \<Longrightarrow> ncp_fragments a = [(LAST_MESS, a)]"
  by (subst ncp_fragments.simps) simp

lemma ncp_fragments_long [ncp_simps]:
  "\<not> length a \<le> NCP_SENDLEN \<Longrightarrow>
   ncp_fragments a = (NOT_LAST_MESS, take NCP_SENDLEN a) # ncp_fragments (drop NCP_SENDLEN a)"
  by (subst ncp_fragments.simps) simp

lemma ncp_fragments_concat: "concat (map snd (ncp_fragments a)) = a"
  by (induction a rule: ncp_fragments.induct)
    (case_tac "length a \<le> NCP_SENDLEN"; simp add: ncp_simps)

lemma ncp_fragments_size: "(flag, b) \<in> set (ncp_fragments a) \<Longrightarrow> length b \<le> NCP_SENDLEN"
  by (induction a rule: ncp_fragments.induct)
    (case_tac "length a \<le> NCP_SENDLEN"; auto simp: ncp_simps)

text \<open>The packets \<open>send\<close> makes of a message, for the peer's channel \<open>c\<close> and its own channel \<open>x\<close>.\<close>

definition ncp_packets :: "byte \<Rightarrow> byte \<Rightarrow> bytes \<Rightarrow> bytes list" where
  "ncp_packets c x a = map (\<lambda>(flag, b). [c, x, flag] @ b) (ncp_fragments a)"

lemma ncp_l_send_fold:
  "fold ncp_l_send bs s = s\<lparr>n_link := fold link_send bs (n_link s)\<rparr>"
  by (induction bs arbitrary: s) (simp_all add: ncp_l_send_def)

lemma fold_fragments:
  "fold (\<lambda>(flag, b). ncp_l_send (f flag b)) fs s = fold ncp_l_send (map (\<lambda>(flag, b). f flag b) fs) s"
  by (induction fs arbitrary: s) (simp_all add: split_beta)

lemma ncp_send_packets:
  "ncp_send c a s = s\<lparr>n_link := fold link_send (ncp_packets (n_remoteChanList s ! c) (of_nat c) a) (n_link s),
                      n_lastSentChannel := int c\<rparr>"
  by (simp add: ncp_send_def fold_fragments ncp_l_send_fold ncp_packets_def Let_def)

text \<open>A channel that accepts data: it is in the table, and messages for it carry its number.\<close>

definition accepts :: "ncp \<Rightarrow> byte \<Rightarrow> nat \<Rightarrow> bool" where
  "accepts s c p \<longleftrightarrow> c \<noteq> 0 \<and> n_channelPtr s ! unat c = Ptr p \<and>
     (n_protocolVersion s = PV_SERIES_3 \<longrightarrow> n_lastSentChannel s = uint c) \<and>
     256 \<le> length (n_messageList s)"

definition with_message :: "nat \<Rightarrow> bytes \<Rightarrow> ncp \<Rightarrow> ncp" where
  "with_message c m s = s\<lparr>n_messageList := (n_messageList s)[c := m]\<rparr>"

lemma accepts_with_message [simp]: "accepts (with_message i m s) c p = accepts s c p"
  by (simp add: accepts_def with_message_def)

lemma with_message_twice [simp]: "with_message c m (with_message c m' s) = with_message c m s"
  by (simp add: with_message_def)

lemma message_of_with [simp]:
  "accepts s c p \<Longrightarrow> n_messageList (with_message (unat c) m s) ! unat c = m"
proof -
  assume "accepts s c p"
  moreover have "unat c < 256" using unsigned_less [of c, where ?'a = nat] by simp
  ultimately show ?thesis by (simp add: accepts_def with_message_def)
qed

lemma ncp_receive_data:
  assumes "accepts s c p" and "flag = LAST_MESS \<or> flag = NOT_LAST_MESS"
  shows "ncp_receive now ([c, x, flag] @ b) s =
    (let m = n_messageList s ! unat c @ b
     in if flag = LAST_MESS
        then with_message (unat c) [] (ncpDataCallback p m (with_message (unat c) m s))
        else with_message (unat c) m s)"
proof -
  have c: "uint c \<noteq> 0" "nat (uint c) = unat c" "unat c < length (n_messageList s)"
    using assms(1) unsigned_less [of c, where ?'a = nat] by (auto simp: accepts_def unsigned_eq_0_iff)
  have chan: "nat (if n_protocolVersion s = PV_SERIES_3 then n_lastSentChannel s else uint c) = unat c"
    using assms(1) c(2) by (simp add: accepts_def)
  show ?thesis
    using assms c
    by (simp add: ncp_receive_def chan Let_def accepts_def isValidChannel_def slot_ptr_def
        ncp_peek_def link_peek_def with_message_def)
qed

lemma ncp_receive_packets:
  assumes "accepts s c p" and "n_messageList s ! unat c = m"
  shows "fold (ncp_receive now) (ncp_packets c x a) s =
    with_message (unat c) [] (ncpDataCallback p (m @ a) (with_message (unat c) (m @ a) s))"
  using assms
proof (induction a arbitrary: s m rule: ncp_fragments.induct)
  case (1 a)
  show ?case
  proof (cases "length a \<le> NCP_SENDLEN")
    case True
    then show ?thesis
      using ncp_receive_data [OF "1.prems"(1), of LAST_MESS now x a] "1.prems"(2)
      by (simp add: ncp_packets_def ncp_simps Let_def)
  next
    case False
    let ?first = "take NCP_SENDLEN a" and ?rest = "drop NCP_SENDLEN a"
    have first: "ncp_receive now ([c, x, NOT_LAST_MESS] @ ?first) s = with_message (unat c) (m @ ?first) s"
      using ncp_receive_data [OF "1.prems"(1), of NOT_LAST_MESS now x ?first] "1.prems"(2)
      by (simp add: Let_def LAST_MESS_def NOT_LAST_MESS_def)
    have "fold (ncp_receive now) (ncp_packets c x ?rest) (with_message (unat c) (m @ ?first) s) =
      with_message (unat c) [] (ncpDataCallback p ((m @ ?first) @ ?rest)
        (with_message (unat c) ((m @ ?first) @ ?rest) (with_message (unat c) (m @ ?first) s)))"
      using False "1.prems"(1) by (intro "1.IH") simp_all
    then show ?thesis
      using first False by (simp add: ncp_packets_def ncp_simps)
  qed
qed

text \<open>A socket channel with a client behind it.\<close>

definition socket_channel :: "ncp \<Rightarrow> nat \<Rightarrow> nat \<Rightarrow> bool" where
  "socket_channel s p k \<longleftrightarrow>
     ch_kind (chan_of p s) = SocketChan k \<and> ch_registerName (chan_of p s) \<noteq> None"

lemma data_to_socket:
  assumes "socket_channel s p k"
  shows "ncpDataCallback p a (with_message i m s) = with_message i m (sock_send k a s)"
  using assms by (simp add: ncpDataCallback_def socket_channel_def with_message_def chan_of_def sock_send_def)

lemma ncp_receive_message:
  assumes "accepts s c p" and "socket_channel s p k" and "n_messageList s ! unat c = m"
  shows "fold (ncp_receive now) (ncp_packets c x a) s = with_message (unat c) [] (sock_send k (m @ a) s)"
  by (simp add: ncp_receive_packets [OF assms(1,3)] data_to_socket [OF assms(2)])

text \<open>
  C3: messages are fragmented and put together again. The packets that an NCP makes of a
  message of any length fit into the link's limit of 300 bytes, and when they arrive for a
  channel with no unfinished message, the client behind that channel gets one packet with
  exactly this message, and nothing else in the NCP changes.
\<close>

theorem ncp_message_roundtrip:
  assumes "accepts s c p" and "socket_channel s p k" and "n_messageList s ! unat c = []"
  shows "fold (ncp_receive now) (ncp_packets c x a) s = sock_send k a s \<and>
         n_link (ncp_send i b s) = fold link_send (ncp_packets (n_remoteChanList s ! i) (of_nat i) b) (n_link s) \<and>
         (\<forall>packet\<in>set (ncp_packets c x a). length packet \<le> 253)"
proof -
  have "(n_messageList s)[unat c := []] = n_messageList s"
    using assms(3) by (metis list_update_id)
  then have "with_message (unat c) [] (sock_send k a s) = sock_send k a s"
    by (simp add: with_message_def sock_send_def)
  moreover have "length packet \<le> 253" if "packet \<in> set (ncp_packets c x a)" for packet
  proof -
    from that obtain flag b where "packet = [c, x, flag] @ b" "(flag, b) \<in> set (ncp_fragments a)"
      by (auto simp: ncp_packets_def)
    with ncp_fragments_size [of flag b a] show ?thesis by (simp add: NCP_SENDLEN_def)
  qed
  ultimately show ?thesis
    using ncp_receive_message [OF assms(1,2,3), of now x a] by (simp add: ncp_send_packets)
qed

text \<open>
  an unfinished message outlives its channel. Neither a disconnect nor a reset clears
  what has arrived of a message, and the next client that gets the same channel number
  receives the old part in front of its first message.
\<close>

theorem ncp_stale_fragment:
  assumes "accepts s c p" and "n_messageList s ! unat c = []"
    and "s1 = ncp_receive now ([c, x, NOT_LAST_MESS] @ old) s"
    and "s2 = ncp_disconnect (unat c) s1 \<or> s2 = ncp_reset s1"
    and "accepts s3 c q" and "socket_channel s3 q k" and "n_messageList s3 = n_messageList s2"
  shows "n_sock (fold (ncp_receive now) (ncp_packets c y a) s3) = n_sock s3 @ [Sock_send k (old @ a)]"
proof -
  have "s1 = with_message (unat c) old s"
    using ncp_receive_data [OF assms(1), of NOT_LAST_MESS now x old] assms(2,3)
    by (simp add: LAST_MESS_def NOT_LAST_MESS_def)
  then have "n_messageList s1 ! unat c = old"
    using assms(1) by simp
  moreover have "n_messageList (terminate_all is t) = n_messageList t" for "is" t
    by (induction "is" arbitrary: t) 
      (auto simp: Let_def set_slot_def terminateWhenAsked_def chan_modify_def split: option.splits)
  then have "n_messageList s2 = n_messageList s1"
    using assms(4)
    by (auto simp: ncp_disconnect_def ncp_reset_def Let_def set_slot_def terminateWhenAsked_def
        chan_modify_def controlChannel_def ncp_l_send_def ncp_delete_def split: option.splits)
  ultimately have "n_messageList s3 ! unat c = old" using assms(7) by simp
  then show ?thesis
    by (simp add: ncp_receive_message [OF assms(5,6)] with_message_def sock_send_def)
qed


section \<open>The channel table\<close>

lemma first_unused_spec:
  "0 \<notin> set cNums \<Longrightarrow> n = first_unused slots cNums \<Longrightarrow>
   (if n = 0 then \<forall>i\<in>set cNums. slots ! i \<noteq> Null
    else slots ! n = Null \<and> (\<exists>xs ys. cNums = xs @ n # ys \<and> (\<forall>i\<in>set xs. slots ! i \<noteq> Null)))"
proof (induction cNums)
  case (Cons c cs)
  show ?case
  proof (cases "slots ! c = Null")
    case True
    moreover have "\<exists>xs ys. c # cs = xs @ c # ys \<and> (\<forall>i\<in>set xs. slots ! i \<noteq> Null)"
      by (intro exI [of _ "[]"] exI [of _ cs]) simp
    moreover have "n = c" "c \<noteq> 0" using True Cons.prems by auto
    ultimately show ?thesis using True by simp
  next
    case False
    then have n: "n = first_unused slots cs" using Cons.prems by simp
    have "0 \<notin> set cs" using Cons.prems(1) by simp
    from Cons.IH [OF this n] have IH: "if n = 0 then \<forall>i\<in>set cs. slots ! i \<noteq> Null
      else slots ! n = Null \<and> (\<exists>xs ys. cs = xs @ n # ys \<and> (\<forall>i\<in>set xs. slots ! i \<noteq> Null))" .
    show ?thesis
    proof (cases "n = 0")
      case True
      then have "\<forall>i\<in>set cs. slots ! i \<noteq> Null" using IH by simp
      with True False show ?thesis by simp
    next
      case nz: False
      then obtain xs ys where *: "slots ! n = Null" "cs = xs @ n # ys" "\<forall>i\<in>set xs. slots ! i \<noteq> Null"
        using IH by auto
      have "c # cs = (c # xs) @ n # ys \<and> (\<forall>i\<in>set (c # xs). slots ! i \<noteq> Null)"
        using False *(2,3) by simp
      then show ?thesis unfolding if_not_P [OF nz] using *(1) by blast
    qed
  qed
qed simp

text \<open>
  \<open>getFirstUnusedChan\<close> returns the smallest free channel number from 1 up and marks it
  as taken, and no other entry of the table changes; it returns 0, and changes nothing, when
  all are in use. Channel 0 is never handed out.
\<close>

theorem ncp_first_unused:
  assumes "getFirstUnusedChan s = (n, s')" and "maxLinks s \<le> length (n_channelPtr s)"
  shows "if n = 0 then s' = s \<and> (\<forall>i. 0 < i \<and> i < maxLinks s \<longrightarrow> n_channelPtr s ! i \<noteq> Null)
         else n < maxLinks s \<and> n_channelPtr s ! n = Null \<and> n_channelPtr s' ! n = Deadbeef \<and>
              (\<forall>i. 0 < i \<and> i < n \<longrightarrow> n_channelPtr s ! i \<noteq> Null) \<and>
              (\<forall>i. i \<noteq> n \<longrightarrow> n_channelPtr s' ! i = n_channelPtr s ! i) \<and> \<not> isValidChannel n s'"
proof (cases "first_unused (n_channelPtr s) [1..<maxLinks s] = 0")
  case True
  then show ?thesis
    using assms(1) first_unused_spec [of "[1..<maxLinks s]" 0 "n_channelPtr s"]
    by (auto simp: getFirstUnusedChan_def Let_def)
next
  case False
  then have n: "n = first_unused (n_channelPtr s) [1..<maxLinks s]" "n \<noteq> 0"
    and s': "s' = set_slot n Deadbeef s"
    using assms(1) by (auto simp: getFirstUnusedChan_def Let_def)
  obtain xs ys where xs: "[1..<maxLinks s] = xs @ n # ys" "\<forall>i\<in>set xs. n_channelPtr s ! i \<noteq> Null"
    and null: "n_channelPtr s ! n = Null"
    using first_unused_spec [OF _ n(1)] n(2) by auto
  have "n \<in> set [1..<maxLinks s]" unfolding xs(1) by simp
  then have less: "n < maxLinks s" by simp
  have "i \<in> set xs" if "0 < i" "i < n" for i
  proof -
    have "i \<in> set (xs @ n # ys)" unfolding xs(1) [symmetric] using that less by simp
    moreover have "sorted (xs @ n # ys)" unfolding xs(1) [symmetric] by (rule sorted_upt)
    ultimately show ?thesis using that by (auto simp: sorted_append)
  qed
  then show ?thesis
    using n(2) null less xs(2) assms(2) s' by (auto simp: set_slot_def isValidChannel_def)
qed

section \<open>Control messages\<close>

text \<open>
  The INFO message. For a Series 5 the NCP answers with the same version and from then
  on uses 256 channels; for a Series 3 it answers as version 2 and the number of channels
  stays; any other version is a failure and is not answered.
\<close>

theorem ncp_info:
  "ncp_receive now [0, x, 6, ver] s =
     (if ver = 6 \<or> ver = 3
      then s\<lparr>n_failed := False, n_protocolVersion := uint ver,
               n_maxChannels := (if ver = 6 then 256 else n_maxChannels s),
               n_link := link_send ([0, 0, 6, if ver = 6 then 6 else 2] @ le32 now) (n_link s)\<rparr>
      else s\<lparr>n_failed := True\<rparr>)"
proof -
  have "uint ver = 6 \<longleftrightarrow> ver = 6" "uint ver = 3 \<longleftrightarrow> ver = 3"
    by (simp_all add: word_uint_eq_iff)
  then show ?thesis
    by (auto simp: ncp_receive_def decodeControlMessage_def decode_info_def ncp_peek_def link_peek_def
        controlChannel_def ncp_l_send_def Let_def NCON_MSG_CONNECT_TO_SERVER_def
        NCON_MSG_CONNECT_RESPONSE_def NCON_MSG_NCP_INFO_def PV_SERIES_5_def PV_SERIES_3_def
        MAX_CHANNELS_PSION_def)
qed

lemma terminate_all_uaf:
  "n_uaf s \<Longrightarrow> n_uaf (terminate_all is s)"
  by (induction "is" arbitrary: s)
    (auto simp: Let_def set_slot_def terminateWhenAsked_def chan_modify_def split: option.splits)

lemma linkchan_new_active:
  assumes "n = first_unused (n_channelPtr s) [1..<maxLinks s]" and "0 < n"
    and "linkchan_new (-1) s = (p, s')"
  shows "p = n_fresh s" "n_uaf s' = n_uaf s" "n_channelPtr s' = (n_channelPtr s)[n := Ptr p]"
    "n_chans s' p = Some ((chan_new LinkChan)\<lparr>ch_ncpChannel := int n\<rparr>)" "n_maxChannels s' = n_maxChannels s"
    "n_lChan s' = n_lChan s"
  using assms
  by (auto simp: linkchan_new_def ncp_alloc_def ncp_connect_def getNcpChannel_def chan_of_def chan_new_def
      getFirstUnusedChan_def maxLinks_def set_slot_def setNcpChannel_def chan_modify_def
      controlChannel_def ncp_l_send_def Let_def)

text \<open>
  C24: use after free. When the Psion asks for a server on the PC before there is a link
  channel, the new link channel is entered in the table twice, at its own number and at 0.
  A failure clears the first entry and deletes the object, and the reset that follows calls
  the deleted object through entry 0.
\<close>

theorem ncp_dangling_channel:
  assumes "n_lChan s = None" and "\<not> findPcServer name s" and "\<not> n_uaf s" and "0 \<notin> set name"
    and "name \<noteq> ascii ''LINK.*''"
    and "0 < first_unused (n_channelPtr s) [1..<maxLinks s]" and "1 < length (n_channelPtr s)"
    and "0 < maxLinks s" and "s1 = ncp_receive now ([0, remoteChan, 3] @ name @ [0]) s"
    and "ncp_hasFailed s1 = (True, s2)"
  shows "\<not> n_uaf s1 \<and> \<not> n_uaf s2 \<and> n_uaf (ncp_reset s2)"
proof -
  define n where "n = first_unused (n_channelPtr s) [1..<maxLinks s]"
  define t where "t = controlChannel 0 NCON_MSG_CONNECT_RESPONSE
    [remoteChan, word_of_int E_PSI_FILE_NXIST] (s\<lparr>n_failed := False\<rparr>)"
  obtain p t' where new: "linkchan_new (-1) t = (p, t')" by (cases "linkchan_new (-1) t")
  have t: "n_channelPtr t = n_channelPtr s" "maxLinks t = maxLinks s" "n_uaf t = n_uaf s"
    "n_maxChannels t = n_maxChannels s"
    by (simp_all add: t_def controlChannel_def ncp_l_send_def maxLinks_def)
  note chan = linkchan_new_active [of n t, OF _ _ new]
  have "ncp_string (s\<lparr>n_failed := False\<rparr>) (name @ [0]) 0 = name"
    using assms(4) by (simp add: ncp_string_def)
  then have s1: "s1 = (set_slot 0 (Ptr p) t')\<lparr>n_lChan := Some p\<rparr>"
    using assms(1,2,5,9) new
    by (simp add: ncp_receive_def decodeControlMessage_def ncp_peek_def link_peek_def Let_def
        NCON_MSG_CONNECT_TO_SERVER_def decode_connect_other_def findPcServer_def t_def
        controlChannel_def ncp_l_send_def)
  have n: "0 < n" "n = first_unused (n_channelPtr t) [1..<maxLinks t]"
    using assms(6) by (simp_all add: n_def t)
  have c: "p = n_fresh t" "n_uaf t' = n_uaf s" "n_channelPtr t' = (n_channelPtr s)[n := Ptr p]"
    "n_chans t' p = Some ((chan_new LinkChan)\<lparr>ch_ncpChannel := int n\<rparr>)" "n_maxChannels t' = n_maxChannels s"
    using chan n t by auto
  have "n_channelPtr s \<noteq> []" using assms(7) by auto
  then have s2: "n_uaf s2 = n_uaf s" "n_channelPtr s2 ! 0 = Ptr p" "n_chans s2 p = None"
    "n_maxChannels s2 = n_maxChannels s"
    using assms(10) n(1) c
    by (auto simp: s1 ncp_hasFailed_def Let_def split_beta set_slot_def ncp_delete_def getNcpChannel_def
        chan_of_def statusCallback_def split: if_splits)
  obtain k where k: "maxLinks s2 = Suc k"
    using assms(8) s2(4) by (cases "maxLinks s2") (auto simp: maxLinks_def)
  have "n_uaf (terminate_all [0..<maxLinks s2] s2)"
    unfolding k using s2(2,3)
    by (subst upt_conv_Cons)
      (auto intro!: terminate_all_uaf simp: isValidChannel_def slot_ptr_def terminateWhenAsked_def
        chan_modify_def set_slot_def)
  then have "n_uaf (ncp_reset s2)"
    by (simp add: ncp_reset_def Let_def ncp_delete_def split: option.splits)
  moreover have "\<not> n_uaf s1"
    using assms(3) c by (simp add: s1 set_slot_def)
  ultimately show ?thesis using assms(3) s2(1) by simp
qed

section \<open>A client's connection\<close>


section \<open>Instances\<close>

lemma link_send_line: "lk_line (link_send b l) = lk_line l"
  by (simp add: link_send_def link_transmit_def link_now_def link_await_def Let_def split_beta link_simps)

lemma ncp_connected_ok:
  "accepts ncp_connected 1 0" "socket_channel ncp_connected 0 7" "n_messageList ncp_connected ! 1 = []"
  by (simp_all add: accepts_def socket_channel_def ncp_connected_def ncp_sample_def ncp_new_def chan_of_def
      chan_new_def MAX_CHANNELS_PSION_def PV_SERIES_5_def PV_SERIES_3_def)

theorem ncp_message_roundtrip_witness:
  "fold (ncp_receive 0) (ncp_packets 1 9 (replicate 600 5)) ncp_connected = sock_send 7 (replicate 600 5) ncp_connected"
  using ncp_message_roundtrip [OF ncp_connected_ok(1,2), of 0 9 "replicate 600 5"] ncp_connected_ok(3) by simp

theorem ncp_stale_fragment_witness:
  "n_sock (fold (ncp_receive 0) (ncp_packets 1 9 [3, 4])
      (ncp_connected\<lparr>n_messageList := n_messageList (ncp_reset (ncp_receive 0 [1, 9, 2, 1, 2] ncp_connected))\<rparr>)) =
   [Sock_send 7 [1, 2, 3, 4]]"
proof -
  let ?s1 = "ncp_receive 0 [1, 9, 2, 1, 2] ncp_connected"
  let ?s3 = "ncp_connected\<lparr>n_messageList := n_messageList (ncp_reset ?s1)\<rparr>"
  have s1: "?s1 = ncp_receive 0 ([1, 9, NOT_LAST_MESS] @ [1, 2]) ncp_connected"
    by (simp add: NOT_LAST_MESS_def)
  have "length (n_messageList (ncp_reset ?s1)) = 257"
  proof -
    have "n_messageList (terminate_all is t) = n_messageList t" for "is" t
      by (induction "is" arbitrary: t)
        (auto simp: Let_def set_slot_def terminateWhenAsked_def chan_modify_def split: option.splits)
    moreover have "?s1 = with_message (unat (1 :: byte)) [1, 2] ncp_connected"
      unfolding s1 using ncp_receive_data [OF ncp_connected_ok(1), of NOT_LAST_MESS 0 9 "[1, 2]"] ncp_connected_ok(3)
      by (simp add: LAST_MESS_def NOT_LAST_MESS_def)
    ultimately show ?thesis
      by (simp add: ncp_reset_def Let_def with_message_def ncp_connected_def ncp_sample_def ncp_new_def
          MAX_CHANNELS_PSION_def ncp_delete_def split: option.splits)
  qed
  then have s3: "accepts ?s3 1 0" "socket_channel ?s3 0 7"
    using ncp_connected_ok by (simp_all add: accepts_def socket_channel_def chan_of_def)
  have "n_sock ?s3 = []"
    by (simp add: ncp_connected_def ncp_sample_def ncp_new_def)
  with ncp_stale_fragment [OF ncp_connected_ok(1) _ s1 disjI2 s3, of "ncp_reset ?s1", where y = 9 and a = "[3, 4]"]
  show ?thesis using ncp_connected_ok(3) by simp
qed

theorem ncp_first_unused_witness:
  "fst (getFirstUnusedChan ncp_connected) = 2"
proof -
  obtain n s' where n: "getFirstUnusedChan ncp_connected = (n, s')" by fastforce
  have "n_channelPtr ncp_connected ! i = (if i = 1 then Ptr 0 else Null)" if "i < 257" for i
    using that by (simp add: ncp_connected_def nth_list_update)
  moreover have "maxLinks ncp_connected = 8" "length (n_channelPtr ncp_connected) = 257"
    by (simp_all add: maxLinks_def ncp_connected_def ncp_sample_def ncp_new_def MAX_CHANNELS_SIBO_def)
  moreover note ncp_first_unused [OF n]
  ultimately show ?thesis
    using n by (cases "n = 0"; cases "n < 2"; cases "n = 2")
      (auto split: if_splits dest!: spec [where x = 2])
qed

theorem ncp_dangling_channel_witness:
  "n_uaf (ncp_reset (snd (ncp_hasFailed (ncp_receive 0 [0, 4, 3, 88, 0]
     (ncp_sample\<lparr>n_link := link_sample\<lparr>lk_line := (\<lambda>_. True)\<rparr>\<rparr>)))))"
proof -
  let ?s = "ncp_sample\<lparr>n_link := link_sample\<lparr>lk_line := (\<lambda>_. True)\<rparr>\<rparr>"
  let ?s1 = "ncp_receive 0 [0, 4, 3, 88, 0] ?s"
  have unused: "first_unused (n_channelPtr ?s) [1..<maxLinks ?s] = 1"
    by (simp add: ncp_sample_def ncp_new_def maxLinks_def MAX_CHANNELS_SIBO_def MAX_CHANNELS_PSION_def upt_rec)
  have "lk_line (n_link ?s1) = (\<lambda>_. True)"
    using unused
    by (simp add: ncp_receive_def decodeControlMessage_def ncp_peek_def link_peek_def Let_def
        NCON_MSG_CONNECT_TO_SERVER_def decode_connect_other_def findPcServer_def controlChannel_def
        ncp_l_send_def ncp_sample_def ncp_new_def ncp_string_def ascii_def linkchan_new_def ncp_alloc_def
        ncp_connect_def getNcpChannel_def chan_of_def chan_new_def getFirstUnusedChan_def set_slot_def
        setNcpChannel_def chan_modify_def maxLinks_def link_send_line)
  then have "fst (ncp_hasFailed ?s1)"
    by (simp add: ncp_hasFailed_def Let_def split_beta link_simps)
  then have "ncp_hasFailed ?s1 = (True, snd (ncp_hasFailed ?s1))"
    by (simp add: prod_eq_iff)
  from ncp_dangling_channel [OF _ _ _ _ _ _ _ _ _ this, where s = ?s and name = "[88]" and remoteChan = 4 and now = 0] show ?thesis
    using unused
    by (simp add: ncp_sample_def ncp_new_def findPcServer_def ascii_def maxLinks_def
        MAX_CHANNELS_PSION_def MAX_CHANNELS_SIBO_def)
qed


end
