(* ===== verification/TcpSocket.thy ===== *)
theory TcpSocket
  imports Prelude
begin

text \<open>
  Messages on a TCP connection, \<open>TCPSocket::sendBufferStore\<close> and \<open>getBufferStore\<close> of
  \<open>lib/tcpsocket.cc\<close>: a length of four bytes in network order and the contents. The results
  of the system calls are arguments: for \<open>send\<close> a list of return values, for \<open>recv\<close> a list
  of the chunks it stores (\<open>[]\<close> for a return value of 0 or an error). \<open>None\<close> is a call that
  still waits for the next result.
\<close>

definition htonl :: "nat \<Rightarrow> bytes" where
  "htonl l = rev (le32 (int l))"

definition ntohl :: "bytes \<Rightarrow> nat" where
  "ntohl b = unat (join32 (b ! 3) (b ! 2) (b ! 1) (b ! 0))"

text \<open>The loop of \<open>sendBufferStore\<close>: the result, and the bytes handed to the connection.\<close>

fun send_loop :: "bytes \<Rightarrow> nat \<Rightarrow> int list \<Rightarrow> (bool \<times> bytes) option" where
  "send_loop [] retries results = Some (True, [])"
| "send_loop b retries [] = None"
| "send_loop b retries (i # results) =
     (if i \<le> 0 then Some (False, [])
      else let sent = take (nat i) b; rest = drop (nat i) b; retries = retries + 1
      in if retries > 5 then Some (False, sent)
      else map_option (\<lambda>(ok, out). (ok, sent @ out)) (send_loop rest retries results))"

definition sendBufferStore :: "bytes \<Rightarrow> int list \<Rightarrow> (bool \<times> bytes) option" where
  "sendBufferStore a results = send_loop (htonl (length a) @ a) 0 results"

text \<open>The loop of \<open>getBufferStore\<close> over the contents: \<open>l\<close> bytes are missing.\<close>

fun recv_loop :: "nat \<Rightarrow> bytes \<Rightarrow> bytes list \<Rightarrow> bytes option option" where
  "recv_loop 0 got chunks = Some (Some got)"
| "recv_loop l got [] = None"
| "recv_loop l got (c # chunks) =
     (if c = [] then Some None else recv_loop (l - length c) (got @ c) chunks)"

text \<open>\<open>ready\<close> is the result of \<open>dataToGet(0, 0)\<close>; the result and the buffer's new contents.\<close>

definition getBufferStore ::
  "bytes \<Rightarrow> bool \<Rightarrow> bool \<Rightarrow> bytes list \<Rightarrow> (int \<times> bytes) option" where
  "getBufferStore a wait ready chunks =
     (if \<not> wait \<and> \<not> ready then Some (0, a)
      else case chunks of
        [] \<Rightarrow> None
      | header # chunks \<Rightarrow>
          if length header \<noteq> 4 then Some (-1, [])
          else let l = ntohl header
          in if l > 16384 then Some (-1, [])
          else case recv_loop l [] chunks of
            None \<Rightarrow> None
          | Some None \<Rightarrow> Some (-1, [])
          | Some (Some got) \<Rightarrow> Some (if got = [] then 0 else 1, got))"

section \<open>Framing\<close>

lemma length_htonl [simp]: "length (htonl l) = 4"
  by (simp add: htonl_def)

lemma ntohl_htonl: "l < 2 ^ 32 \<Longrightarrow> ntohl (htonl l) = l"
proof -
  assume "l < 2 ^ 32"
  moreover have "ntohl (htonl l) = unat (word_of_int (int l) :: 32 word)"
    by (simp add: ntohl_def htonl_def le32_def del: of_int_of_nat_eq)
  ultimately show ?thesis by (simp add: unat_of_nat)
qed

lemma recv_loop_complete:
  "concat chunks = b \<Longrightarrow> [] \<notin> set chunks \<Longrightarrow> recv_loop (length b) got (chunks @ more) = Some (Some (got @ b))"
proof (induction chunks arbitrary: got b)
  case (Cons c cs)
  then have "b = c @ concat cs" "c \<noteq> []" "length b - length c = length (concat cs)" by auto
  moreover from this have "recv_loop (length b) got ((c # cs) @ more) =
      recv_loop (length b - length c) (got @ c) (cs @ more)"
    by (cases "length b") simp_all
  ultimately show ?case
    using Cons.IH [OF refl, of "got @ c"] Cons.prems by simp
qed simp

lemma send_loop_out: "send_loop b r results = Some (ok, out) \<Longrightarrow> \<exists>rest. b = out @ rest"
proof (induction b r results arbitrary: ok out rule: send_loop.induct)
  case (3 c cs r i results)
  show ?case
  proof (cases "i \<le> 0 \<or> r + 1 > 5")
    case True
    with "3.prems" have "out = [] \<or> out = take (nat i) (c # cs)"
      by (auto simp: Let_def split: if_splits)
    then show ?thesis by (metis append_Nil append_take_drop_id)
  next
    case False
    with "3.prems" obtain out' where out': "out = take (nat i) (c # cs) @ out'"
      "send_loop (drop (nat i) (c # cs)) (r + 1) results = Some (ok, out')"
      by (auto simp: Let_def map_option_case split: option.splits)
    with "3.IH" False obtain rest where "drop (nat i) (c # cs) = out' @ rest" by fastforce
    with out'(1) have "c # cs = out @ rest"
      by (metis append.assoc append_take_drop_id)
    then show ?thesis by blast
  qed
qed auto

text \<open>The results of \<open>send\<close> when it takes the frame \<open>b\<close> in pieces.\<close>

definition pieces :: "bytes \<Rightarrow> int list \<Rightarrow> bool" where
  "pieces b results \<longleftrightarrow> (\<forall>i\<in>set results. 0 < i) \<and> sum_list results = int (length b)"

lemma send_loop_pieces:
  assumes "pieces b results" "results \<noteq> []" "r \<le> 5"
  shows "if r + length results \<le> 5 then send_loop b r results = Some (True, b)
         else \<exists>out. send_loop b r results = Some (False, out) \<and> (length results = 6 - r \<longrightarrow> out = b)"
  using assms
proof (induction results arbitrary: b r)
  case (Cons i js)
  then have i: "0 < i" "nat i \<le> length b" and js: "pieces (drop (nat i) b) js"
    using sum_list_nonneg [of js] by (force simp: pieces_def)+
  obtain c cs where b: "b = c # cs" using i by (cases b) auto
  show ?case
  proof (cases "js = []")
    case True
    then have "nat i = length b" using Cons.prems(1) by (simp add: pieces_def)
    with i True b show ?thesis by (auto simp: Let_def)
  next
    case False
    show ?thesis
    proof (cases "r + 1 > 5")
      case True
      with i b False Cons.prems(3) show ?thesis by (cases js) (auto simp: Let_def)
    next
      case r: False
      then have "r + 1 \<le> 5" by simp
      have step: "send_loop b r (i # js) =
          map_option (\<lambda>(ok, out). (ok, take (nat i) b @ out)) (send_loop (drop (nat i) b) (r + 1) js)"
        using i r b by (simp add: Let_def)
      show ?thesis
        using Cons.IH [OF js False \<open>r + 1 \<le> 5\<close>] step False by (auto split: if_splits)
    qed
  qed
qed simp



text \<open>
  \<open>sendBufferStore\<close> reports a failure whenever the kernel takes the message in more
  than five pieces, even when the sixth piece completes it and everything has been sent;
  what has been sent is always a prefix of the frame.
\<close>

theorem tcp_send_retries:
  assumes "pieces (htonl (length a) @ a) results" and "5 < length results"
  shows "\<exists>out rest. sendBufferStore a results = Some (False, out) \<and>
           htonl (length a) @ a = out @ rest \<and> (length results = 6 \<longrightarrow> rest = [])"
proof -
  have "results \<noteq> []" using assms(2) by auto
  then obtain out where out: "send_loop (htonl (length a) @ a) 0 results = Some (False, out)"
    "length results = 6 \<longrightarrow> out = htonl (length a) @ a"
    using send_loop_pieces [OF assms(1), of 0] assms(2) by auto
  moreover obtain rest where "htonl (length a) @ a = out @ rest"
    using send_loop_out [OF out(1)] by blast
  ultimately show ?thesis by (auto simp: sendBufferStore_def)
qed

theorem tcp_send_retries_witness:
  "sendBufferStore [7, 8] [1, 1, 1, 1, 1, 1] = Some (False, htonl 2 @ [7, 8])"
  using tcp_send_retries [of "[7, 8]" "[1, 1, 1, 1, 1, 1]"] by (auto simp: pieces_def numeral_eq_Suc)

end
