(* ===== verification/PsiTime.thy ===== *)
theory PsiTime
  imports Prelude
begin

text \<open>
  Time conversion, \<open>lib/psitime.cc\<close>: a time as Unix time in UTC and as the EPOC counter of
  microseconds of local time, which the code computes in 64-bit unsigned arithmetic. The
  system is the argument \<open>env\<close>: \<open>te_gmtoff t\<close> is \<open>tm_gmtoff\<close> of \<open>localtime\<close> at \<open>t\<close>,
  \<open>te_now\<close> the result of \<open>time\<close> and \<open>gettimeofday\<close>, \<open>te_psi_tz\<close> the value of the
  environment variable \<open>PSI_TZ\<close> as \<open>strtol\<close> reads it (\<open>None\<close> in the pair if there are
  characters after the number), and \<open>te_zone\<close> the zone stored in the singleton \<open>PsiZone\<close>.
\<close>

section \<open>State\<close>

record psi_timezone =
  utc_offset :: int
  dst_zones :: "64 word"
  home_zone :: "64 word"

record timeenv =
  te_gmtoff :: "int \<Rightarrow> int"
  te_now_sec :: int
  te_now_usec :: int
  te_psi_tz :: "int option option"
  te_zone :: "psi_timezone option"

record psitime =
  ptv_low :: "32 word"
  ptv_high :: "32 word"
  ptz :: psi_timezone
  utv_sec :: int
  utv_usec :: int
  ptzValid :: bool

definition PSI_TZ_HOME :: "64 word" where "PSI_TZ_HOME = 0x40000000"
definition EPOCH_DIFF :: "64 word" where "EPOCH_DIFF = 0x00dcddb30f2f8000"

definition evalOffset :: "timeenv \<Rightarrow> psi_timezone \<Rightarrow> int \<Rightarrow> bool \<Rightarrow> int" where
  "evalOffset env zone ptime valid =
     (let offset =
            (if valid
             then utc_offset zone + (if dst_zones zone AND PSI_TZ_HOME \<noteq> 0 then 3600 else 0)
                  - te_gmtoff env (te_now_sec env)
             else (case te_psi_tz env of None \<Rightarrow> 0 | Some None \<Rightarrow> 0 | Some (Some z) \<Rightarrow> z))
      in (offset + te_gmtoff env ptime) * 1000000)"

text \<open>The offset in seconds; as it is a multiple of a second, the divisions below are exact.\<close>

definition offset_seconds :: "timeenv \<Rightarrow> psitime \<Rightarrow> int \<Rightarrow> bool \<Rightarrow> int" where
  "offset_seconds env t ptime valid = evalOffset env (ptz t) ptime valid div 1000000"

section \<open>Conversions\<close>

definition psi2unix :: "timeenv \<Rightarrow> psitime \<Rightarrow> psitime" where
  "psi2unix env t =
     (let micro = (ucast (ptv_high t) :: 64 word);
          micro = push_bit 32 micro OR ucast (ptv_low t);
          micro = micro - EPOCH_DIFF;
          micro = micro - word_of_int (evalOffset env (ptz t) (uint (micro div 1000000)) (ptzValid t))
      in t\<lparr>utv_sec := uint (micro div 1000000), utv_usec := uint (micro mod 1000000)\<rparr>)"

definition unix2psi :: "timeenv \<Rightarrow> psitime \<Rightarrow> psitime" where
  "unix2psi env t =
     (let micro = (word_of_int (utv_sec t) * 1000000 + word_of_int (utv_usec t) :: 64 word);
          micro = micro + word_of_int (evalOffset env (ptz t) (utv_sec t) (ptzValid t));
          micro = micro + EPOCH_DIFF
      in t\<lparr>ptv_low := ucast (micro AND 0xffffffff), ptv_high := ucast (drop_bit 32 micro AND 0xffffffff)\<rparr>)"

definition tryPsiZone :: "timeenv \<Rightarrow> psitime \<Rightarrow> psitime" where
  "tryPsiZone env t =
     (if ptzValid t then t
      else case te_zone env of None \<Rightarrow> t | Some z \<Rightarrow> t\<lparr>ptz := z, ptzValid := True\<rparr>)"

definition PsiZone_setZone :: "psi_timezone \<Rightarrow> timeenv \<Rightarrow> timeenv" where
  "PsiZone_setZone z env = env\<lparr>te_zone := Some z\<rparr>"

definition setUnixTime :: "timeenv \<Rightarrow> int \<Rightarrow> psitime \<Rightarrow> psitime" where
  "setUnixTime env time t = unix2psi env (t\<lparr>utv_sec := time, utv_usec := 0\<rparr>)"

definition setUnixTimeval :: "timeenv \<Rightarrow> (int \<times> int) option \<Rightarrow> psitime \<Rightarrow> psitime" where
  "setUnixTimeval env tv t =
     unix2psi env (case tv of None \<Rightarrow> t | Some (s, u) \<Rightarrow> t\<lparr>utv_sec := s, utv_usec := u\<rparr>)"

definition setUnixNow :: "timeenv \<Rightarrow> psitime \<Rightarrow> psitime" where
  "setUnixNow env t = unix2psi env (t\<lparr>utv_sec := te_now_sec env, utv_usec := te_now_usec env\<rparr>)"

definition setPsiTime :: "timeenv \<Rightarrow> 32 word \<Rightarrow> 32 word \<Rightarrow> psitime \<Rightarrow> psitime" where
  "setPsiTime env hi lo t = psi2unix env (t\<lparr>ptv_high := hi, ptv_low := lo\<rparr>)"

definition setPsiZone :: "timeenv \<Rightarrow> psi_timezone option \<Rightarrow> psitime \<Rightarrow> psitime" where
  "setPsiZone env z t =
     psi2unix env (case z of None \<Rightarrow> t | Some z \<Rightarrow> t\<lparr>ptz := z, ptzValid := True\<rparr>)"

definition setSiboTime :: "timeenv \<Rightarrow> 32 word \<Rightarrow> psitime \<Rightarrow> psitime" where
  "setSiboTime env stime t =
     (let micro = evalOffset env (ptz t) (uint stime) False
      in t\<lparr>utv_sec := uint stime - micro div 1000000, utv_usec := 0\<rparr>)"

definition getSiboTime :: "timeenv \<Rightarrow> psitime \<Rightarrow> 32 word" where
  "getSiboTime env t =
     (let micro = evalOffset env (ptz t) (utv_sec t) False
      in word_of_int (utv_sec t + micro div 1000000))"

section \<open>Constructors and comparison\<close>

text \<open>\<open>raw\<close> is the uninitialised object.\<close>

definition PsiTime_now :: "timeenv \<Rightarrow> psitime \<Rightarrow> psitime" where
  "PsiTime_now env raw = setUnixNow env (tryPsiZone env (raw\<lparr>ptzValid := False\<rparr>))"

definition PsiTime_unix :: "timeenv \<Rightarrow> int \<Rightarrow> psitime \<Rightarrow> psitime" where
  "PsiTime_unix env time raw =
     setUnixTime env time (raw\<lparr>ptzValid := False, utv_sec := te_now_sec env, utv_usec := te_now_usec env\<rparr>)"

definition PsiTime_psi :: "timeenv \<Rightarrow> 32 word \<Rightarrow> 32 word \<Rightarrow> psitime \<Rightarrow> psitime" where
  "PsiTime_psi env hi lo raw =
     (let t = tryPsiZone env (raw\<lparr>ptv_high := hi, ptv_low := lo, ptzValid := False\<rparr>)
      in psi2unix env (t\<lparr>utv_sec := te_now_sec env, utv_usec := te_now_usec env\<rparr>))"

definition PsiTime_psi_zone ::
  "timeenv \<Rightarrow> (32 word \<times> 32 word) option \<Rightarrow> psi_timezone option \<Rightarrow> psitime \<Rightarrow> psitime" where
  "PsiTime_psi_zone env tv z raw =
     (let t = (case tv of None \<Rightarrow> raw | Some (hi, lo) \<Rightarrow> raw\<lparr>ptv_high := hi, ptv_low := lo\<rparr>);
          t = (case z of Some z \<Rightarrow> t\<lparr>ptz := z, ptzValid := True\<rparr>
               | None \<Rightarrow> tryPsiZone env (t\<lparr>ptzValid := False\<rparr>))
      in psi2unix env (t\<lparr>utv_sec := te_now_sec env, utv_usec := te_now_usec env\<rparr>))"

definition PsiTime_timeval :: "timeenv \<Rightarrow> (int \<times> int) option \<Rightarrow> psitime \<Rightarrow> psitime" where
  "PsiTime_timeval env tv raw =
     unix2psi env (tryPsiZone env
       (case tv of None \<Rightarrow> raw | Some (s, u) \<Rightarrow> raw\<lparr>utv_sec := s, utv_usec := u\<rparr>))"

definition PsiTime_copy :: "timeenv \<Rightarrow> psitime \<Rightarrow> psitime" where
  "PsiTime_copy env t = tryPsiZone env t"

text \<open>The comparisons first recompute the left side's Unix time.\<close>

definition psitime_eq :: "timeenv \<Rightarrow> psitime \<Rightarrow> psitime \<Rightarrow> bool \<times> psitime" where
  "psitime_eq env a t =
     (let a = psi2unix env a in (utv_sec a = utv_sec t \<and> utv_usec a = utv_usec t, a))"

definition psitime_less :: "timeenv \<Rightarrow> psitime \<Rightarrow> psitime \<Rightarrow> bool \<times> psitime" where
  "psitime_less env a t =
     (let a = psi2unix env a
      in (if utv_sec a = utv_sec t then utv_usec a < utv_usec t else utv_sec a < utv_sec t, a))"

definition psitime_greater :: "timeenv \<Rightarrow> psitime \<Rightarrow> psitime \<Rightarrow> bool \<times> psitime" where
  "psitime_greater env a t =
     (let a = psi2unix env a
      in (if utv_sec a = utv_sec t then utv_usec a > utv_usec t else utv_sec a > utv_sec t, a))"

section \<open>Counters as integers\<close>

definition psi_micros :: "psitime \<Rightarrow> int" where
  "psi_micros t = uint (ptv_high t) * 2 ^ 32 + uint (ptv_low t)"

lemma psi_word:
  "(push_bit 32 (ucast (hi :: 32 word)) OR ucast (lo :: 32 word) :: 64 word) =
     word_of_int (uint hi * 2 ^ 32 + uint lo)"
proof -
  have "(push_bit 32 (ucast hi) OR ucast lo :: 64 word) = push_bit 32 (ucast hi) + ucast lo"
    by (rule sym, rule disjunctive_add_eq_or, rule bit_eqI)
      (auto simp: bit_simps dest: bit_imp_le_length)
  then show ?thesis
    by (simp add: push_bit_eq_mult unsigned_ucast_eq)
qed

lemma evalOffset_seconds: "evalOffset env (ptz t) p v = offset_seconds env t p v * 1000000"
  by (simp add: offset_seconds_def evalOffset_def Let_def)

lemma EPOCH_DIFF_int: "EPOCH_DIFF = word_of_int 62168256000000000"
  by (simp add: EPOCH_DIFF_def)

lemma split_word64:
  "uint (ucast (drop_bit 32 m AND 0xffffffff) :: 32 word) * 2 ^ 32 +
   uint (ucast ((m :: 64 word) AND 0xffffffff) :: 32 word) = uint m"
proof -
  have mask: "(0xffffffff :: 64 word) = mask 32" by (simp add: mask_eq_exp_minus_1)
  have "uint (ucast (drop_bit 32 m AND mask 32) :: 32 word) = uint m div 2 ^ 32"
  proof -
    have "uint m < 2 ^ 64" using uint_lt2p [of m] by simp
    then have "0 \<le> uint m div 2 ^ 32" "uint m div 2 ^ 32 < 2 ^ 32"
      by (simp_all add: pos_imp_zdiv_nonneg_iff)
    then show ?thesis
      by (simp add: unsigned_ucast_eq take_bit_eq_mask [symmetric] unsigned_take_bit_eq
          unsigned_drop_bit_eq take_bit_eq_mod drop_bit_eq_div uint_div_distrib uint_mod_distrib)
  qed
  moreover have "uint (ucast (m AND mask 32) :: 32 word) = uint m mod 2 ^ 32"
    by (simp add: unsigned_ucast_eq take_bit_eq_mask [symmetric] unsigned_take_bit_eq take_bit_eq_mod
        uint_mod_distrib)
  ultimately show ?thesis unfolding mask by (simp add: mult.commute)
qed

lemma unix2psi_micros:
  assumes "0 \<le> utv_sec t * 1000000 + utv_usec t + evalOffset env (ptz t) (utv_sec t) (ptzValid t) + 62168256000000000"
    "utv_sec t * 1000000 + utv_usec t + evalOffset env (ptz t) (utv_sec t) (ptzValid t) + 62168256000000000 < 2 ^ 64"
  shows "psi_micros (unix2psi env t) =
    utv_sec t * 1000000 + utv_usec t + evalOffset env (ptz t) (utv_sec t) (ptzValid t) + 62168256000000000"
proof -
  let ?v = "utv_sec t * 1000000 + utv_usec t + evalOffset env (ptz t) (utv_sec t) (ptzValid t) + 62168256000000000"
  let ?m = "word_of_int (utv_sec t) * 1000000 + word_of_int (utv_usec t) +
    word_of_int (evalOffset env (ptz t) (utv_sec t) (ptzValid t)) + EPOCH_DIFF :: 64 word"
  have "ptv_low (unix2psi env t) = ucast (?m AND 0xffffffff)"
    "ptv_high (unix2psi env t) = ucast (drop_bit 32 ?m AND 0xffffffff)"
    by (simp_all add: unix2psi_def Let_def)
  then have "psi_micros (unix2psi env t) = uint ?m"
    by (simp only: psi_micros_def split_word64)
  also have "?m = word_of_int ?v"
    by (simp add: EPOCH_DIFF_int)
  also have "uint (word_of_int ?v :: 64 word) = ?v"
    using assms by (simp add: unsigned_of_int take_bit_int_eq_self del: of_int_add of_int_mult)
  finally show ?thesis .
qed

lemma psi2unix_micros:
  assumes "p = (psi_micros t - 62168256000000000) div 1000000"
    "62168256000000000 \<le> psi_micros t"
    "v = psi_micros t - 62168256000000000 - evalOffset env (ptz t) p (ptzValid t)"
    "0 \<le> v" "v < 2 ^ 64"
  shows "utv_sec (psi2unix env t) = v div 1000000" "utv_usec (psi2unix env t) = v mod 1000000"
proof -
  let ?w = "((push_bit 32 (ucast (ptv_high t)) OR ucast (ptv_low t)) - EPOCH_DIFF :: 64 word)"
  have range: "psi_micros t < 2 ^ 64" "0 \<le> psi_micros t"
    using uint_lt2p [of "ptv_high t"] uint_lt2p [of "ptv_low t"] by (simp_all add: psi_micros_def)
  have w: "?w = word_of_int (psi_micros t - 62168256000000000)"
    by (simp only: psi_word EPOCH_DIFF_int psi_micros_def) simp
  then have uw: "uint ?w = psi_micros t - 62168256000000000"
    using range assms(2) by (simp add: unsigned_of_int take_bit_int_eq_self del: of_int_diff)
  then have p: "uint (?w div 1000000) = p"
    by (simp add: uint_div_distrib assms(1))
  have "?w - word_of_int (evalOffset env (ptz t) p (ptzValid t)) = word_of_int v"
    unfolding w assms(3) by simp
  moreover have "uint (word_of_int v :: 64 word) = v"
    using assms(4,5) by (simp add: unsigned_of_int take_bit_int_eq_self)
  ultimately show "utv_sec (psi2unix env t) = v div 1000000" "utv_usec (psi2unix env t) = v mod 1000000"
    using p by (simp_all add: psi2unix_def Let_def uint_div_distrib uint_mod_distrib)
qed


text \<open>One zone change: from two hours to one at 1300000000, seen on the Psion's clock.\<close>

definition env_sample :: timeenv where
  "env_sample = \<lparr>te_gmtoff = (\<lambda>t. if t < 1300000000 then 7200 else 3600), te_now_sec = 1200000000,
     te_now_usec = 0, te_psi_tz = None, te_zone = None\<rparr>"

definition time_sample :: "int \<Rightarrow> psitime" where
  "time_sample s = \<lparr>ptv_low = 0, ptv_high = 0, ptz = \<lparr>utc_offset = 0, dst_zones = 0, home_zone = 0\<rparr>,
     utv_sec = s, utv_usec = 250000, ptzValid = False\<rparr>"


text \<open>
  The same for the 32-bit seconds of a SIBO machine, which are always converted with
  the fallback offset of \<open>PSI_TZ\<close>, never with the zone of the machine.
\<close>

theorem sibo_time_roundtrip:
  assumes "o1 = offset_seconds env t (uint stime) False"
    and "o2 = offset_seconds env t (uint stime - o1) False"
  shows "utv_sec (setSiboTime env stime t) = uint stime - o1 \<and>
         getSiboTime env (setSiboTime env stime t) = stime + word_of_int (o2 - o1)"
proof -
  have "utv_sec (setSiboTime env stime t) = uint stime - o1"
    by (simp add: setSiboTime_def Let_def evalOffset_seconds assms(1))
  moreover have "ptz (setSiboTime env stime t) = ptz t"
    by (simp add: setSiboTime_def Let_def)
  ultimately show ?thesis
    using assms(2)
    by (simp add: getSiboTime_def Let_def offset_seconds_def [symmetric])
qed

theorem sibo_time_roundtrip_witness:
  "getSiboTime env_sample (setSiboTime env_sample 1250000000 (time_sample 0)) = 1250000000"
  using sibo_time_roundtrip [of 7200 env_sample "time_sample 0" 1250000000 7200]
  by (simp add: env_sample_def time_sample_def offset_seconds_def evalOffset_def)

end
