(* ===== verification/PathUtils.thy ===== *)
theory PathUtils
  imports Prelude
begin

text \<open>
  Paths of the host and of the Psion, \<open>lib/pathutils.cc\<close>: splitting into components, joining
  and resolving against a base path. A path is a string; a component that is empty marks a
  directory at the end of a path. Indices into strings are those of the code.
\<close>

datatype PathFormat = kPOSIX | kWindows

definition path_separator :: "PathFormat \<Rightarrow> char" where
  "path_separator format = (case format of kPOSIX \<Rightarrow> CHR ''/'' | kWindows \<Rightarrow> CHR 0x5C)"

definition is_drive_component :: "string \<Rightarrow> bool" where
  "is_drive_component c \<longleftrightarrow> length c = 2 \<and> isalpha (c ! 0) \<and> c ! 1 = CHR '':''"

definition is_separator :: "string \<Rightarrow> PathFormat \<Rightarrow> bool" where
  "is_separator c format \<longleftrightarrow> length c = 1 \<and> c ! 0 = path_separator format"

definition components_absolute :: "string list \<Rightarrow> PathFormat \<Rightarrow> bool" where
  "components_absolute components format \<longleftrightarrow>
     (case format of
        kPOSIX \<Rightarrow> length components \<ge> 1 \<and> components ! 0 = ''/''
      | kWindows \<Rightarrow> length components \<ge> 2 \<and> is_drive_component (components ! 0) \<and>
                    components ! 1 = [CHR 0x5C])"

definition is_rooted :: "string list \<Rightarrow> PathFormat \<Rightarrow> bool" where
  "is_rooted components format \<longleftrightarrow>
     (case format of
        kPOSIX \<Rightarrow> length components \<ge> 1 \<and> components ! 0 = ''/''
      | kWindows \<Rightarrow> (length components \<ge> 2 \<and> is_drive_component (components ! 0) \<and>
                     components ! 1 = [CHR 0x5C]) \<or>
                    (length components \<ge> 1 \<and> components ! 0 = [CHR 0x5C]))"

definition drive_component :: "string list \<Rightarrow> PathFormat \<Rightarrow> string" where
  "drive_component components format =
     (if format \<noteq> kWindows \<or> components = [] then ''''
      else let front = hd components
           in if \<not> is_drive_component front then '''' else front[0 := toupper (front ! 0)])"

text \<open>\<open>path.find(separator, from)\<close> and \<open>path.find_last_of\<close>.\<close>

definition find_from :: "char \<Rightarrow> string \<Rightarrow> nat \<Rightarrow> nat option" where
  "find_from sep path i =
     (let k = length (takeWhile (\<lambda>c. c \<noteq> sep) (drop i path))
      in if i + k < length path then Some (i + k) else None)"

definition epoc_basename :: "string \<Rightarrow> string" where
  "epoc_basename path =
     (if CHR 0x5C \<in> set path then rev (takeWhile (\<lambda>c. c \<noteq> CHR 0x5C) (rev path)) else path)"

section \<open>Split\<close>

function split_loop ::
  "char \<Rightarrow> string \<Rightarrow> nat \<Rightarrow> nat \<Rightarrow> string list \<Rightarrow> bool \<Rightarrow> string list \<times> nat \<times> bool" where
  "split_loop separator path pathStartIndex previousIndex result foundNonRootSeparator =
     (case find_from separator path previousIndex of
        None \<Rightarrow> (result, previousIndex, foundNonRootSeparator)
      | Some index \<Rightarrow>
          (let (result, found) =
                 (if index = pathStartIndex then (result @ [take 1 (drop index path)], foundNonRootSeparator)
                  else (result, True));
               len = index - previousIndex;
               result = (if len > 0 then result @ [take len (drop previousIndex path)] else result)
           in split_loop separator path pathStartIndex (index + 1) result found))"
  by pat_completeness auto
termination
  by (relation "measure (\<lambda>(_, path, _, previousIndex, _, _). length path - previousIndex)")
    (auto simp: find_from_def Let_def split: if_splits)

definition path_split :: "string \<Rightarrow> PathFormat \<Rightarrow> string list" where
  "path_split path format =
     (let (result, pathStartIndex) =
            (if format = kWindows \<and> length path \<ge> 2 \<and> is_drive_component (take 2 path)
             then ([take 2 path], 2) else ([], 0));
          (result, previousIndex, found) =
            split_loop (path_separator format) path pathStartIndex pathStartIndex result False
      in if previousIndex < length path \<or> found then result @ [drop previousIndex path] else result)"

section \<open>Join\<close>

text \<open>The loop over the components; \<open>first\<close> holds before the first one.\<close>

fun join_loop :: "char \<Rightarrow> bool \<Rightarrow> string \<Rightarrow> string list \<Rightarrow> string" where
  "join_loop separator first path [] = path"
| "join_loop separator first path (component # components) =
     (let path = (if \<not> first \<and> last path \<noteq> separator then path @ [separator] else path);
          path = (if component = [] \<and> path = [] then path @ ''.'' @ [separator] else path)
      in join_loop separator False (path @ component) components)"

definition path_join :: "string list \<Rightarrow> PathFormat \<Rightarrow> string" where
  "path_join components format =
     (let (drive, rest) =
            (if format = kWindows \<and> length components \<ge> 1 \<and> is_drive_component (components ! 0)
             then (components ! 0, tl components) else ('''', components))
      in drive @ join_loop (path_separator format) True '''' rest)"

definition appending_components :: "string \<Rightarrow> string list \<Rightarrow> PathFormat \<Rightarrow> string" where
  "appending_components path components format = path_join (path_split path format @ components) format"

definition is_absolute :: "string \<Rightarrow> PathFormat \<Rightarrow> bool" where
  "is_absolute path format = components_absolute (path_split path format) format"

section \<open>Resolve\<close>

text \<open>The number of components in front of the rootless part.\<close>

definition rootless_begin :: "string list \<Rightarrow> PathFormat \<Rightarrow> nat" where
  "rootless_begin components format =
     (if components = [] then 0
      else let i = (if format = kWindows \<and> is_drive_component (components ! 0) then 1 else 0)
      in if i = length components then i
      else if is_separator (components ! i) format then i + 1 else i)"

fun drop_markers :: "string list \<Rightarrow> string list" where
  "drop_markers [] = []"
| "drop_markers (c # cs) = (if c = '''' then drop_markers cs else c # cs)"

definition resolve_step :: "string \<Rightarrow> string list \<Rightarrow> string list" where
  "resolve_step component resolved =
     (let resolved = rev (drop_markers (rev resolved))
      in if component = ''..''
         then (if resolved = [] \<or> last resolved = ''..'' then resolved @ [''..''] else butlast resolved)
         else resolved @ [component])"

definition resolve_path :: "string \<Rightarrow> string \<Rightarrow> PathFormat \<Rightarrow> string" where
  "resolve_path path basePath format =
     (let pathComponents = path_split path format;
          basePathComponents = path_split basePath format
      in if components_absolute pathComponents format then path
      else let pathDrive = drive_component pathComponents format;
               basePathDrive = drive_component basePathComponents format
      in if pathDrive \<noteq> '''' \<and> pathDrive \<noteq> basePathDrive \<and> \<not> is_rooted pathComponents format then path
      else let i = rootless_begin basePathComponents format;
               root = take i basePathComponents;
               rootless = drop i basePathComponents;
               (root, rootless) =
                 (if is_rooted pathComponents format
                  then (if root = [] \<or> last root \<noteq> [path_separator format]
                        then root @ [[path_separator format]] else root, tl pathComponents)
                  else (root, fold resolve_step pathComponents rootless));
               resolvedPath = path_join (root @ rootless) format
      in if resolvedPath = '''' then ''.'' else resolvedPath)"

section \<open>Names\<close>

declare split_loop.simps [simp del]

definition plain :: "char \<Rightarrow> string \<Rightarrow> bool" where
  "plain sep c \<longleftrightarrow> c \<noteq> '''' \<and> sep \<notin> set c"

text \<open>Names between separators; only the last may be empty, as a directory marker.\<close>

fun tail_ok :: "char \<Rightarrow> string list \<Rightarrow> bool" where
  "tail_ok sep [] = False"
| "tail_ok sep [n] = (sep \<notin> set n)"
| "tail_ok sep (n # m # ns) = (plain sep n \<and> tail_ok sep (m # ns))"

definition names_ok :: "char \<Rightarrow> string list \<Rightarrow> bool" where
  "names_ok sep ns \<longleftrightarrow> ns = [] \<or> (plain sep (hd ns) \<and> tail_ok sep ns)"

fun joins :: "char \<Rightarrow> string list \<Rightarrow> string" where
  "joins sep [] = ''''"
| "joins sep [n] = n"
| "joins sep (n # m # ns) = n @ sep # joins sep (m # ns)"

lemma find_from_None: "sep \<notin> set (drop i path) \<Longrightarrow> find_from sep path i = None"
proof -
  assume "sep \<notin> set (drop i path)"
  then have "takeWhile (\<lambda>c. c \<noteq> sep) (drop i path) = drop i path"
    by (auto simp: takeWhile_eq_all_conv)
  then have "length (takeWhile (\<lambda>c. c \<noteq> sep) (drop i path)) = length path - i"
    by (simp only: length_drop)
  then show ?thesis by (simp add: find_from_def Let_def)
qed

lemma find_from_Some: "sep \<notin> set n \<Longrightarrow> find_from sep (pre @ n @ sep # rest) (length pre) = Some (length pre + length n)"
  by (simp add: find_from_def Let_def takeWhile_append)

lemma split_loop_names:
  assumes "tail_ok sep ns" "start < length pre \<or> (start = length pre \<and> hd ns \<noteq> '''')"
  shows "split_loop sep (pre @ joins sep ns) start (length pre) result found =
    (result @ butlast ns, length (pre @ joins sep ns) - length (last ns), found \<or> length ns > 1)"
  using assms
proof (induction ns arbitrary: pre result found rule: joins.induct)
  case (1 sep)
  then show ?case by simp
next
  case (2 sep n)
  then show ?case
    by (subst split_loop.simps) (simp add: find_from_None)
next
  case (3 sep n m ns)
  have n: "n \<noteq> ''''" "sep \<notin> set n" and tail: "tail_ok sep (m # ns)"
    using "3.prems"(1) by (auto simp: plain_def)
  let ?pre = "pre @ n @ [sep]"
  have path: "pre @ joins sep (n # m # ns) = ?pre @ joins sep (m # ns)" by simp
  have find: "find_from sep (pre @ joins sep (n # m # ns)) (length pre) = Some (length pre + length n)"
    using find_from_Some [OF n(2), of pre "joins sep (m # ns)"] by simp
  have "split_loop sep (pre @ joins sep (n # m # ns)) start (length pre) result found =
      split_loop sep (?pre @ joins sep (m # ns)) start (length ?pre) (result @ [n]) True"
    using find n(1) "3.prems"(2) by (subst split_loop.simps) (auto simp: Let_def)
  also have "\<dots> = ((result @ [n]) @ butlast (m # ns),
      length (?pre @ joins sep (m # ns)) - length (last (m # ns)), True \<or> length (m # ns) > 1)"
    using tail "3.prems"(2) by (intro "3.IH") auto
  finally show ?case by simp
qed

lemma drop_last_name: "tail_ok sep ns \<Longrightarrow> drop (length (pre @ joins sep ns) - length (last ns)) (pre @ joins sep ns) = last ns"
proof (induction ns arbitrary: pre rule: joins.induct)
  case (3 sep n m ns)
  then show ?case using "3.IH" [of "pre @ n @ [sep]"] by simp
qed simp_all

text \<open>The rest of a path after the drive: an optional root separator and names.\<close>

definition rooted_names :: "char \<Rightarrow> bool \<Rightarrow> string list \<Rightarrow> string" where
  "rooted_names sep root ns = (if root then [sep] else []) @ joins sep ns"

lemma split_rest:
  assumes "names_ok sep ns"
  shows "(let (result, previousIndex, found) =
            split_loop sep (pre @ rooted_names sep root ns) (length pre) (length pre) result False
      in if previousIndex < length (pre @ rooted_names sep root ns) \<or> found
         then result @ [drop previousIndex (pre @ rooted_names sep root ns)] else result)
    = result @ (if root then [[sep]] else []) @ ns"
proof -
  define p where "p = pre @ (if root then [sep] else [])"
  define r where "r = result @ (if root then [[sep]] else [])"
  have path: "pre @ rooted_names sep root ns = p @ joins sep ns"
    by (simp add: p_def rooted_names_def)
  have start: "split_loop sep (p @ joins sep ns) (length pre) (length pre) result False =
      split_loop sep (p @ joins sep ns) (length pre) (length p) r False"
  proof (cases root)
    case True
    have "find_from sep (p @ joins sep ns) (length pre) = Some (length pre)"
      using find_from_Some [of sep "''''" pre "joins sep ns"] True by (simp add: p_def)
    then show ?thesis
      using True by (subst split_loop.simps) (simp add: p_def r_def)
  qed (simp add: p_def r_def)
  show ?thesis
  proof (cases "ns = []")
    case True
    then have "split_loop sep (p @ joins sep ns) (length pre) (length p) r False = (r, length p, False)"
      by (subst split_loop.simps) (simp add: find_from_None)
    with True show ?thesis
      unfolding path start by (simp add: r_def)
  next
    case False
    then have ok: "tail_ok sep ns" "hd ns \<noteq> ''''"
      using assms by (auto simp: names_ok_def plain_def)
    have "length pre < length p \<or> (length pre = length p \<and> hd ns \<noteq> '''')"
      using ok(2) by (auto simp: p_def)
    note loop = split_loop_names [OF ok(1) this, of r False]
    have len: "length (last ns) \<le> length (p @ joins sep ns)"
      using drop_last_name [OF ok(1), of p] by (metis diff_le_self length_drop diff_diff_cancel nat_le_linear)
    show ?thesis
    proof (cases "length ns > 1 \<or> last ns \<noteq> ''''")
      case True
      then have "length (p @ joins sep ns) - length (last ns) < length (p @ joins sep ns) \<or> 1 < length ns"
      proof -
        have "1 < length ns \<or> 0 < length (last ns)" using True by auto
        then show ?thesis using len by arith
      qed
      then show ?thesis
        unfolding path start loop using False drop_last_name [OF ok(1), of p]
        by (simp add: r_def)
    next
      case single: False
      then have "ns = [hd ns]" "last ns = ''''"
        using False by (cases ns; auto)+
      then show ?thesis using ok(2) by (metis last.simps)
    qed
  qed
qed

lemma join_loop_names:
  assumes "tail_ok sep ns" "path \<noteq> ''''"
  shows "join_loop sep False path ns =
    (if last path = sep then path @ joins sep ns else path @ sep # joins sep ns)"
  using assms
proof (induction ns arbitrary: path rule: joins.induct)
  case (3 sep n m ns)
  then have n: "n \<noteq> ''''" "last n \<noteq> sep" by (auto simp: plain_def)
  show ?case
    using "3.IH" [of "path @ n"] "3.IH" [of "path @ [sep] @ n"] "3.prems" n by (auto simp: Let_def)
qed (auto simp: Let_def)

lemma join_rest:
  assumes "names_ok sep ns"
  shows "join_loop sep True '''' ((if root then [[sep]] else []) @ ns) = rooted_names sep root ns"
proof (cases "ns = []")
  case True
  then show ?thesis by (simp add: rooted_names_def)
next
  case False
  then have ok: "tail_ok sep ns" "plain sep (hd ns)"
    using assms by (auto simp: names_ok_def)
  show ?thesis
  proof (cases root)
    case True
    then show ?thesis
      using join_loop_names [OF ok(1), of "[sep]"] by (simp add: rooted_names_def)
  next
    case root: False
    obtain n rest where ns: "ns = n # rest" using False by (cases ns) auto
    have n: "n \<noteq> ''''" "last n \<noteq> sep" using ok(2) ns by (auto simp: plain_def)
    show ?thesis
    proof (cases rest)
      case Nil
      then show ?thesis using root ns n by (simp add: rooted_names_def)
    next
      case (Cons m ms)
      then have "tail_ok sep rest" using ok(1) ns by simp
      then show ?thesis
        using root ns n Cons join_loop_names [of sep rest n] by (simp add: rooted_names_def)
    qed
  qed
qed

section \<open>Components\<close>

text \<open>The components of a path: a drive (on Windows), the root separator and names.\<close>

definition path_parts :: "PathFormat \<Rightarrow> string option \<Rightarrow> bool \<Rightarrow> string list \<Rightarrow> string list" where
  "path_parts format drive root ns =
     (case drive of None \<Rightarrow> [] | Some d \<Rightarrow> [d]) @ (if root then [[path_separator format]] else []) @ ns"

definition parts_ok :: "PathFormat \<Rightarrow> string option \<Rightarrow> bool \<Rightarrow> string list \<Rightarrow> bool" where
  "parts_ok format drive root ns \<longleftrightarrow>
     names_ok (path_separator format) ns \<and>
     (case drive of
        Some d \<Rightarrow> format = kWindows \<and> is_drive_component d
      | None \<Rightarrow> format = kWindows \<longrightarrow> \<not> root \<longrightarrow> ns = [] \<or> \<not> is_drive_component (take 2 (hd ns)))"

lemma not_drive_sep: "\<not> is_drive_component (c # cs) \<or> c \<noteq> path_separator kWindows"
  by (auto simp: is_drive_component_def isalpha_def path_separator_def)

lemma take_joins_drive:
  assumes "tail_ok sep ns" "sep \<noteq> CHR '':''" "is_drive_component (take 2 (joins sep ns))" "hd ns \<noteq> ''''"
  shows "is_drive_component (take 2 (hd ns))"
proof (cases "(sep, ns)" rule: joins.cases)
  case (2 sep' n)
  then show ?thesis using assms by simp
next
  case (3 sep' n m rest)
  then show ?thesis
    using assms by (cases n; cases "tl n") (auto simp: is_drive_component_def)
qed (use assms in simp)

lemma path_join_parts:
  assumes "parts_ok format drive root ns"
  shows "path_join (path_parts format drive root ns) format =
    (case drive of None \<Rightarrow> '''' | Some d \<Rightarrow> d) @ rooted_names (path_separator format) root ns"
proof (cases drive)
  case (Some d)
  then show ?thesis
    using assms join_rest [of "path_separator format" ns root]
    by (cases root) (auto simp: parts_ok_def path_parts_def path_join_def)
next
  case None
  have "\<not> (format = kWindows \<and> length (path_parts format drive root ns) \<ge> 1 \<and>
      is_drive_component (path_parts format drive root ns ! 0))"
  proof (cases root)
    case True
    then show ?thesis using None by (simp add: path_parts_def is_drive_component_def)
  next
    case False
    have "is_drive_component n \<Longrightarrow> is_drive_component (take 2 n)" for n
      by (simp add: is_drive_component_def)
    then show ?thesis
      using None False assms by (cases ns) (auto simp: path_parts_def parts_ok_def)
  qed
  then show ?thesis
    using None assms join_rest [of "path_separator format" ns root]
    by (cases root) (auto simp: path_join_def path_parts_def parts_ok_def Let_def)
qed

lemma path_split_parts:
  assumes "parts_ok format drive root ns"
  shows "path_split ((case drive of None \<Rightarrow> '''' | Some d \<Rightarrow> d) @ rooted_names (path_separator format) root ns) format =
    path_parts format drive root ns"
proof (cases drive)
  case (Some d)
  then have d: "length d = 2" "is_drive_component d" "format = kWindows"
    using assms by (auto simp: parts_ok_def is_drive_component_def)
  let ?path = "d @ rooted_names (path_separator format) root ns"
  have "path_split ?path format =
    (let (result, previousIndex, found) =
            split_loop (path_separator format) ?path (length d) (length d) [d] False
      in if previousIndex < length ?path \<or> found then result @ [drop previousIndex ?path] else result)"
    using d(1,2) unfolding d(3) by (simp add: path_split_def)
  also have "\<dots> = [d] @ (if root then [[path_separator format]] else []) @ ns"
    using assms by (intro split_rest) (simp add: parts_ok_def)
  finally show ?thesis
    using Some by (simp add: path_parts_def)
next
  case None
  let ?path = "rooted_names (path_separator format) root ns"
  have "\<not> (format = kWindows \<and> length ?path \<ge> 2 \<and> is_drive_component (take 2 ?path))"
  proof (cases root)
    case True
    then show ?thesis
      using not_drive_sep by (auto simp: rooted_names_def numeral_2_eq_2)
  next
    case False
    show ?thesis
    proof (cases "ns = []")
      case True
      then show ?thesis using False by (simp add: rooted_names_def)
    next
      case ns: False
      then have "tail_ok (path_separator format) ns" "hd ns \<noteq> ''''"
        using assms by (auto simp: parts_ok_def names_ok_def plain_def)
      then show ?thesis
        using take_joins_drive [of "path_separator format" ns] False ns assms None
        by (auto simp: rooted_names_def parts_ok_def path_separator_def split: PathFormat.splits)
    qed
  qed
  then have "path_split ?path format =
    (let (result, previousIndex, found) =
            split_loop (path_separator format) ([] @ ?path) (length ([] :: string)) (length ([] :: string)) [] False
      in if previousIndex < length ([] @ ?path) \<or> found then result @ [drop previousIndex ([] @ ?path)] else result)"
    unfolding path_split_def by (simp only: if_not_P if_False Let_def prod.case append_Nil list.size)
  also have "\<dots> = [] @ (if root then [[path_separator format]] else []) @ ns"
    using assms by (intro split_rest) (simp add: parts_ok_def)
  finally show ?thesis
    using None by (simp add: path_parts_def)
qed

text \<open>
  Splitting is the inverse of joining. For every list of components that is well formed
  -- a drive letter on Windows, a root separator, names without separators, and possibly an
  empty directory marker at the end -- splitting the joined path gives the same components.
\<close>

theorem path_split_join:
  assumes "parts_ok format drive root ns"
  shows "path_split (path_join (path_parts format drive root ns) format) format =
         path_parts format drive root ns"
  by (simp only: path_join_parts [OF assms] path_split_parts [OF assms])

theorem path_split_join_witness:
  "path_split (path_join [''C:'', [CHR 0x5C], ''System'', ''''] kWindows) kWindows =
   [''C:'', [CHR 0x5C], ''System'', '''']"
  using path_split_join [of kWindows "Some ''C:''" True "[''System'', '''']"]
  by (simp add: parts_ok_def path_parts_def names_ok_def plain_def path_separator_def
      is_drive_component_def isalpha_def)

section \<open>Resolving\<close>

definition proper :: "char \<Rightarrow> string \<Rightarrow> bool" where
  "proper sep n \<longleftrightarrow> plain sep n \<and> n \<noteq> ''..''"

lemma drop_markers_plain: "xs = [] \<or> hd xs \<noteq> '''' \<Longrightarrow> drop_markers xs = xs"
  by (cases xs) auto

lemma resolve_step_plain:
  assumes "\<forall>n\<in>set bs. proper sep n"
  shows "resolve_step n bs = (if n = ''..'' then (if bs = [] then [''..''] else butlast bs) else bs @ [n])"
proof -
  have "rev bs = [] \<or> hd (rev bs) \<noteq> ''''"
    using assms by (cases bs rule: rev_cases) (auto simp: proper_def plain_def)
  then have "rev (drop_markers (rev bs)) = bs" by (simp add: drop_markers_plain)
  moreover have "bs \<noteq> [] \<Longrightarrow> last bs \<noteq> ''..''" using assms by (auto simp: proper_def)
  ultimately show ?thesis by (simp add: resolve_step_def Let_def)
qed

lemma fold_names:
  "\<forall>n\<in>set bs. proper sep n \<Longrightarrow> \<forall>n\<in>set ns. proper sep n \<Longrightarrow> fold resolve_step ns bs = bs @ ns"
proof (induction ns arbitrary: bs)
  case (Cons n ns)
  then have "resolve_step n bs = bs @ [n]"
    using resolve_step_plain [of bs sep n] by (simp add: proper_def)
  then show ?case using Cons by simp
qed simp

lemma fold_parents:
  "\<forall>n\<in>set bs. proper sep n \<Longrightarrow> k \<le> length bs \<Longrightarrow>
   fold resolve_step (replicate k ''..'') bs = take (length bs - k) bs"
proof (induction k arbitrary: bs)
  case (Suc k)
  then have "resolve_step ''..'' bs = butlast bs"
    using resolve_step_plain [of bs sep "''..''"] by auto
  moreover have "\<forall>n\<in>set (butlast bs). proper sep n"
    using Suc.prems by (auto dest: in_set_butlastD)
  ultimately show ?case
    using Suc.IH [of "butlast bs"] Suc.prems by (simp add: butlast_conv_take)
qed simp

lemma tail_ok_plain: "ns \<noteq> [] \<Longrightarrow> \<forall>n\<in>set ns. plain sep n \<Longrightarrow> tail_ok sep ns"
  by (induction ns rule: joins.induct [of _ sep]) (auto simp: plain_def)

lemma proper_dots: "plain sep ''..'' \<longleftrightarrow> sep \<noteq> CHR ''.''"
  by (auto simp: plain_def)

lemma names_parts:
  assumes "\<forall>n\<in>set ns. plain (path_separator format) n" "\<forall>n\<in>set ns. \<not> is_drive_component (take 2 n)"
  shows "parts_ok format None root ns"
  using assms tail_ok_plain [of ns "path_separator format"]
  by (cases ns) (auto simp: parts_ok_def names_ok_def)

lemma rootless_begin_parts:
  assumes "parts_ok format drive root bs" "\<forall>n\<in>set bs. plain (path_separator format) n"
  shows "rootless_begin (path_parts format drive root bs) format = length (path_parts format drive root [])"
proof -
  have sep: "bs \<noteq> [] \<Longrightarrow> \<not> is_separator (hd bs) format"
    using assms(2) by (cases bs) (auto simp: is_separator_def plain_def length_Suc_conv)
  have drive: "is_drive_component n \<Longrightarrow> is_drive_component (take 2 n)" for n
    by (simp add: is_drive_component_def)
  have "\<not> is_drive_component [path_separator format]" "is_separator [path_separator format] format"
    by (simp_all add: is_drive_component_def is_separator_def)
  then show ?thesis
    using assms(1) sep drive
    by (cases drive; cases root; cases bs)
      (auto simp: rootless_begin_def path_parts_def parts_ok_def nth_Cons' Let_def)
qed

lemma plain_not_rooted:
  assumes "\<forall>n\<in>set ps. plain (path_separator format) n" "\<forall>n\<in>set ps. \<not> is_drive_component n"
  shows "\<not> is_rooted ps format" "\<not> components_absolute ps format" "drive_component ps format = ''''"
  using assms
  by (cases ps; cases format;
      auto simp: is_rooted_def components_absolute_def drive_component_def plain_def path_separator_def)+

text \<open>
  resolving a relative path. Going up \<open>k\<close> levels and down along names, from a base path
  of proper names that has at least \<open>k\<close> of them, keeps the drive and the root of the base,
  drops its last \<open>k\<close> names and appends the others; an empty result is the path \<open>.\<close>.
\<close>

theorem path_resolve_relative:
  assumes "sep = path_separator format" and "parts_ok format drive root bs"
    and "\<forall>n\<in>set bs. proper sep n" and "\<forall>n\<in>set ns. proper sep n"
    and "\<forall>n\<in>set ns. \<not> is_drive_component (take 2 n)" and "k \<le> length bs"
    and "path = path_join (replicate k ''..'' @ ns) format"
    and "base = path_join (path_parts format drive root bs) format"
    and "result = path_join (path_parts format drive root (take (length bs - k) bs @ ns)) format"
  shows "resolve_path path base format = (if result = '''' then ''.'' else result)"
proof -
  let ?ps = "replicate k ''..'' @ ns" and ?d = "path_parts format drive root []"
  have sep: "plain sep ''..''"
    by (cases format) (auto simp: assms(1) path_separator_def plain_def)
  have ps: "\<forall>n\<in>set ?ps. plain sep n" "\<forall>n\<in>set ?ps. \<not> is_drive_component (take 2 n)"
    using sep assms(4,5) by (auto simp: proper_def is_drive_component_def)
  then have ps': "\<forall>n\<in>set ?ps. \<not> is_drive_component n"
    by (auto simp: is_drive_component_def)
  have "parts_ok format None False ?ps"
    using names_parts [of ?ps format False] ps assms(1) by simp
  from path_join_parts [OF this] path_split_parts [OF this]
  have split_path: "path_split path format = ?ps"
    using assms(7) by (simp add: path_parts_def)
  have split_base: "path_split base format = path_parts format drive root bs"
    using path_join_parts [OF assms(2)] path_split_parts [OF assms(2)] assms(8) by simp
  have "\<forall>n\<in>set bs. plain (path_separator format) n"
    using assms(1,3) by (simp add: proper_def)
  note root_len = rootless_begin_parts [OF assms(2) this]
  have parts: "path_parts format drive root bs = ?d @ bs"
    "path_parts format drive root (take (length bs - k) bs @ ns) = ?d @ take (length bs - k) bs @ ns"
    by (simp_all add: path_parts_def)
  have "fold resolve_step ?ps bs = take (length bs - k) bs @ ns"
    using fold_parents [OF assms(3,6)] fold_names [of "take (length bs - k) bs" sep ns] assms(3,4)
    by (auto dest: in_set_takeD)
  then show ?thesis
    using plain_not_rooted [of ?ps format] ps(1) ps' assms(1,9) root_len
    by (simp add: resolve_path_def split_path split_base Let_def parts)
qed

theorem path_resolve_relative_witness:
  "resolve_path ''../baz'' ''/foo/bar'' kPOSIX = ''/foo/baz''"
proof -
  have "parts_ok kPOSIX None True [''foo'', ''bar'']"
    by (simp add: parts_ok_def names_ok_def plain_def path_separator_def)
  from path_resolve_relative [OF refl this _ _ _ _ refl refl refl, of "[''baz'']" 1]
  show ?thesis
    by (simp add: proper_def plain_def path_separator_def path_parts_def path_join_def is_drive_component_def)
qed

text \<open>
  A path that names the drive of the base path but has no root is not resolved on that
  drive: its drive becomes a directory in the middle of the result.
\<close>

theorem path_resolve_same_drive:
  assumes "is_drive_component d" and "d ! 0 \<in> {CHR ''A''..CHR ''Z''}"
    and "proper (CHR 0x5C) b" and "proper (CHR 0x5C) n"
  shows "resolve_path (d @ n) (d @ [CHR 0x5C] @ b) kWindows = d @ [CHR 0x5C] @ b @ [CHR 0x5C] @ d @ [CHR 0x5C] @ n"
proof -
  let ?sep = "CHR 0x5C"
  have sep: "path_separator kWindows = ?sep" by (simp add: path_separator_def)
  have ok: "parts_ok kWindows (Some d) False [n]" "parts_ok kWindows (Some d) True [b]"
    using assms(1,3,4) by (auto simp: parts_ok_def names_ok_def proper_def plain_def sep)
  have split: "path_split (d @ n) kWindows = [d, n]" "path_split (d @ [?sep] @ b) kWindows = [d, [?sep], b]"
    using path_split_parts [OF ok(1)] path_split_parts [OF ok(2)]
    by (simp_all add: path_parts_def rooted_names_def sep)
  have d: "length d = 2" "d \<noteq> ''..''" "d \<noteq> ''''" "?sep \<notin> set d"
    using assms(1)
  proof -
    obtain c where "d = [c, CHR '':'']" "isalpha c"
      using assms(1) by (auto simp: is_drive_component_def length_Suc_conv numeral_2_eq_2)
    then show "length d = 2" "d \<noteq> ''..''" "d \<noteq> ''''" "?sep \<notin> set d"
      by (auto simp: isalpha_def)
  qed
  have dn: "drive_component [d, x] kWindows = drive_component [d, y, z] kWindows" for x y z
    by (simp add: drive_component_def)
  have n: "n \<noteq> ''..''" "n \<noteq> ''''" "?sep \<notin> set n" and b: "b \<noteq> ''..''" "b \<noteq> ''''" "?sep \<notin> set b"
    using assms(3,4) by (auto simp: proper_def plain_def)
  have "fold resolve_step [d, n] [b] = [b, d, n]"
    using d n b by (simp add: resolve_step_def drop_markers_plain)
  moreover have "rootless_begin [d, [?sep], b] kWindows = 2"
    using assms(1) by (simp add: rootless_begin_def is_separator_def sep)
  moreover have "n \<noteq> [?sep]" "d \<noteq> [?sep]" using n d by auto
  moreover have "path_join [d, [?sep], b, d, n] kWindows = d @ [?sep] @ b @ [?sep] @ d @ [?sep] @ n"
  proof -
    have "last b \<noteq> ?sep" "last d \<noteq> ?sep" using b(2,3) d(3,4) by (metis last_in_set)+
    then show ?thesis using assms(1) b d by (simp add: path_join_def sep)
  qed
  ultimately show ?thesis
    using split dn [of n "[?sep]" b] by (simp add: resolve_path_def components_absolute_def is_rooted_def Let_def)
qed

theorem path_resolve_same_drive_witness:
  "resolve_path ''C:foo'' (''C:'' @ [CHR 0x5C] @ ''bar'') kWindows =
   ''C:'' @ [CHR 0x5C] @ ''bar'' @ [CHR 0x5C] @ ''C:'' @ [CHR 0x5C] @ ''foo''"
  using path_resolve_same_drive [of "''C:''" "''bar''" "''foo''"]
  by (simp add: is_drive_component_def isalpha_def proper_def plain_def)

end
