(* ===== verification/Ini.thy ===== *)
theory Ini
  imports Prelude "HOL-Library.AList"
begin

text \<open>
  The configuration files of \<open>lib/ini.cc\<close>: \<open>serialize\<close> and the parser \<open>deserialize\<close>, a
  state machine over the characters. An \<open>unordered_map\<close> is an association list; its order
  has no meaning, and lookups are \<open>map_of\<close>. \<open>None\<close> is the null pointer of a failed parse.
\<close>

definition isspace :: "char \<Rightarrow> bool" where
  "isspace c \<longleftrightarrow> c = CHR '' '' \<or> (CHR 0x09 \<le> c \<and> c \<le> CHR 0x0D)"

section \<open>Writing\<close>

definition ini_line :: "string \<times> string \<Rightarrow> string" where
  "ini_line e = fst e @ '' = '' @ snd e @ [CHR 0x0D, CHR 0x0A]"

definition ini_serialize :: "(string \<times> string) list \<Rightarrow> string" where
  "ini_serialize contents = concat (map ini_line (sort_key fst contents))"

section \<open>Parsing\<close>

datatype ParserState =
  kKeyStart | kKey | kKeyEnd | kValueStart | kValue | kValueWhitespace | kValueEnd

record ini_parser =
  ip_state :: ParserState
  ip_key :: string
  ip_value :: string
  ip_whitespace :: string
  ip_result :: "(string \<times> string) list"

text \<open>The lines at the end of an entry, which three states share.\<close>

definition ini_emit :: "ini_parser \<Rightarrow> ini_parser" where
  "ini_emit p = \<lparr>ip_state = kKeyStart, ip_key = '''', ip_value = '''', ip_whitespace = '''',
                 ip_result = AList.update (ip_key p) (ip_value p) (ip_result p)\<rparr>"

definition ini_step :: "char \<Rightarrow> ini_parser \<Rightarrow> ini_parser option" where
  "ini_step c p =
     (case ip_state p of
        kKeyStart \<Rightarrow>
          if isspace c then Some p
          else if isalpha c then Some (p\<lparr>ip_key := ip_key p @ [c], ip_state := kKey\<rparr>)
          else None
      | kKey \<Rightarrow>
          if c = CHR ''='' then Some (p\<lparr>ip_state := kValueStart\<rparr>)
          else if isspace c then Some (p\<lparr>ip_state := kKeyEnd\<rparr>)
          else if isalpha c then Some (p\<lparr>ip_key := ip_key p @ [c]\<rparr>)
          else None
      | kKeyEnd \<Rightarrow>
          if c = CHR ''='' then Some (p\<lparr>ip_state := kValueStart\<rparr>)
          else if \<not> isspace c then None else Some p
      | kValueStart \<Rightarrow>
          if \<not> isspace c then Some (p\<lparr>ip_value := ip_value p @ [c], ip_state := kValue\<rparr>) else Some p
      | kValue \<Rightarrow>
          if c = CHR 0x0D then Some (p\<lparr>ip_state := kValueEnd\<rparr>)
          else if c = CHR 0x0A then Some (ini_emit p)
          else if isspace c
          then Some (p\<lparr>ip_whitespace := ip_whitespace p @ [c], ip_state := kValueWhitespace\<rparr>)
          else Some (p\<lparr>ip_value := ip_value p @ [c]\<rparr>)
      | kValueWhitespace \<Rightarrow>
          if c = CHR 0x0D then Some (p\<lparr>ip_whitespace := '''', ip_state := kValueEnd\<rparr>)
          else if c = CHR 0x0A then Some (ini_emit p)
          else if isspace c then Some (p\<lparr>ip_whitespace := ip_whitespace p @ [c]\<rparr>)
          else Some (p\<lparr>ip_value := ip_value p @ ip_whitespace p @ [c], ip_whitespace := '''',
                       ip_state := kValue\<rparr>)
      | kValueEnd \<Rightarrow> if c = CHR 0x0A then Some (ini_emit p) else None)"

fun ini_parse :: "string \<Rightarrow> ini_parser \<Rightarrow> ini_parser option" where
  "ini_parse [] p = Some p"
| "ini_parse (c # cs) p = do { p \<leftarrow> ini_step c p; ini_parse cs p }"

definition ini_start :: "(string \<times> string) list \<Rightarrow> ini_parser" where
  "ini_start result = \<lparr>ip_state = kKeyStart, ip_key = '''', ip_value = '''', ip_whitespace = '''',
                       ip_result = result\<rparr>"

definition ini_deserialize :: "string \<Rightarrow> (string \<times> string) list option" where
  "ini_deserialize contents = do {
     p \<leftarrow> ini_parse contents (ini_start []);
     let p = (if ip_state p = kValueStart \<or> ip_state p = kValue \<or> ip_state p = kValueWhitespace
              then p\<lparr>ip_result := AList.update (ip_key p) (ip_value p) (ip_result p),
                     ip_state := kKeyStart\<rparr>
              else p);
     if ip_state p \<noteq> kKeyStart then None else Some (ip_result p) }"

section \<open>Lines\<close>

lemma ini_parse_append: "ini_parse (xs @ ys) p = do { p \<leftarrow> ini_parse xs p; ini_parse ys p }"
proof (induction xs arbitrary: p)
  case (Cons c xs)
  then show ?case by (cases "ini_step c p") simp_all
qed simp

definition key_ok :: "string \<Rightarrow> bool" where
  "key_ok k \<longleftrightarrow> k \<noteq> '''' \<and> (\<forall>c\<in>set k. isalpha c)"

definition value_ok :: "string \<Rightarrow> bool" where
  "value_ok v \<longleftrightarrow> v \<noteq> '''' \<and> \<not> isspace (hd v) \<and> \<not> isspace (last v) \<and>
     CHR 0x0D \<notin> set v \<and> CHR 0x0A \<notin> set v"

lemma isalpha_not: "isalpha c \<Longrightarrow> \<not> isspace c \<and> c \<noteq> CHR ''=''"
  by (auto simp: isalpha_def isspace_def less_eq_char_def)

lemma isspace_crlf [simp]: "isspace (CHR 0x0D)" "isspace (CHR 0x0A)" "isspace CHR '' ''"
  by (simp_all add: isspace_def less_eq_char_def)

lemma parse_key_rest:
  "ip_state p = kKey \<Longrightarrow> \<forall>c\<in>set k. isalpha c \<Longrightarrow>
   ini_parse k p = Some (p\<lparr>ip_key := ip_key p @ k\<rparr>)"
proof (induction k arbitrary: p)
  case (Cons c k)
  then have "isalpha c" by simp
  note c = this isalpha_not [OF this]
  have "ini_step c p = Some (p\<lparr>ip_key := ip_key p @ [c]\<rparr>)"
    using c Cons.prems(1) by (simp add: ini_step_def)
  then show ?case using Cons by simp
qed simp

lemma parse_key:
  assumes "key_ok k"
  shows "ini_parse k (ini_start res) = Some ((ini_start res)\<lparr>ip_key := k, ip_state := kKey\<rparr>)"
proof (cases k)
  case (Cons c cs)
  then have "isalpha c" "\<forall>x\<in>set cs. isalpha x" using assms by (auto simp: key_ok_def)
  note c = this(1) isalpha_not [OF this(1)] this(2)
  have "ini_step c (ini_start res) = Some ((ini_start res)\<lparr>ip_key := [c], ip_state := kKey\<rparr>)"
    using c by (simp add: ini_step_def ini_start_def)
  then show ?thesis
    using Cons c(3) parse_key_rest [of "(ini_start res)\<lparr>ip_key := [c], ip_state := kKey\<rparr>" cs]
    by (simp add: ini_start_def)
qed (use assms in \<open>simp add: key_ok_def\<close>)

text \<open>Inside a value: \<open>w\<close> is the whitespace read since its last character.\<close>

lemma parse_value_rest:
  assumes "ip_state p = (if ip_whitespace p = '''' then kValue else kValueWhitespace)"
    "CHR 0x0D \<notin> set v" "CHR 0x0A \<notin> set v" "v = '''' \<longrightarrow> ip_whitespace p = ''''"
    "v \<noteq> '''' \<longrightarrow> \<not> isspace (last v)"
  shows "ini_parse v p = Some (p\<lparr>ip_value := ip_value p @ ip_whitespace p @ v, ip_whitespace := '''', ip_state := kValue\<rparr>)"
  using assms
proof (induction v arbitrary: p)
  case Nil
  then show ?case by simp
next
  case (Cons c v)
  show ?case
  proof (cases "isspace c")
    case True
    let ?q = "p\<lparr>ip_whitespace := ip_whitespace p @ [c], ip_state := kValueWhitespace\<rparr>"
    have "ini_step c p = Some ?q"
      using True Cons.prems by (cases "ip_whitespace p = ''''") (auto simp: ini_step_def)
    moreover have "v \<noteq> ''''" using True Cons.prems(5) by auto
    ultimately show ?thesis
      using Cons.IH [of ?q] Cons.prems by simp
  next
    case False
    let ?q = "p\<lparr>ip_value := ip_value p @ ip_whitespace p @ [c], ip_whitespace := '''', ip_state := kValue\<rparr>"
    have "ini_step c p = Some ?q"
      using False Cons.prems by (cases "ip_whitespace p = ''''") (auto simp: ini_step_def)
    then show ?thesis
      using Cons.IH [of ?q] Cons.prems by (simp split: if_splits)
  qed
qed

lemma parse_line:
  assumes "key_ok k" "value_ok v"
  shows "ini_parse (ini_line (k, v)) (ini_start res) = Some (ini_start (AList.update k v res))"
proof -
  obtain c cs where v: "v = c # cs" using assms(2) by (cases v) (auto simp: value_ok_def)
  let ?p = "(ini_start res)\<lparr>ip_key := k, ip_state := kValueStart\<rparr>"
  let ?q = "?p\<lparr>ip_value := [c], ip_state := kValue\<rparr>"
  have sep: "ini_parse '' = '' ((ini_start res)\<lparr>ip_key := k, ip_state := kKey\<rparr>) = Some ?p"
    by (simp add: ini_step_def ini_start_def)
  have "ini_step c ?p = Some ?q"
    using assms(2) by (simp add: ini_step_def v value_ok_def ini_start_def)
  moreover have "ini_parse cs ?q = Some (?q\<lparr>ip_value := v\<rparr>)"
    using parse_value_rest [of ?q cs] assms(2)
    by (auto simp: v value_ok_def ini_start_def split: if_splits)
  ultimately have val: "ini_parse v ?p = Some (?q\<lparr>ip_value := v\<rparr>)"
    by (simp add: v)
  have "ini_parse [CHR 0x0D, CHR 0x0A] (?q\<lparr>ip_value := v\<rparr>) = Some (ini_start (AList.update k v res))"
    by (simp add: ini_step_def ini_emit_def ini_start_def)
  then show ?thesis
    by (simp only: ini_line_def fst_conv snd_conv ini_parse_append parse_key [OF assms(1)] sep val
        Option.bind.bind_lunit)
qed

lemma parse_lines:
  "\<forall>(k, v)\<in>set es. key_ok k \<and> value_ok v \<Longrightarrow>
   ini_parse (concat (map ini_line es)) (ini_start res) =
     Some (ini_start (fold (\<lambda>(k, v). AList.update k v) es res))"
proof (induction es arbitrary: res)
  case (Cons e es)
  obtain k v where e: "e = (k, v)" by (cases e)
  then have "ini_parse (ini_line e) (ini_start res) = Some (ini_start (AList.update k v res))"
    using Cons.prems parse_line by auto
  then show ?case
    using Cons by (simp add: ini_parse_append e)
qed simp

lemma map_of_updates:
  "distinct (map fst es) \<Longrightarrow>
   map_of (fold (\<lambda>(k, v). AList.update k v) es res) = map_of res ++ map_of es"
proof (induction es arbitrary: res)
  case (Cons e es)
  obtain k v where e: "e = (k, v)" by (cases e)
  have "map_of (fold (\<lambda>(k, v). AList.update k v) es (AList.update k v res)) = (map_of res)(k \<mapsto> v) ++ map_of es"
    using Cons by (simp add: e update_conv')
  moreover have "k \<notin> dom (map_of es)"
    using Cons.prems by (auto simp: e dom_map_of_conv_image_fst)
  ultimately show ?case
    by (auto simp: e fun_eq_iff map_add_def split: option.splits)
qed simp

lemma ini_parse_entries:
  assumes "distinct (map fst contents)" and "\<forall>(k, v)\<in>set contents. key_ok k \<and> value_ok v"
  shows "ini_parse (ini_serialize contents) (ini_start []) =
    Some (ini_start (fold (\<lambda>(k, v). AList.update k v) (sort_key fst contents) []))"
    and "map_of (fold (\<lambda>(k, v). AList.update k v) (sort_key fst contents) []) = map_of contents"
proof -
  let ?es = "sort_key fst contents"
  show "ini_parse (ini_serialize contents) (ini_start []) =
      Some (ini_start (fold (\<lambda>(k, v). AList.update k v) ?es []))"
    using parse_lines [of ?es "[]"] assms(2) by (simp add: ini_serialize_def)
  have d: "distinct (map fst ?es)"
    using assms(1) by (metis distinct_map distinct_sort inj_on_def set_sort)
  have "map_of ?es = map_of contents"
    using d assms(1) by (intro map_of_inject_set [THEN iffD2]) simp_all
  then show "map_of (fold (\<lambda>(k, v). AList.update k v) ?es []) = map_of contents"
    using map_of_updates [OF d, of "[]"] by simp
qed

text \<open>
  a configuration survives writing and reading: for distinct keys of letters and values
  that are not empty, have no line break and neither begin nor end with white space, the
  parser accepts what \<open>serialize\<close> writes and the result has the same entry for every key.
\<close>

theorem ini_roundtrip:
  assumes "distinct (map fst contents)" and "\<forall>(k, v)\<in>set contents. key_ok k \<and> value_ok v"
  shows "\<exists>result. ini_deserialize (ini_serialize contents) = Some result \<and> map_of result = map_of contents"
  using ini_parse_entries [OF assms] by (simp add: ini_deserialize_def ini_start_def Let_def)

theorem ini_roundtrip_witness:
  "\<exists>result. ini_deserialize (ini_serialize [(''name'', ''My Psion''), (''id'', ''42'')]) = Some result \<and>
     map_of result ''name'' = Some ''My Psion''"
  using ini_roundtrip [of "[(''name'', ''My Psion''), (''id'', ''42'')]"]
  by (auto simp: key_ok_def value_ok_def isalpha_def isspace_def less_eq_char_def)

text \<open>
  An empty value is not read back. The white space that follows the equals sign may
  contain line breaks, so the parser takes the next line for the value: what \<open>serialize\<close>
  writes for an empty value under \<open>k\<close> before another entry is one entry, the line itself.
\<close>

theorem ini_empty_value:
  assumes "key_ok k" and "key_ok k'" and "value_ok v" and "k < k'"
  shows "ini_deserialize (ini_serialize [(k', v), (k, '''')]) = Some [(k, k' @ '' = '' @ v)]"
proof -
  have line: "value_ok (k' @ '' = '' @ v)"
  proof -
    have "\<forall>c\<in>set k'. \<not> isspace c" "k' \<noteq> ''''"
      using assms(2) isalpha_not by (auto simp: key_ok_def)
    moreover from this have "CHR 0x0D \<notin> set k'" "CHR 0x0A \<notin> set k'" "\<not> isspace (hd k')"
      by (auto dest: bspec)
    ultimately show ?thesis using assms(3) by (simp add: value_ok_def)
  qed
  have "sort_key fst [(k', v), (k, '''')] = [(k, ''''), (k', v)]"
    using assms(4) by (auto simp: sort_key_def dest: leD)
  then have written: "ini_serialize [(k', v), (k, '''')] =
      k @ '' = '' @ [CHR 0x0D, CHR 0x0A] @ (k' @ '' = '' @ v) @ [CHR 0x0D, CHR 0x0A]"
    by (simp add: ini_serialize_def ini_line_def)
  let ?p = "(ini_start [])\<lparr>ip_key := k, ip_state := kValueStart\<rparr>"
  have sep: "ini_parse ('' = '' @ w) ((ini_start [])\<lparr>ip_key := k, ip_state := kKey\<rparr>) = ini_parse w ?p" for w
    by (simp add: ini_step_def ini_start_def)
  have "ini_parse (ini_serialize [(k', v), (k, '''')]) (ini_start []) =
      ini_parse ([CHR 0x0D, CHR 0x0A] @ (k' @ '' = '' @ v) @ [CHR 0x0D, CHR 0x0A]) ?p"
    by (simp only: written ini_parse_append [of k] parse_key [OF assms(1)] sep Option.bind.bind_lunit)
  also have "\<dots> = ini_parse ((k' @ '' = '' @ v) @ [CHR 0x0D, CHR 0x0A]) ?p"
    by (simp add: ini_step_def)
  also have "\<dots> = ini_parse (ini_line (k, k' @ '' = '' @ v)) (ini_start [])"
    by (simp only: ini_line_def fst_conv snd_conv ini_parse_append [of k] parse_key [OF assms(1)] sep
        Option.bind.bind_lunit)
  also have "\<dots> = Some (ini_start [(k, k' @ '' = '' @ v)])"
    using parse_line [OF assms(1) line] by simp
  finally show ?thesis
    by (simp add: ini_deserialize_def ini_start_def)
qed

theorem ini_empty_value_witness:
  "ini_deserialize (ini_serialize [(''b'', ''c''), (''a'', '''')]) = Some [(''a'', ''b = c'')]"
  using ini_empty_value [of "''a''" "''b''" "''c''"]
  by (simp add: key_ok_def value_ok_def isalpha_def isspace_def less_eq_char_def less_char_def)

end
