(* ===== verification/Rfsv.thy ===== *)
theory Rfsv
  imports Errors PsiTime PathUtils
begin

text \<open>
  What the remote file access classes share: \<open>lib/rfsv.cc\<close>, \<open>lib/plpdirent.cc\<close> and
  \<open>lib/drive.cc\<close>. The connection is a parameter: a record of functions on a state \<open>'w\<close> for
  \<open>TCPSocket::sendBufferStore\<close>, \<open>getBufferStore\<close> (\<open>None\<close> for a result other than 1) and
  \<open>reconnect\<close>, together with what the C++ code can see of its surroundings: the memory behind
  a buffer's contents, the value of uninitialised variables, the clock. Names are C strings
  of the C locale, buffers are their contents.

  The virtual methods that the base class calls are arguments of its definitions; the locale
  \<open>drive_source\<close> states what \<open>drives\<close> needs of them.
\<close>

section \<open>The connection\<close>

record 'w socket =
  so_send :: "bytes \<Rightarrow> 'w \<Rightarrow> bool \<times> 'w"
  so_recv :: "'w \<Rightarrow> bytes option \<times> 'w"
  so_reconnect :: "'w \<Rightarrow> 'w"
  so_tail :: bytes
  so_junk :: "32 word"
  so_time :: timeenv

record 'w rfsv =
  r_status :: int
  r_operationId :: int
  r_world :: 'w

text \<open>Reads of a buffer: past the contents the memory behind them is read.\<close>

definition peek :: "'w socket \<Rightarrow> bytes \<Rightarrow> nat \<Rightarrow> byte" where
  "peek so b i = (if i < length (b @ so_tail so) then (b @ so_tail so) ! i else 0)"

definition peekWord :: "'w socket \<Rightarrow> bytes \<Rightarrow> nat \<Rightarrow> 16 word" where
  "peekWord so b i = join16 (peek so b i) (peek so b (i + 1))"

definition peekDWord :: "'w socket \<Rightarrow> bytes \<Rightarrow> nat \<Rightarrow> 32 word" where
  "peekDWord so b i =
     join32 (peek so b i) (peek so b (i + 1)) (peek so b (i + 2)) (peek so b (i + 3))"

definition peekString :: "'w socket \<Rightarrow> bytes \<Rightarrow> nat \<Rightarrow> string" where
  "peekString so b i = chars (takeWhile (\<lambda>c. c \<noteq> 0) (drop i (b @ so_tail so)))"

definition dword :: "32 word \<Rightarrow> bytes" where
  "dword w = le32 (uint w)"

definition rfsv_send :: "'w socket \<Rightarrow> bytes \<Rightarrow> 'w rfsv \<Rightarrow> bool \<times> 'w rfsv" where
  "rfsv_send so b s = (let (ok, w) = so_send so b (r_world s) in (ok, s\<lparr>r_world := w\<rparr>))"

definition rfsv_recv :: "'w socket \<Rightarrow> 'w rfsv \<Rightarrow> bytes option \<times> 'w rfsv" where
  "rfsv_recv so s = (let (r, w) = so_recv so (r_world s) in (r, s\<lparr>r_world := w\<rparr>))"

section \<open>The base class\<close>

definition rfsv_reset :: "'w socket \<Rightarrow> 'w rfsv \<Rightarrow> 'w rfsv" where
  "rfsv_reset so s =
     (let (ok, s) = rfsv_send so (ascii ''SYS$RFSV'' @ [0]) (s\<lparr>r_status := E_PSI_FILE_DISC\<rparr>)
      in if \<not> ok then s
      else case rfsv_recv so s of
        (None, s) \<Rightarrow> s
      | (Some a, s) \<Rightarrow> if peekString so a 0 = ''Ok'' then s\<lparr>r_status := E_PSI_GEN_NONE\<rparr> else s)"

definition rfsv_reconnect :: "'w socket \<Rightarrow> 'w rfsv \<Rightarrow> 'w rfsv" where
  "rfsv_reconnect so s =
     rfsv_reset so (s\<lparr>r_world := so_reconnect so (r_world s), r_operationId := 0\<rparr>)"

definition rfsv_construct :: "'w socket \<Rightarrow> 'w \<Rightarrow> 'w rfsv" where
  "rfsv_construct so w =
     rfsv_reset so \<lparr>r_status = E_PSI_FILE_DISC, r_operationId = 0, r_world = w\<rparr>"

definition convertSlash :: "string \<Rightarrow> string" where
  "convertSlash name =
     map (\<lambda>c. if c = CHR ''/'' then CHR 0x5C else c) (takeWhile (\<lambda>c. c \<noteq> CHR 0x00) name)"

definition flag :: "32 word \<Rightarrow> 32 word \<Rightarrow> char \<Rightarrow> char \<Rightarrow> char" where
  "flag attr b yes no = (if attr AND b \<noteq> 0 then yes else no)"

definition attr2String :: "32 word \<Rightarrow> string" where
  "attr2String attr =
     [flag attr PSI_A_DIR CHR ''d'' CHR ''-'',
      flag attr PSI_A_READ CHR ''r'' CHR ''-'',
      flag attr PSI_A_RDONLY CHR ''-'' CHR ''w'',
      flag attr PSI_A_HIDDEN CHR ''h'' CHR ''-'',
      flag attr PSI_A_SYSTEM CHR ''s'' CHR ''-'',
      flag attr PSI_A_ARCHIVE CHR ''a'' CHR ''-'',
      flag attr PSI_A_VOLUME CHR ''v'' CHR ''-'',
      flag attr PSI_A_EXEC CHR ''x'' (flag attr PSI_A_NORMAL CHR ''n'' CHR ''-''),
      flag attr PSI_A_STREAM CHR ''b'' (flag attr PSI_A_TEMP CHR ''t'' CHR ''-''),
      flag attr PSI_A_TEXT CHR ''t'' (flag attr PSI_A_COMPRESSED CHR ''c'' CHR ''-'')]"

definition rfsv_getSpeed :: "'w socket \<Rightarrow> 'w rfsv \<Rightarrow> int \<times> 'w rfsv" where
  "rfsv_getSpeed so s =
     (case rfsv_send so (ascii ''NCP$GSPD'' @ [0]) s of
        (False, s) \<Rightarrow> (-1, s)
      | (True, s) \<Rightarrow>
          case rfsv_recv so s of
            (None, s) \<Rightarrow> (-1, s)
          | (Some a, s) \<Rightarrow>
              (if length a \<noteq> 5 then -1
               else if uint (peek so a 0) \<noteq> E_PSI_GEN_NONE then -1
               else sint (peekDWord so a 1), s))"

section \<open>Directory entries\<close>

record plpdirent =
  de_size :: "32 word"
  de_attr :: "32 word"
  de_UID :: "32 word \<times> 32 word \<times> 32 word"
  de_time :: psitime
  de_attrstr :: string
  de_dirname :: string
  de_name :: string

definition isDirectory :: "plpdirent \<Rightarrow> bool" where
  "isDirectory e \<longleftrightarrow> de_attr e AND PSI_A_DIR > 0"

definition getPath :: "plpdirent \<Rightarrow> string" where
  "getPath e =
     path_join (path_split (de_dirname e) kWindows @ [de_name e] @
       (if isDirectory e then [''''] else [])) kWindows"

text \<open>
  The listing with sub-directories, by a virtual method \<open>list_dir\<close> for one directory. The
  depth bounds the recursion (\<open>None\<close> when it is exceeded); the second function is the loop
  over the entries. After an error the caller's list is left as it is; the list of the result
  is then empty.
\<close>

function rfsv_dir ::
    "(string \<Rightarrow> 's \<Rightarrow> (int \<times> plpdirent list \<times> 's) option) \<Rightarrow> bool \<Rightarrow> nat \<Rightarrow>
     string \<Rightarrow> 's \<Rightarrow> (int \<times> plpdirent list \<times> 's) option"
  and rfsv_dir_entries ::
    "(string \<Rightarrow> 's \<Rightarrow> (int \<times> plpdirent list \<times> 's) option) \<Rightarrow> bool \<Rightarrow> nat \<Rightarrow>
     plpdirent list \<Rightarrow> plpdirent list \<Rightarrow> 's \<Rightarrow> (int \<times> plpdirent list \<times> 's) option"
where
  "rfsv_dir list_dir recursive depth path s =
     (case list_dir path s of
        None \<Rightarrow> None
      | Some (result, entries, s) \<Rightarrow>
          if result \<noteq> E_PSI_GEN_NONE then Some (result, [], s)
          else rfsv_dir_entries list_dir recursive depth entries [] s)"
| "rfsv_dir_entries list_dir recursive depth [] files s = Some (E_PSI_GEN_NONE, files, s)"
| "rfsv_dir_entries list_dir recursive depth (entry # entries) files s =
     (if recursive \<and> isDirectory entry then
        (case depth of
           0 \<Rightarrow> None
         | Suc depth' \<Rightarrow>
             case rfsv_dir list_dir recursive depth' (getPath entry) s of
               None \<Rightarrow> None
             | Some (result, inner, s) \<Rightarrow>
                 if result \<noteq> E_PSI_GEN_NONE then Some (result, [], s)
                 else rfsv_dir_entries list_dir recursive depth entries (files @ [entry] @ inner) s)
      else rfsv_dir_entries list_dir recursive depth entries (files @ [entry]) s)"
  by pat_completeness auto

termination
  by (relation "measures
       [\<lambda>x. case x of Inl (_, _, depth, _, _) \<Rightarrow> depth | Inr (_, _, depth, _, _, _) \<Rightarrow> depth,
        \<lambda>x. case x of Inl _ \<Rightarrow> 1 | Inr _ \<Rightarrow> 0,
        \<lambda>x. case x of Inl _ \<Rightarrow> 0 | Inr (_, _, _, entries, _, _) \<Rightarrow> length entries]") auto

section \<open>Drives\<close>

record drive =
  d_mediaType :: "32 word"
  d_driveAttributes :: "32 word"
  d_mediaAttributes :: "32 word"
  d_uid :: "32 word"
  d_size :: "64 word"
  d_space :: "64 word"
  d_driveLetter :: char
  d_name :: string

definition setSize :: "32 word \<Rightarrow> 32 word \<Rightarrow> drive \<Rightarrow> drive" where
  "setSize sizeLo sizeHi d = d\<lparr>d_size := push_bit 32 (ucast sizeHi) + ucast sizeLo\<rparr>"

definition setSpace :: "32 word \<Rightarrow> 32 word \<Rightarrow> drive \<Rightarrow> drive" where
  "setSpace spaceLo spaceHi d = d\<lparr>d_space := push_bit 32 (ucast spaceHi) + ucast spaceLo\<rparr>"

definition setName :: "char \<Rightarrow> string \<Rightarrow> drive \<Rightarrow> drive" where
  "setName letter volname d = d\<lparr>d_driveLetter := letter, d_name := volname\<rparr>"

definition drive_letters :: "32 word \<Rightarrow> char list" where
  "drive_letters driveBits =
     map (\<lambda>i. char_of (65 + i)) (filter (\<lambda>i. driveBits AND push_bit i 1 \<noteq> 0) [0..<26])"

text \<open>The loop over the letters; \<open>junk\<close> is what an uninitialised \<open>Drive\<close> holds.
  The result's list is empty after an error, as for \<open>rfsv_dir\<close>.\<close>

fun drives_loop ::
  "(char \<Rightarrow> drive \<Rightarrow> 's \<Rightarrow> int \<times> drive \<times> 's) \<Rightarrow> drive \<Rightarrow> char list \<Rightarrow> drive list \<Rightarrow> 's \<Rightarrow>
   int \<times> drive list \<times> 's" where
  "drives_loop devinfo junk [] drives s = (E_PSI_GEN_NONE, drives, s)"
| "drives_loop devinfo junk (letter # letters) drives s =
     (let (result, d, s) = devinfo letter junk s
      in if result = E_PSI_FILE_NOTREADY then drives_loop devinfo junk letters drives s
      else if result \<noteq> E_PSI_GEN_NONE then (result, [], s)
      else drives_loop devinfo junk letters (drives @ [d]) s)"

text \<open>\<open>devlist\<close> may never return on a SIBO device, \<open>None\<close>.\<close>

definition rfsv_drives ::
  "(32 word \<Rightarrow> 's \<Rightarrow> (int \<times> 32 word \<times> 's) option) \<Rightarrow> (char \<Rightarrow> drive \<Rightarrow> 's \<Rightarrow> int \<times> drive \<times> 's) \<Rightarrow> drive \<Rightarrow> 's \<Rightarrow>
   (int \<times> drive list \<times> 's) option" where
  "rfsv_drives devlist devinfo junk s = do {
     (result, driveBits, s) \<leftarrow> devlist 0 s;
     Some (if result \<noteq> E_PSI_GEN_NONE then (result, [], s)
           else drives_loop devinfo junk (drive_letters driveBits) [] s) }"

section \<open>Transfers\<close>

text \<open>
  The loops with which both protocols read, write and copy files. They take the protocol's
  request for one block, as a function on the object's state, and its largest block.
\<close>

definition RFSV_SENDLEN :: nat where "RFSV_SENDLEN = 2000"

definition chunk :: "32 word \<Rightarrow> 32 word \<Rightarrow> 32 word \<Rightarrow> 32 word" where
  "chunk maxlen len count = (if len - count > maxlen then maxlen else len - count)"

text \<open>
  \<open>fread\<close>: the error code, the bytes stored from \<open>buf\<close> on, \<open>count\<close>. The code stores whatever
  the reply holds, also beyond the caller's \<open>len\<close> bytes.
\<close>

partial_function (option) fread_loop ::
  "32 word \<Rightarrow> (32 word \<Rightarrow> 's \<Rightarrow> int \<times> bytes \<times> 's) \<Rightarrow> 32 word \<Rightarrow> bytes \<Rightarrow> 32 word \<Rightarrow> 's \<Rightarrow>
   (int \<times> bytes \<times> 32 word \<times> 's) option" where
  "fread_loop maxlen ask len buf count s =
     (let (res, a, s) = ask (chunk maxlen len count) s
      in if res \<noteq> E_PSI_GEN_NONE then Some (res, buf, count, s)
      else let buf = buf @ a; count = count + of_nat (length a)
      in if count < len \<and> length a > 0 then fread_loop maxlen ask len buf count s
      else Some (res, buf, count, s))"

function fwrite_loop ::
  "32 word \<Rightarrow> (bytes \<Rightarrow> 's \<Rightarrow> int \<times> bytes \<times> 's) \<Rightarrow> bytes \<Rightarrow> 32 word \<Rightarrow> 32 word \<Rightarrow> int \<Rightarrow> 's \<Rightarrow>
   int \<times> 32 word \<times> 's" where
  "fwrite_loop maxlen put buf len count res s =
     (let l = chunk maxlen len count
      in if l = 0 then (res, count, s)
      else let (res, a, s) = put (take (unat l) (drop (unat count) buf)) s
      in if res \<noteq> E_PSI_GEN_NONE then (res, count, s)
      else let count = count + l
      in if count < len then fwrite_loop maxlen put buf len count res s else (res, count, s))"
  by pat_completeness auto

termination
proof (relation "measure (\<lambda>(maxlen, put, buf, len, count, res, s). unat (len - count))", goal_cases)
  case (2 maxlen put buf len count res s l x res' y a s' count')
  then have "l \<le> len - count" "l \<noteq> 0"
    by (auto simp: chunk_def split: if_splits)
  then have "unat (len - count - l) = unat (len - count) - unat l" "unat l > 0" "unat l \<le> unat (len - count)"
    by (simp_all add: unat_sub word_le_nat_alt unat_gt_0)
  with 2 show ?case by (simp add: diff_diff_add)
qed simp

declare fwrite_loop.simps [simp del]

text \<open>
  A progress callback is \<open>None\<close> or a function of the byte count; \<open>False\<close> cancels. The loop of
  the \<open>copyFromPsion\<close> methods: \<open>out\<close> is what has been written to the local file.
\<close>

definition cancelled :: "(32 word \<Rightarrow> bool) option \<Rightarrow> 32 word \<Rightarrow> bool" where
  "cancelled cb tot = (case cb of None \<Rightarrow> False | Some f \<Rightarrow> \<not> f tot)"

partial_function (option) copyFrom_loop ::
  "('s \<Rightarrow> (int \<times> bytes \<times> 32 word \<times> 's) option) \<Rightarrow> (32 word \<Rightarrow> bool) option \<Rightarrow> bytes \<Rightarrow> 32 word \<Rightarrow> 's \<Rightarrow>
   (int \<times> bytes \<times> 's) option" where
  "copyFrom_loop read cb out tot s =
     Option.bind (read s) (\<lambda>(res, buff, len, s).
       if res \<noteq> E_PSI_GEN_NONE then Some (res, out, s)
       else let out = out @ take (unat len) buff; tot = tot + len;
                res = (if cancelled cb tot then E_PSI_FILE_CANCEL else res)
       in if len > 0 \<and> res = E_PSI_GEN_NONE then copyFrom_loop read cb out tot s
       else Some (res, out, s))"

text \<open>The loop of the \<open>copyToPsion\<close> methods over the blocks of the local file.\<close>

function copyTo_loop ::
  "(bytes \<Rightarrow> 's \<Rightarrow> int \<times> 32 word \<times> 's) \<Rightarrow> (32 word \<Rightarrow> bool) option \<Rightarrow> bytes \<Rightarrow> 32 word \<Rightarrow> 's \<Rightarrow>
   int \<times> 's" where
  "copyTo_loop write cb rest tot s =
     (let buff = take RFSV_SENDLEN rest; (res, len, s) = write buff s
      in if res \<noteq> E_PSI_GEN_NONE then (res, s)
      else let tot = tot + len;
               res = (if cancelled cb tot then E_PSI_FILE_CANCEL else res)
      in if length buff = RFSV_SENDLEN \<and> res = E_PSI_GEN_NONE
         then copyTo_loop write cb (drop RFSV_SENDLEN rest) tot s
         else (res, s))"
  by pat_completeness auto

termination
  by (relation "measure (\<lambda>(write, cb, rest, tot, s). length rest)") (auto simp: RFSV_SENDLEN_def)

declare copyTo_loop.simps [simp del]

end
