(* ===== verification/Rfsv32.thy ===== *)
theory Rfsv32
  imports Rfsv
begin

text \<open>
  Remote file access for EPOC devices, \<open>lib/rfsv32.cc\<close>: requests and replies, the errors and
  attributes of the wire, and every operation of the class. An operation takes the connection
  \<open>so\<close> and the object's state and returns the error code, its results and the new state; a
  reference parameter that the code may leave as it is takes its old value. Loops that only
  the device ends are partial functions, \<open>None\<close> when they never return; lengths in replies
  are taken as natural numbers, as no packet reaches the sign bit.
\<close>

section \<open>Constants of the protocol\<close>

definition EPOC_ATTR_RONLY :: "32 word" where "EPOC_ATTR_RONLY = 0x0001"
definition EPOC_ATTR_HIDDEN :: "32 word" where "EPOC_ATTR_HIDDEN = 0x0002"
definition EPOC_ATTR_SYSTEM :: "32 word" where "EPOC_ATTR_SYSTEM = 0x0004"
definition EPOC_ATTR_DIRECTORY :: "32 word" where "EPOC_ATTR_DIRECTORY = 0x0010"
definition EPOC_ATTR_ARCHIVE :: "32 word" where "EPOC_ATTR_ARCHIVE = 0x0020"
definition EPOC_ATTR_VOLUME :: "32 word" where "EPOC_ATTR_VOLUME = 0x0040"
definition EPOC_ATTR_NORMAL :: "32 word" where "EPOC_ATTR_NORMAL = 0x0080"
definition EPOC_ATTR_TEMPORARY :: "32 word" where "EPOC_ATTR_TEMPORARY = 0x0100"
definition EPOC_ATTR_COMPRESSED :: "32 word" where "EPOC_ATTR_COMPRESSED = 0x0800"
definition EPOC_ATTR_GETUID :: "32 word" where "EPOC_ATTR_GETUID = 0x10000000"

lemmas epoc_attr_defs =
  EPOC_ATTR_RONLY_def EPOC_ATTR_HIDDEN_def EPOC_ATTR_SYSTEM_def EPOC_ATTR_DIRECTORY_def
  EPOC_ATTR_ARCHIVE_def EPOC_ATTR_VOLUME_def EPOC_ATTR_NORMAL_def EPOC_ATTR_TEMPORARY_def
  EPOC_ATTR_COMPRESSED_def EPOC_ATTR_GETUID_def

definition EPOC_OMODE_SHARE_EXCLUSIVE :: "32 word" where "EPOC_OMODE_SHARE_EXCLUSIVE = 0x0000"
definition EPOC_OMODE_SHARE_READERS :: "32 word" where "EPOC_OMODE_SHARE_READERS = 0x0001"
definition EPOC_OMODE_SHARE_ANY :: "32 word" where "EPOC_OMODE_SHARE_ANY = 0x0002"
definition EPOC_OMODE_BINARY :: "32 word" where "EPOC_OMODE_BINARY = 0x0000"
definition EPOC_OMODE_TEXT :: "32 word" where "EPOC_OMODE_TEXT = 0x0020"
definition EPOC_OMODE_READ_WRITE :: "32 word" where "EPOC_OMODE_READ_WRITE = 0x0200"

definition CLOSE_HANDLE :: int where "CLOSE_HANDLE = 0x01"
definition OPEN_DIR :: int where "OPEN_DIR = 0x10"
definition READ_DIR :: int where "READ_DIR = 0x12"
definition GET_DRIVE_LIST :: int where "GET_DRIVE_LIST = 0x13"
definition DRIVE_INFO :: int where "DRIVE_INFO = 0x14"
definition SET_VOLUME_LABEL :: int where "SET_VOLUME_LABEL = 0x15"
definition OPEN_FILE :: int where "OPEN_FILE = 0x16"
definition TEMP_FILE :: int where "TEMP_FILE = 0x17"
definition READ_FILE :: int where "READ_FILE = 0x18"
definition WRITE_FILE :: int where "WRITE_FILE = 0x19"
definition SEEK_FILE :: int where "SEEK_FILE = 0x1a"
definition DELETE :: int where "DELETE = 0x1b"
definition REMOTE_ENTRY :: int where "REMOTE_ENTRY = 0x1c"
definition SET_SIZE :: int where "SET_SIZE = 0x1e"
definition RENAME :: int where "RENAME = 0x1f"
definition MK_DIR_ALL :: int where "MK_DIR_ALL = 0x20"
definition RM_DIR :: int where "RM_DIR = 0x21"
definition SET_ATT :: int where "SET_ATT = 0x22"
definition ATT :: int where "ATT = 0x23"
definition SET_MODIFIED :: int where "SET_MODIFIED = 0x24"
definition MODIFIED :: int where "MODIFIED = 0x25"
definition READ_WRITE_FILE :: int where "READ_WRITE_FILE = 0x28"
definition CREATE_FILE :: int where "CREATE_FILE = 0x29"
definition REPLACE_FILE :: int where "REPLACE_FILE = 0x2a"
definition PATH_TEST :: int where "PATH_TEST = 0x2b"

lemmas command_defs =
  CLOSE_HANDLE_def OPEN_DIR_def READ_DIR_def GET_DRIVE_LIST_def DRIVE_INFO_def
  SET_VOLUME_LABEL_def OPEN_FILE_def TEMP_FILE_def READ_FILE_def WRITE_FILE_def SEEK_FILE_def
  DELETE_def REMOTE_ENTRY_def SET_SIZE_def RENAME_def MK_DIR_ALL_def RM_DIR_def SET_ATT_def
  ATT_def SET_MODIFIED_def MODIFIED_def READ_WRITE_FILE_def CREATE_FILE_def REPLACE_FILE_def
  PATH_TEST_def

definition E_EPOC_NONE :: int where "E_EPOC_NONE = 0"
definition E_EPOC_DIR_FULL :: int where "E_EPOC_DIR_FULL = -43"

definition e2psi :: "int list" where
  "e2psi =
     [E_PSI_FILE_DIRFULL, E_PSI_GEN_POWER, E_PSI_GEN_DIVIDE, E_PSI_FILE_TOOBIG,
     E_PSI_FILE_ABORT, E_PSI_GEN_DESCR, E_PSI_GEN_LIB, E_PSI_FILE_NDISC, E_PSI_FILE_DISC,
     E_PSI_FILE_CONNECT, E_PSI_FILE_RETRAN, E_PSI_FILE_PARITY, E_PSI_FILE_OVERRUN,
     E_PSI_FILE_FRAME, E_PSI_FILE_LINE, E_PSI_FILE_NAME, E_PSI_FILE_DRIVER, E_PSI_FILE_FULL,
     E_PSI_FILE_EOF, E_PSI_GEN_FSYS, E_PSI_FILE_WRITE, E_PSI_FILE_LOCKED, E_PSI_FILE_ACCESS,
     E_PSI_FILE_CORRUPT, E_PSI_FILE_UNKNOWN, E_PSI_FILE_NOTREADY, E_PSI_FILE_COMPLETION,
     E_PSI_GEN_BUSY, E_PSI_GEN_TERMINATED, E_PSI_GEN_INUSE, E_PSI_GEN_DIED, E_PSI_FILE_DIR,
     E_PSI_FILE_EXIST, E_PSI_GEN_UNDER, E_PSI_GEN_OVER, E_PSI_FILE_HANDLE, E_PSI_GEN_RANGE,
     E_PSI_GEN_ARG, E_PSI_GEN_NSUP, E_PSI_GEN_NOMEMORY, E_PSI_FILE_CANCEL, E_PSI_GEN_FAIL,
     E_PSI_FILE_NXIST, E_PSI_GEN_NONE]"

definition PSI_SEEK_SET :: "32 word" where "PSI_SEEK_SET = 1"
definition PSI_SEEK_CUR :: "32 word" where "PSI_SEEK_CUR = 2"
definition PSI_SEEK_END :: "32 word" where "PSI_SEEK_END = 3"

definition PSI_O_RDONLY :: "32 word" where "PSI_O_RDONLY = 0"
definition PSI_O_EXCL :: "32 word" where "PSI_O_EXCL = 0x80"
definition PSI_O_SHARE :: "32 word" where "PSI_O_SHARE = 0x800"

section \<open>Translations\<close>

definition err2psierr :: "int \<Rightarrow> int" where
  "err2psierr istatus =
     (if istatus > E_EPOC_NONE \<or> istatus < E_EPOC_DIR_FULL then E_PSI_INTERNAL
      else e2psi ! nat (istatus - E_EPOC_DIR_FULL))"

definition translate :: "(32 word \<times> 32 word) list \<Rightarrow> 32 word \<Rightarrow> 32 word" where
  "translate table attr = fold (\<lambda>(src, dst) res. if attr AND src \<noteq> 0 then res OR dst else res) table 0"

definition attr2std :: "32 word \<Rightarrow> 32 word" where
  "attr2std attr =
     translate
       [(EPOC_ATTR_RONLY, PSI_A_RDONLY), (EPOC_ATTR_HIDDEN, PSI_A_HIDDEN),
        (EPOC_ATTR_SYSTEM, PSI_A_SYSTEM), (EPOC_ATTR_DIRECTORY, PSI_A_DIR),
        (EPOC_ATTR_ARCHIVE, PSI_A_ARCHIVE), (EPOC_ATTR_VOLUME, PSI_A_VOLUME),
        (EPOC_ATTR_NORMAL, PSI_A_NORMAL), (EPOC_ATTR_TEMPORARY, PSI_A_TEMP),
        (EPOC_ATTR_COMPRESSED, PSI_A_COMPRESSED)] attr OR PSI_A_READ"

definition std2attr :: "32 word \<Rightarrow> 32 word" where
  "std2attr attr =
     translate
       [(PSI_A_RDONLY, EPOC_ATTR_RONLY), (PSI_A_HIDDEN, EPOC_ATTR_HIDDEN),
        (PSI_A_SYSTEM, EPOC_ATTR_SYSTEM), (PSI_A_DIR, EPOC_ATTR_DIRECTORY),
        (PSI_A_ARCHIVE, EPOC_ATTR_ARCHIVE), (PSI_A_VOLUME, EPOC_ATTR_VOLUME),
        (PSI_A_NORMAL, EPOC_ATTR_NORMAL), (PSI_A_TEMP, EPOC_ATTR_TEMPORARY),
        (PSI_A_COMPRESSED, EPOC_ATTR_COMPRESSED)] attr"

definition opMode :: "32 word \<Rightarrow> 32 word" where
  "opMode mode =
     (let ret = (if mode AND 3 = PSI_O_RDONLY then 0 else EPOC_OMODE_READ_WRITE);
          ret = (if ret = 0 then ret OR (if mode AND PSI_O_EXCL \<noteq> 0 then 0 else EPOC_OMODE_SHARE_READERS)
                 else ret)
      in if ret = 0 \<and> mode AND PSI_O_SHARE \<noteq> 0 then ret OR EPOC_OMODE_SHARE_ANY else ret)"

section \<open>Requests and replies\<close>

definition sendCommand :: "'w socket \<Rightarrow> int \<Rightarrow> bytes \<Rightarrow> 'w rfsv \<Rightarrow> bool \<times> 'w rfsv" where
  "sendCommand so cc data s =
     (let s = (if r_status s = E_PSI_FILE_DISC then rfsv_reconnect so s else s)
      in if r_status s = E_PSI_FILE_DISC then (False, s)
      else let
        a = le16 cc @ le16 (r_operationId s) @ data;
        s = s\<lparr>r_operationId := if r_operationId s < 0xffff then r_operationId s + 1 else 0\<rparr>;
        (result, s) = rfsv_send so a s
      in if result then (True, s)
      else let (result, s) = rfsv_send so a (rfsv_reconnect so s)
      in if result then (True, s) else (False, s\<lparr>r_status := E_PSI_FILE_DISC\<rparr>))"

text \<open>The error code, and the new contents of the buffer.\<close>

definition getResponse :: "'w socket \<Rightarrow> 'w rfsv \<Rightarrow> int \<times> bytes \<times> 'w rfsv" where
  "getResponse so s =
     (case rfsv_recv so s of
        (None, s) \<Rightarrow> (E_PSI_FILE_DISC, [], s\<lparr>r_status := E_PSI_FILE_DISC\<rparr>)
      | (Some data, s) \<Rightarrow>
          if peekWord so data 0 = 0x11
          then (err2psierr (sint (peekDWord so data 4)), drop 8 data, s)
          else (E_PSI_FILE_DISC, data, s\<lparr>r_status := E_PSI_FILE_DISC\<rparr>))"

text \<open>The two calls as almost every operation combines them.\<close>

definition request :: "'w socket \<Rightarrow> int \<Rightarrow> bytes \<Rightarrow> 'w rfsv \<Rightarrow> int \<times> bytes \<times> 'w rfsv" where
  "request so cc data s =
     (let (ok, s) = sendCommand so cc data s
      in if ok then getResponse so s else (E_PSI_FILE_DISC, data, s))"

definition name_arg :: "string \<Rightarrow> bytes" where
  "name_arg n = le16 (int (length n)) @ ascii n"

section \<open>Files\<close>

definition fopen :: "'w socket \<Rightarrow> 32 word \<Rightarrow> string \<Rightarrow> 32 word \<Rightarrow> 'w rfsv \<Rightarrow> int \<times> 32 word \<times> 'w rfsv" where
  "fopen so attr name handle s =
     (let (res, a, s) = request so OPEN_FILE (dword attr @ name_arg (convertSlash name)) s
      in if res = E_PSI_GEN_NONE \<and> length a = 4 then (E_PSI_GEN_NONE, peekDWord so a 0, s)
      else (res, handle, s))"

definition mktemp :: "'w socket \<Rightarrow> 32 word \<Rightarrow> string \<Rightarrow> 'w rfsv \<Rightarrow> int \<times> 32 word \<times> string \<times> 'w rfsv" where
  "mktemp so handle tmpname s =
     (let (res, a, s) = request so TEMP_FILE [] s
      in if res = E_PSI_GEN_NONE then (res, peekDWord so a 0, peekString so a 6, s)
      else (res, handle, tmpname, s))"

definition fcreatefile :: "'w socket \<Rightarrow> 32 word \<Rightarrow> string \<Rightarrow> 32 word \<Rightarrow> 'w rfsv \<Rightarrow> int \<times> 32 word \<times> 'w rfsv" where
  "fcreatefile so attr name handle s =
     (let (res, a, s) = request so CREATE_FILE (dword attr @ name_arg (convertSlash name)) s
      in (res, if res = E_PSI_GEN_NONE \<and> length a = 4 then peekDWord so a 0 else handle, s))"

definition freplacefile :: "'w socket \<Rightarrow> 32 word \<Rightarrow> string \<Rightarrow> 32 word \<Rightarrow> 'w rfsv \<Rightarrow> int \<times> 32 word \<times> 'w rfsv" where
  "freplacefile so attr name handle s =
     (let (res, a, s) = request so REPLACE_FILE (dword attr @ name_arg (convertSlash name)) s
      in (res, if res = E_PSI_GEN_NONE \<and> length a = 4 then peekDWord so a 0 else handle, s))"

definition fclose :: "'w socket \<Rightarrow> 32 word \<Rightarrow> 'w rfsv \<Rightarrow> int \<times> 'w rfsv" where
  "fclose so handle s = (let (res, a, s) = request so CLOSE_HANDLE (dword handle) s in (res, s))"

definition fgetmtime :: "'w socket \<Rightarrow> string \<Rightarrow> psitime \<Rightarrow> 'w rfsv \<Rightarrow> int \<times> psitime \<times> 'w rfsv" where
  "fgetmtime so name mtime s =
     (let (res, a, s) = request so MODIFIED (name_arg (convertSlash name)) s
      in if res \<noteq> E_PSI_GEN_NONE then (res, mtime, s)
      else (res, setPsiTime (so_time so) (peekDWord so a 4) (peekDWord so a 0) mtime, s))"

definition fsetmtime :: "'w socket \<Rightarrow> string \<Rightarrow> psitime \<Rightarrow> 'w rfsv \<Rightarrow> int \<times> 'w rfsv" where
  "fsetmtime so name mtime s =
     (let (res, a, s) = request so SET_MODIFIED
        (dword (ptv_low mtime) @ dword (ptv_high mtime) @ name_arg (convertSlash name)) s
      in (res, s))"

definition fgetattr :: "'w socket \<Rightarrow> string \<Rightarrow> 32 word \<Rightarrow> 'w rfsv \<Rightarrow> int \<times> 32 word \<times> 'w rfsv" where
  "fgetattr so name attr s =
     (let (res, a, s) = request so ATT (name_arg (convertSlash name)) s
      in (res, if res \<noteq> E_PSI_GEN_NONE then attr else attr2std (peekDWord so a 0), s))"

text \<open>The members of an entry that \<open>fgeteattr\<close> and \<open>readdir\<close> read in the same way.\<close>

definition entry_fields :: "'w socket \<Rightarrow> bytes \<Rightarrow> plpdirent \<Rightarrow> plpdirent" where
  "entry_fields so a e =
     e\<lparr>de_attr := attr2std (peekDWord so a 4),
       de_size := peekDWord so a 8,
       de_UID := (peekDWord so a 20, peekDWord so a 24, peekDWord so a 28),
       de_time := PsiTime_copy (so_time so)
         (PsiTime_psi (so_time so) (peekDWord so a 16) (peekDWord so a 12) (de_time e)),
       de_attrstr := attr2String (attr2std (peekDWord so a 4))\<rparr>"

definition last_component :: "string \<Rightarrow> string" where
  "last_component n = rev (takeWhile (\<lambda>c. c \<noteq> CHR 0x5C) (rev n))"

definition fgeteattr :: "'w socket \<Rightarrow> string \<Rightarrow> plpdirent \<Rightarrow> 'w rfsv \<Rightarrow> int \<times> plpdirent \<times> 'w rfsv" where
  "fgeteattr so name e s =
     (let n = convertSlash name; e = e\<lparr>de_name := last_component n\<rparr>;
          (res, a, s) = request so REMOTE_ENTRY (name_arg n) s
      in (res, if res \<noteq> E_PSI_GEN_NONE then e else entry_fields so a e, s))"

definition fsetattr :: "'w socket \<Rightarrow> string \<Rightarrow> 32 word \<Rightarrow> 32 word \<Rightarrow> 'w rfsv \<Rightarrow> int \<times> 'w rfsv" where
  "fsetattr so name seta unseta s =
     (let (res, a, s) = request so SET_ATT
        (dword (std2attr seta) @ dword (std2attr unseta) @ name_arg (convertSlash name)) s
      in (res, s))"

definition pathtest :: "'w socket \<Rightarrow> string \<Rightarrow> 'w rfsv \<Rightarrow> int \<times> 'w rfsv" where
  "pathtest so name s = (let (res, a, s) = request so PATH_TEST (name_arg (convertSlash name)) s in (res, s))"

definition fsetsize :: "'w socket \<Rightarrow> 32 word \<Rightarrow> 32 word \<Rightarrow> 'w rfsv \<Rightarrow> int \<times> 'w rfsv" where
  "fsetsize so handle sz s = (let (res, a, s) = request so SET_SIZE (dword handle @ dword sz) s in (res, s))"

definition dir_name :: "string \<Rightarrow> string" where
  "dir_name n = (if n \<noteq> '''' \<and> last n \<noteq> CHR 0x5C then n @ [CHR 0x5C] else n)"

definition mkdir :: "'w socket \<Rightarrow> string \<Rightarrow> 'w rfsv \<Rightarrow> int \<times> 'w rfsv" where
  "mkdir so name s =
     (let (res, a, s) = request so MK_DIR_ALL (name_arg (dir_name (convertSlash name))) s in (res, s))"

definition rmdir :: "'w socket \<Rightarrow> string \<Rightarrow> 'w rfsv \<Rightarrow> int \<times> 'w rfsv" where
  "rmdir so name s =
     (let (res, a, s) = request so RM_DIR (name_arg (dir_name (convertSlash name))) s in (res, s))"

definition rename :: "'w socket \<Rightarrow> string \<Rightarrow> string \<Rightarrow> 'w rfsv \<Rightarrow> int \<times> 'w rfsv" where
  "rename so oldname newname s =
     (let (res, a, s) = request so RENAME
        (name_arg (convertSlash oldname) @ name_arg (convertSlash newname)) s
      in (res, s))"

definition remove :: "'w socket \<Rightarrow> string \<Rightarrow> 'w rfsv \<Rightarrow> int \<times> 'w rfsv" where
  "remove so name s = (let (res, a, s) = request so DELETE (name_arg (convertSlash name)) s in (res, s))"

definition drive_number :: "char \<Rightarrow> bytes" where
  "drive_number drive = le32 (int (of_char (toupper drive)) - 65)"

definition setVolumeName :: "'w socket \<Rightarrow> char \<Rightarrow> string \<Rightarrow> 'w rfsv \<Rightarrow> int \<times> 'w rfsv" where
  "setVolumeName so drive name s =
     (let (res, a, s) = request so SET_VOLUME_LABEL
        (drive_number drive @ le16 (int (length name)) @ ascii name @ [0]) s
      in (res, s))"

section \<open>Directories\<close>

record dirhandle =
  dh_h :: "32 word"
  dh_b :: bytes
  dh_name :: string

text \<open>A default constructed entry; \<open>raw\<close> is the uninitialised part of its time.\<close>

definition plpdirent_new :: "timeenv \<Rightarrow> psitime \<Rightarrow> plpdirent" where
  "plpdirent_new env raw =
     \<lparr>de_size = 0, de_attr = 0, de_UID = (0, 0, 0), de_time = PsiTime_unix env 0 raw,
      de_attrstr = '''', de_dirname = '''', de_name = ''''\<rparr>"

definition fopendir :: "'w socket \<Rightarrow> 32 word \<Rightarrow> string \<Rightarrow> 32 word \<Rightarrow> 'w rfsv \<Rightarrow> int \<times> 32 word \<times> 'w rfsv" where
  "fopendir so attr name handle s =
     (let (res, a, s) = request so OPEN_DIR
        (dword (attr OR EPOC_ATTR_GETUID) @ name_arg (convertSlash name)) s
      in (res, if res = E_PSI_GEN_NONE \<and> length a = 4 then peekDWord so a 0 else handle, s))"

definition opendir :: "'w socket \<Rightarrow> 32 word \<Rightarrow> string \<Rightarrow> 'w rfsv \<Rightarrow> int \<times> dirhandle \<times> 'w rfsv" where
  "opendir so attr name s =
     (let (res, handle, s) = fopendir so (std2attr attr) name (so_junk so) s
      in (res, \<lparr>dh_h = handle, dh_b = [], dh_name = name\<rparr>, s))"

definition closedir :: "'w socket \<Rightarrow> dirhandle \<Rightarrow> 'w rfsv \<Rightarrow> int \<times> 'w rfsv" where
  "closedir so dH s = fclose so (dh_h dH) s"

definition align4 :: "nat \<Rightarrow> nat" where
  "align4 d = (d + 3) div 4 * 4"

text \<open>The offset behind the entry at the front of the buffer.\<close>

definition entry_end :: "'w socket \<Rightarrow> bytes \<Rightarrow> nat" where
  "entry_end so b = align4 (align4 (36 + unat (peekDWord so b 32)) + unat (peekDWord so b 0))"

definition readdir :: "'w socket \<Rightarrow> dirhandle \<Rightarrow> plpdirent \<Rightarrow> 'w rfsv \<Rightarrow> int \<times> dirhandle \<times> plpdirent \<times> 'w rfsv" where
  "readdir so dH e s =
     (let (res, b, s) = (if length (dh_b dH) < 17 then request so READ_DIR (dword (dh_h dH)) s
                         else (E_PSI_GEN_NONE, dh_b dH, s))
      in if res = E_PSI_GEN_NONE \<and> length b > 16 then
           (let longLen = unat (peekDWord so b 32);
                e = (entry_fields so b e)
                  \<lparr>de_dirname := dh_name dH, de_name := chars (map (peek so b) [36..<36 + longLen])\<rparr>
            in (res, dH\<lparr>dh_b := drop (entry_end so b) b\<rparr>, e, s))
         else (res, dH\<lparr>dh_b := b\<rparr>, e, s))"

partial_function (option) dir_loop ::
  "'w socket \<Rightarrow> plpdirent \<Rightarrow> dirhandle \<Rightarrow> plpdirent list \<Rightarrow> 'w rfsv \<Rightarrow>
   (int \<times> plpdirent list \<times> dirhandle \<times> 'w rfsv) option" where
  "dir_loop so e0 h files s =
     (let (res, h, e, s) = readdir so h e0 s
      in if res = E_PSI_GEN_NONE then dir_loop so e0 h (files @ [e]) s
      else Some (res, files, h, s))"

definition dir :: "'w socket \<Rightarrow> psitime \<Rightarrow> string \<Rightarrow> 'w rfsv \<Rightarrow> (int \<times> plpdirent list \<times> 'w rfsv) option" where
  "dir so raw name s =
     (let (res, h, s) = opendir so (PSI_A_HIDDEN OR PSI_A_SYSTEM OR PSI_A_DIR) name s
      in do {
        (res, files, h, s) \<leftarrow>
          (if res = E_PSI_GEN_NONE then dir_loop so (plpdirent_new (so_time so) raw) h [] s
           else Some (res, [], h, s));
        let (_, s) = closedir so h s;
        Some (if res = E_PSI_FILE_EOF then E_PSI_GEN_NONE else res, files, s) })"

text \<open>\<open>dircount\<close>: the entries of one reply, and the loop over the replies.\<close>

function count_entries :: "'w socket \<Rightarrow> bytes \<Rightarrow> 32 word \<Rightarrow> 32 word" where
  "count_entries so a count =
     (if length a > 16 then count_entries so (drop (entry_end so a) a) (count + 1) else count)"
  by pat_completeness auto

termination
  by (relation "measure (\<lambda>(so, a, count). length a)") (auto simp: entry_end_def align4_def)

declare count_entries.simps [simp del]

partial_function (option) dircount_loop ::
  "'w socket \<Rightarrow> 32 word \<Rightarrow> 32 word \<Rightarrow> 'w rfsv \<Rightarrow> (int \<times> 32 word \<times> 'w rfsv) option" where
  "dircount_loop so handle count s =
     (let (ok, s) = sendCommand so READ_DIR (dword handle) s
      in if \<not> ok then Some (E_PSI_FILE_DISC, count, s)
      else let (res, a, s) = getResponse so s
      in if res = E_PSI_GEN_NONE then dircount_loop so handle (count_entries so a count) s
      else let (_, s) = fclose so handle s
      in Some (if res = E_PSI_FILE_EOF then E_PSI_GEN_NONE else res, count, s))"

definition dircount :: "'w socket \<Rightarrow> string \<Rightarrow> 'w rfsv \<Rightarrow> (int \<times> 32 word \<times> 'w rfsv) option" where
  "dircount so name s =
     (let (res, handle, s) = fopendir so
        (EPOC_ATTR_HIDDEN OR EPOC_ATTR_SYSTEM OR EPOC_ATTR_DIRECTORY) name (so_junk so) s
      in if res \<noteq> E_PSI_GEN_NONE then Some (res, 0, s) else dircount_loop so handle 0 s)"

section \<open>Drives\<close>

definition shift_in :: "bool \<Rightarrow> 32 word \<Rightarrow> 32 word" where
  "shift_in b devbits = (let devbits = push_bit 1 devbits in if b then devbits OR 1 else devbits)"

definition devlist_bits :: "'w socket \<Rightarrow> bytes \<Rightarrow> 32 word" where
  "devlist_bits so a = fold (\<lambda>i. shift_in (peek so a i \<noteq> 0)) (rev [0..<26]) 0"

definition devlist :: "'w socket \<Rightarrow> 32 word \<Rightarrow> 'w rfsv \<Rightarrow> int \<times> 32 word \<times> 'w rfsv" where
  "devlist so devbits s =
     (let (ok, s) = sendCommand so GET_DRIVE_LIST [] s
      in if \<not> ok then (E_PSI_FILE_DISC, devbits, s)
      else let (res, a, s) = getResponse so s
      in (res, if res = E_PSI_GEN_NONE \<and> length a = 26 then devlist_bits so a else 0, s))"

definition devinfo :: "'w socket \<Rightarrow> char \<Rightarrow> drive \<Rightarrow> 'w rfsv \<Rightarrow> int \<times> drive \<times> 'w rfsv" where
  "devinfo so drive dinfo s =
     (let (res, a, s) = request so DRIVE_INFO (drive_number drive) s
      in if res \<noteq> E_PSI_GEN_NONE then (res, dinfo, s)
      else let
        dinfo = dinfo\<lparr>d_mediaType := peekDWord so a 0, d_driveAttributes := peekDWord so a 8,
                  d_mediaAttributes := peekDWord so a 12, d_uid := peekDWord so a 16\<rparr>;
        dinfo = setSize (peekDWord so a 20) (peekDWord so a 24) dinfo;
        dinfo = setSpace (peekDWord so a 28) (peekDWord so a 32) dinfo
      in (res, setName (toupper drive) (peekString so (a @ [0]) 40) dinfo, s))"

section \<open>Reading and writing\<close>

definition fread :: "'w socket \<Rightarrow> 32 word \<Rightarrow> 32 word \<Rightarrow> 'w rfsv \<Rightarrow> (int \<times> bytes \<times> 32 word \<times> 'w rfsv) option" where
  "fread so handle len s =
     fread_loop (of_nat RFSV_SENDLEN) (\<lambda>n. request so READ_FILE (dword handle @ dword n)) len [] 0 s"

text \<open>\<open>buf\<close> holds at least \<open>len\<close> bytes.\<close>

definition fwrite :: "'w socket \<Rightarrow> 32 word \<Rightarrow> bytes \<Rightarrow> 32 word \<Rightarrow> 'w rfsv \<Rightarrow> int \<times> 32 word \<times> 'w rfsv" where
  "fwrite so handle buf len s =
     fwrite_loop (of_nat RFSV_SENDLEN) (\<lambda>b. request so WRITE_FILE (dword handle @ b)) buf len 0 E_PSI_GEN_NONE s"

section \<open>Seeking\<close>

text \<open>
  \<open>fseek\<close>: the last part, from the request for the real seek on. \<open>a\<close> is the contents of the
  request buffer, \<open>savpos\<close> the saved position. After \<open>SET_SIZE\<close> the buffer still holds the
  reply when the second request is appended to it.
\<close>

definition fseek_real ::
  "'w socket \<Rightarrow> 32 word \<Rightarrow> 32 word \<Rightarrow> 32 word \<Rightarrow> 32 word \<Rightarrow> 32 word \<Rightarrow> 'w rfsv \<Rightarrow> int \<times> 32 word \<times> 'w rfsv" where
  "fseek_real so handle mypos mode savpos resultpos s =
     (let (res, a, s) = request so SEEK_FILE (dword mypos @ dword handle @ dword mode) s
      in if res \<noteq> E_PSI_GEN_NONE then (res, resultpos, s)
      else let realpos = peekDWord so a 0;
               calcpos = (if mode = PSI_SEEK_SET then mypos else savpos + mypos)
      in if mode = PSI_SEEK_END \<or> \<not> calcpos > realpos then (res, realpos, s)
      else let (res, a, s) = request so SET_SIZE (dword handle @ dword calcpos) s
      in if res \<noteq> E_PSI_GEN_NONE then (res, resultpos, s)
      else let (res, a, s) = request so SEEK_FILE (a @ dword calcpos @ dword handle @ dword PSI_SEEK_SET) s
      in if res \<noteq> E_PSI_GEN_NONE then (res, resultpos, s)
      else (res, peekDWord so a 0, s))"

definition fseek ::
  "'w socket \<Rightarrow> 32 word \<Rightarrow> 32 word \<Rightarrow> 32 word \<Rightarrow> 32 word \<Rightarrow> 'w rfsv \<Rightarrow> int \<times> 32 word \<times> 'w rfsv" where
  "fseek so handle pos mode resultpos s =
     (if mode < PSI_SEEK_SET \<or> mode > PSI_SEEK_END then (E_PSI_GEN_ARG, resultpos, s)
      else if mode = PSI_SEEK_CUR \<and> sint pos \<ge> 0 then
        (let (res, a, s) = request so SEEK_FILE (dword 0 @ dword handle @ dword PSI_SEEK_CUR) s
         in if res \<noteq> E_PSI_GEN_NONE then (res, resultpos, s)
         else let savpos = peekDWord so a 0
         in if pos = 0 then (res, savpos, s)
         else fseek_real so handle pos mode savpos resultpos s)
      else if mode = PSI_SEEK_END \<and> sint pos \<ge> 0 then
        (let (res, a, s) = request so SEEK_FILE (dword 0 @ dword handle @ dword PSI_SEEK_END) s
         in if res \<noteq> E_PSI_GEN_NONE then (res, resultpos, s)
         else let savpos = peekDWord so a 0
         in if pos = 0 then (res, savpos, s)
         else let (res, a, s) = request so SET_SIZE (dword handle @ dword (savpos + pos)) s
         in if res \<noteq> E_PSI_GEN_NONE then (res, resultpos, s)
         else fseek_real so handle 0 mode savpos resultpos s)
      else fseek_real so handle pos mode 0 resultpos s)"

section \<open>Copying files\<close>

text \<open>\<open>opened\<close> is the state of the local stream; the contents of the local file if it was created.\<close>

definition copyFromPsion ::
  "'w socket \<Rightarrow> string \<Rightarrow> bool \<Rightarrow> (32 word \<Rightarrow> bool) option \<Rightarrow> 'w rfsv \<Rightarrow> (int \<times> bytes option \<times> 'w rfsv) option" where
  "copyFromPsion so from_name opened cb s =
     (let (res, handle, s) =
        fopen so (EPOC_OMODE_SHARE_READERS OR EPOC_OMODE_BINARY) from_name (so_junk so) s
      in if res \<noteq> E_PSI_GEN_NONE then Some (res, None, s)
      else if \<not> opened then (let (_, s) = fclose so handle s in Some (E_PSI_GEN_FAIL, None, s))
      else do {
        (res, out, s) \<leftarrow> copyFrom_loop (fread so handle (of_nat RFSV_SENDLEN)) cb [] 0 s;
        let (_, s) = fclose so handle s;
        Some (res, Some out, s) })"

definition copyFromPsion_fd ::
  "'w socket \<Rightarrow> string \<Rightarrow> (32 word \<Rightarrow> bool) option \<Rightarrow> 'w rfsv \<Rightarrow> (int \<times> bytes \<times> 'w rfsv) option" where
  "copyFromPsion_fd so from_name cb s =
     (let (res, handle, s) =
        fopen so (EPOC_OMODE_SHARE_READERS OR EPOC_OMODE_BINARY) from_name (so_junk so) s
      in if res \<noteq> E_PSI_GEN_NONE then Some (res, [], s)
      else do {
        (res, out, s) \<leftarrow> copyFrom_loop (fread so handle (of_nat RFSV_SENDLEN)) cb [] 0 s;
        let (_, s) = fclose so handle s;
        Some (res, out, s) })"

text \<open>\<open>create\<close> or else \<open>replace\<close>, as the two copies to the device open their target.\<close>

definition open_target :: "'w socket \<Rightarrow> string \<Rightarrow> 'w rfsv \<Rightarrow> int \<times> 32 word \<times> 'w rfsv" where
  "open_target so name s =
     (let attr = EPOC_OMODE_BINARY OR EPOC_OMODE_SHARE_EXCLUSIVE OR EPOC_OMODE_READ_WRITE;
          (res, handle, s) = fcreatefile so attr name (so_junk so) s
      in if res \<noteq> E_PSI_GEN_NONE then freplacefile so attr name handle s else (res, handle, s))"

text \<open>\<open>contents\<close> is the local file, \<open>None\<close> when it cannot be opened.\<close>

definition copyToPsion ::
  "'w socket \<Rightarrow> bytes option \<Rightarrow> string \<Rightarrow> (32 word \<Rightarrow> bool) option \<Rightarrow> 'w rfsv \<Rightarrow> int \<times> 'w rfsv" where
  "copyToPsion so contents to_name cb s =
     (case contents of
        None \<Rightarrow> (E_PSI_FILE_NXIST, s)
      | Some ip \<Rightarrow>
          let (res, handle, s) = open_target so to_name s
          in if res \<noteq> E_PSI_GEN_NONE then (res, s)
          else let (res, s) = copyTo_loop (\<lambda>b. fwrite so handle b (of_nat (length b))) cb ip 0 s; (_, s) = fclose so handle s
          in (res, s))"

text \<open>The loop of \<open>copyOnPsion\<close>; \<open>None\<close> in the result is the return when the request cannot be sent.\<close>

partial_function (option) copyOn_loop ::
  "'w socket \<Rightarrow> (32 word \<Rightarrow> bool) option \<Rightarrow> 32 word \<Rightarrow> 32 word \<Rightarrow> 32 word \<Rightarrow> 'w rfsv \<Rightarrow>
   (int option \<times> 'w rfsv) option" where
  "copyOn_loop so cb handle_from handle_to tot s =
     (let (ok, s) = sendCommand so READ_WRITE_FILE
        (dword (of_nat (RFSV_SENDLEN * 10)) @ dword handle_to @ dword handle_from) s
      in if \<not> ok then Some (None, s)
      else let (res, b, s) = getResponse so s
      in if res \<noteq> E_PSI_GEN_NONE then Some (Some res, s)
      else if length b \<noteq> 4 then Some (Some E_PSI_GEN_FAIL, s)
      else let len = peekDWord so b 0; tot = tot + len;
               res = (if cancelled cb tot then E_PSI_FILE_CANCEL else res)
      in if len \<noteq> of_nat (RFSV_SENDLEN * 10) \<or> res \<noteq> E_PSI_GEN_NONE then Some (Some res, s)
         else copyOn_loop so cb handle_from handle_to tot s)"

definition copyOnPsion ::
  "'w socket \<Rightarrow> psitime \<Rightarrow> string \<Rightarrow> string \<Rightarrow> (32 word \<Rightarrow> bool) option \<Rightarrow> 'w rfsv \<Rightarrow> (int \<times> 'w rfsv) option" where
  "copyOnPsion so raw from_name to_name cb s =
     (let (res, _, s) = fgeteattr so from_name (plpdirent_new (so_time so) raw) s
      in if res \<noteq> E_PSI_GEN_NONE then Some (res, s)
      else let (res, handle_from, s) =
        fopen so (EPOC_OMODE_SHARE_READERS OR EPOC_OMODE_BINARY) from_name (so_junk so) s
      in if res \<noteq> E_PSI_GEN_NONE then Some (res, s)
      else let (res, handle_to, s) = open_target so to_name s
      in if res \<noteq> E_PSI_GEN_NONE then (let (_, s) = fclose so handle_from s in Some (res, s))
      else do {
        (result, s) \<leftarrow> copyOn_loop so cb handle_from handle_to 0 s;
        case result of
          None \<Rightarrow> Some (E_PSI_FILE_DISC, s)
        | Some res \<Rightarrow>
            let (_, s) = fclose so handle_from s; (_, s) = fclose so handle_to s
            in Some (res, if res \<noteq> E_PSI_GEN_NONE then snd (remove so to_name s) else s) })"

end
