(* ===== verification/Rfsv32_Session.thy ===== *)
theory Rfsv32_Session
  imports Rfsv32
begin

text \<open>
  The operations of \<open>RFSV32\<close> against a device that answers. The device is a parameter: a
  function \<open>answer\<close> from a command, its arguments and the device's state to the status, the
  contents of the reply and the new state. \<open>serves so answer\<close> says that the connection hands
  every request to it and its reply back, as the protocol does on a connection that works.
\<close>

section \<open>Requests on a working connection\<close>

definition serves :: "'w socket \<Rightarrow> (int \<Rightarrow> bytes \<Rightarrow> 'w \<Rightarrow> int \<times> bytes \<times> 'w) \<Rightarrow> bool" where
  "serves so answer \<longleftrightarrow>
     (\<forall>cc opid data w status reply w'.
        0 \<le> cc \<and> cc < 0x10000 \<longrightarrow> answer cc data w = (status, reply, w') \<longrightarrow>
        (\<exists>w1. so_send so (le16 cc @ le16 opid @ data) w = (True, w1) \<and>
              so_recv so w1 = (Some (le16 0x11 @ le16 opid @ le32 status @ reply), w')))"

definition live :: "'w rfsv \<Rightarrow> bool" where
  "live s \<longleftrightarrow> r_status s \<noteq> E_PSI_FILE_DISC"

definition status32 :: "int \<Rightarrow> bool" where
  "status32 e \<longleftrightarrow> E_EPOC_DIR_FULL \<le> e \<and> e \<le> E_EPOC_NONE"

lemma peek_append1 [simp]: "i < length b \<Longrightarrow> peek so (b @ c) i = peek so b i"
  by (simp add: peek_def nth_append)

lemma peek_append2 [simp]: "length b \<le> i \<Longrightarrow> peek so (b @ c) i = peek so c (i - length b)"
  by (auto simp: peek_def nth_append)

lemma peekDWord_append1 [simp]: "i + 4 \<le> length b \<Longrightarrow> peekDWord so (b @ c) i = peekDWord so b i"
  by (simp add: peekDWord_def)

lemma peekDWord_append2 [simp]:
  "length b \<le> i \<Longrightarrow> peekDWord so (b @ c) i = peekDWord so c (i - length b)"
  by (simp add: peekDWord_def Suc_diff_le)

lemma peekWord_le16 [simp]: "peekWord so (le16 a @ b) 0 = word_of_int a"
  by (simp add: peekWord_def le16_def peek_def)

lemma peekDWord_le32 [simp]: "peekDWord so (le32 a @ b) 0 = word_of_int a"
  by (simp add: peekDWord_def le32_def peek_def)

lemma peekDWord_le32' [simp]: "peekDWord so (le32 a) 0 = word_of_int a"
  using peekDWord_le32 [of so a "[]"] by simp

lemma length_dword [simp]: "length (dword w) = 4"
  by (simp add: dword_def)

lemma peekDWord_dword [simp]:
  "peekDWord so (dword w @ b) 0 = w" "peekDWord so (dword w) 0 = w"
  by (simp_all add: dword_def)

lemma status_word: "status32 e \<Longrightarrow> sint (word_of_int e :: 32 word) = e"
  by (simp add: status32_def E_EPOC_DIR_FULL_def E_EPOC_NONE_def signed_of_int signed_take_bit_int_eq_self)

lemma err2psierr_0 [simp]: "err2psierr 0 = E_PSI_GEN_NONE"
  by (simp add: err2psierr_def E_EPOC_DIR_FULL_def E_EPOC_NONE_def e2psi_def)

lemma request_answered:
  assumes "serves so answer" and "live s" and "0 \<le> cc \<and> cc < 0x10000"
    and "answer cc data (r_world s) = (status, reply, w')" and "status32 status"
  shows "\<exists>n. request so cc data s =
      (err2psierr status, reply, s\<lparr>r_operationId := n, r_world := w'\<rparr>)"
proof -
  obtain w1 where w1: "so_send so (le16 cc @ le16 (r_operationId s) @ data) (r_world s) = (True, w1)"
      "so_recv so w1 = (Some (le16 0x11 @ le16 (r_operationId s) @ le32 status @ reply), w')"
    using assms(1,3,4) unfolding serves_def by blast
  have word: "peekDWord so (le16 17 @ le16 (r_operationId s) @ le32 status @ reply) 4 = word_of_int status"
    by simp
  have rest: "drop 8 (le16 17 @ le16 (r_operationId s) @ le32 status @ reply) = reply"
    by simp
  show ?thesis
    using assms(2) w1
    by (auto simp: request_def sendCommand_def getResponse_def rfsv_send_def rfsv_recv_def live_def
        word rest status_word [OF assms(5)] simp del: drop_append peekDWord_append2 intro!: exI)
qed

lemma request_ok:
  assumes "serves so answer" and "live s" and "0 \<le> cc \<and> cc < 0x10000"
    and "answer cc data (r_world s) = (0, reply, w')"
  obtains s' where "request so cc data s = (E_PSI_GEN_NONE, reply, s')" "live s'" "r_world s' = w'"
proof -
  obtain n where "request so cc data s =
      (err2psierr 0, reply, s\<lparr>r_operationId := n, r_world := w'\<rparr>)"
    using request_answered [OF assms] by (auto simp: status32_def E_EPOC_DIR_FULL_def E_EPOC_NONE_def)
  moreover have "live (s\<lparr>r_operationId := n, r_world := w'\<rparr>)" using assms(2) by (simp add: live_def)
  ultimately show thesis using that by simp
qed

section \<open>A connection to a given device\<close>

text \<open>
  The connection that a device \<open>answer\<close> gives: its state and the reply that waits to be read.
\<close>

definition device_socket ::
  "timeenv \<Rightarrow> (int \<Rightarrow> bytes \<Rightarrow> 'd \<Rightarrow> int \<times> bytes \<times> 'd) \<Rightarrow> ('d \<times> bytes) socket" where
  "device_socket env answer =
     \<lparr>so_send = (\<lambda>b (d, _).
        let (status, reply, d) = answer (uint (join16 (b ! 0) (b ! 1))) (drop 4 b) d
        in (True, (d, le16 0x11 @ take 2 (drop 2 b) @ le32 status @ reply))),
      so_recv = (\<lambda>(d, reply). (Some reply, (d, []))),
      so_reconnect = (\<lambda>w. w), so_tail = [], so_junk = 0, so_time = env\<rparr>"

definition device_answer ::
  "(int \<Rightarrow> bytes \<Rightarrow> 'd \<Rightarrow> int \<times> bytes \<times> 'd) \<Rightarrow> int \<Rightarrow> bytes \<Rightarrow> 'd \<times> bytes \<Rightarrow> int \<times> bytes \<times> ('d \<times> bytes)" where
  "device_answer answer cc data w =
     (let (status, reply, d) = answer cc data (fst w) in (status, reply, (d, [])))"

lemma device_socket_serves: "serves (device_socket env answer) (device_answer answer)"
proof -
  have "uint (join16 ((le16 cc @ x) ! 0) ((le16 cc @ x) ! 1)) = cc" if "0 \<le> cc \<and> cc < 65536" for cc x
    using that by (simp add: le16_def uint_word_of_int)
  moreover have "drop 4 (le16 a @ le16 b @ x) = x" "take 2 (drop 2 (le16 a @ le16 b @ x)) = le16 b" for a b x
    by (simp_all add: le16_def)
  ultimately show ?thesis
    by (auto simp: serves_def device_socket_def device_answer_def split: prod.splits)
qed

definition device_session :: "'d \<Rightarrow> ('d \<times> bytes) rfsv" where
  "device_session d = \<lparr>r_status = E_PSI_GEN_NONE, r_operationId = 0, r_world = (d, [])\<rparr>"

lemma device_session_simps [simp]:
  "live (device_session d)" "r_world (device_session d) = (d, [])"
  by (simp_all add: device_session_def live_def E_PSI_GEN_NONE_def E_PSI_FILE_DISC_def)

end
