(* ===== verification/Transfer_Loops.thy ===== *)
theory Transfer_Loops
  imports Rfsv
begin

text \<open>
  The transfer loops of \<open>Rfsv\<close> are correct for any request for a block that behaves as
  \<open>reads_blocks\<close> and \<open>writes_blocks\<close> say: what is read is the file, what is written is the
  buffer. \<open>I\<close> is an invariant of the object's state, \<open>rest\<close> what follows the position of the
  open file, \<open>file\<close> the contents of the file that is written.
\<close>

section \<open>Reading\<close>

text \<open>
  At the end of the file a read answers with the status \<open>e\<close> and nothing; before, it returns at
  least one byte and at most what was asked for. A request asks for at most \<open>maxlen\<close> bytes.
\<close>

definition reads_blocks ::
  "('s \<Rightarrow> bool) \<Rightarrow> ('s \<Rightarrow> bytes) \<Rightarrow> 32 word \<Rightarrow> int \<Rightarrow> (32 word \<Rightarrow> 's \<Rightarrow> int \<times> bytes \<times> 's) \<Rightarrow> bool" where
  "reads_blocks I rest maxlen e ask \<longleftrightarrow>
     (\<forall>n s. n \<le> maxlen \<longrightarrow> I s \<longrightarrow> (\<exists>k s'. ask n s = (if n \<noteq> 0 \<and> rest s = [] then e else E_PSI_GEN_NONE, take k (rest s), s') \<and>
        I s' \<and> k \<le> unat n \<and> rest s' = drop k (rest s) \<and> (n \<noteq> 0 \<and> rest s \<noteq> [] \<longrightarrow> 0 < k)))"

lemma unat_chunk: "unat (chunk maxlen len count) = min (unat maxlen) (unat (len - count))"
  by (simp add: chunk_def word_less_nat_alt min_def)

lemma chunk_bound: "chunk maxlen len count \<le> maxlen"
  by (simp add: word_le_nat_alt unat_chunk)

lemma fread_loop_reads:
  assumes "reads_blocks I rest maxlen e ask" and "0 < maxlen"
  shows "I s \<Longrightarrow> count \<le> len \<Longrightarrow> unat (len - count) = m \<Longrightarrow>
    \<exists>res s'. fread_loop maxlen ask len buf count s =
        Some (res, buf @ take m (rest s), count + of_nat (length (take m (rest s))), s') \<and>
      I s' \<and> rest s' = drop m (rest s) \<and> (res = E_PSI_GEN_NONE \<or> res = e)"
proof (induction m arbitrary: buf count s rule: less_induct)
  case (less m)
  let ?n = "chunk maxlen len count"
  let ?r = "rest s"
  obtain k s1 where s1: "ask ?n s = (if ?n \<noteq> 0 \<and> ?r = [] then e else E_PSI_GEN_NONE, take k ?r, s1)"
      "I s1" "k \<le> unat ?n" "rest s1 = drop k ?r" "?n \<noteq> 0 \<and> ?r \<noteq> [] \<longrightarrow> 0 < k"
    using assms(1) less.prems(1) chunk_bound unfolding reads_blocks_def by blast
  have n0: "?n \<noteq> 0 \<or> m = 0"
  proof -
    have "0 < unat maxlen" using assms(2) by (simp add: word_less_nat_alt)
    moreover have "unat ?n = min (unat maxlen) m" using less.prems(3) by (simp add: unat_chunk)
    ultimately have "?n = 0 \<Longrightarrow> m = 0" by (metis min_def neq0_conv unat_0)
    then show ?thesis by blast
  qed
  show ?case
  proof (cases "?n \<noteq> 0 \<and> ?r = [] \<and> e \<noteq> E_PSI_GEN_NONE")
    case True
    then show ?thesis using s1 by (subst fread_loop.simps) simp
  next
    case ok: False
    then have ask: "ask ?n s = (E_PSI_GEN_NONE, take k ?r, s1)" using s1(1) by auto
    let ?a = "take k ?r" and ?count = "count + of_nat (length (take k ?r))"
    have km: "k \<le> m" using s1(3) less.prems(3) by (simp add: unat_chunk)
    have lenm: "length ?a \<le> m" using km by simp
    have sum: "unat count + m = unat len"
      using less.prems(2,3) by (simp add: unat_sub word_le_nat_alt)
    have cnt: "unat ?count = unat count + length ?a"
    proof -
      have "unat count + length ?a < 2 ^ 32"
        using lenm sum unsigned_less [of len, where ?'a = nat] by simp
      then show ?thesis
        by (simp add: unat_word_ariths unat_of_nat take_bit_eq_mod)
    qed
    have left: "unat (len - ?count) = m - length ?a" "?count \<le> len"
    proof -
      show le: "?count \<le> len" using cnt lenm sum by (simp add: word_le_nat_alt)
      then show "unat (len - ?count) = m - length ?a"
        using cnt sum by (simp add: unat_sub word_le_nat_alt)
    qed
    show ?thesis
    proof (cases "?count < len \<and> ?a \<noteq> []")
      case True
      then have "0 < length ?a" by blast
      with lenm have "m - length ?a < m" by linarith
      from less.IH [OF this s1(2) left(2) left(1), of "buf @ ?a"] obtain res s' where s':
        "fread_loop maxlen ask len (buf @ ?a) ?count s1 =
           Some (res, buf @ ?a @ take (m - length ?a) (rest s1),
             ?count + of_nat (length (take (m - length ?a) (rest s1))), s')"
        "I s'" "rest s' = drop (m - length ?a) (rest s1)" "res = E_PSI_GEN_NONE \<or> res = e"
        unfolding append_assoc by blast
      have split: "take m ?r = ?a @ take (m - length ?a) (rest s1)"
        "drop m ?r = drop (m - length ?a) (rest s1)"
        using km s1(4) by (cases "k \<le> length ?r"; simp add: take_add [symmetric] min_def)+
      show ?thesis
        using True ask s' by (subst fread_loop.simps) (auto simp: split add.assoc)
    next
      case False
      have final: "take m ?r = ?a" "drop m ?r = drop k ?r"
      proof -
        have "m = length ?a \<or> ?r = [] \<or> m = 0"
        proof (cases "?a = []")
          case True
          then show ?thesis using n0 s1(5) by auto
        next
          case f: False
          then have eq: "?count = len" using False left(2) by simp
          have "m - length ?a = 0" using left(1) unfolding eq by simp
          then have "m = length ?a" using lenm by linarith
          then show ?thesis by blast
        qed
        then show "take m ?r = ?a" "drop m ?r = drop k ?r"
          using km by (auto simp: min_def split: if_splits)
      qed
      show ?thesis
        using False ask s1(2,4) by (subst fread_loop.simps) (auto simp: final)
    qed
  qed
qed

text \<open>Copying with a read of up to \<open>n\<close> bytes that is short only at the end of the file.\<close>

definition reads_full :: "('s \<Rightarrow> bool) \<Rightarrow> ('s \<Rightarrow> bytes) \<Rightarrow> nat \<Rightarrow> ('s \<Rightarrow> (int \<times> bytes \<times> 32 word \<times> 's) option) \<Rightarrow> bool" where
  "reads_full I rest n read \<longleftrightarrow>
     (\<forall>s. I s \<longrightarrow> (\<exists>s'. read s =
        Some (E_PSI_GEN_NONE, take n (rest s), of_nat (length (take n (rest s))), s') \<and>
        I s' \<and> rest s' = drop n (rest s)))"

lemma copyFrom_loop_reads:
  assumes "reads_full I rest n read" and "0 < n" and "n < 2 ^ 32"
  shows "I s \<Longrightarrow> \<exists>s'. copyFrom_loop read None out tot s = Some (E_PSI_GEN_NONE, out @ rest s, s') \<and>
    I s' \<and> rest s' = []"
proof (induction "length (rest s)" arbitrary: out tot s rule: less_induct)
  case less
  let ?r = "rest s"
  obtain s1 where s1: "read s = Some (E_PSI_GEN_NONE, take n ?r, of_nat (length (take n ?r)), s1)"
      "I s1" "rest s1 = drop n ?r"
    using assms(1) less.prems unfolding reads_full_def by blast
  have len: "unat (of_nat (length (take n ?r)) :: 32 word) = length (take n ?r)"
    using assms(3) by (simp add: unat_of_nat take_bit_eq_mod)
  show ?case
  proof (cases "?r = []")
    case True
    then show ?thesis
      using s1 by (subst copyFrom_loop.simps) (simp add: cancelled_def)
  next
    case False
    then have "length (rest s1) < length ?r" using s1(3) assms(2) by simp
    from less.hyps [OF this s1(2), of "out @ take n ?r" "tot + of_nat (length (take n ?r))"]
    obtain s' where "copyFrom_loop read None (out @ take n ?r) (tot + of_nat (length (take n ?r))) s1 =
        Some (E_PSI_GEN_NONE, (out @ take n ?r) @ drop n ?r, s')"
      "I s'" "rest s' = []"
      unfolding s1(3) by blast
    moreover have "(0 :: 32 word) < of_nat (length (take n ?r))"
      using False len assms(2) by (simp add: word_less_nat_alt)
    moreover have "take (min (length ?r) n) ?r = take n ?r" by (simp add: min_def)
    ultimately show ?thesis
      using s1(1) len by (subst copyFrom_loop.simps) (simp add: cancelled_def)
  qed
qed

section \<open>Writing\<close>

definition writes_blocks ::
  "('s \<Rightarrow> bool) \<Rightarrow> ('s \<Rightarrow> bytes) \<Rightarrow> 32 word \<Rightarrow> (bytes \<Rightarrow> 's \<Rightarrow> int \<times> bytes \<times> 's) \<Rightarrow> bool" where
  "writes_blocks I file maxlen put \<longleftrightarrow>
     (\<forall>b s. length b \<le> unat maxlen \<longrightarrow> I s \<longrightarrow> (\<exists>r s'. put b s = (E_PSI_GEN_NONE, r, s') \<and> I s' \<and> file s' = file s @ b))"

lemma fwrite_loop_writes:
  assumes "writes_blocks I file maxlen put" and "0 < maxlen"
  shows "I s \<Longrightarrow> count \<le> len \<Longrightarrow> unat (len - count) = m \<Longrightarrow>
    \<exists>s'. fwrite_loop maxlen put buf len count E_PSI_GEN_NONE s = (E_PSI_GEN_NONE, len, s') \<and> I s' \<and>
      file s' = file s @ take m (drop (unat count) buf)"
proof (induction m arbitrary: count s rule: less_induct)
  case (less m)
  let ?l = "chunk maxlen len count"
  have l: "unat ?l = min (unat maxlen) m" using less.prems(3) by (simp add: unat_chunk)
  have sum: "unat count + m = unat len"
    using less.prems(2,3) by (simp add: unat_sub word_le_nat_alt)
  show ?case
  proof (cases "m = 0")
    case True
    then have "?l = 0" "count = len" using l less.prems(2,3) by (simp_all add: unat_eq_0)
    then show ?thesis using True less.prems(1) by (subst fwrite_loop.simps) simp
  next
    case False
    then have pos: "0 < unat ?l" "unat ?l \<le> m"
      using l assms(2) by (simp_all add: word_less_nat_alt)
    let ?b = "take (unat ?l) (drop (unat count) buf)"
    obtain r s1 where s1: "put ?b s = (E_PSI_GEN_NONE, r, s1)" "I s1" "file s1 = file s @ ?b"
    proof -
      have "length ?b \<le> unat maxlen" using l by simp
      then show thesis using that assms(1) less.prems(1) unfolding writes_blocks_def by blast
    qed
    have cnt: "unat (count + ?l) = unat count + unat ?l"
      using sum pos(2) unsigned_less [of len, where ?'a = nat] by (simp add: unat_word_ariths)
    then have le: "count + ?l \<le> len" and m': "unat (len - (count + ?l)) = m - unat ?l"
      using sum pos by (simp_all add: word_le_nat_alt unat_sub)
    have split: "?b @ take (m - unat ?l) (drop (unat (count + ?l)) buf) = take m (drop (unat count) buf)"
      using pos(2) take_add [of "unat ?l" "m - unat ?l" "drop (unat count) buf"]
      by (simp add: cnt add.commute)
    have l0: "?l \<noteq> 0" using pos(1) by auto
    have less_m: "m - unat ?l < m" using pos by linarith
    obtain s' where s': "fwrite_loop maxlen put buf len (count + ?l) E_PSI_GEN_NONE s1 =
        (E_PSI_GEN_NONE, len, s')" "I s'"
        "file s' = file s1 @ take (m - unat ?l) (drop (unat (count + ?l)) buf)"
      using less.IH [OF less_m s1(2) le m'] by blast
    show ?thesis
    proof (cases "count + ?l < len")
      case True
      then show ?thesis
        using s' s1(1,3) l0 split by (subst fwrite_loop.simps) (simp add: Let_def)
    next
      case stop: False
      then have full: "count + ?l = len" using le by simp
      then have "m = unat ?l" using m' pos by simp
      then show ?thesis
        using s1 l0 stop full by (subst fwrite_loop.simps) (simp add: Let_def)
    qed
  qed
qed

definition writes_full :: "('s \<Rightarrow> bool) \<Rightarrow> ('s \<Rightarrow> bytes) \<Rightarrow> (bytes \<Rightarrow> 's \<Rightarrow> int \<times> 32 word \<times> 's) \<Rightarrow> bool" where
  "writes_full I file write \<longleftrightarrow>
     (\<forall>b s. I s \<and> length b \<le> RFSV_SENDLEN \<longrightarrow>
        (\<exists>s'. write b s = (E_PSI_GEN_NONE, of_nat (length b), s') \<and> I s' \<and> file s' = file s @ b))"

lemma copyTo_loop_writes:
  assumes "writes_full I file write"
  shows "I s \<Longrightarrow> \<exists>s'. copyTo_loop write None ip tot s = (E_PSI_GEN_NONE, s') \<and> I s' \<and>
    file s' = file s @ ip"
proof (induction "length ip" arbitrary: ip tot s rule: less_induct)
  case less
  define b where b: "b = take RFSV_SENDLEN ip"
  obtain s1 where s1: "write b s = (E_PSI_GEN_NONE, of_nat (length b), s1)" "I s1" "file s1 = file s @ b"
    using assms less.prems unfolding writes_full_def b by (metis length_take min.cobounded2)
  have step: "copyTo_loop write None ip tot s =
      (if length b = RFSV_SENDLEN
       then copyTo_loop write None (drop RFSV_SENDLEN ip) (tot + of_nat (length b)) s1
       else (E_PSI_GEN_NONE, s1))"
    by (subst copyTo_loop.simps) (simp only: b [symmetric] s1(1) Let_def prod.case cancelled_def
        option.case if_False simp_thms)
  show ?case
  proof (cases "length b = RFSV_SENDLEN")
    case True
    then have "length (drop RFSV_SENDLEN ip) < length ip" by (simp add: b RFSV_SENDLEN_def)
    from less.hyps [OF this s1(2), of "tot + of_nat (length b)"] obtain s' where
      "copyTo_loop write None (drop RFSV_SENDLEN ip) (tot + of_nat (length b)) s1 = (E_PSI_GEN_NONE, s')"
      "I s'" "file s' = file s1 @ drop RFSV_SENDLEN ip"
      by blast
    then show ?thesis using True s1(3) by (simp only: step if_True) (simp add: b)
  next
    case False
    then have "b = ip" by (simp add: b)
    with False s1 show ?thesis by (simp add: step)
  qed
qed

end
