(* ===== verification/Rfsv32_Files.thy ===== *)
theory Rfsv32_Files
  imports Rfsv32_Session Transfer_Loops
begin

text \<open>
  Reading, writing and copying files with \<open>RFSV32\<close> (\<open>fread\<close>, \<open>fwrite\<close>, \<open>copyFromPsion\<close>,
  \<open>copyToPsion\<close>, \<open>fseek\<close> of \<open>lib/rfsv32.cc\<close>) against a device that serves an open file.
\<close>

section \<open>Reading\<close>

text \<open>
  The device serves the file with handle \<open>h\<close>: \<open>rest\<close> is what follows the file's position. A
  read returns at most what was asked for, and nothing only at the end.
\<close>

definition reads ::
  "(int \<Rightarrow> bytes \<Rightarrow> 'w \<Rightarrow> int \<times> bytes \<times> 'w) \<Rightarrow> 32 word \<Rightarrow> ('w \<Rightarrow> bytes) \<Rightarrow> bool" where
  "reads answer h rest \<longleftrightarrow>
     (\<forall>n w. \<exists>k w'. answer READ_FILE (dword h @ dword n) w = (0, take k (rest w), w') \<and>
        k \<le> unat n \<and> rest w' = drop k (rest w) \<and> (n \<noteq> 0 \<and> rest w \<noteq> [] \<longrightarrow> 0 < k))"

lemma request_reads:
  assumes "serves so answer" and "reads answer h rest"
  shows "reads_blocks live (\<lambda>s. rest (r_world s)) maxlen E_PSI_GEN_NONE
    (\<lambda>n. request so READ_FILE (dword h @ dword n))"
  unfolding reads_blocks_def
proof (intro allI impI)
  fix n and s :: "'a rfsv"
  assume live: "live s"
  obtain k w' where k: "answer READ_FILE (dword h @ dword n) (r_world s) = (0, take k (rest (r_world s)), w')"
      "k \<le> unat n" "rest w' = drop k (rest (r_world s))" "n \<noteq> 0 \<and> rest (r_world s) \<noteq> [] \<longrightarrow> 0 < k"
    using assms(2) unfolding reads_def by blast
  obtain s1 where "request so READ_FILE (dword h @ dword n) s = (E_PSI_GEN_NONE, take k (rest (r_world s)), s1)"
      "live s1" "r_world s1 = w'"
    using request_ok [OF assms(1) live _ k(1)] by (auto simp: READ_FILE_def)
  then show "\<exists>k s'. request so READ_FILE (dword h @ dword n) s =
      (if n \<noteq> 0 \<and> rest (r_world s) = [] then E_PSI_GEN_NONE else E_PSI_GEN_NONE, take k (rest (r_world s)), s') \<and>
      live s' \<and> k \<le> unat n \<and> rest (r_world s') = drop k (rest (r_world s)) \<and>
      (n \<noteq> 0 \<and> rest (r_world s) \<noteq> [] \<longrightarrow> 0 < k)"
    using k(2-4) by auto
qed

lemma sendlen: "unat (of_nat RFSV_SENDLEN :: 32 word) = RFSV_SENDLEN" "(0 :: 32 word) < of_nat RFSV_SENDLEN"
  by (simp_all add: RFSV_SENDLEN_def)

lemma fread_reads:
  assumes "serves so answer" and "reads answer h rest"
  shows "reads_full live (\<lambda>s. rest (r_world s)) RFSV_SENDLEN (fread so h (of_nat RFSV_SENDLEN))"
  unfolding reads_full_def fread_def
proof (intro allI impI)
  fix s :: "'a rfsv"
  assume "live s"
  from fread_loop_reads [OF request_reads [OF assms] sendlen(2) this, of 0 "of_nat RFSV_SENDLEN" RFSV_SENDLEN "[]"]
  show "\<exists>s'. fread_loop (of_nat RFSV_SENDLEN) (\<lambda>n. request so READ_FILE (dword h @ dword n))
        (of_nat RFSV_SENDLEN) [] 0 s =
      Some (E_PSI_GEN_NONE, take RFSV_SENDLEN (rest (r_world s)),
        of_nat (length (take RFSV_SENDLEN (rest (r_world s)))), s') \<and>
      live s' \<and> rest (r_world s') = drop RFSV_SENDLEN (rest (r_world s))"
    by (auto simp: sendlen)
qed

section \<open>Copying to the local machine\<close>

lemma fopen_answered:
  assumes "serves so answer" and "live s"
    and "answer OPEN_FILE (dword attr @ name_arg (convertSlash name)) (r_world s) = (0, dword h, w1)"
  obtains s1 where "fopen so attr name handle s = (E_PSI_GEN_NONE, h, s1)" "live s1" "r_world s1 = w1"
proof -
  obtain s1 where "request so OPEN_FILE (dword attr @ name_arg (convertSlash name)) s =
      (E_PSI_GEN_NONE, dword h, s1)" "live s1" "r_world s1 = w1"
    using request_ok [OF assms(1,2) _ assms(3)] by (auto simp: OPEN_FILE_def)
  then show thesis using that by (simp add: fopen_def)
qed

text \<open>
  C4: copying a file from the Psion to the local machine returns success, and the local file
  holds the whole contents of the device's file, for any file length and however short the
  device's read replies are.
\<close>

theorem rfsv32_copy_from_psion:
  assumes "serves so answer" and "live s"
    and "answer OPEN_FILE (dword EPOC_OMODE_SHARE_READERS @ name_arg (convertSlash name)) (r_world s) =
      (0, dword h, w1)"
    and "reads answer h rest"
  shows "(\<exists>s'. copyFromPsion so name True None s = Some (E_PSI_GEN_NONE, Some (rest w1), s')) \<and>
    (\<exists>s'. copyFromPsion_fd so name None s = Some (E_PSI_GEN_NONE, rest w1, s'))"
proof -
  have attr: "EPOC_OMODE_SHARE_READERS OR EPOC_OMODE_BINARY = EPOC_OMODE_SHARE_READERS"
    by (simp add: EPOC_OMODE_BINARY_def)
  obtain s1 where s1: "fopen so EPOC_OMODE_SHARE_READERS name (so_junk so) s = (E_PSI_GEN_NONE, h, s1)"
      "live s1" "r_world s1 = w1"
    using fopen_answered [OF assms(1-3)] by blast
  obtain s2 where s2: "copyFrom_loop (fread so h (of_nat RFSV_SENDLEN)) None [] 0 s1 =
      Some (E_PSI_GEN_NONE, [] @ rest w1, s2)"
    using copyFrom_loop_reads [OF fread_reads [OF assms(1,4)] _ _ s1(2), of "[]" 0] unfolding s1(3)
    by (auto simp: RFSV_SENDLEN_def)
  show ?thesis
    using s2 by (auto simp: copyFromPsion_def copyFromPsion_fd_def attr s1(1) split: prod.split)
qed

text \<open>
  A device with one file, handle 7, that reads three bytes at a time: the state is the
  contents and the position.
\<close>

definition file_answer :: "int \<Rightarrow> bytes \<Rightarrow> bytes \<times> nat \<Rightarrow> int \<times> bytes \<times> (bytes \<times> nat)" where
  "file_answer cc data d =
     (if cc = OPEN_FILE then (0, dword 7, (fst d, 0))
      else if cc = CREATE_FILE then (0, dword 7, ([], 0))
      else if cc = READ_FILE then
        (let k = min 3 (unat (join32 (data ! 4) (data ! 5) (data ! 6) (data ! 7)))
         in (0, take k (drop (snd d) (fst d)), (fst d, snd d + k)))
      else if cc = WRITE_FILE then (0, [], (fst d @ drop 4 data, snd d))
      else (0, [], d))"

lemma join32_second_dword:
  "join32 ((dword h @ dword n) ! 4) ((dword h @ dword n) ! 5) ((dword h @ dword n) ! 6)
     ((dword h @ dword n) ! 7) = n"
  using join32_split [of "uint n"] by (simp add: nth_append, simp add: dword_def le32_def)

lemma file_answer_reads:
  "reads (device_answer file_answer) h (\<lambda>w. drop (snd (fst w)) (fst (fst w)))"
  unfolding reads_def
proof (intro allI)
  fix n :: "32 word" and w :: "(bytes \<times> nat) \<times> bytes"
  let ?k = "min 3 (unat n)"
  have "device_answer file_answer READ_FILE (dword h @ dword n) w =
      (0, take ?k (drop (snd (fst w)) (fst (fst w))), ((fst (fst w), snd (fst w) + ?k), []))"
    unfolding device_answer_def file_answer_def join32_second_dword
    by (simp add: READ_FILE_def OPEN_FILE_def CREATE_FILE_def Let_def)
  moreover have "n \<noteq> 0 \<longrightarrow> 0 < ?k" by (simp add: unat_gt_0)
  ultimately show "\<exists>k w'. device_answer file_answer READ_FILE (dword h @ dword n) w =
      (0, take k (drop (snd (fst w)) (fst (fst w))), w') \<and> k \<le> unat n \<and>
      drop (snd (fst w')) (fst (fst w')) = drop k (drop (snd (fst w)) (fst (fst w))) \<and>
      (n \<noteq> 0 \<and> drop (snd (fst w)) (fst (fst w)) \<noteq> [] \<longrightarrow> 0 < k)"
    by (intro exI [of _ ?k] exI [of _ "((fst (fst w), snd (fst w) + ?k), [])"])
       (auto simp: add.commute)
qed

theorem rfsv32_copy_from_psion_witness:
  "\<exists>s'. copyFromPsion (device_socket env_sample file_answer) ''C:/note'' True None
      (device_session (ascii ''a longer note'', 2)) =
    Some (E_PSI_GEN_NONE, Some (ascii ''a longer note''), s')"
proof -
  let ?s = "device_session (ascii ''a longer note'', 2)"
  have "device_answer file_answer OPEN_FILE
      (dword EPOC_OMODE_SHARE_READERS @ name_arg (convertSlash ''C:/note'')) (r_world ?s) =
      (0, dword 7, ((ascii ''a longer note'', 0), []))"
    by (simp add: device_answer_def file_answer_def)
  from rfsv32_copy_from_psion [OF device_socket_serves _ this file_answer_reads]
  show ?thesis by simp
qed

section \<open>Writing\<close>

text \<open>The device appends what is written to the file with handle \<open>h\<close>.\<close>

definition writes ::
  "(int \<Rightarrow> bytes \<Rightarrow> 'w \<Rightarrow> int \<times> bytes \<times> 'w) \<Rightarrow> 32 word \<Rightarrow> ('w \<Rightarrow> bytes) \<Rightarrow> bool" where
  "writes answer h file \<longleftrightarrow>
     (\<forall>b w. \<exists>r w'. answer WRITE_FILE (dword h @ b) w = (0, r, w') \<and> file w' = file w @ b)"

lemma request_writes:
  assumes "serves so answer" and "writes answer h file"
  shows "writes_blocks live (\<lambda>s. file (r_world s)) maxlen (\<lambda>b. request so WRITE_FILE (dword h @ b))"
  unfolding writes_blocks_def
proof (intro allI impI)
  fix b and s :: "'a rfsv"
  assume live: "live s"
  obtain r w' where w': "answer WRITE_FILE (dword h @ b) (r_world s) = (0, r, w')" "file w' = file (r_world s) @ b"
    using assms(2) unfolding writes_def by blast
  obtain s1 where "request so WRITE_FILE (dword h @ b) s = (E_PSI_GEN_NONE, r, s1)" "live s1" "r_world s1 = w'"
    using request_ok [OF assms(1) live _ w'(1)] by (auto simp: WRITE_FILE_def)
  then show "\<exists>r s'. request so WRITE_FILE (dword h @ b) s = (E_PSI_GEN_NONE, r, s') \<and> live s' \<and>
      file (r_world s') = file (r_world s) @ b"
    using w'(2) by auto
qed

lemma fwrite_writes:
  assumes "serves so answer" and "writes answer h file"
  shows "writes_full live (\<lambda>s. file (r_world s)) (\<lambda>b. fwrite so h b (of_nat (length b)))"
  unfolding writes_full_def fwrite_def
proof (intro allI impI, elim conjE)
  fix b :: bytes and s :: "'a rfsv"
  assume live: "live s" and "length b \<le> RFSV_SENDLEN"
  then have "unat (of_nat (length b) :: 32 word) = length b"
    by (simp add: unat_of_nat take_bit_eq_mod RFSV_SENDLEN_def)
  then show "\<exists>s'. fwrite_loop (of_nat RFSV_SENDLEN) (\<lambda>b. request so WRITE_FILE (dword h @ b)) b
      (of_nat (length b)) 0 E_PSI_GEN_NONE s = (E_PSI_GEN_NONE, of_nat (length b), s') \<and> live s' \<and>
      file (r_world s') = file (r_world s) @ b"
    using fwrite_loop_writes [OF request_writes [OF assms] sendlen(2) live, of 0 "of_nat (length b)" "length b" b]
    by auto
qed

section \<open>Copying to the Psion\<close>

text \<open>
  The target is opened: the device creates the file, or it cannot and replaces it; either
  way it is then empty.
\<close>

definition opens_target ::
  "(int \<Rightarrow> bytes \<Rightarrow> 'w \<Rightarrow> int \<times> bytes \<times> 'w) \<Rightarrow> string \<Rightarrow> 32 word \<Rightarrow> 'w \<Rightarrow> 'w \<Rightarrow> bool" where
  "opens_target answer name h w w1 \<longleftrightarrow>
     (let arg = dword EPOC_OMODE_READ_WRITE @ name_arg (convertSlash name)
      in answer CREATE_FILE arg w = (0, dword h, w1) \<or>
         (\<exists>e r w0. answer CREATE_FILE arg w = (e, r, w0) \<and> status32 e \<and>
            err2psierr e \<noteq> E_PSI_GEN_NONE \<and> answer REPLACE_FILE arg w0 = (0, dword h, w1)))"

lemma open_target_opens:
  assumes "serves so answer" and "live s" and "opens_target answer name h (r_world s) w1"
  obtains s1 where "open_target so name s = (E_PSI_GEN_NONE, h, s1)" "live s1" "r_world s1 = w1"
proof -
  let ?arg = "dword EPOC_OMODE_READ_WRITE @ name_arg (convertSlash name)"
  have attr: "EPOC_OMODE_BINARY OR EPOC_OMODE_SHARE_EXCLUSIVE OR EPOC_OMODE_READ_WRITE = EPOC_OMODE_READ_WRITE"
    by (simp add: EPOC_OMODE_BINARY_def EPOC_OMODE_SHARE_EXCLUSIVE_def)
  show thesis
  proof (cases "answer CREATE_FILE ?arg (r_world s) = (0, dword h, w1)")
    case True
    then obtain s1 where "request so CREATE_FILE ?arg s = (E_PSI_GEN_NONE, dword h, s1)" "live s1" "r_world s1 = w1"
      using request_ok [OF assms(1,2) _ True] by (auto simp: CREATE_FILE_def)
    then show thesis using that by (simp add: open_target_def fcreatefile_def attr)
  next
    case False
    then obtain e r w0 where e: "answer CREATE_FILE ?arg (r_world s) = (e, r, w0)" "status32 e"
        "err2psierr e \<noteq> E_PSI_GEN_NONE" "answer REPLACE_FILE ?arg w0 = (0, dword h, w1)"
      using assms(3) by (auto simp: opens_target_def Let_def)
    obtain n where n: "request so CREATE_FILE ?arg s =
        (err2psierr e, r, s\<lparr>r_operationId := n, r_world := w0\<rparr>)"
      using request_answered [OF assms(1,2) _ e(1,2)] by (auto simp: CREATE_FILE_def)
    let ?s = "s\<lparr>r_operationId := n, r_world := w0\<rparr>"
    have "live ?s" "r_world ?s = w0" using assms(2) by (simp_all add: live_def)
    then obtain s1 where "request so REPLACE_FILE ?arg ?s = (E_PSI_GEN_NONE, dword h, s1)" "live s1" "r_world s1 = w1"
      using request_ok [OF assms(1), of ?s REPLACE_FILE ?arg "dword h" w1] e(4) by (auto simp: REPLACE_FILE_def)
    then show thesis using that n e(3) by (simp add: open_target_def fcreatefile_def freplacefile_def attr)
  qed
qed

text \<open>
  C5: copying a local file to the Psion returns success and leaves exactly the local contents
  in the device's file, for any length (an empty file and a whole number of blocks included),
  whether the target was created or an existing one replaced.
\<close>

theorem rfsv32_copy_to_psion:
  assumes "serves so answer" and "live s"
    and "opens_target answer name h (r_world s) w1" and "file w1 = []"
    and "writes answer h file"
    and "\<And>w. \<exists>e r w'. answer CLOSE_HANDLE (dword h) w = (e, r, w') \<and> status32 e \<and> file w' = file w"
  shows "\<exists>s'. copyToPsion so (Some contents) name None s = (E_PSI_GEN_NONE, s') \<and>
    file (r_world s') = contents"
proof -
  obtain s1 where s1: "open_target so name s = (E_PSI_GEN_NONE, h, s1)" "live s1" "r_world s1 = w1"
    using open_target_opens [OF assms(1-3)] .
  obtain s2 where s2: "copyTo_loop (\<lambda>b. fwrite so h b (of_nat (length b))) None contents 0 s1 =
      (E_PSI_GEN_NONE, s2)" "live s2" "file (r_world s2) = contents"
    using copyTo_loop_writes [OF fwrite_writes [OF assms(1,5)] s1(2), of contents 0]
    unfolding s1(3) assms(4) by auto
  obtain e r w' where e: "answer CLOSE_HANDLE (dword h) (r_world s2) = (e, r, w')" "status32 e"
      "file w' = file (r_world s2)"
    using assms(6) by blast
  obtain n where "request so CLOSE_HANDLE (dword h) s2 =
      (err2psierr e, r, s2\<lparr>r_operationId := n, r_world := w'\<rparr>)"
    using request_answered [OF assms(1) s2(2) _ e(1,2)] by (auto simp: CLOSE_HANDLE_def)
  then show ?thesis
    using s1(1) s2 e(3) by (simp add: copyToPsion_def fclose_def)
qed

theorem rfsv32_copy_to_psion_witness:
  "\<exists>s'. copyToPsion (device_socket env_sample file_answer) (Some (replicate 5000 1)) ''C:/data'' None
      (device_session (ascii ''old'', 0)) = (E_PSI_GEN_NONE, s') \<and>
    fst (fst (r_world s')) = replicate 5000 1"
proof -
  let ?s = "device_session (ascii ''old'', 0)" and ?a = "device_answer file_answer"
  have target: "opens_target ?a ''C:/data'' 7 (r_world ?s) (([], 0), [])"
    by (simp add: opens_target_def device_answer_def file_answer_def CREATE_FILE_def OPEN_FILE_def Let_def)
  have app: "writes ?a 7 (\<lambda>w. fst (fst w))"
    by (auto simp: writes_def device_answer_def file_answer_def command_defs Let_def)
  have close: "\<exists>e r w'. ?a CLOSE_HANDLE (dword 7) w = (e, r, w') \<and> status32 e \<and> fst (fst w') = fst (fst w)" for w
    by (simp add: device_answer_def file_answer_def command_defs Let_def status32_def
        E_EPOC_DIR_FULL_def E_EPOC_NONE_def)
  show ?thesis
    by (rule rfsv32_copy_to_psion [OF device_socket_serves _ target _ app close]) simp_all
qed

section \<open>Seeking\<close>

text \<open>
  seeking backwards from the current position makes the file huge. The check for a
  position behind the end of the file takes the distance for the new position, as an
  unsigned number: after the device has moved back to \<open>realpos\<close>, \<open>fseek\<close> asks it to set the
  file's size to \<open>2^32 - k\<close> for a step of \<open>k\<close> bytes and seeks to that position.
\<close>

theorem rfsv32_seek_backwards:
  assumes "serves so answer" and "live s" and "sint pos < 0" and "realpos < pos"
    and "answer SEEK_FILE (dword pos @ dword h @ dword PSI_SEEK_CUR) (r_world s) = (0, dword realpos, w1)"
    and "answer SET_SIZE (dword h @ dword pos) w1 = (0, [], w2)"
    and "answer SEEK_FILE (dword pos @ dword h @ dword PSI_SEEK_SET) w2 = (0, dword newpos, w3)"
  shows "\<exists>s'. fseek so h pos PSI_SEEK_CUR old s = (E_PSI_GEN_NONE, newpos, s') \<and> r_world s' = w3 \<and>
    uint pos = 2 ^ 32 + sint pos"
proof -
  obtain s1 where s1: "request so SEEK_FILE (dword pos @ dword h @ dword PSI_SEEK_CUR) s =
      (E_PSI_GEN_NONE, dword realpos, s1)" "live s1" "r_world s1 = w1"
    using request_ok [OF assms(1,2) _ assms(5)] by (auto simp: SEEK_FILE_def)
  obtain s2 where s2: "request so SET_SIZE (dword h @ dword pos) s1 = (E_PSI_GEN_NONE, [], s2)"
      "live s2" "r_world s2 = w2"
    using request_ok [OF assms(1) s1(2), of SET_SIZE "dword h @ dword pos" "[]" w2] assms(6) s1(3)
    by (auto simp: SET_SIZE_def)
  obtain s3 where s3: "request so SEEK_FILE (dword pos @ dword h @ dword PSI_SEEK_SET) s2 =
      (E_PSI_GEN_NONE, dword newpos, s3)" "r_world s3 = w3"
    using request_ok [OF assms(1) s2(2), of SEEK_FILE "dword pos @ dword h @ dword PSI_SEEK_SET"
        "dword newpos" w3] assms(7) s2(3)
    by (auto simp: SEEK_FILE_def)
  have "uint pos = 2 ^ 32 + sint pos"
  proof -
    have "(sint pos + 2 ^ 32) mod 2 ^ 32 = sint pos + 2 ^ 32"
      using assms(3) sint_ge [of pos] by (intro mod_pos_pos_trivial) simp_all
    then show ?thesis by (simp add: uint_sint take_bit_eq_mod)
  qed
  then show ?thesis
    using assms(3,4) s1(1) s2(1) s3
    by (auto simp: fseek_def fseek_real_def PSI_SEEK_CUR_def PSI_SEEK_SET_def PSI_SEEK_END_def)
qed

text \<open>A device with one file of which only the size and the position are kept.\<close>

definition seek_answer :: "int \<Rightarrow> bytes \<Rightarrow> 32 word \<times> 32 word \<Rightarrow> int \<times> bytes \<times> (32 word \<times> 32 word)" where
  "seek_answer cc data d =
     (let x = join32 (data ! 0) (data ! 1) (data ! 2) (data ! 3);
          y = join32 (data ! 4) (data ! 5) (data ! 6) (data ! 7);
          p = (if data ! 8 = 1 then x else snd d + x)
      in if cc = SEEK_FILE then (0, dword p, (fst d, p))
      else if cc = SET_SIZE then (0, [], (y, snd d))
      else (0, [], d))"

theorem rfsv32_seek_backwards_witness:
  "\<exists>s'. fseek (device_socket env_sample seek_answer) 7 (- 10) PSI_SEEK_CUR 0 (device_session (100, 40)) =
      (E_PSI_GEN_NONE, - 10, s') \<and> r_world s' = ((- 10, - 10), []) \<and> uint (- 10 :: 32 word) = 2 ^ 32 - 10"
proof -
  let ?a = "device_answer seek_answer" and ?k = "- 10 :: 32 word"
  have 1: "?a SEEK_FILE (dword ?k @ dword 7 @ dword PSI_SEEK_CUR) (r_world (device_session (100, 40))) =
      (0, dword 30, ((100, 30), []))"
    by (simp add: device_answer_def seek_answer_def dword_def le32_def join32_def PSI_SEEK_CUR_def)
  have 2: "?a SET_SIZE (dword 7 @ dword ?k) ((100, 30), []) = (0, [], ((?k, 30), []))"
    by (simp add: device_answer_def seek_answer_def dword_def le32_def join32_def SET_SIZE_def SEEK_FILE_def)
  have 3: "?a SEEK_FILE (dword ?k @ dword 7 @ dword PSI_SEEK_SET) ((?k, 30), []) =
      (0, dword ?k, ((?k, ?k), []))"
    by (simp add: device_answer_def seek_answer_def dword_def le32_def join32_def PSI_SEEK_SET_def)
  have "sint ?k < 0" "(30 :: 32 word) < ?k" by simp_all
  from rfsv32_seek_backwards [OF device_socket_serves _ this 1 2 3, of env_sample 0] show ?thesis by simp
qed

section \<open>Status codes\<close>

lemma err2psierr_table:
  "list_all (\<lambda>n. inRange (e2psi ! n) \<longleftrightarrow> n \<noteq> 2) [0..<44]" "distinct e2psi" "length e2psi = 44"
  by code_simp+

text \<open>
  every status of the device becomes an error code that the error type knows, and no two
  statuses become the same one, with one exception: for \<open>E_EPOC_DIVIDE_BY_ZERO\<close> (-41) the code
  \<open>E_PSI_GEN_DIVIDE\<close> is not in the type's table, so that constructing it fails an assertion.
  A status outside the table of the protocol is reported as an internal error.
\<close>

theorem rfsv32_status_codes:
  "(inRange (err2psierr e) \<longleftrightarrow> e \<noteq> -41) \<and> inj_on err2psierr {-43..0} \<and>
   (err2psierr e = E_PSI_INTERNAL \<longleftrightarrow> e < -43 \<or> 0 < e)"
proof -
  have known: "inRange (e2psi ! n) \<longleftrightarrow> n \<noteq> 2" if "n < 44" for n
    using err2psierr_table(1) that by (simp add: list_all_iff)
  have val: "err2psierr x = e2psi ! nat (x + 43)" if "-43 \<le> x" "x \<le> 0" for x
    using that by (simp add: err2psierr_def E_EPOC_NONE_def E_EPOC_DIR_FULL_def)
  have out: "err2psierr x = E_PSI_INTERNAL" if "x < -43 \<or> 0 < x" for x
    using that by (auto simp: err2psierr_def E_EPOC_NONE_def E_EPOC_DIR_FULL_def)
  have internal: "inRange E_PSI_INTERNAL" "E_PSI_INTERNAL \<notin> set e2psi" by code_simp+
  have "inj_on err2psierr {-43..0}"
    using err2psierr_table(2,3) by (auto simp: inj_on_def val nth_eq_iff_index_eq)
  moreover have "inRange (err2psierr e) \<longleftrightarrow> e \<noteq> -41"
    using known [of "nat (e + 43)"] val [of e] out [of e] internal(1) by (cases "-43 \<le> e \<and> e \<le> 0") auto
  moreover have "err2psierr e = E_PSI_INTERNAL \<longleftrightarrow> e < -43 \<or> 0 < e"
  proof (cases "-43 \<le> e \<and> e \<le> 0")
    case True
    then have "nat (e + 43) < length e2psi" using err2psierr_table(3) by linarith
    then have "err2psierr e \<in> set e2psi" using True val by (metis nth_mem)
    then show ?thesis using True internal(2) by auto
  qed (use out in auto)
  ultimately show ?thesis by blast
qed

end
