(* ===== verification/Rfsv32_Dir.thy ===== *)
theory Rfsv32_Dir
  imports Rfsv32_Session
begin

text \<open>
  Directories and drives with \<open>RFSV32\<close> (\<open>readdir\<close>, \<open>dir\<close>, \<open>dircount\<close>, \<open>devlist\<close>, \<open>devinfo\<close>
  of \<open>lib/rfsv32.cc\<close>): a listing is what the device sent, and \<open>RFSV::drives\<close> through the
  interface it needs of the two drive requests.
\<close>

section \<open>Entries on the wire\<close>

record wire_entry =
  we_attr :: "32 word"
  we_size :: "32 word"
  we_timeLo :: "32 word"
  we_timeHi :: "32 word"
  we_UID :: "32 word \<times> 32 word \<times> 32 word"
  we_name :: bytes
  we_short :: bytes

definition padding :: "bytes \<Rightarrow> bytes" where
  "padding x = replicate (align4 (length x) - length x) 0"

definition entry_header :: "wire_entry \<Rightarrow> bytes" where
  "entry_header e =
     dword (of_nat (length (we_short e))) @ dword (we_attr e) @ dword (we_size e) @
     dword (we_timeLo e) @ dword (we_timeHi e) @ dword (fst (we_UID e)) @
     dword (fst (snd (we_UID e))) @ dword (snd (snd (we_UID e))) @
     dword (of_nat (length (we_name e)))"

definition encode_entry :: "wire_entry \<Rightarrow> bytes" where
  "encode_entry e = entry_header e @ we_name e @ padding (we_name e) @ we_short e @ padding (we_short e)"

definition wire_ok :: "wire_entry \<Rightarrow> bool" where
  "wire_ok e \<longleftrightarrow> length (we_name e) < 0x10000 \<and> length (we_short e) < 0x10000"

text \<open>What the library makes of it, from a default constructed entry.\<close>

definition entry_of :: "timeenv \<Rightarrow> psitime \<Rightarrow> string \<Rightarrow> wire_entry \<Rightarrow> plpdirent" where
  "entry_of env raw dirname e =
     \<lparr>de_size = we_size e, de_attr = attr2std (we_attr e), de_UID = we_UID e,
      de_time = PsiTime_copy env (PsiTime_psi env (we_timeHi e) (we_timeLo e) (PsiTime_unix env 0 raw)),
      de_attrstr = attr2String (attr2std (we_attr e)), de_dirname = dirname,
      de_name = chars (we_name e)\<rparr>"

lemma length_entry_header [simp]: "length (entry_header e) = 36"
  by (simp add: entry_header_def)

lemma align4_mult [simp]: "align4 (4 * n + m) = 4 * n + align4 m"
proof -
  have "(4 * n + m + 3) div 4 = n + (m + 3) div 4"
    using div_mult_self4 [of 4 n "m + 3"] by (simp add: add.assoc)
  then show ?thesis by (simp add: align4_def algebra_simps)
qed

lemma align4_ge [simp]: "m \<le> align4 m"
proof -
  have "m + 3 = align4 m + (m + 3) mod 4" by (simp add: align4_def)
  moreover have "(m + 3) mod 4 \<le> 3" by simp
  ultimately show ?thesis by linarith
qed

lemma align4_factor: obtains k where "align4 m = 4 * k"
  by (simp add: align4_def)

lemma length_padded [simp]: "length (x @ padding x) = align4 (length x)"
  by (simp add: padding_def)

lemma header_fields:
  "peekDWord so (entry_header e @ r) 0 = of_nat (length (we_short e))"
  "peekDWord so (entry_header e @ r) 4 = we_attr e"
  "peekDWord so (entry_header e @ r) 8 = we_size e"
  "peekDWord so (entry_header e @ r) 12 = we_timeLo e"
  "peekDWord so (entry_header e @ r) 16 = we_timeHi e"
  "peekDWord so (entry_header e @ r) 20 = fst (we_UID e)"
  "peekDWord so (entry_header e @ r) 24 = fst (snd (we_UID e))"
  "peekDWord so (entry_header e @ r) 28 = snd (snd (we_UID e))"
  "peekDWord so (entry_header e @ r) 32 = of_nat (length (we_name e))"
  by (simp_all add: entry_header_def)

lemma unat_length16: "n < 0x10000 \<Longrightarrow> unat (of_nat n :: 32 word) = n"
  by (simp add: unat_of_nat take_bit_eq_mod)

lemma length_encode:
  "length (encode_entry e) = 36 + align4 (length (we_name e)) + align4 (length (we_short e))"
proof -
  have "encode_entry e = entry_header e @ (we_name e @ padding (we_name e)) @ (we_short e @ padding (we_short e))"
    by (simp add: encode_entry_def)
  then show ?thesis by (simp only: length_append [of "entry_header e"] length_append [of "_ @ padding _"]
        length_padded length_entry_header add.assoc)
qed

lemma entry_end_encode:
  assumes "wire_ok e"
  shows "entry_end so (encode_entry e @ r) = length (encode_entry e)"
proof -
  have "align4 (36 + length (we_name e)) = 36 + align4 (length (we_name e))"
    using align4_mult [of 9] by simp
  moreover obtain k where "align4 (length (we_name e)) = 4 * k" by (rule align4_factor)
  moreover have "align4 (4 * (9 + k) + length (we_short e)) = 4 * (9 + k) + align4 (length (we_short e))"
    by (rule align4_mult)
  moreover have "entry_end so (encode_entry e @ r) =
      align4 (align4 (36 + length (we_name e)) + length (we_short e))"
    using assms by (simp add: entry_end_def encode_entry_def header_fields unat_length16 wire_ok_def)
  ultimately show ?thesis by (simp add: length_encode algebra_simps)
qed

lemma entry_name: "map (peek so (entry_header e @ we_name e @ r)) [36..<36 + length (we_name e)] = we_name e"
  by (rule nth_equalityI) (simp_all add: peek_def nth_append)

lemma readdir_entry:
  assumes "wire_ok x" and "dh_b dH = encode_entry x @ r"
  shows "readdir so dH (plpdirent_new (so_time so) raw) s =
    (E_PSI_GEN_NONE, dH\<lparr>dh_b := r\<rparr>, entry_of (so_time so) raw (dh_name dH) x, s)"
proof -
  have long: "\<not> length (encode_entry x @ r) < 17" "length (encode_entry x @ r) > 16"
    by (simp_all add: length_encode)
  have name: "map (peek so (encode_entry x @ r)) [36..<36 + unat (peekDWord so (encode_entry x @ r) 32)] = we_name x"
    using assms(1) entry_name [of so x] by (simp add: encode_entry_def header_fields unat_length16 wire_ok_def)
  have fields: "entry_fields so (encode_entry x @ r) (plpdirent_new (so_time so) raw)
      \<lparr>de_dirname := dh_name dH, de_name := chars (we_name x)\<rparr> = entry_of (so_time so) raw (dh_name dH) x"
    by (simp add: entry_fields_def entry_of_def plpdirent_new_def encode_entry_def header_fields)
  show ?thesis
    unfolding readdir_def assms(2)
    by (simp only: long if_False if_True Let_def prod.case simp_thms name fields entry_end_encode [OF assms(1)]
        append_eq_conv_conj [THEN iffD1, THEN conjunct2])
       simp
qed

lemma dir_loop_entries:
  assumes "\<forall>x\<in>set xs. wire_ok x"
  shows "dir_loop so (plpdirent_new (so_time so) raw)
      \<lparr>dh_h = h, dh_b = concat (map encode_entry xs), dh_name = name\<rparr> files s =
    dir_loop so (plpdirent_new (so_time so) raw) \<lparr>dh_h = h, dh_b = [], dh_name = name\<rparr>
      (files @ map (entry_of (so_time so) raw name) xs) s"
  using assms
proof (induction xs arbitrary: files)
  case (Cons x xs)
  let ?dH = "\<lparr>dh_h = h, dh_b = concat (map encode_entry (x # xs)), dh_name = name\<rparr>"
  have "readdir so ?dH (plpdirent_new (so_time so) raw) s =
      (E_PSI_GEN_NONE, ?dH\<lparr>dh_b := concat (map encode_entry xs)\<rparr>, entry_of (so_time so) raw name x, s)"
    using readdir_entry [of x ?dH "concat (map encode_entry xs)" so raw s] Cons.prems by simp
  then show ?case
    using Cons.IH [of "files @ [entry_of (so_time so) raw name x]"] Cons.prems
    by (subst dir_loop.simps) simp
qed simp

lemma count_entries_concat:
  "\<forall>x\<in>set xs. wire_ok x \<Longrightarrow>
   count_entries so (concat (map encode_entry xs)) n = n + of_nat (length xs)"
proof (induction xs arbitrary: n)
  case (Cons x xs)
  have "length (encode_entry x @ concat (map encode_entry xs)) > 16" by (simp add: length_encode)
  then show ?case
    using Cons by (subst count_entries.simps) (simp add: entry_end_encode add.assoc)
qed (simp add: count_entries.simps)

section \<open>Listings\<close>

text \<open>
  The device sends the listing in replies of one or more entries and then reports the end of
  the file; \<open>batches\<close> is what it still has to send.
\<close>

definition lists ::
  "(int \<Rightarrow> bytes \<Rightarrow> 'w \<Rightarrow> int \<times> bytes \<times> 'w) \<Rightarrow> 32 word \<Rightarrow> ('w \<Rightarrow> wire_entry list list) \<Rightarrow> bool" where
  "lists answer h batches \<longleftrightarrow>
     (\<forall>w. \<exists>w'. case batches w of
        [] \<Rightarrow> answer READ_DIR (dword h) w = (- 25, [], w')
      | xs # bs \<Rightarrow> answer READ_DIR (dword h) w = (0, concat (map encode_entry xs), w') \<and>
          batches w' = bs \<and> xs \<noteq> [] \<and> (\<forall>x\<in>set xs. wire_ok x))"

lemma err2psierr_eof: "err2psierr (- 25) = E_PSI_FILE_EOF" "status32 (- 25)"
  by (simp_all add: err2psierr_def status32_def E_EPOC_NONE_def E_EPOC_DIR_FULL_def e2psi_def)

lemma read_dir_end:
  assumes "serves so answer" and "lists answer h batches" and "live s" and "batches (r_world s) = []"
  obtains s' where "request so READ_DIR (dword h) s = (E_PSI_FILE_EOF, [], s')" "live s'"
proof -
  obtain w' where "answer READ_DIR (dword h) (r_world s) = (- 25, [], w')"
    using assms(2) [unfolded lists_def, rule_format, of "r_world s"] assms(4) by auto
  from request_answered [OF assms(1,3) _ this err2psierr_eof(2)] obtain n where
    "request so READ_DIR (dword h) s = (E_PSI_FILE_EOF, [], s\<lparr>r_operationId := n, r_world := w'\<rparr>)"
    unfolding err2psierr_eof(1) by (auto simp: READ_DIR_def)
  then show thesis by (rule that) (use assms(3) in \<open>simp add: live_def\<close>)
qed

lemma read_dir_batch:
  assumes "serves so answer" and "lists answer h batches" and "live s" and "batches (r_world s) = xs # bs"
  obtains s' where "request so READ_DIR (dword h) s = (E_PSI_GEN_NONE, concat (map encode_entry xs), s')"
    "live s'" "batches (r_world s') = bs" "xs \<noteq> []" "\<forall>x\<in>set xs. wire_ok x"
proof -
  have "\<exists>w'. answer READ_DIR (dword h) (r_world s) = (0, concat (map encode_entry xs), w') \<and>
      batches w' = bs \<and> xs \<noteq> [] \<and> (\<forall>x\<in>set xs. wire_ok x)"
    using assms(2) [unfolded lists_def, rule_format, of "r_world s"] assms(4) by simp
  then obtain w' where w': "answer READ_DIR (dword h) (r_world s) = (0, concat (map encode_entry xs), w')"
      "batches w' = bs" "xs \<noteq> []" "\<forall>x\<in>set xs. wire_ok x"
    by blast
  from request_ok [OF assms(1,3) _ w'(1)] show thesis using that w'(2-4) by (auto simp: READ_DIR_def)
qed

lemma dir_loop_lists:
  assumes "serves so answer" and "lists answer h batches"
  shows "live s \<Longrightarrow> \<exists>s' b. dir_loop so (plpdirent_new (so_time so) raw)
        \<lparr>dh_h = h, dh_b = [], dh_name = name\<rparr> files s =
      Some (E_PSI_FILE_EOF, files @ map (entry_of (so_time so) raw name) (concat (batches (r_world s))),
        \<lparr>dh_h = h, dh_b = b, dh_name = name\<rparr>, s')"
proof (induction "batches (r_world s)" arbitrary: files s)
  case Nil
  then obtain s' where "request so READ_DIR (dword h) s = (E_PSI_FILE_EOF, [], s')"
    using read_dir_end [OF assms Nil.prems] by metis
  moreover have "E_PSI_FILE_EOF \<noteq> E_PSI_GEN_NONE" by (simp add: errs_defs)
  ultimately show ?case
    using Nil.hyps [symmetric] by (subst dir_loop.simps) (simp add: readdir_def)
next
  case (Cons xs bs)
  let ?dH = "\<lparr>dh_h = h, dh_b = [], dh_name = name\<rparr>" and ?e0 = "plpdirent_new (so_time so) raw"
  obtain s1 where s1: "request so READ_DIR (dword h) s = (E_PSI_GEN_NONE, concat (map encode_entry xs), s1)"
      "live s1" "batches (r_world s1) = bs" "xs \<noteq> []" "\<forall>x\<in>set xs. wire_ok x"
    using read_dir_batch [OF assms Cons.prems] Cons.hyps(2) by metis
  let ?full = "\<lparr>dh_h = h, dh_b = concat (map encode_entry xs), dh_name = name\<rparr>"
  have long: "\<not> length (dh_b ?full) < 17"
    using s1(4) by (cases xs) (simp_all add: length_encode)
  have "dir_loop so ?e0 ?dH files s = dir_loop so ?e0 ?full files s1"
  proof -
    have "readdir so ?dH ?e0 s = readdir so ?full ?e0 s1"
      using s1(1) long by (simp add: readdir_def)
    then show ?thesis by (subst (1 2) dir_loop.simps) simp
  qed
  also have "\<dots> = dir_loop so ?e0 ?dH (files @ map (entry_of (so_time so) raw name) xs) s1"
    using dir_loop_entries [OF s1(5)] .
  finally show ?case
    using Cons.hyps(1) [OF s1(3) [symmetric] s1(2), of "files @ map (entry_of (so_time so) raw name) xs"]
      Cons.hyps(2) [symmetric] s1(3) by simp
qed

lemma dircount_loop_lists:
  assumes "serves so answer" and "lists answer h batches"
  shows "live s \<Longrightarrow> \<exists>s'. dircount_loop so h n s =
      Some (E_PSI_GEN_NONE, n + of_nat (length (concat (batches (r_world s)))), s')"
proof (induction "batches (r_world s)" arbitrary: n s)
  case Nil
  then obtain s' where s': "request so READ_DIR (dword h) s = (E_PSI_FILE_EOF, [], s')"
    using read_dir_end [OF assms Nil.prems] by metis
  have "\<not> E_PSI_FILE_EOF = E_PSI_FILE_DISC" by (simp add: errs_defs)
  with s' obtain s1 where "sendCommand so READ_DIR (dword h) s = (True, s1)" "getResponse so s1 = (E_PSI_FILE_EOF, [], s')"
    by (auto simp: request_def split: prod.splits if_splits)
  moreover have "E_PSI_FILE_EOF \<noteq> E_PSI_GEN_NONE" by (simp add: errs_defs)
  ultimately show ?case
    using Nil.hyps [symmetric] by (subst dircount_loop.simps) (simp split: prod.split)
next
  case (Cons xs bs)
  obtain s2 where s2: "request so READ_DIR (dword h) s = (E_PSI_GEN_NONE, concat (map encode_entry xs), s2)"
      "live s2" "batches (r_world s2) = bs" "xs \<noteq> []" "\<forall>x\<in>set xs. wire_ok x"
    using read_dir_batch [OF assms Cons.prems] Cons.hyps(2) by metis
  have "\<not> E_PSI_GEN_NONE = E_PSI_FILE_DISC" by (simp add: errs_defs)
  with s2(1) obtain s1 where "sendCommand so READ_DIR (dword h) s = (True, s1)"
      "getResponse so s1 = (E_PSI_GEN_NONE, concat (map encode_entry xs), s2)"
    by (auto simp: request_def split: prod.splits if_splits)
  then have "dircount_loop so h n s = dircount_loop so h (n + of_nat (length xs)) s2"
    using s2(5) by (subst dircount_loop.simps) (simp add: count_entries_concat)
  then show ?case
    using Cons.hyps(1) [OF s2(3) [symmetric] s2(2), of "n + of_nat (length xs)"]
      Cons.hyps(2) [symmetric] s2(3) by (simp add: add.assoc)
qed

lemma fopendir_answered:
  assumes "serves so answer" and "live s"
    and "answer OPEN_DIR (dword (attr OR EPOC_ATTR_GETUID) @ name_arg (convertSlash name)) (r_world s) =
      (0, dword h, w1)"
  obtains s1 where "fopendir so attr name handle s = (E_PSI_GEN_NONE, h, s1)" "live s1" "r_world s1 = w1"
proof -
  obtain s1 where "request so OPEN_DIR (dword (attr OR EPOC_ATTR_GETUID) @ name_arg (convertSlash name)) s =
      (E_PSI_GEN_NONE, dword h, s1)" "live s1" "r_world s1 = w1"
    using request_ok [OF assms(1,2) _ assms(3)] by (auto simp: OPEN_DIR_def)
  then show thesis using that by (simp add: fopendir_def)
qed

lemma dir_attributes:
  "std2attr (PSI_A_HIDDEN OR PSI_A_SYSTEM OR PSI_A_DIR) OR EPOC_ATTR_GETUID = 0x10000016"
  "(EPOC_ATTR_HIDDEN OR EPOC_ATTR_SYSTEM OR EPOC_ATTR_DIRECTORY) OR EPOC_ATTR_GETUID = 0x10000016"
  by (simp_all add: std2attr_def translate_def psi_attr_defs epoc_attr_defs)

text \<open>
  C7: a directory listing holds exactly the entries that the device sent, in order, with
  their sizes, attributes, times, UIDs and long names, however the device spreads them over
  its replies and whatever the lengths of the names; \<open>dircount\<close> counts the same entries. Both
  end when the device reports the end of the listing.
\<close>

theorem rfsv32_dir_lists:
  assumes "serves so answer" and "live s"
    and "answer OPEN_DIR (dword 0x10000016 @ name_arg (convertSlash name)) (r_world s) = (0, dword h, w1)"
    and "lists answer h batches"
  shows "(\<exists>s'. dir so raw name s =
      Some (E_PSI_GEN_NONE, map (entry_of (so_time so) raw name) (concat (batches w1)), s')) \<and>
    (\<exists>s'. dircount so name s = Some (E_PSI_GEN_NONE, of_nat (length (concat (batches w1))), s'))"
proof
  obtain s1 where s1: "fopendir so (std2attr (PSI_A_HIDDEN OR PSI_A_SYSTEM OR PSI_A_DIR)) name (so_junk so) s =
      (E_PSI_GEN_NONE, h, s1)" "live s1" "r_world s1 = w1"
    using fopendir_answered [OF assms(1,2) assms(3) [folded dir_attributes(1)]] .
  obtain s2 b where s2: "dir_loop so (plpdirent_new (so_time so) raw) \<lparr>dh_h = h, dh_b = [], dh_name = name\<rparr> [] s1 =
      Some (E_PSI_FILE_EOF, map (entry_of (so_time so) raw name) (concat (batches w1)),
        \<lparr>dh_h = h, dh_b = b, dh_name = name\<rparr>, s2)"
    using dir_loop_lists [OF assms(1,4) s1(2), of raw name "[]"] unfolding s1(3) by auto
  show "\<exists>s'. dir so raw name s =
      Some (E_PSI_GEN_NONE, map (entry_of (so_time so) raw name) (concat (batches w1)), s')"
    using s2 by (simp add: dir_def opendir_def s1(1) split: prod.split)
  obtain s3 where s3: "fopendir so (EPOC_ATTR_HIDDEN OR EPOC_ATTR_SYSTEM OR EPOC_ATTR_DIRECTORY) name (so_junk so) s =
      (E_PSI_GEN_NONE, h, s3)" "live s3" "r_world s3 = w1"
    using fopendir_answered [OF assms(1,2) assms(3) [folded dir_attributes(2)]] .
  show "\<exists>s'. dircount so name s = Some (E_PSI_GEN_NONE, of_nat (length (concat (batches w1))), s')"
    using dircount_loop_lists [OF assms(1,4) s3(2), of 0] unfolding s3(3) by (simp add: dircount_def s3(1))
qed

text \<open>A device with one directory, handle 5, that sends its entries two at a time.\<close>

definition two_at_a_time :: "wire_entry list \<Rightarrow> wire_entry list list" where
  "two_at_a_time es = (if length es \<le> 2 then (if es = [] then [] else [es]) else [take 2 es, drop 2 es])"

definition batch_ok :: "wire_entry list \<Rightarrow> bool" where
  "batch_ok xs \<longleftrightarrow> xs \<noteq> [] \<and> list_all wire_ok xs"

definition dir_answer :: "wire_entry list \<Rightarrow> int \<Rightarrow> bytes \<Rightarrow> wire_entry list list \<Rightarrow>
    int \<times> bytes \<times> wire_entry list list" where
  "dir_answer es cc data d =
     (if cc = OPEN_DIR then (0, dword 5, two_at_a_time es)
      else if cc = READ_DIR then
        (case d of [] \<Rightarrow> (- 25, [], []) | xs # bs \<Rightarrow>
           if batch_ok xs then (0, concat (map encode_entry xs), bs) else (- 25, [], d))
      else (0, [], d))"

definition dir_sample :: "wire_entry list" where
  "dir_sample =
     [\<lparr>we_attr = 0x20, we_size = 11, we_timeLo = 1, we_timeHi = 2, we_UID = (3, 4, 5),
       we_name = ascii ''note'', we_short = ascii ''NOTE''\<rparr>,
      \<lparr>we_attr = 0x10, we_size = 0, we_timeLo = 1, we_timeHi = 2, we_UID = (0, 0, 0),
       we_name = ascii ''Documents'', we_short = ascii ''DOCUME''\<rparr>,
      \<lparr>we_attr = 0x21, we_size = 70000, we_timeLo = 9, we_timeHi = 2, we_UID = (3, 4, 6),
       we_name = ascii ''a'', we_short = []\<rparr>]"

lemma dir_answer_lists:
  "lists (device_answer (dir_answer es)) h (\<lambda>w. takeWhile batch_ok (fst w))"
  unfolding lists_def
proof
  fix w :: "wire_entry list list \<times> bytes"
  have "READ_DIR \<noteq> OPEN_DIR" by (simp add: READ_DIR_def OPEN_DIR_def)
  then show "\<exists>w'. case takeWhile batch_ok (fst w) of
      [] \<Rightarrow> device_answer (dir_answer es) READ_DIR (dword h) w = (- 25, [], w')
    | xs # bs \<Rightarrow> device_answer (dir_answer es) READ_DIR (dword h) w =
          (0, concat (map encode_entry xs), w') \<and>
        takeWhile batch_ok (fst w') = bs \<and> xs \<noteq> [] \<and> (\<forall>x\<in>set xs. wire_ok x)"
    by (cases "fst w") (auto simp: device_answer_def dir_answer_def batch_ok_def list_all_iff)
qed

theorem rfsv32_dir_lists_witness:
  "\<exists>s'. dircount (device_socket env_sample (dir_answer dir_sample)) ''C:/'' (device_session []) =
      Some (E_PSI_GEN_NONE, 3, s')"
proof -
  let ?a = "device_answer (dir_answer dir_sample)" and ?s = "device_session []"
  have "?a OPEN_DIR (dword 0x10000016 @ name_arg (convertSlash ''C:/'')) (r_world ?s) =
      (0, dword 5, (two_at_a_time dir_sample, []))"
    by (simp add: device_answer_def dir_answer_def)
  from rfsv32_dir_lists [OF device_socket_serves _ this dir_answer_lists, of env_sample "time_sample 0"]
  show ?thesis
    by (simp add: two_at_a_time_def dir_sample_def batch_ok_def wire_ok_def)
qed

end
