(* ===== verification/Rfsv16.thy ===== *)
theory Rfsv16
  imports Rfsv32
begin

text \<open>
  Remote file access for SIBO devices, \<open>lib/rfsv16.cc\<close>: every operation of the class, in the
  style of \<open>Rfsv32\<close> and over the same connection and object state. The names of the methods
  carry the suffix 16. As on EPOC the loops that only the device ends are partial functions.
\<close>

section \<open>Constants of the protocol\<close>

definition SIBO_FOPEN :: int where "SIBO_FOPEN = 0"
definition SIBO_FCLOSE :: int where "SIBO_FCLOSE = 2"
definition SIBO_FREAD :: int where "SIBO_FREAD = 4"
definition SIBO_FDIRREAD :: int where "SIBO_FDIRREAD = 6"
definition SIBO_FDEVICEREAD :: int where "SIBO_FDEVICEREAD = 8"
definition SIBO_FWRITE :: int where "SIBO_FWRITE = 10"
definition SIBO_FSEEK :: int where "SIBO_FSEEK = 12"
definition SIBO_FSETEOF :: int where "SIBO_FSETEOF = 16"
definition SIBO_RENAME :: int where "SIBO_RENAME = 18"
definition SIBO_DELETE :: int where "SIBO_DELETE = 20"
definition SIBO_FINFO :: int where "SIBO_FINFO = 22"
definition SIBO_SFSTAT :: int where "SIBO_SFSTAT = 24"
definition SIBO_PARSE :: int where "SIBO_PARSE = 26"
definition SIBO_MKDIR :: int where "SIBO_MKDIR = 28"
definition SIBO_OPENUNIQUE :: int where "SIBO_OPENUNIQUE = 30"
definition SIBO_STATUSDEVICE :: int where "SIBO_STATUSDEVICE = 32"
definition SIBO_PATHTEST :: int where "SIBO_PATHTEST = 34"
definition SIBO_SFDATE :: int where "SIBO_SFDATE = 40"
definition SIBO_RESPONSE :: int where "SIBO_RESPONSE = 42"

lemmas sibo_commands =
  SIBO_FOPEN_def SIBO_FCLOSE_def SIBO_FREAD_def SIBO_FDIRREAD_def SIBO_FDEVICEREAD_def
  SIBO_FWRITE_def SIBO_FSEEK_def SIBO_FSETEOF_def SIBO_RENAME_def SIBO_DELETE_def
  SIBO_FINFO_def SIBO_SFSTAT_def SIBO_PARSE_def SIBO_MKDIR_def SIBO_OPENUNIQUE_def
  SIBO_STATUSDEVICE_def SIBO_PATHTEST_def SIBO_SFDATE_def SIBO_RESPONSE_def

definition P_FCREATE :: "32 word" where "P_FCREATE = 0x0001"
definition P_FREPLACE :: "32 word" where "P_FREPLACE = 0x0002"
definition P_FAPPEND :: "32 word" where "P_FAPPEND = 0x0003"
definition P_FUNIQUE :: "32 word" where "P_FUNIQUE = 0x0004"
definition P_FSTREAM :: "32 word" where "P_FSTREAM = 0x0000"
definition P_FDIR :: "32 word" where "P_FDIR = 0x0030"
definition P_FDEVICE :: "32 word" where "P_FDEVICE = 0x0050"
definition P_FUPDATE :: "32 word" where "P_FUPDATE = 0x0100"
definition P_FRANDOM :: "32 word" where "P_FRANDOM = 0x0200"
definition P_FSHARE :: "32 word" where "P_FSHARE = 0x0400"
definition P_FAWRITE :: "32 word" where "P_FAWRITE = 0x0001"
definition P_FAHIDDEN :: "32 word" where "P_FAHIDDEN = 0x0002"
definition P_FASYSTEM :: "32 word" where "P_FASYSTEM = 0x0004"
definition P_FAVOLUME :: "32 word" where "P_FAVOLUME = 0x0008"
definition P_FADIR :: "32 word" where "P_FADIR = 0x0010"
definition P_FAMOD :: "32 word" where "P_FAMOD = 0x0020"
definition P_FAREAD :: "32 word" where "P_FAREAD = 0x0100"
definition P_FAEXEC :: "32 word" where "P_FAEXEC = 0x0200"
definition P_FASTREAM :: "32 word" where "P_FASTREAM = 0x0400"
definition P_FATEXT :: "32 word" where "P_FATEXT = 0x0800"

lemmas sibo_flags =
  P_FCREATE_def P_FREPLACE_def P_FAPPEND_def P_FUNIQUE_def P_FSTREAM_def P_FDIR_def
  P_FDEVICE_def P_FUPDATE_def P_FRANDOM_def P_FSHARE_def P_FAWRITE_def P_FAHIDDEN_def
  P_FASYSTEM_def P_FAVOLUME_def P_FADIR_def P_FAMOD_def P_FAREAD_def P_FAEXEC_def
  P_FASTREAM_def P_FATEXT_def

definition RFSV16_MAXDATALEN :: "32 word" where "RFSV16_MAXDATALEN = 852"

definition PSI_O_CREAT :: "32 word" where "PSI_O_CREAT = 0x40"
definition PSI_O_TRUNC :: "32 word" where "PSI_O_TRUNC = 0x200"
definition PSI_O_APPEND :: "32 word" where "PSI_O_APPEND = 0x400"

section \<open>Translations\<close>

definition attr2std16 :: "32 word \<Rightarrow> 32 word" where
  "attr2std16 attr =
     (if attr AND P_FAWRITE = 0 then PSI_A_RDONLY else 0) OR
     translate
       [(P_FAHIDDEN, PSI_A_HIDDEN), (P_FASYSTEM, PSI_A_SYSTEM), (P_FADIR, PSI_A_DIR),
        (P_FAMOD, PSI_A_ARCHIVE), (P_FAVOLUME, PSI_A_VOLUME), (P_FAREAD, PSI_A_READ),
        (P_FAEXEC, PSI_A_EXEC), (P_FASTREAM, PSI_A_STREAM), (P_FATEXT, PSI_A_TEXT)] attr OR
     PSI_A_NORMAL"

definition std2attr16 :: "32 word \<Rightarrow> 32 word" where
  "std2attr16 attr =
     (if attr AND PSI_A_RDONLY = 0 then P_FAWRITE else 0) OR
     translate
       [(PSI_A_HIDDEN, P_FAHIDDEN), (PSI_A_SYSTEM, P_FASYSTEM), (PSI_A_DIR, P_FADIR),
        (PSI_A_ARCHIVE, P_FAMOD), (PSI_A_VOLUME, P_FAVOLUME), (PSI_A_READ, P_FAREAD),
        (PSI_A_EXEC, P_FAEXEC), (PSI_A_STREAM, P_FASTREAM), (PSI_A_TEXT, P_FATEXT)] attr"

definition opMode16 :: "32 word \<Rightarrow> 32 word" where
  "opMode16 mode =
     (if mode AND 3 = PSI_O_RDONLY then 0 else P_FUPDATE) OR
     (if mode AND PSI_O_TRUNC \<noteq> 0 then P_FREPLACE else 0) OR
     (if mode AND PSI_O_CREAT \<noteq> 0 then P_FCREATE else 0) OR
     (if mode AND PSI_O_APPEND \<noteq> 0 then P_FAPPEND else 0) OR
     (if mode AND 3 = PSI_O_RDONLY then (if mode AND PSI_O_EXCL \<noteq> 0 then 0 else P_FSHARE) else 0)"

section \<open>Requests and replies\<close>

definition sendCommand16 :: "'w socket \<Rightarrow> int \<Rightarrow> bytes \<Rightarrow> 'w rfsv \<Rightarrow> bool \<times> 'w rfsv" where
  "sendCommand16 so cc data s =
     (let s = (if r_status s = E_PSI_FILE_DISC then rfsv_reconnect so s else s)
      in if r_status s = E_PSI_FILE_DISC then (False, s)
      else let a = le16 cc @ le16 (int (length data)) @ data;
               (result, s) = rfsv_send so a s
      in if result then (True, s)
      else let (result, s) = rfsv_send so a (rfsv_reconnect so s)
      in if result then (True, s) else (False, s\<lparr>r_status := E_PSI_FILE_DISC\<rparr>))"

definition getResponse16 :: "'w socket \<Rightarrow> 'w rfsv \<Rightarrow> int \<times> bytes \<times> 'w rfsv" where
  "getResponse16 so s =
     (case rfsv_recv so s of
        (None, s) \<Rightarrow> (E_PSI_FILE_DISC, [], s\<lparr>r_status := E_PSI_FILE_DISC\<rparr>)
      | (Some data, s) \<Rightarrow>
          if peekWord so data 0 = 0x2a \<and> uint (peekWord so data 2) = int (length data) - 4
          then (sint (peekWord so data 4), drop 6 data, s)
          else (E_PSI_FILE_DISC, data, s\<lparr>r_status := E_PSI_FILE_DISC\<rparr>))"

text \<open>
  The two calls as most operations combine them, and as \<open>pathtest\<close>, \<open>mkdir\<close>, \<open>rename\<close> and
  \<open>remove\<close> do, which wait for a reply also when the request was not sent.
\<close>

definition request16 :: "'w socket \<Rightarrow> int \<Rightarrow> bytes \<Rightarrow> 'w rfsv \<Rightarrow> int \<times> bytes \<times> 'w rfsv" where
  "request16 so cc data s =
     (let (ok, s) = sendCommand16 so cc data s
      in if ok then getResponse16 so s else (E_PSI_FILE_DISC, data, s))"

definition request16_unchecked :: "'w socket \<Rightarrow> int \<Rightarrow> bytes \<Rightarrow> 'w rfsv \<Rightarrow> int \<times> bytes \<times> 'w rfsv" where
  "request16_unchecked so cc data s = (let (_, s) = sendCommand16 so cc data s in getResponse16 so s)"

definition name_argT :: "string \<Rightarrow> bytes" where
  "name_argT n = ascii n @ [0]"

section \<open>Files\<close>

definition fopen16 :: "'w socket \<Rightarrow> 32 word \<Rightarrow> string \<Rightarrow> 32 word \<Rightarrow> 'w rfsv \<Rightarrow> int \<times> 32 word \<times> 'w rfsv" where
  "fopen16 so attr name handle s =
     (let (res, a, s) = request16 so SIBO_FOPEN
        (le16 (uint ((P_FRANDOM OR attr) AND 0xFFFF)) @ name_argT (convertSlash name)) s
      in if res = 0 then (E_PSI_GEN_NONE, ucast (peekWord so a 0), s) else (res, handle, s))"

definition mktemp16 :: "'w socket \<Rightarrow> 32 word \<Rightarrow> string \<Rightarrow> 'w rfsv \<Rightarrow> int \<times> 32 word \<times> string \<times> 'w rfsv" where
  "mktemp16 so handle tmpname s =
     (let (res, a, s) = request16 so SIBO_OPENUNIQUE (le16 (uint P_FUNIQUE) @ name_argT ''TMP'') s
      in if res = E_PSI_GEN_NONE then (res, ucast (peekWord so a 0), peekString so a 2, s)
      else (res, handle, tmpname, s))"

definition fcreatefile16 :: "'w socket \<Rightarrow> 32 word \<Rightarrow> string \<Rightarrow> 32 word \<Rightarrow> 'w rfsv \<Rightarrow> int \<times> 32 word \<times> 'w rfsv" where
  "fcreatefile16 so attr name handle s = fopen16 so (attr OR P_FCREATE) name handle s"

definition freplacefile16 :: "'w socket \<Rightarrow> 32 word \<Rightarrow> string \<Rightarrow> 32 word \<Rightarrow> 'w rfsv \<Rightarrow> int \<times> 32 word \<times> 'w rfsv" where
  "freplacefile16 so attr name handle s = fopen16 so (attr OR P_FREPLACE) name handle s"

definition fopendir16 :: "'w socket \<Rightarrow> string \<Rightarrow> 32 word \<Rightarrow> 'w rfsv \<Rightarrow> int \<times> 32 word \<times> 'w rfsv" where
  "fopendir16 so name handle s = fopen16 so P_FDIR name handle s"

definition fclose16 :: "'w socket \<Rightarrow> 32 word \<Rightarrow> 'w rfsv \<Rightarrow> int \<times> 'w rfsv" where
  "fclose16 so handle s =
     (let (res, a, s) = request16 so SIBO_FCLOSE (le16 (uint (handle AND 0xFFFF))) s in (res, s))"

definition fgetmtime16 :: "'w socket \<Rightarrow> string \<Rightarrow> psitime \<Rightarrow> 'w rfsv \<Rightarrow> int \<times> psitime \<times> 'w rfsv" where
  "fgetmtime16 so name mtime s =
     (let (res, a, s) = request16 so SIBO_FINFO (name_argT (convertSlash name)) s
      in if res \<noteq> E_PSI_GEN_NONE then (res, mtime, s)
      else if length a = 16 then (res, setSiboTime (so_time so) (peekDWord so a 8) mtime, s)
      else (E_PSI_GEN_FAIL, mtime, s))"

definition fsetmtime16 :: "'w socket \<Rightarrow> string \<Rightarrow> psitime \<Rightarrow> 'w rfsv \<Rightarrow> int \<times> 'w rfsv" where
  "fsetmtime16 so name mtime s =
     (let (res, a, s) = request16 so SIBO_SFDATE
        (dword (getSiboTime (so_time so) mtime) @ name_argT (convertSlash name)) s
      in (res, s))"

definition fgetattr16 :: "'w socket \<Rightarrow> string \<Rightarrow> 32 word \<Rightarrow> 'w rfsv \<Rightarrow> int \<times> 32 word \<times> 'w rfsv" where
  "fgetattr16 so name attr s =
     (let (res, a, s) = request16 so SIBO_FINFO (name_argT (convertSlash name)) s
      in if res \<noteq> E_PSI_GEN_NONE then (res, attr, s)
      else if length a = 16 then (res, attr2std16 (ucast (peekWord so a 2)), s)
      else (E_PSI_GEN_FAIL, attr, s))"

definition fgeteattr16 :: "'w socket \<Rightarrow> string \<Rightarrow> plpdirent \<Rightarrow> 'w rfsv \<Rightarrow> int \<times> plpdirent \<times> 'w rfsv" where
  "fgeteattr16 so name e s =
     (let n = convertSlash name; (res, a, s) = request16 so SIBO_FINFO (name_argT n) s
      in if res \<noteq> E_PSI_GEN_NONE then (res, e, s)
      else if length a = 16 then
        (let attr = attr2std16 (ucast (peekWord so a 2))
         in (res, e\<lparr>de_name := map toupper (last_component n), de_attr := attr,
               de_size := peekDWord so a 4,
               de_time := setSiboTime (so_time so) (peekDWord so a 8) (de_time e),
               de_UID := (0, 0, 0), de_attrstr := attr2String attr\<rparr>, s))
      else (E_PSI_GEN_FAIL, e, s))"

definition fsetattr16 :: "'w socket \<Rightarrow> string \<Rightarrow> 32 word \<Rightarrow> 32 word \<Rightarrow> 'w rfsv \<Rightarrow> int \<times> 'w rfsv" where
  "fsetattr16 so name seta unseta s =
     (let statusword = (std2attr16 seta AND NOT (std2attr16 unseta)) XOR 1;
          bitmask = std2attr16 seta OR std2attr16 unseta;
          (res, a, s) = request16 so SIBO_SFSTAT
            (le16 (uint (statusword AND 0xFFFF)) @ le16 (uint (bitmask AND 0xFFFF)) @ name_argT name) s
      in (res, s))"

definition pathtest16 :: "'w socket \<Rightarrow> string \<Rightarrow> 'w rfsv \<Rightarrow> int \<times> 'w rfsv" where
  "pathtest16 so path s =
     (let (res, a, s) = request16_unchecked so SIBO_PATHTEST (name_argT (convertSlash path)) s in (res, s))"

definition fsetsize16 :: "'w socket \<Rightarrow> 32 word \<Rightarrow> 32 word \<Rightarrow> 'w rfsv \<Rightarrow> int \<times> 'w rfsv" where
  "fsetsize16 so handle sz s =
     (let (res, a, s) = request16 so SIBO_FSETEOF (le16 (uint (handle AND 0xffff)) @ dword sz) s in (res, s))"

definition mkdir16 :: "'w socket \<Rightarrow> string \<Rightarrow> 'w rfsv \<Rightarrow> int \<times> 'w rfsv" where
  "mkdir16 so name s =
     (let (res, a, s) = request16_unchecked so SIBO_MKDIR (name_argT (convertSlash name)) s in (res, s))"

definition rename16 :: "'w socket \<Rightarrow> string \<Rightarrow> string \<Rightarrow> 'w rfsv \<Rightarrow> int \<times> 'w rfsv" where
  "rename16 so oldName newName s =
     (let (res, a, s) = request16_unchecked so SIBO_RENAME
        (name_argT (convertSlash oldName) @ name_argT (convertSlash newName)) s
      in (res, s))"

definition remove16 :: "'w socket \<Rightarrow> string \<Rightarrow> 'w rfsv \<Rightarrow> int \<times> 'w rfsv" where
  "remove16 so name s =
     (let (res, a, s) = request16_unchecked so SIBO_DELETE (name_argT (convertSlash name)) s in (res, s))"

definition rmdir16 :: "'w socket \<Rightarrow> string \<Rightarrow> 'w rfsv \<Rightarrow> int \<times> 'w rfsv" where
  "rmdir16 so path s =
     (if path = [] then (E_PSI_FILE_NAME, s)
      else let path = (if last path = CHR 0x5C then butlast path else path);
               (res, attr, s) = fgetattr16 so path (so_junk so) s
      in if res \<noteq> E_PSI_GEN_NONE then (res, s)
      else if attr AND PSI_A_DIR = 0 then (E_PSI_FILE_DIR, s)
      else remove16 so path s)"

definition setVolumeName16 :: "char \<Rightarrow> string \<Rightarrow> 'w rfsv \<Rightarrow> int \<times> 'w rfsv" where
  "setVolumeName16 drive name s = (E_PSI_GEN_FAIL, s)"

section \<open>Directories\<close>

definition opendir16 :: "'w socket \<Rightarrow> 32 word \<Rightarrow> string \<Rightarrow> 'w rfsv \<Rightarrow> int \<times> dirhandle \<times> 'w rfsv" where
  "opendir16 so attr name s =
     (let (res, handle, s) = fopendir16 so name (so_junk so) s
      in (res, \<lparr>dh_h = handle, dh_b = [], dh_name = name\<rparr>, s))"

definition closedir16 :: "'w socket \<Rightarrow> dirhandle \<Rightarrow> 'w rfsv \<Rightarrow> int \<times> 'w rfsv" where
  "closedir16 so dH s = fclose16 so (dh_h dH) s"

text \<open>The first part of \<open>readdir\<close>: the error code and the buffer; the length word is checked.\<close>

definition readdir16_fill :: "'w socket \<Rightarrow> dirhandle \<Rightarrow> 'w rfsv \<Rightarrow> int \<times> bytes \<times> 'w rfsv" where
  "readdir16_fill so dH s =
     (if length (dh_b dH) < 17 then
        (let (res, b, s) = request16 so SIBO_FDIRREAD (le16 (uint (dh_h dH AND 0xFFFF))) s
         in if res \<noteq> E_PSI_GEN_NONE then (res, b, s)
         else let bufferLen = unat (peekWord so b 0); b = drop 2 b
         in (if length b \<noteq> bufferLen then E_PSI_GEN_FAIL else res, b, s))
      else (E_PSI_GEN_NONE, dh_b dH, s))"

definition readdir16 :: "'w socket \<Rightarrow> dirhandle \<Rightarrow> plpdirent \<Rightarrow> 'w rfsv \<Rightarrow> int \<times> dirhandle \<times> plpdirent \<times> 'w rfsv" where
  "readdir16 so dH e s =
     (let (res, b, s) = readdir16_fill so dH s
      in if res = E_PSI_GEN_NONE \<and> length b > 16 then
           (if peekWord so b 0 \<noteq> 2 then (E_PSI_GEN_FAIL, dH\<lparr>dh_b := b\<rparr>, e, s)
            else let attr = attr2std16 (ucast (peekWord so b 2)); name = peekString so b 16;
                     e = e\<lparr>de_attr := attr, de_size := peekDWord so b 4,
                       de_time := setSiboTime (so_time so) (peekDWord so b 8) (de_time e),
                       de_dirname := dh_name dH, de_name := name, de_attrstr := attr2String attr\<rparr>
            in (res, dH\<lparr>dh_b := drop (17 + length name) b\<rparr>, e, s))
         else (res, dH\<lparr>dh_b := b\<rparr>, e, s))"

partial_function (option) dir_loop16 ::
  "'w socket \<Rightarrow> plpdirent \<Rightarrow> dirhandle \<Rightarrow> plpdirent list \<Rightarrow> 'w rfsv \<Rightarrow>
   (int \<times> plpdirent list \<times> dirhandle \<times> 'w rfsv) option" where
  "dir_loop16 so e0 h files s =
     (let (res, h, e, s) = readdir16 so h e0 s
      in if res = E_PSI_GEN_NONE then dir_loop16 so e0 h (files @ [e]) s
      else Some (res, files, h, s))"

definition dir16 :: "'w socket \<Rightarrow> psitime \<Rightarrow> string \<Rightarrow> 'w rfsv \<Rightarrow> (int \<times> plpdirent list \<times> 'w rfsv) option" where
  "dir16 so raw name s =
     (let (res, h, s) = opendir16 so (PSI_A_HIDDEN OR PSI_A_SYSTEM OR PSI_A_DIR) name s
      in do {
        (res, files, h, s) \<leftarrow>
          (if res = E_PSI_GEN_NONE then dir_loop16 so (plpdirent_new (so_time so) raw) h [] s
           else Some (res, [], h, s));
        let (_, s) = closedir16 so h s;
        Some (if res = E_PSI_FILE_EOF then E_PSI_GEN_NONE else res, files, s) })"

text \<open>\<open>dircount\<close> counts on from the caller's value, which it does not reset.\<close>

definition dircount16 :: "'w socket \<Rightarrow> psitime \<Rightarrow> string \<Rightarrow> 32 word \<Rightarrow> 'w rfsv \<Rightarrow> (int \<times> 32 word \<times> 'w rfsv) option" where
  "dircount16 so raw name count s =
     (let (res, h, s) = opendir16 so (PSI_A_HIDDEN OR PSI_A_SYSTEM OR PSI_A_DIR) name s
      in do {
        (res, files, h, s) \<leftarrow>
          (if res = E_PSI_GEN_NONE then dir_loop16 so (plpdirent_new (so_time so) raw) h [] s
           else Some (res, [], h, s));
        let (_, s) = closedir16 so h s;
        Some (if res = E_PSI_FILE_EOF then E_PSI_GEN_NONE else res, count + of_nat (length files), s) })"

section \<open>Drives\<close>

definition device_bit :: "byte \<Rightarrow> 32 word" where
  "device_bit drive =
     (if 65 \<le> drive \<and> drive \<le> 90 then push_bit (unat drive - 65) 1 else 0)"

partial_function (option) devlist_loop16 ::
  "'w socket \<Rightarrow> 32 word \<Rightarrow> 32 word \<Rightarrow> 'w rfsv \<Rightarrow> (int \<times> 32 word \<times> 'w rfsv) option" where
  "devlist_loop16 so fileHandle devbits s =
     (let (ok, s) = sendCommand16 so SIBO_FDEVICEREAD (le16 (uint (fileHandle AND 0xFFFF))) s
      in if \<not> ok then Some (E_PSI_FILE_DISC, devbits, s)
      else let (res, a, s) = getResponse16 so s
      in if res \<noteq> E_PSI_GEN_NONE then
        (let (_, s) = fclose16 so fileHandle s
         in Some (if res = E_PSI_FILE_EOF then E_PSI_GEN_NONE else res, devbits, s))
      else if peekWord so a 0 < 1 \<or> peekWord so a 0 > 2 then
        (let (_, s) = fclose16 so fileHandle s in Some (E_PSI_GEN_FAIL, devbits, s))
      else devlist_loop16 so fileHandle (devbits OR device_bit (peek so a 64)) s)"

definition devlist16 :: "'w socket \<Rightarrow> 32 word \<Rightarrow> 'w rfsv \<Rightarrow> (int \<times> 32 word \<times> 'w rfsv) option" where
  "devlist16 so devbits s =
     (let (res, a, s) = request16 so SIBO_PARSE [0, 0, 0] s
      in if res \<noteq> E_PSI_GEN_NONE then Some (res, 0, s)
      else let (res, fileHandle, s) =
        fopen16 so P_FDEVICE (chars [peek so (drop 6 a) 5] @ [CHR '':'', CHR 0x5C]) (so_junk so) s
      in if res \<noteq> E_PSI_GEN_NONE then Some (r_status s, 0, s)
      else devlist_loop16 so fileHandle 0 s)"

definition sibo_dattr :: "32 word list" where
  "sibo_dattr = [1, 2, 3, 6, 5, 7, 7]"

text \<open>The array is indexed with a byte of the reply; behind its end the code reads other memory.\<close>

definition devinfo16 :: "'w socket \<Rightarrow> char \<Rightarrow> drive \<Rightarrow> 'w rfsv \<Rightarrow> int \<times> drive \<times> 'w rfsv" where
  "devinfo16 so drive dinfo s =
     (let letter = ascii [toupper drive];
          (res, a, s) = request16 so SIBO_PARSE (letter @ [0x3a, 0, 0, 0]) s
      in if res \<noteq> E_PSI_GEN_NONE then (res, dinfo, s)
      else let (res, a, s) = request16 so SIBO_STATUSDEVICE (letter @ [0x3a, 0x5c, 0]) s
      in if res \<noteq> E_PSI_GEN_NONE then (res, dinfo, s)
      else let
        attr = peekWord so a 2;
        i = unat (attr AND 0xff);
        changeable = (if peekWord so a 4 \<noteq> 0 then 32 else 0);
        internal = (if attr AND 0x2000 \<noteq> 0 then 16 else 0);
        variable = (if attr AND 0x4000 \<noteq> 0 then 1 else 0);
        dualdens = (if attr AND 0x1000 \<noteq> 0 then 2 else 0);
        formattable = (if attr AND 0x0800 \<noteq> 0 then 4 else 0);
        protect = (if attr AND 0xff = 6 then 8 else 0);
        dinfo = dinfo\<lparr>d_mediaType := if i < length sibo_dattr then sibo_dattr ! i else so_junk so,
          d_driveAttributes := changeable OR internal,
          d_mediaAttributes := variable OR dualdens OR formattable OR protect, d_uid := 0\<rparr>;
        dinfo = setSize (peekDWord so a 6) 0 dinfo;
        dinfo = setSpace (peekDWord so a 10) 0 dinfo
      in (res, setName (toupper drive) (peekString so a 14) dinfo, s))"

section \<open>Reading and writing\<close>

text \<open>The end of the file is a success, with the bytes read so far.\<close>

definition fread16 :: "'w socket \<Rightarrow> 32 word \<Rightarrow> 32 word \<Rightarrow> 'w rfsv \<Rightarrow> (int \<times> bytes \<times> 32 word \<times> 'w rfsv) option" where
  "fread16 so handle len s =
     map_option (\<lambda>(res, r). (if res = E_PSI_FILE_EOF then E_PSI_GEN_NONE else res, r))
       (fread_loop RFSV16_MAXDATALEN
         (\<lambda>n. request16 so SIBO_FREAD (le16 (uint handle) @ le16 (uint n))) len [] 0 s)"

definition fwrite16 :: "'w socket \<Rightarrow> 32 word \<Rightarrow> bytes \<Rightarrow> 32 word \<Rightarrow> 'w rfsv \<Rightarrow> int \<times> 32 word \<times> 'w rfsv" where
  "fwrite16 so handle buf len s =
     fwrite_loop RFSV16_MAXDATALEN (\<lambda>b. request16 so SIBO_FWRITE (le16 (uint handle) @ b))
       buf len 0 E_PSI_GEN_NONE s"

definition copyFromPsion16 ::
  "'w socket \<Rightarrow> string \<Rightarrow> bool \<Rightarrow> (32 word \<Rightarrow> bool) option \<Rightarrow> 'w rfsv \<Rightarrow> (int \<times> bytes option \<times> 'w rfsv) option" where
  "copyFromPsion16 so from_name opened cb s =
     (let (res, handle, s) = fopen16 so (P_FSHARE OR P_FSTREAM) from_name (so_junk so) s
      in if res \<noteq> E_PSI_GEN_NONE then Some (res, None, s)
      else if \<not> opened then (let (_, s) = fclose16 so handle s in Some (E_PSI_GEN_FAIL, None, s))
      else do {
        (res, out, s) \<leftarrow> copyFrom_loop (fread16 so handle (of_nat RFSV_SENDLEN)) cb [] 0 s;
        let (_, s) = fclose16 so handle s;
        Some (if res = E_PSI_FILE_EOF then E_PSI_GEN_NONE else res, Some out, s) })"

definition copyFromPsion16_fd ::
  "'w socket \<Rightarrow> string \<Rightarrow> (32 word \<Rightarrow> bool) option \<Rightarrow> 'w rfsv \<Rightarrow> (int \<times> bytes \<times> 'w rfsv) option" where
  "copyFromPsion16_fd so from_name cb s =
     (let (res, handle, s) = fopen16 so (P_FSHARE OR P_FSTREAM) from_name (so_junk so) s
      in if res \<noteq> E_PSI_GEN_NONE then Some (res, [], s)
      else do {
        (res, out, s) \<leftarrow> copyFrom_loop (fread16 so handle (of_nat RFSV_SENDLEN)) cb [] 0 s;
        let (_, s) = fclose16 so handle s;
        Some (if res = E_PSI_FILE_EOF then E_PSI_GEN_NONE else res, out, s) })"

definition open_target16 :: "'w socket \<Rightarrow> string \<Rightarrow> 'w rfsv \<Rightarrow> int \<times> 32 word \<times> 'w rfsv" where
  "open_target16 so name s =
     (let (res, handle, s) = fcreatefile16 so (P_FSTREAM OR P_FUPDATE) name (so_junk so) s
      in if res \<noteq> E_PSI_GEN_NONE then freplacefile16 so (P_FSTREAM OR P_FUPDATE) name handle s
      else (res, handle, s))"

definition copyToPsion16 ::
  "'w socket \<Rightarrow> bytes option \<Rightarrow> string \<Rightarrow> (32 word \<Rightarrow> bool) option \<Rightarrow> 'w rfsv \<Rightarrow> int \<times> 'w rfsv" where
  "copyToPsion16 so contents to_name cb s =
     (case contents of
        None \<Rightarrow> (E_PSI_FILE_NXIST, s)
      | Some ip \<Rightarrow>
          let (res, handle, s) = open_target16 so to_name s
          in if res \<noteq> E_PSI_GEN_NONE then (res, s)
          else let (res, s) = copyTo_loop (\<lambda>b. fwrite16 so handle b (of_nat (length b))) cb ip 0 s;
                   (_, s) = fclose16 so handle s
          in (res, s))"

text \<open>The loop of \<open>copyOnPsion\<close>; \<open>wlen\<close> is uninitialised until the first block has been written.\<close>

partial_function (option) copyOn_loop16 ::
  "'w socket \<Rightarrow> (32 word \<Rightarrow> bool) option \<Rightarrow> 32 word \<Rightarrow> 32 word \<Rightarrow> 32 word \<Rightarrow> 32 word \<Rightarrow> 'w rfsv \<Rightarrow>
   (int \<times> 'w rfsv) option" where
  "copyOn_loop16 so cb handle_from handle_to wlen tot s =
     Option.bind (fread16 so handle_from (of_nat RFSV_SENDLEN) s) (\<lambda>(res, buf, len, s).
       let (res, wlen, tot, s) =
         (if res = E_PSI_GEN_NONE \<and> len > 0 then
            (let (res, wlen, s) = fwrite16 so handle_to buf len s;
                 tot = (if res = E_PSI_GEN_NONE then tot + wlen else tot);
                 res = (if res = E_PSI_GEN_NONE \<and> cancelled cb tot then E_PSI_FILE_CANCEL else res)
             in (res, wlen, tot, s))
          else (res, wlen, tot, s))
       in if len > 0 \<and> wlen > 0 \<and> res = E_PSI_GEN_NONE
          then copyOn_loop16 so cb handle_from handle_to wlen tot s
          else Some (res, s))"

definition copyOnPsion16 ::
  "'w socket \<Rightarrow> string \<Rightarrow> string \<Rightarrow> (32 word \<Rightarrow> bool) option \<Rightarrow> 'w rfsv \<Rightarrow> (int \<times> 'w rfsv) option" where
  "copyOnPsion16 so from_name to_name cb s =
     (let (res, handle_from, s) = fopen16 so (P_FSHARE OR P_FSTREAM) from_name (so_junk so) s
      in if res \<noteq> E_PSI_GEN_NONE then Some (res, s)
      else let (res, handle_to, s) = open_target16 so to_name s
      in if res \<noteq> E_PSI_GEN_NONE then Some (res, s)
      else do {
        (res, s) \<leftarrow> copyOn_loop16 so cb handle_from handle_to (so_junk so) 0 s;
        let (_, s) = fclose16 so handle_from s; (_, s) = fclose16 so handle_to s
        in Some (if res = E_PSI_FILE_EOF then E_PSI_GEN_NONE else res, s) })"

section \<open>Seeking\<close>

text \<open>
  \<open>fseek\<close>: \<open>a\<close> is what the request buffer holds before the real seek, empty or the reply to
  the query of the position, which is not cleared.
\<close>

definition fseek_real16 ::
  "'w socket \<Rightarrow> 32 word \<Rightarrow> 32 word \<Rightarrow> 32 word \<Rightarrow> bytes \<Rightarrow> 32 word \<Rightarrow> 32 word \<Rightarrow> 'w rfsv \<Rightarrow> int \<times> 32 word \<times> 'w rfsv" where
  "fseek_real16 so handle pos mode a savpos resultpos s =
     (let (res, a, s) = request16 so SIBO_FSEEK (a @ le16 (uint handle) @ dword pos @ le16 (uint mode)) s
      in if res \<noteq> E_PSI_GEN_NONE then (res, resultpos, s)
      else let realpos = peekDWord so a 0;
               calcpos = (if mode = PSI_SEEK_SET then pos else savpos + pos)
      in if mode = PSI_SEEK_END \<or> \<not> calcpos > realpos then (res, realpos, s)
      else let (res, s) = fsetsize16 so handle calcpos s
      in if res \<noteq> E_PSI_GEN_NONE then (res, resultpos, s)
      else let (res, a, s) = request16 so SIBO_FSEEK
        (le16 (uint handle) @ dword calcpos @ le16 (uint PSI_SEEK_SET)) s
      in if res \<noteq> E_PSI_GEN_NONE then (res, resultpos, s)
      else (res, peekDWord so a 0, s))"

definition fseek16 ::
  "'w socket \<Rightarrow> 32 word \<Rightarrow> 32 word \<Rightarrow> 32 word \<Rightarrow> 32 word \<Rightarrow> 'w rfsv \<Rightarrow> int \<times> 32 word \<times> 'w rfsv" where
  "fseek16 so handle pos mode resultpos s =
     (if mode < PSI_SEEK_SET \<or> mode > PSI_SEEK_END then (E_PSI_GEN_ARG, resultpos, s)
      else if mode \<noteq> PSI_SEEK_SET \<and> sint pos \<ge> 0 then
        (let (res, a, s) = request16 so SIBO_FSEEK (le16 (uint handle) @ dword 0 @ le16 (uint mode)) s
         in if res \<noteq> E_PSI_GEN_NONE then (res, resultpos, s)
         else let savpos = peekDWord so a 0
         in if pos = 0 then (res, savpos, s)
         else fseek_real16 so handle pos mode a savpos resultpos s)
      else fseek_real16 so handle pos mode [] 0 resultpos s)"

end
