(* ===== verification/Rfsv16_Files.thy ===== *)
theory Rfsv16_Files
  imports Rfsv16 Rfsv32_Session Transfer_Loops
begin

text \<open>
  The operations of \<open>RFSV16\<close> (\<open>lib/rfsv16.cc\<close>) against a device that answers: copying a file
  there and back, the listing of a directory, seeking. \<open>serves16\<close> is the protocol's framing on
  a connection that works.
\<close>

section \<open>Requests on a working connection\<close>

definition status16 :: "int \<Rightarrow> bool" where
  "status16 e \<longleftrightarrow> - 128 \<le> e \<and> e \<le> 0"

definition serves16 :: "'w socket \<Rightarrow> (int \<Rightarrow> bytes \<Rightarrow> 'w \<Rightarrow> int \<times> bytes \<times> 'w) \<Rightarrow> bool" where
  "serves16 so answer \<longleftrightarrow>
     (\<forall>cc data w status reply w'.
        0 \<le> cc \<and> cc < 0x10000 \<and> length data < 0x10000 \<longrightarrow> answer cc data w = (status, reply, w') \<longrightarrow>
        (\<exists>w1. so_send so (le16 cc @ le16 (int (length data)) @ data) w = (True, w1) \<and>
              so_recv so w1 =
                (Some (le16 0x2a @ le16 (int (length reply) + 2) @ le16 status @ reply), w')))"

lemma sint_status16: "status16 e \<Longrightarrow> sint (word_of_int e :: 16 word) = e"
  by (simp add: status16_def signed_of_int signed_take_bit_int_eq_self)

lemma peekWord_append2 [simp]: "length b \<le> i \<Longrightarrow> peekWord so (b @ c) i = peekWord so c (i - length b)"
  by (simp add: peekWord_def Suc_diff_le)

lemma peekWord_append1 [simp]: "i + 2 \<le> length b \<Longrightarrow> peekWord so (b @ c) i = peekWord so b i"
  by (simp add: peekWord_def)

lemma peekWord_le16' [simp]: "peekWord so (le16 a) 0 = word_of_int a"
  using peekWord_le16 [of so a "[]"] by simp

lemma request16_answered:
  assumes "serves16 so answer" and "live s" and "0 \<le> cc \<and> cc < 0x10000"
    and "answer cc data (r_world s) = (status, reply, w')" and "status16 status"
    and "length reply < 0xfffe" and "length data < 0x10000"
  shows "request16 so cc data s = (status, reply, s\<lparr>r_world := w'\<rparr>)"
proof -
  obtain w1 where w1: "so_send so (le16 cc @ le16 (int (length data)) @ data) (r_world s) = (True, w1)"
      "so_recv so w1 = (Some (le16 0x2a @ le16 (int (length reply) + 2) @ le16 status @ reply), w')"
    using assms(1,3,4,7) unfolding serves16_def by blast
  let ?d = "le16 0x2a @ le16 (int (length reply) + 2) @ le16 status @ reply"
  have "peekWord so ?d 0 = 0x2a" by simp
  moreover have "uint (peekWord so ?d 2) = int (length ?d) - 4"
  proof -
    have "peekWord so ?d 2 = word_of_int (int (length reply) + 2)"
      using peekWord_append2 [of "le16 0x2a" 2 so] by (simp del: of_int_add)
    then show ?thesis
      using assms(6) by (simp add: uint_word_of_int del: of_int_add)
  qed
  moreover have "sint (peekWord so ?d 4) = status" using sint_status16 [OF assms(5)] by simp
  moreover have "drop 6 ?d = reply" by (simp add: le16_def)
  ultimately show ?thesis
    using assms(2) w1
    by (simp add: request16_def sendCommand16_def getResponse16_def rfsv_send_def rfsv_recv_def live_def
        del: drop_append peekWord_append2)
qed

lemma request16_ok:
  assumes "serves16 so answer" and "live s" and "0 \<le> cc \<and> cc < 0x10000"
    and "answer cc data (r_world s) = (0, reply, w')" and "length reply < 0xfffe" and "length data < 0x10000"
  obtains s' where "request16 so cc data s = (E_PSI_GEN_NONE, reply, s')" "live s'" "r_world s' = w'"
proof -
  have "request16 so cc data s = (0, reply, s\<lparr>r_world := w'\<rparr>)"
    using request16_answered [OF assms(1-4) _ assms(5,6)] by (simp add: status16_def)
  moreover have "live (s\<lparr>r_world := w'\<rparr>)" using assms(2) by (simp add: live_def)
  ultimately show thesis using that by (simp add: E_PSI_GEN_NONE_def)
qed

section \<open>Copying there and back\<close>

text \<open>
  The device's file with handle \<open>h\<close>: \<open>rest\<close> is what follows the position, \<open>file\<close> the contents.
  A read returns at least one byte and at most what was asked for, and at the end the status
  for it; what is written is appended. Requests are for at most \<open>RFSV16_MAXDATALEN\<close> bytes.
\<close>

definition reads16 ::
  "(int \<Rightarrow> bytes \<Rightarrow> 'w \<Rightarrow> int \<times> bytes \<times> 'w) \<Rightarrow> 16 word \<Rightarrow> ('w \<Rightarrow> bytes) \<Rightarrow> bool" where
  "reads16 answer h rest \<longleftrightarrow>
     (\<forall>n w. n \<le> unat RFSV16_MAXDATALEN \<longrightarrow> (\<exists>k w'. answer SIBO_FREAD (le16 (uint h) @ le16 (int n)) w =
        (if n \<noteq> 0 \<and> rest w = [] then E_PSI_FILE_EOF else 0, take k (rest w), w') \<and>
        k \<le> n \<and> rest w' = drop k (rest w) \<and> (n \<noteq> 0 \<and> rest w \<noteq> [] \<longrightarrow> 0 < k)))"

definition writes16 ::
  "(int \<Rightarrow> bytes \<Rightarrow> 'w \<Rightarrow> int \<times> bytes \<times> 'w) \<Rightarrow> 16 word \<Rightarrow> ('w \<Rightarrow> bytes) \<Rightarrow> bool" where
  "writes16 answer h file \<longleftrightarrow>
     (\<forall>b w. length b \<le> unat RFSV16_MAXDATALEN \<longrightarrow>
        (\<exists>w'. answer SIBO_FWRITE (le16 (uint h) @ b) w = (0, [], w') \<and> file w' = file w @ b))"

lemma maxdatalen [simp]: "unat RFSV16_MAXDATALEN = 852" "(0 :: 32 word) < RFSV16_MAXDATALEN"
  by (simp_all add: RFSV16_MAXDATALEN_def)

lemma eof_status [simp]: "status16 E_PSI_FILE_EOF" "status16 0" "E_PSI_FILE_EOF \<noteq> E_PSI_GEN_NONE"
    "E_PSI_GEN_NONE = 0"
  by (simp_all add: status16_def E_PSI_FILE_EOF_def E_PSI_GEN_NONE_def)

lemma live_update [simp]: "live (s\<lparr>r_world := w\<rparr>) = live s"
  by (simp add: live_def)

lemma request16_reads:
  assumes "serves16 so answer" and "reads16 answer h rest"
  shows "reads_blocks live (\<lambda>s. rest (r_world s)) RFSV16_MAXDATALEN E_PSI_FILE_EOF
    (\<lambda>n. request16 so SIBO_FREAD (le16 (uint h) @ le16 (uint n)))"
  unfolding reads_blocks_def
proof (intro allI impI)
  fix n and s :: "'a rfsv"
  assume n: "n \<le> RFSV16_MAXDATALEN" and live: "live s"
  let ?r = "rest (r_world s)"
  have n': "unat n \<le> unat RFSV16_MAXDATALEN" using n by (simp add: word_le_nat_alt)
  obtain k w' where k: "answer SIBO_FREAD (le16 (uint h) @ le16 (uint n)) (r_world s) =
        (if unat n \<noteq> 0 \<and> ?r = [] then E_PSI_FILE_EOF else 0, take k ?r, w')"
      "k \<le> unat n" "rest w' = drop k ?r" "unat n \<noteq> 0 \<and> ?r \<noteq> [] \<longrightarrow> 0 < k"
    using assms(2)[unfolded reads16_def, rule_format, OF n', of "r_world s"] unfolding uint_nat by blast
  have "length (take k ?r) < 0xfffe" using k(2) n' by simp
  from request16_answered [OF assms(1) live _ k(1) _ this]
  have "request16 so SIBO_FREAD (le16 (uint h) @ le16 (uint n)) s =
      (if n \<noteq> 0 \<and> ?r = [] then E_PSI_FILE_EOF else 0, take k ?r, s\<lparr>r_world := w'\<rparr>)"
    by (auto simp: SIBO_FREAD_def unat_eq_0 split: if_splits)
  then show "\<exists>k s'. request16 so SIBO_FREAD (le16 (uint h) @ le16 (uint n)) s =
      (if n \<noteq> 0 \<and> ?r = [] then E_PSI_FILE_EOF else E_PSI_GEN_NONE, take k ?r, s') \<and>
      live s' \<and> k \<le> unat n \<and> rest (r_world s') = drop k ?r \<and> (n \<noteq> 0 \<and> ?r \<noteq> [] \<longrightarrow> 0 < k)"
    using k(2-4) live by (intro exI [of _ k] exI [of _ "s\<lparr>r_world := w'\<rparr>"]) (simp add: unat_eq_0)
qed

lemma request16_writes:
  assumes "serves16 so answer" and "writes16 answer h file"
  shows "writes_blocks live (\<lambda>s. file (r_world s)) RFSV16_MAXDATALEN
    (\<lambda>b. request16 so SIBO_FWRITE (le16 (uint h) @ b))"
  unfolding writes_blocks_def
proof (intro allI impI)
  fix b and s :: "'a rfsv"
  assume b: "length (b :: bytes) \<le> unat RFSV16_MAXDATALEN" and live: "live s"
  obtain w' where w': "answer SIBO_FWRITE (le16 (uint h) @ b) (r_world s) = (0, [], w')"
      "file w' = file (r_world s) @ b"
    using assms(2) b unfolding writes16_def by blast
  have "request16 so SIBO_FWRITE (le16 (uint h) @ b) s = (0, [], s\<lparr>r_world := w'\<rparr>)"
    using request16_answered [OF assms(1) live _ w'(1)] b by (simp add: SIBO_FWRITE_def)
  then show "\<exists>r s'. request16 so SIBO_FWRITE (le16 (uint h) @ b) s = (E_PSI_GEN_NONE, r, s') \<and> live s' \<and>
      file (r_world s') = file (r_world s) @ b"
    using w'(2) live by simp
qed

lemma sendlen16: "unat (of_nat RFSV_SENDLEN :: 32 word) = RFSV_SENDLEN"
  by (simp add: RFSV_SENDLEN_def)

lemma fread16_reads:
  assumes "serves16 so answer" and "reads16 answer h rest"
  shows "reads_full live (\<lambda>s. rest (r_world s)) RFSV_SENDLEN (fread16 so (ucast h) (of_nat RFSV_SENDLEN))"
  unfolding reads_full_def fread16_def
proof (intro allI impI)
  fix s :: "'a rfsv"
  assume "live s"
  have h: "uint (ucast h :: 32 word) = uint h" by (simp add: uint_up_ucast is_up)
  from fread_loop_reads [OF request16_reads [OF assms] maxdatalen(2) \<open>live s\<close>,
      of 0 "of_nat RFSV_SENDLEN" RFSV_SENDLEN "[]"]
  obtain res s' where "fread_loop RFSV16_MAXDATALEN
        (\<lambda>n. request16 so SIBO_FREAD (le16 (uint h) @ le16 (uint n))) (of_nat RFSV_SENDLEN) [] 0 s =
      Some (res, take RFSV_SENDLEN (rest (r_world s)),
        of_nat (length (take RFSV_SENDLEN (rest (r_world s)))), s')"
    "live s'" "rest (r_world s') = drop RFSV_SENDLEN (rest (r_world s))"
    "res = E_PSI_GEN_NONE \<or> res = E_PSI_FILE_EOF"
    by (auto simp: sendlen16)
  then show "\<exists>s'. map_option (\<lambda>(res, r). (if res = E_PSI_FILE_EOF then E_PSI_GEN_NONE else res, r))
       (fread_loop RFSV16_MAXDATALEN
         (\<lambda>n. request16 so SIBO_FREAD (le16 (uint (ucast h :: 32 word)) @ le16 (uint n)))
         (of_nat RFSV_SENDLEN) [] 0 s) =
      Some (E_PSI_GEN_NONE, take RFSV_SENDLEN (rest (r_world s)),
        of_nat (length (take RFSV_SENDLEN (rest (r_world s)))), s') \<and>
      live s' \<and> rest (r_world s') = drop RFSV_SENDLEN (rest (r_world s))"
    unfolding h by (intro exI [of _ s']) auto
qed

lemma fwrite16_writes:
  assumes "serves16 so answer" and "writes16 answer h file"
  shows "writes_full live (\<lambda>s. file (r_world s)) (\<lambda>b. fwrite16 so (ucast h) b (of_nat (length b)))"
  unfolding writes_full_def fwrite16_def
proof (intro allI impI, elim conjE)
  fix b :: bytes and s :: "'a rfsv"
  assume live: "live s" and "length b \<le> RFSV_SENDLEN"
  then have "unat (of_nat (length b) :: 32 word) = length b"
    by (simp add: unat_of_nat take_bit_eq_mod RFSV_SENDLEN_def)
  moreover have h: "uint (ucast h :: 32 word) = uint h" by (simp add: uint_up_ucast is_up)
  ultimately show "\<exists>s'. fwrite_loop RFSV16_MAXDATALEN
      (\<lambda>b. request16 so SIBO_FWRITE (le16 (uint (ucast h :: 32 word)) @ b)) b
      (of_nat (length b)) 0 E_PSI_GEN_NONE s = (E_PSI_GEN_NONE, of_nat (length b), s') \<and> live s' \<and>
      file (r_world s') = file (r_world s) @ b"
    unfolding h
    using fwrite_loop_writes [OF request16_writes [OF assms] maxdatalen(2) live, of 0 "of_nat (length b)" "length b" b]
    by auto
qed

section \<open>Copying there and back\<close>

text \<open>
  What a device that stores the file \<open>name\<close> does, whatever its state: opening the file to create
  it succeeds and leaves it empty, or fails, and then opening it to replace it succeeds; opening
  it to read starts at its beginning; closing keeps the contents.
\<close>

definition open_arg16 :: "32 word \<Rightarrow> string \<Rightarrow> bytes" where
  "open_arg16 mode name = le16 (uint ((P_FRANDOM OR mode) AND 0xFFFF)) @ name_argT (convertSlash name)"

definition stores16 ::
  "(int \<Rightarrow> bytes \<Rightarrow> 'w \<Rightarrow> int \<times> bytes \<times> 'w) \<Rightarrow> string \<Rightarrow> 16 word \<Rightarrow> ('w \<Rightarrow> bytes) \<Rightarrow> ('w \<Rightarrow> bytes) \<Rightarrow> bool" where
  "stores16 answer name h file rest \<longleftrightarrow>
     reads16 answer h rest \<and> writes16 answer h file \<and>
     (\<forall>w. \<exists>w'. answer SIBO_FCLOSE (le16 (uint h)) w = (0, [], w') \<and> file w' = file w) \<and>
     (\<forall>w. \<exists>w'. answer SIBO_FOPEN (open_arg16 P_FSHARE name) w = (0, le16 (uint h), w') \<and> rest w' = file w) \<and>
     (\<forall>w. \<exists>e r w'. answer SIBO_FOPEN (open_arg16 (P_FUPDATE OR P_FCREATE) name) w = (e, r, w') \<and>
        (e = 0 \<and> r = le16 (uint h) \<and> file w' = [] \<or>
         e \<noteq> 0 \<and> status16 e \<and> r = [] \<and>
         (\<exists>w''. answer SIBO_FOPEN (open_arg16 (P_FUPDATE OR P_FREPLACE) name) w' =
            (0, le16 (uint h), w'') \<and> file w'' = [])))"

lemma length_open_arg16: "length (open_arg16 mode name) \<le> length name + 3"
  by (simp add: open_arg16_def name_argT_def convertSlash_def ascii_def length_takeWhile_le)

lemma fopen16_answered:
  fixes h :: "16 word"
  assumes "serves16 so answer" and "live s" and "length name < 0xfff0"
    and "answer SIBO_FOPEN (open_arg16 attr name) (r_world s) = (e, r, w')" and "status16 e"
    and "e = 0 \<longrightarrow> r = le16 (uint h)" and "e \<noteq> 0 \<longrightarrow> r = []"
  shows "fopen16 so attr name old s = (e, if e = 0 then ucast h else old, s\<lparr>r_world := w'\<rparr>)"
proof -
  have r: "length r < 0xfffe" using assms(6,7) by (cases "e = 0") simp_all
  have "request16 so SIBO_FOPEN (open_arg16 attr name) s = (e, r, s\<lparr>r_world := w'\<rparr>)"
    by (rule request16_answered [OF assms(1,2) _ assms(4,5) r])
       (use assms(3) length_open_arg16 [of attr name] in \<open>simp_all add: SIBO_FOPEN_def\<close>)
  then show ?thesis using assms(6) by (simp add: fopen16_def open_arg16_def)
qed

lemma fclose16_answered:
  fixes h :: "16 word"
  assumes "serves16 so answer" and "live s"
    and "answer SIBO_FCLOSE (le16 (uint h)) (r_world s) = (0, [], w')"
  shows "fclose16 so (ucast h) s = (E_PSI_GEN_NONE, s\<lparr>r_world := w'\<rparr>)"
proof -
  have "uint (ucast h AND 0xFFFF :: 32 word) = take_bit 16 (uint h)"
    by (simp add: unsigned_and_eq uint_up_ucast is_up take_bit_eq_mask mask_numeral)
  then have h: "uint (ucast h AND 0xFFFF :: 32 word) = uint h"
    using uint_lt2p [of h] by (simp add: take_bit_int_eq_self)
  show ?thesis
    unfolding fclose16_def h
    using request16_answered [OF assms(1,2) _ assms(3)] by (simp add: SIBO_FCLOSE_def)
qed

lemma open_target16_opens:
  assumes "serves16 so answer" and "live s" and "length name < 0xfff0" and "stores16 answer name h file rest"
  obtains s1 where "open_target16 so name s = (E_PSI_GEN_NONE, ucast h, s1)" "live s1" "file (r_world s1) = []"
proof -
  let ?w = "r_world s"
  obtain e r w1 where w1: "answer SIBO_FOPEN (open_arg16 (P_FUPDATE OR P_FCREATE) name) ?w = (e, r, w1)"
      "e = 0 \<and> r = le16 (uint h) \<and> file w1 = [] \<or> e \<noteq> 0 \<and> status16 e \<and> r = [] \<and>
       (\<exists>w2. answer SIBO_FOPEN (open_arg16 (P_FUPDATE OR P_FREPLACE) name) w1 = (0, le16 (uint h), w2) \<and> file w2 = [])"
    using assms(4) unfolding stores16_def by meson
  have "fopen16 so (P_FUPDATE OR P_FCREATE) name old s =
      (e, if e = 0 then ucast h else old, s\<lparr>r_world := w1\<rparr>)" for old
    by (rule fopen16_answered [OF assms(1-3) w1(1)]) (use w1(2) in auto)
  then have create: "fcreatefile16 so (P_FSTREAM OR P_FUPDATE) name old s =
      (e, if e = 0 then ucast h else old, s\<lparr>r_world := w1\<rparr>)" for old
    by (simp add: fcreatefile16_def P_FSTREAM_def)
  show thesis
  proof (cases "e = 0")
    case True
    then show thesis using that create w1(2) assms(2) by (simp add: open_target16_def)
  next
    case False
    then obtain w2 where w2: "answer SIBO_FOPEN (open_arg16 (P_FUPDATE OR P_FREPLACE) name)
        (r_world (s\<lparr>r_world := w1\<rparr>)) = (0, le16 (uint h), w2)" "file w2 = []"
      using w1(2) by auto
    have "fopen16 so (P_FUPDATE OR P_FREPLACE) name old (s\<lparr>r_world := w1\<rparr>) =
        (0, if (0 :: int) = 0 then ucast h else old, s\<lparr>r_world := w1, r_world := w2\<rparr>)" for old
      by (rule fopen16_answered [OF assms(1) _ assms(3) w2(1)]) (use assms(2) in simp_all)
    then show thesis
      using that create False assms(2) w2(2)
      by (simp add: open_target16_def freplacefile16_def P_FSTREAM_def)
  qed
qed

lemma copyToPsion16_stores:
  assumes "serves16 so answer" and "live s" and "length name < 0xfff0" and "stores16 answer name h file rest"
  obtains s' where "copyToPsion16 so (Some contents) name None s = (E_PSI_GEN_NONE, s')" "live s'"
    "file (r_world s') = contents"
proof -
  obtain s1 where s1: "open_target16 so name s = (E_PSI_GEN_NONE, ucast h, s1)" "live s1" "file (r_world s1) = []"
    using open_target16_opens [OF assms] .
  have writes: "writes16 answer h file" using assms(4) by (simp add: stores16_def)
  obtain s2 where s2: "copyTo_loop (\<lambda>b. fwrite16 so (ucast h) b (of_nat (length b))) None contents 0 s1 =
      (E_PSI_GEN_NONE, s2)" "live s2" "file (r_world s2) = contents"
    using copyTo_loop_writes [OF fwrite16_writes [OF assms(1) writes] s1(2), of contents 0]
    unfolding s1(3) by auto
  obtain w' where w': "answer SIBO_FCLOSE (le16 (uint h)) (r_world s2) = (0, [], w')" "file w' = contents"
    using assms(4) s2(3) unfolding stores16_def by metis
  from fclose16_answered [OF assms(1) s2(2) w'(1)] s1 s2 w'(2) show thesis
    by (intro that [of "s2\<lparr>r_world := w'\<rparr>"]) (simp_all add: copyToPsion16_def)
qed

lemma copyFromPsion16_reads:
  assumes "serves16 so answer" and "live s" and "length name < 0xfff0" and "stores16 answer name h file rest"
  shows "\<exists>s'. copyFromPsion16 so name True None s = Some (E_PSI_GEN_NONE, Some (file (r_world s)), s')"
proof -
  obtain w1 where w1: "answer SIBO_FOPEN (open_arg16 P_FSHARE name) (r_world s) = (0, le16 (uint h), w1)"
      "rest w1 = file (r_world s)"
    using assms(4) unfolding stores16_def by metis
  let ?s1 = "s\<lparr>r_world := w1\<rparr>"
  have "fopen16 so P_FSHARE name old s = (0, if (0 :: int) = 0 then ucast h else old, ?s1)" for old
    by (rule fopen16_answered [OF assms(1-3) w1(1)]) simp_all
  then have opened: "fopen16 so (P_FSHARE OR P_FSTREAM) name old s = (0, ucast h, ?s1)" for old
    by (simp add: P_FSTREAM_def)
  have reads: "reads16 answer h rest" using assms(4) by (simp add: stores16_def)
  have live: "live ?s1" using assms(2) by simp
  obtain s2 where "copyFrom_loop (fread16 so (ucast h) (of_nat RFSV_SENDLEN)) None [] 0 ?s1 =
      Some (E_PSI_GEN_NONE, [] @ rest (r_world ?s1), s2)"
    using copyFrom_loop_reads [OF fread16_reads [OF assms(1) reads] _ _ live, of "[]" 0]
    by (auto simp: RFSV_SENDLEN_def)
  then show ?thesis
    using w1(2) by (auto simp: copyFromPsion16_def opened split: prod.split)
qed

text \<open>
  C6: on a SIBO device, a file that is copied to the device and back has the same contents:
  both copies report success, for any contents and length, whether the file is created or one
  that exists is replaced, and however few bytes the device returns at a time.
\<close>

theorem rfsv16_copy_roundtrip:
  assumes "serves16 so answer" and "live s" and "length name < 0xfff0" and "stores16 answer name h file rest"
  shows "\<exists>s1 s2. copyToPsion16 so (Some contents) name None s = (E_PSI_GEN_NONE, s1) \<and>
    copyFromPsion16 so name True None s1 = Some (E_PSI_GEN_NONE, Some contents, s2)"
proof -
  obtain s1 where s1: "copyToPsion16 so (Some contents) name None s = (E_PSI_GEN_NONE, s1)" "live s1"
      "file (r_world s1) = contents"
    using copyToPsion16_stores [OF assms] .
  from copyFromPsion16_reads [OF assms(1) s1(2) assms(3,4)] s1 show ?thesis by auto
qed

text \<open>The connection that a SIBO device \<open>answer\<close> gives: its state and the reply that waits.\<close>

definition device_socket16 ::
  "timeenv \<Rightarrow> (int \<Rightarrow> bytes \<Rightarrow> 'd \<Rightarrow> int \<times> bytes \<times> 'd) \<Rightarrow> ('d \<times> bytes) socket" where
  "device_socket16 env answer =
     \<lparr>so_send = (\<lambda>b (d, _).
        let (status, reply, d) = answer (uint (join16 (b ! 0) (b ! 1))) (drop 4 b) d
        in (True, (d, le16 0x2a @ le16 (int (length reply) + 2) @ le16 status @ reply))),
      so_recv = (\<lambda>(d, reply). (Some reply, (d, []))),
      so_reconnect = (\<lambda>w. w), so_tail = [], so_junk = 0, so_time = env\<rparr>"

lemma device_socket16_serves: "serves16 (device_socket16 env answer) (device_answer answer)"
proof -
  have "uint (join16 ((le16 cc @ x) ! 0) ((le16 cc @ x) ! 1)) = cc" if "0 \<le> cc \<and> cc < 65536" for cc x
    using that by (simp add: le16_def uint_word_of_int)
  moreover have "drop 4 (le16 a @ le16 b @ x) = x" for a b x
    by (simp add: le16_def)
  ultimately show ?thesis
    by (auto simp: serves16_def device_socket16_def device_answer_def split: prod.splits)
qed

text \<open>
  A device with at most one file, handle 7, that reads up to three bytes at a time: the
  contents, if the file exists, and the position.
\<close>

definition file_answer16 :: "int \<Rightarrow> bytes \<Rightarrow> bytes option \<times> nat \<Rightarrow> int \<times> bytes \<times> (bytes option \<times> nat)" where
  "file_answer16 cc data d =
     (let contents = (case fst d of None \<Rightarrow> [] | Some c \<Rightarrow> c)
      in if cc = SIBO_FOPEN then
        (if data ! 0 = 1 then
           (if fst d = None then (0, le16 7, (Some [], 0)) else (E_PSI_FILE_EXIST, [], d))
         else if data ! 0 = 2 then (0, le16 7, (Some [], 0))
         else (0, le16 7, (fst d, 0)))
      else if cc = SIBO_FREAD then
        (let n = unat (join16 (data ! 2) (data ! 3)); left = drop (snd d) contents; k = min 3 n
         in if n \<noteq> 0 \<and> left = [] then (E_PSI_FILE_EOF, [], d) else (0, take k left, (fst d, snd d + k)))
      else if cc = SIBO_FWRITE then (0, [], (Some (contents @ drop 2 data), snd d))
      else (0, [], d))"

definition contents16 :: "(bytes option \<times> nat) \<times> bytes \<Rightarrow> bytes" where
  "contents16 w = (case fst (fst w) of None \<Rightarrow> [] | Some c \<Rightarrow> c)"

definition rest16 :: "(bytes option \<times> nat) \<times> bytes \<Rightarrow> bytes" where
  "rest16 w = drop (snd (fst w)) (contents16 w)"

lemma open_arg16_first:
  "open_arg16 P_FSHARE name ! 0 = 0" "open_arg16 (P_FUPDATE OR P_FCREATE) name ! 0 = 1"
  "open_arg16 (P_FUPDATE OR P_FREPLACE) name ! 0 = 2"
  by (simp_all add: open_arg16_def sibo_flags le16_def)

lemma join16_second_le16:
  assumes "0 \<le> b" "b < 0x10000"
  shows "unat (join16 ((le16 a @ le16 b) ! 2) ((le16 a @ le16 b) ! 3)) = nat b"
proof -
  have "join16 ((le16 a @ le16 b) ! 2) ((le16 a @ le16 b) ! 3) = word_of_int b"
    by (simp add: nth_append, simp add: le16_def)
  then show ?thesis using assms by (simp add: uint_word_of_int flip: nat_uint_eq)
qed

lemma file_answer16_reads: "reads16 (device_answer file_answer16) 7 rest16"
  unfolding reads16_def
proof (intro allI impI)
  fix n and w :: "(bytes option \<times> nat) \<times> bytes"
  assume n: "n \<le> unat RFSV16_MAXDATALEN"
  let ?k = "if n \<noteq> 0 \<and> rest16 w = [] then 0 else min 3 n"
  let ?w = "((fst (fst w), snd (fst w) + ?k), [] :: bytes)"
  have "int n < 0x10000" using n by simp
  then have "device_answer file_answer16 SIBO_FREAD (le16 (uint (7 :: 16 word)) @ le16 (int n)) w =
      (if n \<noteq> 0 \<and> rest16 w = [] then E_PSI_FILE_EOF else 0, take ?k (rest16 w), ?w)"
    unfolding device_answer_def file_answer16_def rest16_def contents16_def
    by (simp add: join16_second_le16 sibo_commands Let_def del: uint_numeral)
  moreover have "rest16 ?w = drop ?k (rest16 w)"
    by (simp add: rest16_def contents16_def add.commute)
  ultimately show "\<exists>k w'. device_answer file_answer16 SIBO_FREAD
        (le16 (uint (7 :: 16 word)) @ le16 (int n)) w =
      (if n \<noteq> 0 \<and> rest16 w = [] then E_PSI_FILE_EOF else 0, take k (rest16 w), w') \<and> k \<le> n \<and>
      rest16 w' = drop k (rest16 w) \<and> (n \<noteq> 0 \<and> rest16 w \<noteq> [] \<longrightarrow> 0 < k)"
    by (intro exI [of _ ?k] exI [of _ ?w]) auto
qed

lemma file_answer16_stores: "stores16 (device_answer file_answer16) name 7 contents16 rest16"
proof -
  have "writes16 (device_answer file_answer16) 7 contents16"
    by (auto simp: writes16_def device_answer_def file_answer16_def contents16_def sibo_commands le16_def)
  moreover have "\<exists>w'. device_answer file_answer16 SIBO_FCLOSE (le16 (uint (7 :: 16 word))) w = (0, [], w') \<and>
      contents16 w' = contents16 w" for w
    by (auto simp: device_answer_def file_answer16_def contents16_def sibo_commands)
  moreover have "\<exists>w'. device_answer file_answer16 SIBO_FOPEN (open_arg16 P_FSHARE name) w =
      (0, le16 (uint (7 :: 16 word)), w') \<and> rest16 w' = contents16 w" for w
    by (auto simp: device_answer_def file_answer16_def contents16_def rest16_def open_arg16_first)
  moreover have "\<exists>e r w'. device_answer file_answer16 SIBO_FOPEN (open_arg16 (P_FUPDATE OR P_FCREATE) name) w = (e, r, w') \<and>
        (e = 0 \<and> r = le16 (uint (7 :: 16 word)) \<and> contents16 w' = [] \<or>
         e \<noteq> 0 \<and> status16 e \<and> r = [] \<and>
         (\<exists>w''. device_answer file_answer16 SIBO_FOPEN (open_arg16 (P_FUPDATE OR P_FREPLACE) name) w' =
            (0, le16 (uint (7 :: 16 word)), w'') \<and> contents16 w'' = []))" for w
    by (cases "fst (fst w) = None")
      (simp_all add: device_answer_def file_answer16_def contents16_def open_arg16_first status16_def
        E_PSI_FILE_EXIST_def)
  ultimately show ?thesis using file_answer16_reads unfolding stores16_def by blast
qed

theorem rfsv16_copy_roundtrip_witness:
  "\<exists>s1 s2. copyToPsion16 (device_socket16 env_sample file_answer16) (Some (replicate 3000 1)) ''M:/DATA'' None
      (device_session (Some (ascii ''old''), 0)) = (E_PSI_GEN_NONE, s1) \<and>
    copyFromPsion16 (device_socket16 env_sample file_answer16) ''M:/DATA'' True None s1 =
      Some (E_PSI_GEN_NONE, Some (replicate 3000 1), s2)"
  by (rule rfsv16_copy_roundtrip [OF device_socket16_serves _ _ file_answer16_stores]) simp_all

section \<open>Seeking\<close>

text \<open>
  Seeking forwards from the current position, or from the end, does not reach the device
  as a seek: the reply to the query of the position stays in the buffer of the request, so the
  second request carries those four bytes in front of its arguments, and the handle that the
  device reads there is the low half of the position.
\<close>

theorem rfsv16_seek_forward:
  assumes "serves16 so answer" and "live s" and "0 < sint pos" and "mode = PSI_SEEK_CUR \<or> mode = PSI_SEEK_END"
    and "answer SIBO_FSEEK (le16 (uint handle) @ dword 0 @ le16 (uint mode)) (r_world s) = (0, dword savpos, w1)"
    and "answer SIBO_FSEEK (dword savpos @ le16 (uint handle) @ dword pos @ le16 (uint mode)) w1 = (e, [], w2)"
    and "status16 e" and "e \<noteq> 0"
  shows "\<exists>s'. fseek16 so handle pos mode old s = (e, old, s') \<and> r_world s' = w2 \<and>
    take 2 (dword savpos) = le16 (uint savpos)"
proof -
  have 1: "request16 so SIBO_FSEEK (le16 (uint handle) @ dword 0 @ le16 (uint mode)) s =
      (0, dword savpos, s\<lparr>r_world := w1\<rparr>)"
    by (rule request16_answered [OF assms(1,2) _ assms(5)]) (simp_all add: SIBO_FSEEK_def)
  have 2: "request16 so SIBO_FSEEK (dword savpos @ le16 (uint handle) @ dword pos @ le16 (uint mode))
      (s\<lparr>r_world := w1\<rparr>) = (e, [], s\<lparr>r_world := w1, r_world := w2\<rparr>)"
    by (rule request16_answered [OF assms(1) _ _ _ assms(7)])
      (use assms(2,6) in \<open>simp_all add: SIBO_FSEEK_def\<close>)
  have pos: "pos \<noteq> 0" using assms(3) by auto
  have mode: "\<not> mode < PSI_SEEK_SET" "\<not> mode > PSI_SEEK_END" "mode \<noteq> PSI_SEEK_SET"
    using assms(4) by (auto simp: PSI_SEEK_CUR_def PSI_SEEK_END_def PSI_SEEK_SET_def)
  have "take 2 (dword savpos) = le16 (uint savpos)" by (simp add: dword_def le32_def le16_def)
  then show ?thesis
    using assms(3,8) pos mode by (simp add: fseek16_def fseek_real16_def 1 2)
qed

text \<open>A device that knows the handle 7 only, at position 40; anything else is a bad handle.\<close>

definition seek_answer16 :: "int \<Rightarrow> bytes \<Rightarrow> unit \<Rightarrow> int \<times> bytes \<times> unit" where
  "seek_answer16 cc data d =
     (if cc = SIBO_FSEEK \<and> take 2 data = le16 7 then (0, dword 40, d) else (E_PSI_FILE_HANDLE, [], d))"

theorem rfsv16_seek_forward_witness:
  "\<exists>s'. fseek16 (device_socket16 env_sample seek_answer16) 7 10 PSI_SEEK_CUR 0 (device_session ()) =
      (E_PSI_FILE_HANDLE, 0, s') \<and> r_world s' = ((), []) \<and> take 2 (dword 40) = le16 (uint (40 :: 32 word))"
  by (rule rfsv16_seek_forward [OF device_socket16_serves])
    (simp_all add: device_answer_def seek_answer16_def dword_def le32_def le16_def status16_def
      E_PSI_FILE_HANDLE_def)

end
