(* ===== verification/Drives.thy ===== *)
theory Drives
  imports Rfsv32_Session Rfsv16
begin

text \<open>
  The list of drives, \<open>RFSV::drives\<close> of \<open>lib/rfsv.cc\<close>, over the interface it needs of the
  virtual methods \<open>devlist\<close> and \<open>devinfo\<close>: the locale \<open>drive_source\<close>, proved of \<open>RFSV32\<close>'s
  methods and of \<open>RFSV16\<close>'s for any connection.
\<close>

section \<open>Drive letters\<close>

lemma set_drive_letters: "set (drive_letters bits) = (\<lambda>i. char_of (65 + i)) ` {i. i < 26 \<and> bit bits i}"
proof -
  have "bits AND push_bit i 1 \<noteq> 0 \<longleftrightarrow> bit bits i" if "i < 26" for i
    using that by (simp add: and_exp_eq_0_iff_not_bit push_bit_eq_mult)
  then show ?thesis by (auto simp: drive_letters_def)
qed

lemma letter_inject: "i < 26 \<Longrightarrow> j < 26 \<Longrightarrow> (char_of (65 + i) :: char) = char_of (65 + j) \<longleftrightarrow> i = (j :: nat)"
  by (auto dest!: arg_cong [where f = "of_char :: char \<Rightarrow> nat"])

lemma distinct_drive_letters: "distinct (drive_letters bits)"
  by (auto simp: drive_letters_def distinct_map inj_on_def letter_inject)

lemma toupper_letter: "c \<in> set (drive_letters bits) \<Longrightarrow> toupper c = c"
  by (auto simp: set_drive_letters toupper_def less_eq_char_def)

section \<open>The interface\<close>

locale drive_source =
  fixes devlist :: "32 word \<Rightarrow> 's \<Rightarrow> (int \<times> 32 word \<times> 's) option"
    and devinfo :: "char \<Rightarrow> drive \<Rightarrow> 's \<Rightarrow> int \<times> drive \<times> 's"
  assumes devlist_bits: "devlist 0 s = Some (r, bits, s') \<Longrightarrow> bit bits i \<Longrightarrow> i < 26"
    and devinfo_letter: "devinfo c junk s = (E_PSI_GEN_NONE, d, s') \<Longrightarrow> d_driveLetter d = toupper c"
begin

lemma letters_are_bits:
  "devlist 0 s = Some (r, bits, s') \<Longrightarrow> set (drive_letters bits) = (\<lambda>i. char_of (65 + i)) ` {i. bit bits i}"
  using devlist_bits by (auto simp: set_drive_letters)

text \<open>The drives that the loop returns are those whose \<open>devinfo\<close> succeeds; \<open>info\<close> says what it gives.\<close>

lemma drives_loop_info:
  assumes "\<And>c s. c \<in> set letters \<Longrightarrow> I s \<Longrightarrow> \<exists>s'. I s' \<and> devinfo c junk s =
    (case info c of None \<Rightarrow> (E_PSI_FILE_NOTREADY, junk, s') | Some d \<Rightarrow> (E_PSI_GEN_NONE, d, s'))"
  shows "I s \<Longrightarrow> \<exists>s'. I s' \<and> drives_loop devinfo junk letters ds s =
    (E_PSI_GEN_NONE, ds @ List.map_filter info letters, s')"
  using assms
proof (induction letters arbitrary: ds s)
  case Nil
  then show ?case by (auto simp: List.map_filter_def)
next
  case (Cons c letters)
  obtain s1 where s1: "I s1" "devinfo c junk s =
      (case info c of None \<Rightarrow> (E_PSI_FILE_NOTREADY, junk, s1) | Some d \<Rightarrow> (E_PSI_GEN_NONE, d, s1))"
    using Cons.prems by (metis list.set_intros(1))
  have ne: "E_PSI_GEN_NONE \<noteq> E_PSI_FILE_NOTREADY" by (simp add: errs_defs)
  have IH: "\<exists>s'. I s' \<and> drives_loop devinfo junk letters ds s1 =
      (E_PSI_GEN_NONE, ds @ List.map_filter info letters, s')" for ds
    using Cons.IH [OF s1(1)] Cons.prems(2) by (metis list.set_intros(2))
  show ?case
    using s1(2) ne IH [of ds] IH [of "ds @ [the (info c)]"]
    by (cases "info c") (simp_all add: map_filter_simps)
qed

lemma map_filter_letters:
  assumes "\<And>c. c \<in> set letters \<Longrightarrow> toupper c = c"
    and "\<And>c d. c \<in> set letters \<Longrightarrow> info c = Some d \<Longrightarrow> \<exists>s s'. devinfo c junk s = (E_PSI_GEN_NONE, d, s')"
  shows "map d_driveLetter (List.map_filter info letters) = filter (\<lambda>c. info c \<noteq> None) letters"
  using assms
proof (induction letters)
  case (Cons c letters)
  then show ?case
    using devinfo_letter [of c junk] by (cases "info c") (auto simp: map_filter_simps, metis)
qed (simp add: map_filter_simps)

end

section \<open>The drive requests of RFSV32\<close>

lemma bit_shift_in:
  "bit (shift_in b w) i \<longleftrightarrow> i < 32 \<and> (if i = 0 then b else bit w (i - 1))"
  by (auto simp: shift_in_def Let_def bit_simps simp del: push_bit_Suc One_nat_def dest: bit_imp_le_length)

lemma bit_devlist_fold:
  "n \<le> 32 \<Longrightarrow> bit (fold (\<lambda>i. shift_in (f i)) (rev [0..<n]) w) i \<longleftrightarrow>
     i < 32 \<and> (if i < n then f i else bit w (i - n))"
proof (induction n arbitrary: w)
  case (Suc n)
  then show ?case by (auto simp: bit_shift_in less_Suc_eq)
qed (auto dest: bit_imp_le_length)

lemma bit_devlist: "bit (devlist_bits so a) i \<longleftrightarrow> i < 26 \<and> peek so a i \<noteq> 0"
  unfolding devlist_bits_def by (subst bit_devlist_fold) auto

interpretation rfsv32_drives: drive_source "\<lambda>d s. Some (devlist so d s)" "devinfo so" for so :: "'w socket"
proof
  fix s s' :: "'w rfsv" and r bits i
  assume "Some (devlist so 0 s) = Some (r, bits, s')" and "bit bits i"
  then show "i < 26"
    by (auto simp: devlist_def bit_devlist split: prod.splits if_splits)
next
  fix c junk d and s s' :: "'w rfsv"
  assume "devinfo so c junk s = (E_PSI_GEN_NONE, d, s')"
  then show "d_driveLetter d = toupper c"
    by (auto simp: devinfo_def setName_def Let_def split: prod.splits if_splits)
qed

section \<open>The drive requests of RFSV16\<close>

definition letter_bits :: "32 word \<Rightarrow> bool" where
  "letter_bits w \<longleftrightarrow> (\<forall>i. bit w i \<longrightarrow> i < 26)"

lemma letter_bits_device: "letter_bits w \<Longrightarrow> letter_bits (w OR device_bit b)"
proof -
  have "bit (device_bit b) i \<Longrightarrow> i < 26" for i
    by (auto simp: device_bit_def bit_simps word_le_nat_alt split: if_splits)
  then show "letter_bits w \<Longrightarrow> letter_bits (w OR device_bit b)" by (auto simp: letter_bits_def bit_or_iff)
qed

lemma devlist_loop16_letters:
  assumes "devlist_loop16 so h bits s = Some r"
  shows "letter_bits bits \<longrightarrow> letter_bits (fst (snd r))"
proof (rule devlist_loop16.raw_induct
    [where P = "\<lambda>so h bits s r. letter_bits bits \<longrightarrow> letter_bits (fst (snd r))", OF _ assms], goal_cases)
  case (1 f so h bits s r)
  then show ?case
    using letter_bits_device by (auto simp: Let_def split: prod.splits if_splits)
qed

lemma devlist16_letters:
  assumes "devlist16 so d s = Some r"
  shows "letter_bits (fst (snd r))"
proof -
  have zero: "letter_bits 0" by (simp add: letter_bits_def)
  show ?thesis
    using assms devlist_loop16_letters [of so _ 0] zero
    by (auto simp: devlist16_def Let_def split: prod.splits if_splits)
qed

lemma devinfo16_letter:
  assumes "devinfo16 so c junk s = (E_PSI_GEN_NONE, d, s')"
  shows "d_driveLetter d = toupper c"
proof -
  obtain r1 a1 s1 where 1: "request16 so SIBO_PARSE (ascii [toupper c] @ [0x3a, 0, 0, 0]) s = (r1, a1, s1)"
    by (metis prod_cases3)
  obtain r2 a2 s2 where 2: "request16 so SIBO_STATUSDEVICE (ascii [toupper c] @ [0x3a, 0x5c, 0]) s1 = (r2, a2, s2)"
    by (metis prod_cases3)
  show ?thesis
    using assms unfolding devinfo16_def Let_def 1 2 prod.case
    by (cases "r1 = E_PSI_GEN_NONE"; cases "r2 = E_PSI_GEN_NONE") (auto simp: setName_def)
qed

interpretation rfsv16_drives: drive_source "devlist16 so" "devinfo16 so" for so :: "'w socket"
proof
  fix s s' :: "'w rfsv" and r bits i
  assume "devlist16 so 0 s = Some (r, bits, s')" and "bit bits i"
  then show "i < 26" by (auto simp: letter_bits_def dest: devlist16_letters)
next
  fix c junk d and s s' :: "'w rfsv"
  assume "devinfo16 so c junk s = (E_PSI_GEN_NONE, d, s')"
  then show "d_driveLetter d = toupper c"
    by (rule devinfo16_letter)
qed

section \<open>The list of drives\<close>

text \<open>What \<open>devinfo\<close> makes of a reply, with \<open>junk\<close> for the members it does not set.\<close>

definition drive_of :: "'w socket \<Rightarrow> char \<Rightarrow> bytes \<Rightarrow> drive \<Rightarrow> drive" where
  "drive_of so c a junk = junk\<lparr>d_mediaType := peekDWord so a 0, d_driveAttributes := peekDWord so a 8,
     d_mediaAttributes := peekDWord so a 12, d_uid := peekDWord so a 16,
     d_size := push_bit 32 (ucast (peekDWord so a 24)) + ucast (peekDWord so a 20),
     d_space := push_bit 32 (ucast (peekDWord so a 32)) + ucast (peekDWord so a 28),
     d_driveLetter := c, d_name := peekString so (a @ [0]) 40\<rparr>"

definition serves_drives ::
  "(int \<Rightarrow> bytes \<Rightarrow> 'w \<Rightarrow> int \<times> bytes \<times> 'w) \<Rightarrow> (char \<Rightarrow> bytes option) \<Rightarrow> bool" where
  "serves_drives answer present \<longleftrightarrow>
     (\<forall>c w. \<exists>w'. answer DRIVE_INFO (drive_number c) w =
        (case present c of None \<Rightarrow> (- 18, [], w') | Some a \<Rightarrow> (0, a, w')))"

lemma err2psierr_not_ready: "err2psierr (- 18) = E_PSI_FILE_NOTREADY" "status32 (- 18)"
  by (simp_all add: err2psierr_def status32_def E_EPOC_NONE_def E_EPOC_DIR_FULL_def e2psi_def)

lemma devinfo_answered:
  assumes "serves so answer" and "serves_drives answer present" and "live s" and "toupper c = c"
  shows "\<exists>s'. live s' \<and> devinfo so c junk s =
    (case map_option (\<lambda>a. drive_of so c a junk) (present c) of
       None \<Rightarrow> (E_PSI_FILE_NOTREADY, junk, s') | Some d \<Rightarrow> (E_PSI_GEN_NONE, d, s'))"
proof (cases "present c")
  case None
  then obtain w' where "answer DRIVE_INFO (drive_number c) (r_world s) = (- 18, [], w')"
    using assms(2) [unfolded serves_drives_def, rule_format, of c "r_world s"] by auto
  from request_answered [OF assms(1,3) _ this err2psierr_not_ready(2)] obtain n where
    "request so DRIVE_INFO (drive_number c) s = (E_PSI_FILE_NOTREADY, [], s\<lparr>r_operationId := n, r_world := w'\<rparr>)"
    unfolding err2psierr_not_ready(1) by (auto simp: DRIVE_INFO_def)
  moreover have "E_PSI_FILE_NOTREADY \<noteq> E_PSI_GEN_NONE" by (simp add: errs_defs)
  moreover have "live (s\<lparr>r_operationId := n, r_world := w'\<rparr>)" using assms(3) by (simp add: live_def)
  ultimately show ?thesis using None by (auto simp: devinfo_def)
next
  case (Some a)
  then obtain w' where "answer DRIVE_INFO (drive_number c) (r_world s) = (0, a, w')"
    using assms(2) [unfolded serves_drives_def, rule_format, of c "r_world s"] by auto
  from request_ok [OF assms(1,3) _ this] obtain s' where
    "request so DRIVE_INFO (drive_number c) s = (E_PSI_GEN_NONE, a, s')" "live s'"
    by (auto simp: DRIVE_INFO_def)
  then show ?thesis
    using Some assms(4) by (auto simp: devinfo_def drive_of_def setSize_def setSpace_def setName_def Let_def)
qed

text \<open>
  the list of drives. The device's list of 26 bytes says which letters exist, and the
  result has, in the order of the letters, one drive for each of them that is ready, with
  the letter and the data of its own reply; drives that are not ready are left out.
\<close>

theorem rfsv_drives_listed:
  assumes "serves so answer" and "live s" and "serves_drives answer present"
    and "answer GET_DRIVE_LIST [] (r_world s) = (0, b, w1)" and "length b = 26"
  shows "\<exists>ds s'. rfsv_drives (\<lambda>d s. Some (devlist so d s)) (devinfo so) junk s =
      Some (E_PSI_GEN_NONE, ds, s') \<and>
    ds = List.map_filter (\<lambda>c. map_option (\<lambda>a. drive_of so c a junk) (present c))
      (drive_letters (devlist_bits so b)) \<and>
    map d_driveLetter ds = filter (\<lambda>c. present c \<noteq> None)
      (map (\<lambda>i. char_of (65 + i)) (filter (\<lambda>i. b ! i \<noteq> 0) [0..<26]))"
proof -
  let ?info = "\<lambda>c. map_option (\<lambda>a. drive_of so c a junk) (present c)"
  let ?letters = "drive_letters (devlist_bits so b)"
  obtain s1 where s1: "request so GET_DRIVE_LIST [] s = (E_PSI_GEN_NONE, b, s1)" "live s1"
    using request_ok [OF assms(1,2) _ assms(4)] by (auto simp: GET_DRIVE_LIST_def)
  have "E_PSI_GEN_NONE \<noteq> E_PSI_FILE_DISC" by (simp add: errs_defs)
  with s1 have devlist: "devlist so 0 s = (E_PSI_GEN_NONE, devlist_bits so b, s1)"
    using assms(5) by (auto simp: request_def devlist_def split: prod.splits if_splits)
  have info: "\<exists>s'. live s' \<and> devinfo so c junk s =
      (case ?info c of None \<Rightarrow> (E_PSI_FILE_NOTREADY, junk, s') | Some d \<Rightarrow> (E_PSI_GEN_NONE, d, s'))"
    if "c \<in> set ?letters" "live s" for c s
    using devinfo_answered [OF assms(1,3) that(2) toupper_letter [OF that(1)]] .
  obtain s2 where "drives_loop (devinfo so) junk ?letters [] s1 =
      (E_PSI_GEN_NONE, [] @ List.map_filter ?info ?letters, s2)"
    using rfsv32_drives.drives_loop_info [OF info s1(2), of ?letters "[]"] by blast
  then have "rfsv_drives (\<lambda>d s. Some (devlist so d s)) (devinfo so) junk s =
      Some (E_PSI_GEN_NONE, List.map_filter ?info ?letters, s2)"
    by (simp add: rfsv_drives_def devlist)
  moreover have "map d_driveLetter (List.map_filter ?info ?letters) = filter (\<lambda>c. ?info c \<noteq> None) ?letters"
  proof (rule rfsv32_drives.map_filter_letters)
    show "toupper c = c" if "c \<in> set ?letters" for c using toupper_letter [OF that] .
    show "\<exists>s s'. devinfo so c junk s = (E_PSI_GEN_NONE, d, s')"
      if "c \<in> set ?letters" "?info c = Some d" for c d
      using info [OF that(1) s1(2)] that(2) by auto
  qed
  moreover have "?letters = map (\<lambda>i. char_of (65 + i)) (filter (\<lambda>i. b ! i \<noteq> 0) [0..<26])"
  proof -
    have "(devlist_bits so b AND push_bit i 1 \<noteq> 0) \<longleftrightarrow> b ! i \<noteq> 0" if "i < 26" for i
      using that assms(5)
      by (simp add: and_exp_eq_0_iff_not_bit push_bit_eq_mult bit_devlist peek_def nth_append)
    then show ?thesis by (auto simp: drive_letters_def intro!: arg_cong2 [where f = map] filter_cong)
  qed
  ultimately show ?thesis by simp
qed

text \<open>A device with the letters C and D, of which only C is ready.\<close>

definition drive_reply :: bytes where
  "drive_reply =
     dword 5 @ dword 0 @ dword 0x11 @ dword 0x02 @ dword 77 @ dword 0x1000 @ dword 1 @
     dword 0x800 @ dword 0 @ dword 8 @ ascii ''Internal''"

definition drives_answer :: "int \<Rightarrow> bytes \<Rightarrow> unit \<Rightarrow> int \<times> bytes \<times> unit" where
  "drives_answer cc data d =
     (if cc = GET_DRIVE_LIST then (0, [0, 0, 1, 1] @ replicate 22 0, d)
      else if cc = DRIVE_INFO \<and> data = drive_number CHR ''C'' then (0, drive_reply, d)
      else (- 18, [], d))"

definition drive_junk :: drive where
  "drive_junk =
     \<lparr>d_mediaType = 0, d_driveAttributes = 0, d_mediaAttributes = 0, d_uid = 0, d_size = 0,
      d_space = 0, d_driveLetter = CHR 0x00, d_name = []\<rparr>"

theorem rfsv_drives_listed_witness:
  "\<exists>ds s'. rfsv_drives (\<lambda>d s. Some (devlist (device_socket env_sample drives_answer) d s))
      (devinfo (device_socket env_sample drives_answer)) drive_junk (device_session ()) =
      Some (E_PSI_GEN_NONE, ds, s') \<and> map d_driveLetter ds = ''C''"
proof -
  let ?a = "device_answer drives_answer" and ?b = "[0, 0, 1, 1] @ replicate 22 0 :: bytes"
  let ?p = "\<lambda>c. if drive_number c = drive_number CHR ''C'' then Some drive_reply else None"
  have "DRIVE_INFO \<noteq> GET_DRIVE_LIST" by (simp add: DRIVE_INFO_def GET_DRIVE_LIST_def)
  then have served: "serves_drives ?a ?p"
    by (simp add: serves_drives_def device_answer_def drives_answer_def)
  have listed: "?a GET_DRIVE_LIST [] (r_world (device_session ())) = (0, ?b, ((), []))"
    by (simp add: device_answer_def drives_answer_def)
  have letters: "filter (\<lambda>i. ?b ! i \<noteq> 0) [0..<26] = [2, 3]" by code_simp
  have "filter (\<lambda>c. ?p c \<noteq> None) (map (\<lambda>i. char_of (65 + i)) [2, 3 :: nat]) = ''C''"
    by code_simp
  then show ?thesis
    using rfsv_drives_listed [OF device_socket_serves _ served listed, of env_sample drive_junk] unfolding letters by auto
qed

end
