(* ===== verification/Sis.thy ===== *)
theory Sis
  imports Crc
begin

text \<open>
  SIS installation files: \<open>lib/sistypes.cpp\<close>, \<open>lib/sisfileheader.cpp\<close>, \<open>lib/sislangrecord.cpp\<close>,
  \<open>lib/sisreqrecord.cpp\<close>, \<open>lib/siscomponentrecord.cpp\<close>, \<open>lib/sisfilerecord.cpp\<close> and
  \<open>lib/sisfile.cpp\<close>. The file is a byte list \<open>buf\<close> that the records point into; positions are
  the \<open>int\<close> of the code. The result of a whole operation is \<open>None\<close> if the code reads or writes
  outside the buffer, uses a member that was never set, or overflows an \<open>int\<close>. The messages on
  standard output are left out.
\<close>

section \<open>sistypes\<close>

datatype SisRC =
  SIS_OK | SIS_TRUNCATED | SIS_TRUNCATEDDATA | SIS_CORRUPTED | SIS_FAILED | SIS_ABORTED |
  SIS_DIFFERENT_APP | SIS_VER_EARLIER | SIS_SAME_OR_LATER | SIS_OTHER_VARIANT

definition createCRCTable_round :: "nat \<Rightarrow> 32 word list \<Rightarrow> 32 word list" where
  "createCRCTable_round index t =
     (let carry = (t ! index) AND 0x8000;
          temp = (push_bit 1 (t ! index)) AND 0xffff;
          t = t[index * 2 + (if carry \<noteq> 0 then 0 else 1) := temp XOR 0x1021]
      in t[index * 2 + (if carry \<noteq> 0 then 1 else 0) := temp])"

definition createCRCTable :: "32 word list" where
  "createCRCTable = fold createCRCTable_round [0..<128] (replicate 256 0)"

definition updateCrc :: "16 word \<Rightarrow> byte \<Rightarrow> 16 word" where
  "updateCrc crc v =
     ucast (push_bit 8 (ucast crc :: 32 word) XOR
            createCRCTable ! unat ((drop_bit 8 (ucast crc :: 32 word) XOR ucast v) AND 0xff))"

definition calcCRC :: "bytes \<Rightarrow> 16 word" where
  "calcCRC b = fold (\<lambda>v crc. updateCrc crc v) b 0"

text \<open>A pointer into the buffer is the position it points to.\<close>

definition rd :: "bytes \<Rightarrow> int \<Rightarrow> byte option" where
  "rd buf p = (if 0 \<le> p \<and> p < int (length buf) then Some (buf ! nat p) else None)"

definition read16 :: "bytes \<Rightarrow> int \<Rightarrow> 16 word option" where
  "read16 buf p = do { b0 \<leftarrow> rd buf p; b1 \<leftarrow> rd buf (p + 1); Some (join16 b0 b1) }"

definition read32 :: "bytes \<Rightarrow> int \<Rightarrow> 32 word option" where
  "read32 buf p = do {
     b0 \<leftarrow> rd buf p; b1 \<leftarrow> rd buf (p + 1); b2 \<leftarrow> rd buf (p + 2); b3 \<leftarrow> rd buf (p + 3);
     Some (join32 b0 b1 b2 b3) }"

definition wr :: "int \<Rightarrow> byte \<Rightarrow> bytes \<Rightarrow> bytes option" where
  "wr p v buf = (if 0 \<le> p \<and> p < int (length buf) then Some (buf[nat p := v]) else None)"

definition write16 :: "int \<Rightarrow> int \<Rightarrow> bytes \<Rightarrow> bytes option" where
  "write16 p val buf = do {
     buf \<leftarrow> wr p (word_of_int (val AND 255)) buf;
     wr (p + 1) (word_of_int (drop_bit 8 val AND 255)) buf }"

text \<open>The addition of two \<open>int\<close>s, and the conversion of an unsigned number to \<open>int\<close>.\<close>

definition iadd :: "int \<Rightarrow> int \<Rightarrow> int option" where
  "iadd a b = (if - (2 ^ 31) \<le> a + b \<and> a + b < 2 ^ 31 then Some (a + b) else None)"

section \<open>SISFileHeader\<close>

record sis_header =
  m_uid1 :: "32 word"
  m_uid2 :: "32 word"
  m_uid3 :: "32 word"
  m_uid4 :: "32 word"
  m_crc :: "16 word"
  m_nlangs :: "16 word"
  m_nfiles :: "16 word"
  m_nreqs :: "16 word"
  m_installationLanguage :: "16 word"
  m_installationFiles :: "16 word"
  m_installationDrive :: "32 word"
  m_installerVersion :: "32 word"
  m_options :: "16 word"
  m_type :: "16 word"
  m_major :: "16 word"
  m_minor :: "16 word"
  m_variant :: "32 word"
  m_languagePtr :: "32 word"
  m_filesPtr :: "32 word"
  m_reqPtr :: "32 word"
  m_unknown :: "32 word"
  m_componentPtr :: "32 word"

definition OFF_NUMBER_OF_FILES :: int where "OFF_NUMBER_OF_FILES = 26"
definition OFF_INSTALLATION_DRIVE :: int where "OFF_INSTALLATION_DRIVE = 28"

definition header_compareApp :: "sis_header \<Rightarrow> sis_header \<Rightarrow> SisRC" where
  "header_compareApp h other =
     (if m_uid1 h \<noteq> m_uid1 other then SIS_DIFFERENT_APP
      else if m_major h < m_major other \<or> (m_major h = m_major other \<and> m_minor h < m_minor other)
      then SIS_VER_EARLIER
      else if m_major h = m_major other \<and> m_minor h = m_minor other \<and> m_variant h \<noteq> m_variant other
      then SIS_OTHER_VARIANT
      else SIS_SAME_OR_LATER)"

text \<open>The checksum of the first three numbers: one of the even bytes, one of the odd ones.\<close>

definition header_crc :: "bytes \<Rightarrow> int \<Rightarrow> int \<Rightarrow> 16 word option" where
  "header_crc buf base k =
     fold (\<lambda>i crc. do { crc \<leftarrow> crc; v \<leftarrow> rd buf (base + i + k); Some (updateCrc crc v) })
       [0, 2, 4, 6, 8, 10] (Some 0)"

text \<open>The fields behind the checksum, which are not checked.\<close>

definition header_fields :: "bytes \<Rightarrow> int \<Rightarrow> sis_header \<Rightarrow> sis_header option" where
  "header_fields buf start h = do {
     v \<leftarrow> read16 buf (start + 16); let h = h\<lparr>m_crc := v\<rparr>;
     v \<leftarrow> read16 buf (start + 18); let h = h\<lparr>m_nlangs := v\<rparr>;
     v \<leftarrow> read16 buf (start + 20); let h = h\<lparr>m_nfiles := v\<rparr>;
     v \<leftarrow> read16 buf (start + 22); let h = h\<lparr>m_nreqs := v\<rparr>;
     v \<leftarrow> read16 buf (start + 24); let h = h\<lparr>m_installationLanguage := v\<rparr>;
     v \<leftarrow> read16 buf (start + OFF_NUMBER_OF_FILES); let h = h\<lparr>m_installationFiles := v\<rparr>;
     v \<leftarrow> read32 buf (start + OFF_INSTALLATION_DRIVE); let h = h\<lparr>m_installationDrive := v\<rparr>;
     v \<leftarrow> read32 buf (start + 32); let h = h\<lparr>m_installerVersion := v\<rparr>;
     v \<leftarrow> read16 buf (start + 36); let h = h\<lparr>m_options := v\<rparr>;
     v \<leftarrow> read16 buf (start + 38); let h = h\<lparr>m_type := v\<rparr>;
     v \<leftarrow> read16 buf (start + 40); let h = h\<lparr>m_major := v\<rparr>;
     v \<leftarrow> read16 buf (start + 42); let h = h\<lparr>m_minor := v\<rparr>;
     v \<leftarrow> read32 buf (start + 44); let h = h\<lparr>m_variant := v\<rparr>;
     v \<leftarrow> read32 buf (start + 48); let h = h\<lparr>m_languagePtr := v\<rparr>;
     v \<leftarrow> read32 buf (start + 52); let h = h\<lparr>m_filesPtr := v\<rparr>;
     v \<leftarrow> read32 buf (start + 56); let h = h\<lparr>m_reqPtr := v\<rparr>;
     v \<leftarrow> read32 buf (start + 60); let h = h\<lparr>m_unknown := v\<rparr>;
     v \<leftarrow> read32 buf (start + 64); Some (h\<lparr>m_componentPtr := v\<rparr>) }"

definition header_fillFrom :: "bytes \<Rightarrow> int \<Rightarrow> int \<Rightarrow> sis_header \<Rightarrow> (SisRC \<times> int \<times> sis_header) option" where
  "header_fillFrom buf base len h = do {
     e \<leftarrow> iadd base 68;
     if e > len then Some (SIS_TRUNCATED, base, h) else do {
     v \<leftarrow> read32 buf base; let h = h\<lparr>m_uid1 := v\<rparr>;
     v \<leftarrow> read32 buf (base + 4); let h = h\<lparr>m_uid2 := v\<rparr>;
     if v \<noteq> 0x1000006d then Some (SIS_CORRUPTED, base, h) else do {
     v \<leftarrow> read32 buf (base + 8); let h = h\<lparr>m_uid3 := v\<rparr>;
     if v \<noteq> 0x10000419 then Some (SIS_CORRUPTED, base, h) else do {
     v \<leftarrow> read32 buf (base + 12); let h = h\<lparr>m_uid4 := v\<rparr>;
     crc1 \<leftarrow> header_crc buf base 0;
     crc2 \<leftarrow> header_crc buf base 1;
     if push_bit 16 (ucast crc2) OR ucast crc1 \<noteq> m_uid4 h then Some (SIS_CORRUPTED, base, h) else do {
     h \<leftarrow> header_fields buf base h;
     Some (SIS_OK, e, h) } } } } }"

text \<open>A \<open>char\<close> is signed; \<open>m_buf\<close> is the buffer that was parsed.\<close>

definition header_setDrive :: "byte \<Rightarrow> sis_header \<Rightarrow> bytes \<Rightarrow> (sis_header \<times> bytes) option" where
  "header_setDrive drive h buf = do {
     let h = h\<lparr>m_installationDrive := scast drive\<rparr>;
     buf \<leftarrow> wr OFF_INSTALLATION_DRIVE drive buf;
     buf \<leftarrow> wr (OFF_INSTALLATION_DRIVE + 3) 0 buf;
     buf \<leftarrow> wr (OFF_INSTALLATION_DRIVE + 2) 0 buf;
     buf \<leftarrow> wr (OFF_INSTALLATION_DRIVE + 1) 0 buf;
     Some (h, buf) }"

definition header_setFiles :: "int \<Rightarrow> sis_header \<Rightarrow> bytes \<Rightarrow> (sis_header \<times> bytes) option" where
  "header_setFiles nFiles h buf = do {
     buf \<leftarrow> write16 OFF_NUMBER_OF_FILES nFiles buf;
     Some (h\<lparr>m_installationFiles := word_of_int nFiles\<rparr>, buf) }"

end
