(* ===== verification/SisFile.thy ===== *)
theory SisFile
  imports Sis
begin

text \<open>
  The records behind the header of a SIS file, and the file as a whole: \<open>lib/sislangrecord.cpp\<close>,
  \<open>lib/sisreqrecord.cpp\<close>, \<open>lib/siscomponentrecord.cpp\<close>, \<open>lib/sisfilerecord.cpp\<close> and
  \<open>lib/sisfile.cpp\<close>. A record that is filled returns its code, the position behind it and its
  fields as far as they were read. Arrays hold the elements that have been set.
\<close>

section \<open>SISLangRecord\<close>

text \<open>The numbers of the languages of \<open>langTable\<close>, of which \<open>fillFrom\<close> accepts all.\<close>

definition lang_fillFrom :: "bytes \<Rightarrow> int \<Rightarrow> int \<Rightarrow> (SisRC \<times> int \<times> 16 word option) option" where
  "lang_fillFrom buf base len = do {
     e \<leftarrow> iadd base 2;
     if e > len then Some (SIS_TRUNCATED, base, None) else do {
     lang \<leftarrow> read16 buf base;
     if lang > 33 then Some (SIS_CORRUPTED, base, Some lang)
     else Some (SIS_OK, e, Some lang) } }"

section \<open>SISReqRecord\<close>

text \<open>An array of 32-bit numbers at \<open>p\<close>.\<close>

primrec read32s :: "bytes \<Rightarrow> int \<Rightarrow> nat \<Rightarrow> 32 word list option" where
  "read32s buf p 0 = Some []"
| "read32s buf p (Suc n) = do { v \<leftarrow> read32 buf p; vs \<leftarrow> read32s buf (p + 4) n; Some (v # vs) }"

record sis_req =
  rq_uid :: "32 word"
  rq_major :: "16 word"
  rq_minor :: "16 word"
  rq_variant :: "32 word"
  rq_nameLengths :: "32 word list"
  rq_namePtrs :: "32 word list"

text \<open>
  The second loop: the pointers, each checked against the length of the file. The sum of
  position and length is a 32-bit number; \<open>True\<close> if all passed.
\<close>

fun name_ptrs :: "bytes \<Rightarrow> int \<Rightarrow> int \<Rightarrow> 32 word list \<Rightarrow> (bool \<times> 32 word list) option" where
  "name_ptrs buf len p [] = Some (True, [])"
| "name_ptrs buf len p (l # ls) = do {
     v \<leftarrow> read32 buf p;
     if uint (v + l) > len then Some (False, [v]) else do {
     (ok, vs) \<leftarrow> name_ptrs buf len (p + 4) ls;
     Some (ok, v # vs) } }"

definition req_fillFrom :: "bytes \<Rightarrow> int \<Rightarrow> int \<Rightarrow> nat \<Rightarrow> (SisRC \<times> int \<times> sis_req option) option" where
  "req_fillFrom buf base len n = do {
     e \<leftarrow> iadd base (12 + int n * 4 * 2);
     if e > len then Some (SIS_TRUNCATED, base, None) else do {
     uid \<leftarrow> read32 buf base;
     major \<leftarrow> read16 buf (base + 4);
     minor \<leftarrow> read16 buf (base + 6);
     variant \<leftarrow> read32 buf (base + 8);
     lens \<leftarrow> read32s buf (base + 12) n;
     (ok, ptrs) \<leftarrow> name_ptrs buf len (base + 12 + int n * 4) lens;
     let r = \<lparr>rq_uid = uid, rq_major = major, rq_minor = minor, rq_variant = variant,
       rq_nameLengths = lens, rq_namePtrs = ptrs\<rparr>;
     Some (if ok then (SIS_OK, e, Some r) else (SIS_CORRUPTED, base, Some r)) } }"

section \<open>SISComponentNameRecord\<close>

text \<open>\<open>cn_nameCount\<close> is not set by the constructor.\<close>

record sis_component =
  cn_nameLengths :: "32 word list"
  cn_namePtrs :: "32 word list"
  cn_names :: "bytes list"
  cn_nameCount :: "nat option"

definition component_new :: sis_component where
  "component_new = \<lparr>cn_nameLengths = [], cn_namePtrs = [], cn_names = [], cn_nameCount = None\<rparr>"

fun name_lengths :: "bytes \<Rightarrow> int \<Rightarrow> int \<Rightarrow> nat \<Rightarrow> (bool \<times> 32 word list) option" where
  "name_lengths buf len p 0 = Some (True, [])"
| "name_lengths buf len p (Suc n) = do {
     v \<leftarrow> read32 buf p;
     if uint v > len then Some (False, [v]) else do {
     (ok, vs) \<leftarrow> name_lengths buf len (p + 4) n;
     Some (ok, v # vs) } }"

text \<open>\<open>memcpy\<close> of \<open>nlen\<close> bytes; a negative length is a huge one.\<close>

definition copy_bytes :: "bytes \<Rightarrow> int \<Rightarrow> int \<Rightarrow> bytes option" where
  "copy_bytes buf p nlen =
     (if nlen < 0 then None
      else if nlen = 0 then Some []
      else if 0 \<le> p \<and> p + nlen \<le> int (length buf) then Some (take (nat nlen) (drop (nat p) buf))
      else None)"

fun component_names ::
  "bytes \<Rightarrow> int \<Rightarrow> int \<Rightarrow> 32 word list \<Rightarrow> (bool \<times> 32 word list \<times> bytes list) option" where
  "component_names buf len p [] = Some (True, [], [])"
| "component_names buf len p (l # ls) = do {
     v \<leftarrow> read32 buf p;
     if uint (v + l) > len then Some (False, [v], []) else do {
     name \<leftarrow> copy_bytes buf (uint v) (sint l);
     (ok, vs, names) \<leftarrow> component_names buf len (p + 4) ls;
     Some (ok, v # vs, (name @ [0]) # names) } }"

definition component_fillFrom ::
  "bytes \<Rightarrow> int \<Rightarrow> int \<Rightarrow> nat \<Rightarrow> sis_component \<Rightarrow> (SisRC \<times> int \<times> sis_component) option" where
  "component_fillFrom buf base len n c = do {
     e \<leftarrow> iadd base (8 + int n * 4 * 2);
     if e > len then Some (SIS_TRUNCATED, base, c) else do {
     (ok, lens) \<leftarrow> name_lengths buf len base n;
     let c = c\<lparr>cn_nameLengths := lens\<rparr>;
     if \<not> ok then Some (SIS_TRUNCATED, e, c) else do {
     (ok, ptrs, names) \<leftarrow> component_names buf len (base + int n * 4) lens;
     let c = c\<lparr>cn_namePtrs := ptrs, cn_names := names, cn_nameCount := Some n\<rparr>;
     Some (if ok then SIS_OK else SIS_TRUNCATED, e, c) } } }"

definition getLastEnd :: "sis_component \<Rightarrow> 32 word option" where
  "getLastEnd c = do {
     n \<leftarrow> cn_nameCount c;
     if length (cn_namePtrs c) < n \<or> length (cn_nameLengths c) < n then None
     else Some (fold (\<lambda>i last. let pos = cn_namePtrs c ! i + cn_nameLengths c ! i
                               in if last < pos then pos else last) [0..<n] 0) }"

definition component_getName :: "sis_component \<Rightarrow> nat \<Rightarrow> bytes option" where
  "component_getName c no = (if no < length (cn_names c) then Some (cn_names c ! no) else None)"

section \<open>SISFileRecord\<close>

record sis_filerec =
  fr_flags :: "32 word"
  fr_fileType :: "32 word"
  fr_fileDetails :: "32 word"
  fr_sourceLength :: "32 word"
  fr_sourcePtr :: "32 word"
  fr_destLength :: "32 word"
  fr_destPtr :: "32 word"
  fr_fileLengths :: "32 word list"
  fr_filePtrs :: "32 word list"
  fr_len :: "32 word"

definition filerec_fillFrom ::
  "bytes \<Rightarrow> int \<Rightarrow> int \<Rightarrow> nat \<Rightarrow> (SisRC \<times> int \<times> sis_filerec option) option" where
  "filerec_fillFrom buf base len n = do {
     e \<leftarrow> iadd base (28 + 4 * 2);
     if e > len then Some (SIS_TRUNCATED, base, None) else do {
     flags \<leftarrow> read32 buf base;
     fileType \<leftarrow> read32 buf (base + 4);
     details \<leftarrow> read32 buf (base + 8);
     sourceLength \<leftarrow> read32 buf (base + 12);
     sourcePtr \<leftarrow> read32 buf (base + 16);
     destLength \<leftarrow> read32 buf (base + 20);
     destPtr \<leftarrow> read32 buf (base + 24);
     let r = \<lparr>fr_flags = flags, fr_fileType = fileType, fr_fileDetails = details,
       fr_sourceLength = sourceLength, fr_sourcePtr = sourcePtr, fr_destLength = destLength,
       fr_destPtr = destPtr, fr_fileLengths = [], fr_filePtrs = [], fr_len = word_of_int len\<rparr>;
     if flags = 0 then do {
       l \<leftarrow> read32 buf (base + 28);
       p \<leftarrow> read32 buf (base + 28 + 4);
       Some (SIS_OK, e, Some (r\<lparr>fr_fileLengths := [l], fr_filePtrs := [p]\<rparr>)) }
     else if flags = 1 then do {
       e \<leftarrow> iadd base (28 + int n * 8);
       if e > len then Some (SIS_TRUNCATED, base, Some r) else do {
       ls \<leftarrow> read32s buf (base + 28) n;
       ps \<leftarrow> read32s buf (base + 28 + int n * 4) n;
       Some (SIS_OK, e, Some (r\<lparr>fr_fileLengths := ls, fr_filePtrs := ps\<rparr>)) } }
     else do {
       e \<leftarrow> iadd base 28;
       Some (SIS_OK, e, Some r) } } }"

text \<open>A pointer into the buffer is a position; the inner \<open>None\<close> is the null pointer.\<close>

definition getFilePtr :: "sis_filerec \<Rightarrow> int \<Rightarrow> nat option option" where
  "getFilePtr r fileNo =
     (if fileNo < 0 then Some None
      else if nat fileNo < length (fr_filePtrs r) then
        (let p = fr_filePtrs r ! nat fileNo in Some (if p \<ge> fr_len r then None else Some (unat p)))
      else None)"

definition getDestPtr :: "sis_filerec \<Rightarrow> nat option" where
  "getDestPtr r = (if fr_destPtr r < fr_len r then Some (unat (fr_destPtr r)) else None)"

definition setMainDrive :: "sis_filerec \<Rightarrow> byte \<Rightarrow> bytes \<Rightarrow> bytes option" where
  "setMainDrive r drive buf = do {
     c \<leftarrow> rd buf (uint (fr_destPtr r));
     if c = 33 then wr (uint (fr_destPtr r)) drive buf else Some buf }"

section \<open>SISFile\<close>

text \<open>\<open>sf_buf\<close> is the buffer that \<open>m_buf\<close> of the file and of its header point to.\<close>

record sisfile =
  sf_header :: sis_header
  sf_langRecords :: "16 word list"
  sf_fileRecords :: "sis_filerec list"
  sf_reqRecords :: "sis_req list"
  sf_componentRecord :: sis_component
  sf_buf :: bytes
  sf_end :: "32 word"

definition updateEnd :: "32 word \<Rightarrow> sisfile \<Rightarrow> sisfile" where
  "updateEnd pos f = (if sf_end f < pos then f\<lparr>sf_end := pos\<rparr> else f)"

text \<open>The conversion of a 32-bit number to \<open>int\<close>.\<close>

abbreviation to_int :: "32 word \<Rightarrow> int" where
  "to_int w \<equiv> sint w"

text \<open>
  The three loops over records: the code of the first record that fails, if any, the position
  and the records. A file record that fails with \<open>SIS_TRUNCATEDDATA\<close> does not end the loop.
\<close>

fun lang_loop :: "bytes \<Rightarrow> int \<Rightarrow> nat \<Rightarrow> int \<Rightarrow> (SisRC \<times> int \<times> 16 word list) option" where
  "lang_loop buf len 0 ix = Some (SIS_OK, ix, [])"
| "lang_loop buf len (Suc n) ix =
     (if ix \<ge> len then Some (SIS_TRUNCATED, ix, []) else do {
      (rc, ix, r) \<leftarrow> lang_fillFrom buf ix len;
      if rc \<noteq> SIS_OK then Some (rc, ix, case r of None \<Rightarrow> [] | Some r \<Rightarrow> [r]) else do {
      (rc, ix, rs) \<leftarrow> lang_loop buf len n ix;
      Some (rc, ix, (case r of None \<Rightarrow> rs | Some r \<Rightarrow> r # rs)) } })"

fun req_loop :: "bytes \<Rightarrow> int \<Rightarrow> nat \<Rightarrow> nat \<Rightarrow> int \<Rightarrow> (SisRC \<times> int \<times> sis_req list) option" where
  "req_loop buf len nlangs 0 ix = Some (SIS_OK, ix, [])"
| "req_loop buf len nlangs (Suc n) ix =
     (if ix \<ge> len then Some (SIS_TRUNCATED, ix, []) else do {
      (rc, ix, r) \<leftarrow> req_fillFrom buf ix len nlangs;
      if rc \<noteq> SIS_OK then Some (rc, ix, case r of None \<Rightarrow> [] | Some r \<Rightarrow> [r]) else do {
      (rc, ix, rs) \<leftarrow> req_loop buf len nlangs n ix;
      Some (rc, ix, (case r of None \<Rightarrow> rs | Some r \<Rightarrow> r # rs)) } })"

fun file_loop :: "bytes \<Rightarrow> int \<Rightarrow> nat \<Rightarrow> nat \<Rightarrow> int \<Rightarrow> (SisRC \<times> int \<times> sis_filerec list) option" where
  "file_loop buf len nlangs 0 ix = Some (SIS_OK, ix, [])"
| "file_loop buf len nlangs (Suc n) ix =
     (if ix \<ge> len then Some (SIS_TRUNCATED, ix, []) else do {
      (rc, ix, r) \<leftarrow> filerec_fillFrom buf ix len nlangs;
      if rc \<noteq> SIS_OK \<and> rc \<noteq> SIS_TRUNCATEDDATA
      then Some (rc, ix, case r of None \<Rightarrow> [] | Some r \<Rightarrow> [r]) else do {
      (rc, ix, rs) \<leftarrow> file_loop buf len nlangs n ix;
      Some (rc, ix, (case r of None \<Rightarrow> rs | Some r \<Rightarrow> r # rs)) } })"

definition sisfile_fillFrom :: "bytes \<Rightarrow> int \<Rightarrow> sisfile \<Rightarrow> (SisRC \<times> sisfile) option" where
  "sisfile_fillFrom buf len f = do {
     let f = f\<lparr>sf_end := 0, sf_buf := buf\<rparr>;
     (rc, ix, h) \<leftarrow> header_fillFrom buf 0 len (sf_header f);
     let f = f\<lparr>sf_header := h\<rparr>;
     if rc \<noteq> SIS_OK then Some (rc, f) else do {
     let nlangs = unat (m_nlangs h);
     (rc, ix, rs) \<leftarrow> lang_loop buf len nlangs (to_int (m_languagePtr h));
     let f = f\<lparr>sf_langRecords := rs\<rparr>;
     if rc \<noteq> SIS_OK then Some (rc, f) else do {
     let f = updateEnd (word_of_int ix) f;
     (rc, ix, rs) \<leftarrow> req_loop buf len nlangs (unat (m_nreqs h)) (to_int (m_reqPtr h));
     let f = f\<lparr>sf_reqRecords := rs\<rparr>;
     if rc \<noteq> SIS_OK then Some (rc, f) else do {
     let f = updateEnd (word_of_int ix) f;
     (rc, ix, c) \<leftarrow> component_fillFrom buf (to_int (m_componentPtr h)) len nlangs (sf_componentRecord f);
     let f = updateEnd (word_of_int ix) (f\<lparr>sf_componentRecord := c\<rparr>);
     lastEnd \<leftarrow> getLastEnd c;
     let f = updateEnd lastEnd f;
     if rc \<noteq> SIS_OK then Some (rc, f) else do {
     (rc, ix, rs) \<leftarrow> file_loop buf len nlangs (unat (m_nfiles h)) (to_int (m_filesPtr h));
     let f = f\<lparr>sf_fileRecords := rs\<rparr>;
     if rc \<noteq> SIS_OK then Some (rc, f) else
     Some (SIS_OK, updateEnd (word_of_int ix) f) } } } } }"

definition sisfile_compareApp :: "sisfile \<Rightarrow> sisfile \<Rightarrow> SisRC" where
  "sisfile_compareApp f other = header_compareApp (sf_header f) (sf_header other)"

definition sisfile_getName :: "sisfile \<Rightarrow> bytes option" where
  "sisfile_getName f =
     component_getName (sf_componentRecord f) (unat (m_installationLanguage (sf_header f)))"

definition sisfile_getLanguage :: "sisfile \<Rightarrow> nat \<Rightarrow> nat option" where
  "sisfile_getLanguage f i =
     (if i < length (sf_langRecords f) \<and> sf_langRecords f ! i \<le> 33
      then Some (unat (sf_langRecords f ! i)) else None)"

definition sisfile_setDrive :: "byte \<Rightarrow> sisfile \<Rightarrow> sisfile option" where
  "sisfile_setDrive drive f = do {
     (h, buf) \<leftarrow> header_setDrive drive (sf_header f) (sf_buf f);
     Some (f\<lparr>sf_header := h, sf_buf := buf\<rparr>) }"

definition sisfile_setFiles :: "int \<Rightarrow> sisfile \<Rightarrow> sisfile option" where
  "sisfile_setFiles nFiles f = do {
     (h, buf) \<leftarrow> header_setFiles nFiles (sf_header f) (sf_buf f);
     Some (f\<lparr>sf_header := h, sf_buf := buf\<rparr>) }"

definition sisfile_setLanguage :: "int \<Rightarrow> sisfile \<Rightarrow> sisfile" where
  "sisfile_setLanguage lang f =
     f\<lparr>sf_header := (sf_header f)\<lparr>m_installationLanguage := word_of_int lang\<rparr>\<rparr>"

end
