(* ===== verification/SisFile_Safe.thy ===== *)
theory SisFile_Safe
  imports SisFile
begin

text \<open>
  Reading a SIS file: when \<open>SISFile::fillFrom\<close> stays inside the buffer, and when it does not;
  the patches of the header are what the next run reads; the checksum is the CRC of the link.
\<close>

section \<open>Reading inside the buffer\<close>

lemma rd_in: "0 \<le> p \<Longrightarrow> p < int (length buf) \<Longrightarrow> \<exists>v. rd buf p = Some v"
  by (simp add: rd_def)

lemma read16_in:
  assumes "0 \<le> p" and "p + 2 \<le> int (length buf)"
  obtains v where "read16 buf p = Some v"
  using rd_in [of p buf] rd_in [of "p + 1" buf] assms that by (auto simp: read16_def)

lemma read32_in:
  assumes "0 \<le> p" and "p + 4 \<le> int (length buf)"
  obtains v where "read32 buf p = Some v"
  using rd_in [of p buf] rd_in [of "p + 1" buf] rd_in [of "p + 2" buf] rd_in [of "p + 3" buf] assms that
  by (auto simp: read32_def)

lemma read32s_in:
  "0 \<le> p \<Longrightarrow> p + 4 * int n \<le> int (length buf) \<Longrightarrow> \<exists>vs. read32s buf p n = Some vs \<and> length vs = n"
proof (induction n arbitrary: p)
  case (Suc n)
  obtain v where "read32 buf p = Some v" using Suc.prems by (auto intro: read32_in [of p buf])
  moreover obtain vs where "read32s buf (p + 4) n = Some vs" "length vs = n"
    using Suc.IH [of "p + 4"] Suc.prems by auto
  ultimately show ?case by simp
qed simp

lemma name_ptrs_in:
  "0 \<le> p \<Longrightarrow> p + 4 * int (length ls) \<le> int (length buf) \<Longrightarrow>
    name_ptrs buf len p ls \<noteq> None"
proof (induction ls arbitrary: p)
  case (Cons l ls)
  obtain v where "read32 buf p = Some v" using Cons.prems by (auto intro: read32_in [of p buf])
  moreover have "name_ptrs buf len (p + 4) ls \<noteq> None"
    using Cons.IH [of "p + 4"] Cons.prems by simp
  ultimately show ?case by auto
qed simp

text \<open>The names of the component record lie in the file: \<open>p\<close> is the position of the record.\<close>

definition names_inside :: "bytes \<Rightarrow> int \<Rightarrow> nat \<Rightarrow> bool" where
  "names_inside buf p n \<longleftrightarrow>
     0 \<le> p \<and> p + 8 + 8 * int n \<le> int (length buf) \<and>
     (\<exists>ls ps. read32s buf p n = Some ls \<and> read32s buf (p + int n * 4) n = Some ps \<and>
        list_all2 (\<lambda>l v. uint v + uint l \<le> int (length buf)) ls ps)"

lemma read32s_length: "read32s buf p n = Some vs \<Longrightarrow> length vs = n"
  by (induction n arbitrary: p vs) (auto split: bind_splits)

lemma name_lengths_inside:
  "read32s buf p n = Some ls \<Longrightarrow> \<forall>l\<in>set ls. uint l \<le> len \<Longrightarrow> name_lengths buf len p n = Some (True, ls)"
  by (induction n arbitrary: p ls) (auto split: bind_splits)

lemma uint_plus_small: "uint (v :: 32 word) + uint l < 2 ^ 32 \<Longrightarrow> uint (v + l) = uint v + uint l"
  by (simp add: uint_word_ariths)

lemma component_names_inside:
  "read32s buf p (length ls) = Some ps \<Longrightarrow>
    list_all2 (\<lambda>l v. uint v + uint l \<le> int (length buf)) ls ps \<Longrightarrow> int (length buf) < 2 ^ 31 \<Longrightarrow>
    \<exists>names. component_names buf (int (length buf)) p ls = Some (True, ps, names) \<and> length names = length ls"
proof (induction ls arbitrary: p ps)
  case (Cons l ls)
  obtain v vs where v: "read32 buf p = Some v" "read32s buf (p + 4) (length ls) = Some vs" "ps = v # vs"
    using Cons.prems(1) by (auto split: bind_splits)
  have sum: "uint (v + l) = uint v + uint l" "uint v + uint l \<le> int (length buf)"
    using Cons.prems(2,3) v(3) by (auto intro: uint_plus_small)
  have "uint l < 2 ^ 31" using sum(2) Cons.prems(3) uint_ge_0 [of v] by linarith
  moreover have "- (2 ^ 31) \<le> uint l" by (rule order_trans [OF _ uint_ge_0]) simp
  ultimately have "sint l = uint l"
    by (simp add: sint_uint signed_take_bit_int_eq_self)
  then have "\<exists>name. copy_bytes buf (uint v) (sint l) = Some name"
    using sum(2) by (simp add: copy_bytes_def)
  moreover obtain names where "component_names buf (int (length buf)) (p + 4) ls = Some (True, vs, names)"
      "length names = length ls"
    using Cons.IH [OF v(2)] Cons.prems(2,3) v(3) by auto
  ultimately show ?case using v sum by auto
qed simp

lemma component_inside:
  assumes "names_inside buf p n" and "int (length buf) < 2 ^ 31"
  obtains e c' where "component_fillFrom buf p (int (length buf)) n c = Some (SIS_OK, e, c')"
    "getLastEnd c' \<noteq> None" "length (cn_names c') = n"
proof -
  obtain ls ps where ls: "read32s buf p n = Some ls" "read32s buf (p + int n * 4) n = Some ps"
      "list_all2 (\<lambda>l v. uint v + uint l \<le> int (length buf)) ls ps" "0 \<le> p" "p + 8 + 8 * int n \<le> int (length buf)"
    using assms(1) by (auto simp: names_inside_def)
  have n: "length ls = n" "length ps = n" using ls(1,2) by (simp_all add: read32s_length)
  have lens: "\<forall>l\<in>set ls. uint l \<le> int (length buf)"
  proof
    fix l assume "l \<in> set ls"
    then obtain i where "i < length ls" "l = ls ! i" by (auto simp: in_set_conv_nth)
    then have "uint (ps ! i) + uint l \<le> int (length buf)" using ls(3) by (simp add: list_all2_conv_all_nth)
    then show "uint l \<le> int (length buf)" using uint_ge_0 [of "ps ! i"] by linarith
  qed
  obtain names where "component_names buf (int (length buf)) (p + int n * 4) ls = Some (True, ps, names)"
      "length names = length ls"
    using component_names_inside [OF _ ls(3) assms(2)] ls(2) n(1) by auto
  moreover have "iadd p (8 + int n * 4 * 2) = Some (p + (8 + int n * 4 * 2))"
    using ls(4,5) assms(2) by (simp add: iadd_def)
  ultimately show thesis
    using name_lengths_inside [OF ls(1) lens] ls(5) n that
    by (simp add: component_fillFrom_def getLastEnd_def)
qed

lemma lang_fillFrom_in:
  assumes "0 \<le> p" and "p < int (length buf)" and "int (length buf) < 2 ^ 30"
  shows "\<exists>rc e r. lang_fillFrom buf p (int (length buf)) = Some (rc, e, r) \<and> 0 \<le> e"
proof -
  have e: "iadd p 2 = Some (p + 2)" using assms by (simp add: iadd_def)
  show ?thesis
  proof (cases "p + 2 \<le> int (length buf)")
    case True
    then obtain v where "read16 buf p = Some v" using assms(1) read16_in by blast
    then show ?thesis using assms(1) True by (simp add: lang_fillFrom_def e)
  qed (use assms(1) in \<open>simp add: lang_fillFrom_def e\<close>)
qed

lemma lang_loop_in:
  "0 \<le> p \<Longrightarrow> int (length buf) < 2 ^ 30 \<Longrightarrow> lang_loop buf (int (length buf)) n p \<noteq> None"
proof (induction n arbitrary: p)
  case (Suc n)
  show ?case
  proof (cases "int (length buf) \<le> p")
    case False
    then obtain rc e r where "lang_fillFrom buf p (int (length buf)) = Some (rc, e, r)" "0 \<le> e"
      using lang_fillFrom_in Suc.prems by (metis not_le)
    with Suc.IH [of e] Suc.prems(2) False show ?thesis by auto
  qed simp
qed simp

lemma req_fillFrom_in:
  assumes "0 \<le> p" and "p < int (length buf)" and "int (length buf) < 2 ^ 30" and "n < 65536"
  shows "\<exists>rc e r. req_fillFrom buf p (int (length buf)) n = Some (rc, e, r) \<and> 0 \<le> e"
proof -
  have e: "iadd p (12 + 8 * int n) = Some (p + (12 + int n * 8))"
    using assms by (simp add: iadd_def)
  show ?thesis
  proof (cases "p + (12 + int n * 8) \<le> int (length buf)")
    case True
    then have in_buf: "p + 12 + int n * 4 + 4 * int n \<le> int (length buf)" by linarith
    obtain uid where 1: "read32 buf p = Some uid" using in_buf assms(1) by (auto intro: read32_in [of p buf])
    obtain major where 2: "read16 buf (p + 4) = Some major"
      using in_buf assms(1) by (auto intro: read16_in [of "p + 4" buf])
    obtain minor where 3: "read16 buf (p + 6) = Some minor"
      using in_buf assms(1) by (auto intro: read16_in [of "p + 6" buf])
    obtain variant where 4: "read32 buf (p + 8) = Some variant"
      using in_buf assms(1) by (auto intro: read32_in [of "p + 8" buf])
    obtain lens where 5: "read32s buf (p + 12) n = Some lens" "length lens = n"
      using read32s_in [of "p + 12" n buf] in_buf assms(1) by auto
    obtain ok ptrs where 6: "name_ptrs buf (int (length buf)) (p + 12 + int n * 4) lens = Some (ok, ptrs)"
      using name_ptrs_in [of "p + 12 + int n * 4" lens buf "int (length buf)"] in_buf assms(1) 5(2) by auto
    show ?thesis using True assms(1) by (simp add: req_fillFrom_def e 1 2 3 4 5 6 Let_def)
  qed (use assms(1) in \<open>simp add: req_fillFrom_def e\<close>)
qed

lemma req_loop_in:
  "0 \<le> p \<Longrightarrow> int (length buf) < 2 ^ 30 \<Longrightarrow> k < 65536 \<Longrightarrow> req_loop buf (int (length buf)) k n p \<noteq> None"
proof (induction n arbitrary: p)
  case (Suc n)
  show ?case
  proof (cases "int (length buf) \<le> p")
    case False
    then obtain rc e r where "req_fillFrom buf p (int (length buf)) k = Some (rc, e, r)" "0 \<le> e"
      using req_fillFrom_in [of p buf k] Suc.prems by auto
    with Suc.IH [of e] Suc.prems(2,3) False show ?thesis by auto
  qed simp
qed simp

lemma filerec_fillFrom_in:
  assumes "0 \<le> p" and "p < int (length buf)" and "int (length buf) < 2 ^ 30" and "n < 65536"
  shows "\<exists>rc e r. filerec_fillFrom buf p (int (length buf)) n = Some (rc, e, r) \<and> 0 \<le> e"
proof -
  have e: "iadd p 36 = Some (p + 36)" "iadd p 28 = Some (p + 28)"
      "iadd p (28 + int n * 8) = Some (p + (28 + int n * 8))"
    using assms by (simp_all add: iadd_def)
  show ?thesis
  proof (cases "p + 36 \<le> int (length buf)")
    case True
    have rd: "\<exists>v. read32 buf (p + i) = Some v" if "0 \<le> i" "i \<le> 32" for i
      using True that assms(1) by (auto intro: read32_in [of "p + i" buf])
    obtain v0 v1 v2 v3 where v: "read32 buf p = Some v0" "read32 buf (p + 4) = Some v1"
        "read32 buf (p + 8) = Some v2" "read32 buf (p + 12) = Some v3"
      using rd [of 0] rd [of 4] rd [of 8] rd [of 12] by auto
    obtain v4 v5 v6 v7 v8 where w: "read32 buf (p + 16) = Some v4" "read32 buf (p + 20) = Some v5"
        "read32 buf (p + 24) = Some v6" "read32 buf (p + 28) = Some v7" "read32 buf (32 + p) = Some v8"
      using rd [of 16] rd [of 20] rd [of 24] rd [of 28] rd [of 32] by (auto simp: add.commute)
    have arrays: "\<exists>ls ps. read32s buf (p + 28) n = Some ls \<and> read32s buf (p + 28 + int n * 4) n = Some ps"
      if "p + (28 + int n * 8) \<le> int (length buf)"
      using read32s_in [of "p + 28" n buf] read32s_in [of "p + 28 + int n * 4" n buf] that assms(1) by auto
    show ?thesis
    proof (cases "p + (28 + int n * 8) \<le> int (length buf)")
      case in_buf: True
      then obtain ls ps where "read32s buf (p + 28) n = Some ls" "read32s buf (p + 28 + int n * 4) n = Some ps"
        using arrays by auto
      then show ?thesis using True in_buf assms(1) by (simp add: filerec_fillFrom_def e v w Let_def)
    next
      case False
      then show ?thesis using True assms(1) by (simp add: filerec_fillFrom_def e v w Let_def)
    qed
  qed (use assms(1) in \<open>simp add: filerec_fillFrom_def e\<close>)
qed

lemma file_loop_in:
  "0 \<le> p \<Longrightarrow> int (length buf) < 2 ^ 30 \<Longrightarrow> k < 65536 \<Longrightarrow> file_loop buf (int (length buf)) k n p \<noteq> None"
proof (induction n arbitrary: p)
  case (Suc n)
  show ?case
  proof (cases "int (length buf) \<le> p")
    case False
    then obtain rc e r where "filerec_fillFrom buf p (int (length buf)) k = Some (rc, e, r)" "0 \<le> e"
      using filerec_fillFrom_in [of p buf k] Suc.prems by auto
    with Suc.IH [of e] Suc.prems(2,3) False show ?thesis by auto
  qed simp
qed simp

lemma sint_small: "w < 2 ^ 30 \<Longrightarrow> sint (w :: 32 word) = uint w"
proof -
  assume "w < 2 ^ 30"
  then have "uint w < 2 ^ 30" by (simp add: word_less_def)
  moreover have "- (2 ^ 31) \<le> uint w" by (rule order_trans [OF _ uint_ge_0]) simp
  ultimately show ?thesis by (simp add: sint_uint signed_take_bit_int_eq_self)
qed


section \<open>The checksum\<close>

lemma createCRCTable_crc_table: "createCRCTable = crc_table"
proof -
  have "createCRCTable_round = crc_table_round"
    by (intro ext) (simp add: createCRCTable_round_def crc_table_round_def)
  then show ?thesis by (simp add: createCRCTable_def crc_table_def)
qed

lemma updateCrc_bitwise: "updateCrc crc v = crc_byte v crc"
  using addToCrc_bitwise [of v crc] by (simp add: updateCrc_def addToCrc_def createCRCTable_crc_table)

text \<open>
  The checksum of SIS files is the bitwise CRC-CCITT, and the same as that of the packets on
  the link; each half of the header's checksum is that of every other byte.
\<close>

theorem sis_crc_is_ccitt:
  "calcCRC b = fold crc_byte b 0 \<and> calcCRC b = crc_of b \<and>
   header_crc [b0, b1, b2, b3, b4, b5, b6, b7, b8, b9, b10, b11] 0 0 = Some (calcCRC [b0, b2, b4, b6, b8, b10]) \<and>
   header_crc [b0, b1, b2, b3, b4, b5, b6, b7, b8, b9, b10, b11] 0 1 = Some (calcCRC [b1, b3, b5, b7, b9, b11])"
proof -
  have "calcCRC b = fold crc_byte b 0" by (simp add: calcCRC_def updateCrc_bitwise)
  moreover have "crc_of b = fold crc_byte b 0"
    unfolding crc_of_def by (induction b rule: rev_induct) (simp_all add: addToCrc_bitwise)
  ultimately show ?thesis
    by (simp add: header_crc_def rd_def calcCRC_def nth_Cons')
qed

section \<open>Examples\<close>

text \<open>The checksum of given bytes, by simplification.\<close>

lemma crc_bit_num: "crc_bit c = (if 0x8000 \<le> c then c + c XOR 0x1021 else c + c)"
proof -
  have "bit c 15 \<longleftrightarrow> 0x8000 \<le> c"
  proof -
    define q where "q = uint c div 2 ^ 15"
    have bit_q: "bit c 15 \<longleftrightarrow> odd q" using bit_iff_odd [of "uint c" 15] by (simp add: bit_uint_iff q_def)
    have "q < 2" using uint_lt2p [of c] by (simp add: q_def div_less_iff_less_mult)
    moreover have "0 \<le> q" by (simp add: q_def pos_imp_zdiv_nonneg_iff)
    ultimately have "odd q \<longleftrightarrow> 0 < q" by (smt (verit) even_zero odd_one)
    also have "\<dots> \<longleftrightarrow> 2 ^ 15 \<le> uint c" by (simp add: q_def pos_imp_zdiv_pos_iff)
    finally show ?thesis by (simp add: bit_q word_le_def)
  qed
  then show ?thesis by (simp add: crc_bit_def push_bit_eq_mult mult_2_right)
qed

lemma crc_byte_steps: "crc_byte a c = crc_bit (crc_bit (crc_bit (crc_bit (crc_bit (crc_bit (crc_bit (crc_bit (c XOR push_bit 8 (ucast a)))))))))"
  by (simp add: crc_byte_def eval_nat_numeral)

text \<open>
  A file of 88 bytes with one language, no requisites and no files: the name is the last byte
  but one. The argument is the position of the languages.
\<close>

definition sis_example :: "32 word \<Rightarrow> bytes" where
  "sis_example languagePtr =
     le32 0x10000001 @ le32 0x1000006d @ le32 0x10000419 @ le32 0x99cc9c1f @
     le16 0 @ le16 1 @ le16 0 @ le16 0 @ le16 0 @ le16 0 @ le32 0x21 @ le32 100 @ le16 0 @ le16 0 @
     le16 1 @ le16 2 @ le32 0 @ le32 (uint languagePtr) @ le32 0 @ le32 0 @ le32 0 @ le32 70 @
     le16 1 @ le32 1 @ le32 86 @ le32 0 @ le32 0 @ [65, 0]"

lemma length_example [simp]: "length (sis_example p) = 88"
  by (simp add: sis_example_def)

lemma header_crc_bytes:
  "12 \<le> length buf \<Longrightarrow> k \<le> 1 \<Longrightarrow> header_crc buf 0 (int k) =
    Some (fold crc_byte (map (\<lambda>i. buf ! (k + i)) [0, 2, 4, 6, 8, 10]) 0)"
  by (simp add: header_crc_def rd_def updateCrc_bitwise nat_add_distrib add.commute)

definition example_header :: "32 word \<Rightarrow> sis_header" where
  "example_header languagePtr = \<lparr>m_uid1 = 0x10000001, m_uid2 = 0x1000006d, m_uid3 = 0x10000419,
     m_uid4 = 0x99cc9c1f, m_crc = 0, m_nlangs = 1, m_nfiles = 0, m_nreqs = 0,
     m_installationLanguage = 0, m_installationFiles = 0, m_installationDrive = 0x21,
     m_installerVersion = 100, m_options = 0, m_type = 0, m_major = 1, m_minor = 2, m_variant = 0,
     m_languagePtr = languagePtr, m_filesPtr = 0, m_reqPtr = 0, m_unknown = 0, m_componentPtr = 70\<rparr>"

definition example_file :: sisfile where
  "example_file = \<lparr>sf_header = example_header 0, sf_langRecords = [], sf_fileRecords = [],
     sf_reqRecords = [], sf_componentRecord = component_new, sf_buf = [], sf_end = 0\<rparr>"

lemma example_bytes:
  "sis_example 68 =
    [1, 0, 0, 16, 109, 0, 0, 16, 25, 4, 0, 16, 31, 156, 204, 153, 0, 0, 1, 0, 0, 0, 0, 0, 0,
      0, 0, 0, 33, 0, 0, 0, 100, 0, 0, 0, 0, 0, 0, 0, 1, 0, 2, 0, 0, 0, 0, 0, 68, 0, 0, 0, 0,
      0, 0, 0, 0, 0, 0, 0, 0, 0, 0, 0, 70, 0, 0, 0, 1, 0, 1, 0, 0, 0, 86, 0, 0, 0, 0, 0, 0, 0,
      0, 0, 0, 0, 65, 0]"
  "sis_example 0xffffffff =
    [1, 0, 0, 16, 109, 0, 0, 16, 25, 4, 0, 16, 31, 156, 204, 153, 0, 0, 1, 0, 0, 0, 0, 0, 0,
      0, 0, 0, 33, 0, 0, 0, 100, 0, 0, 0, 0, 0, 0, 0, 1, 0, 2, 0, 0, 0, 0, 0, 255, 255, 255,
      255, 0, 0, 0, 0, 0, 0, 0, 0, 0, 0, 0, 0, 70, 0, 0, 0, 1, 0, 1, 0, 0, 0, 86, 0, 0, 0, 0,
      0, 0, 0, 0, 0, 0, 0, 65, 0]"
  by code_simp+

lemma example_read:
  assumes "p = 68 \<or> p = 0xffffffff"
  shows "map (read32 (sis_example p)) [0, 4, 8, 12, 28, 32, 44, 48, 52, 56, 60, 64] =
      map Some [0x10000001, 0x1000006d, 0x10000419, 0x99cc9c1f, 0x21, 100, 0, p, 0, 0, 0, 70]"
    and "map (read16 (sis_example p)) [16, 18, 20, 22, 24, 26, 36, 38, 40, 42] =
      map Some [0, 1, 0, 0, 0, 0, 0, 0, 1, 2]"
  using assms by (auto simp: example_bytes read32_def read16_def rd_def join32_def join16_def)

lemma example_fillFrom:
  assumes "p = 68 \<or> p = 0xffffffff"
  shows "header_fillFrom (sis_example p) 0 88 h = Some (SIS_OK, 68, example_header p)"
proof -
  have even: "map (\<lambda>i. sis_example p ! i) [0, 2, 4, 6, 8, 10] = [1, 0, 0x6d, 0, 0x19, 0]"
    and odd: "map (\<lambda>i. sis_example p ! i) [1, 3, 5, 7, 9, 11] = [0, 0x10, 0, 0x10, 4, 0x10]"
    using assms by (auto, code_simp+)
  have crc: "fold crc_byte [1, 0, 0x6d, 0, 0x19, 0] 0 = 0x9c1f" "fold crc_byte [0, 0x10, 0, 0x10, 4, 0x10] 0 = 0x99cc"
    by (simp_all add: crc_byte_steps crc_bit_num)
  have "header_crc (sis_example p) 0 0 = Some 0x9c1f"
    using header_crc_bytes [of "sis_example p" 0] even crc(1) by simp
  moreover have "header_crc (sis_example p) 0 1 = Some 0x99cc"
    using header_crc_bytes [of "sis_example p" 1] odd crc(2) by simp
  ultimately show ?thesis
    using example_read [OF assms]
    by (simp add: header_fillFrom_def header_fields_def iadd_def example_header_def
        OFF_NUMBER_OF_FILES_def OFF_INSTALLATION_DRIVE_def)
qed

lemma example_names: "names_inside (sis_example 68) 70 1"
proof -
  have "read32s (sis_example 68) 70 1 = Some [1]" "read32s (sis_example 68) (70 + int 1 * 4) 1 = Some [86]"
    by code_simp+
  then show ?thesis by (simp add: names_inside_def)
qed


section \<open>Positions in front of the buffer\<close>

text \<open>
  a position of the languages of 2^31 or more is taken for a negative number, which passes
  every check against the length of the file: \<open>fillFrom\<close> reads in front of the buffer.
\<close>

theorem sisfile_negative_position:
  assumes "header_fillFrom buf 0 (int (length buf)) (sf_header f) = Some (SIS_OK, ix, h)"
    and "2 ^ 31 \<le> uint (m_languagePtr h)" and "0 < m_nlangs h"
  shows "sisfile_fillFrom buf (int (length buf)) f = None"
proof -
  let ?len = "int (length buf)" and ?p = "to_int (m_languagePtr h)"
  have neg: "?p < 0"
  proof (rule ccontr)
    assume "\<not> ?p < 0"
    moreover have "?p < 2 ^ 31" using sint_lt [of "m_languagePtr h"] by simp
    ultimately have "?p mod 2 ^ 32 = ?p" by (intro mod_pos_pos_trivial) simp_all
    then have "uint (m_languagePtr h) = ?p" by (simp add: uint_sint take_bit_eq_mod)
    then show False using assms(2) \<open>?p < 2 ^ 31\<close> by simp
  qed
  have "int (length buf) \<ge> 68"
    using assms(1) by (simp add: header_fillFrom_def iadd_def split: if_splits)
  then have "lang_fillFrom buf ?p ?len = None"
    using neg sint_ge [of "m_languagePtr h"] by (simp add: lang_fillFrom_def iadd_def read16_def rd_def)
  moreover obtain k where "unat (m_nlangs h) = Suc k"
    using assms(3) by (cases "unat (m_nlangs h)") (auto simp: unat_eq_0)
  moreover have "\<not> ?len \<le> ?p" using neg by linarith
  ultimately have "lang_loop buf ?len (unat (m_nlangs h)) ?p = None" by simp
  then show ?thesis using assms(1) by (simp add: sisfile_fillFrom_def)
qed

theorem sisfile_negative_position_witness:
  "sisfile_fillFrom (sis_example 0xffffffff) 88 example_file = None"
proof -
  have "header_fillFrom (sis_example 0xffffffff) 0 (int (length (sis_example 0xffffffff))) (sf_header example_file) =
      Some (SIS_OK, 68, example_header 0xffffffff)"
    using example_fillFrom [of "0xffffffff"] by simp
  from sisfile_negative_position [OF this] show ?thesis by (simp add: example_header_def)
qed

section \<open>The patches of the header\<close>

lemma rd_update: "rd (buf[i := v]) p = (if p = int i \<and> i < length buf then Some v else rd buf p)"
  by (auto simp: rd_def nth_list_update)

lemma byte_and_255: "word_of_int (a AND 255) = (word_of_int a :: byte)"
proof -
  have "a AND 255 = take_bit 8 a" by (simp add: take_bit_eq_mask mask_numeral)
  then show ?thesis by (simp only:) (rule bit_word_eqI, simp add: bit_simps)
qed

lemma scast_char: "\<not> bit (d :: byte) 7 \<Longrightarrow> scast d = join32 d 0 0 0"
  by (rule bit_word_eqI) (auto simp: bit_join32 bit_simps dest: bit_imp_le_length)

lemma rd_inside: "0 \<le> p \<Longrightarrow> p < int (length buf) \<Longrightarrow> rd buf p = Some (buf ! nat p)"
  by (simp add: rd_def)

lemma join16_bytes: "join16 (word_of_int (n AND 255)) (word_of_int (drop_bit 8 n AND 255)) = word_of_int n"
  by (simp only: byte_and_255 join16_split)

lemma header_length: "header_fillFrom buf 0 (int (length buf)) h0 = Some (SIS_OK, ix, h) \<Longrightarrow> 68 \<le> length buf"
  by (simp add: header_fillFrom_def iadd_def split: if_splits)

text \<open>
  what \<open>setDrive\<close> and \<open>setFiles\<close> write into the header of the file is what the next run
  reads: the patched file has a valid header, which is the header in memory.
\<close>

theorem sis_header_patches:
  assumes "header_fillFrom buf 0 (int (length buf)) h0 = Some (SIS_OK, ix, h)" and "\<not> bit drive 7"
  shows "\<exists>h1 buf1 h2 buf2. header_setDrive drive h buf = Some (h1, buf1) \<and>
    header_setFiles nFiles h1 buf1 = Some (h2, buf2) \<and>
    header_fillFrom buf2 0 (int (length buf2)) h0' = Some (SIS_OK, 68, h2)"
proof -
  have len: "68 \<le> length buf" using header_length [OF assms(1)] .
  let ?buf1 = "buf[28 := drive, 31 := 0, 30 := 0, 29 := 0]"
  let ?buf2 = "?buf1[26 := word_of_int (nFiles AND 255), 27 := word_of_int (drop_bit 8 nFiles AND 255)]"
  let ?h1 = "h\<lparr>m_installationDrive := scast drive\<rparr>"
  let ?h2 = "?h1\<lparr>m_installationFiles := word_of_int nFiles\<rparr>"
  have 1: "header_setDrive drive h buf = Some (?h1, ?buf1)"
    using len by (simp add: header_setDrive_def wr_def OFF_INSTALLATION_DRIVE_def)
  have 2: "header_setFiles nFiles ?h1 ?buf1 = Some (?h2, ?buf2)"
    using len by (simp add: header_setFiles_def write16_def wr_def OFF_NUMBER_OF_FILES_def)
  have nonempty: "buf \<noteq> []" using len by auto
  have 3: "header_fillFrom ?buf2 0 (int (length ?buf2)) h0' = Some (SIS_OK, 68, ?h2)"
    using assms(1) len nonempty
    by (simp add: header_fillFrom_def header_fields_def header_crc_def iadd_def read32_def read16_def rd_inside
        OFF_NUMBER_OF_FILES_def OFF_INSTALLATION_DRIVE_def join16_bytes scast_char [OF assms(2)]
        Let_def split: if_splits) auto
  from 1 2 3 show ?thesis by blast
qed

theorem sis_header_patches_witness:
  "\<exists>h1 buf1 h2 buf2. header_setDrive 67 (example_header 68) (sis_example 68) = Some (h1, buf1) \<and>
    header_setFiles 300 h1 buf1 = Some (h2, buf2) \<and>
    header_fillFrom buf2 0 (int (length buf2)) (example_header 0) = Some (SIS_OK, 68, h2)"
proof -
  have "header_fillFrom (sis_example 68) 0 (int (length (sis_example 68))) (example_header 0) =
      Some (SIS_OK, 68, example_header 68)"
    using example_fillFrom [of 68] by simp
  moreover have "\<not> bit (67 :: byte) 7" by simp
  ultimately show ?thesis by (rule sis_header_patches)
qed

section \<open>The shape of what was read\<close>

text \<open>
  A file that has been read: as many records as the header says, each array with one entry for
  each language, the names complete and terminated. \<open>getFilePtr\<close> and \<open>getLanguage\<close> index these.
\<close>

definition sis_wf :: "sisfile \<Rightarrow> bool" where
  "sis_wf f \<longleftrightarrow>
     (let h = sf_header f; n = unat (m_nlangs h); c = sf_componentRecord f in
      length (sf_langRecords f) = n \<and> (\<forall>l \<in> set (sf_langRecords f). l \<le> 33) \<and>
      length (sf_reqRecords f) = unat (m_nreqs h) \<and>
      (\<forall>r \<in> set (sf_reqRecords f). length (rq_nameLengths r) = n \<and> length (rq_namePtrs r) = n) \<and>
      length (cn_names c) = n \<and> length (cn_nameLengths c) = n \<and>
      (\<forall>i < n. cn_names c ! i \<noteq> [] \<and> last (cn_names c ! i) = 0 \<and>
         int (length (cn_names c ! i)) = uint (cn_nameLengths c ! i) + 1) \<and>
      length (sf_fileRecords f) = unat (m_nfiles h) \<and>
      (\<forall>r \<in> set (sf_fileRecords f). length (fr_fileLengths r) = length (fr_filePtrs r) \<and>
         (fr_flags r = 0 \<longrightarrow> length (fr_filePtrs r) = 1) \<and> (fr_flags r = 1 \<longrightarrow> length (fr_filePtrs r) = n)))"

lemma lang_fillFrom_ok: "lang_fillFrom buf p len = Some (SIS_OK, e, r) \<Longrightarrow> \<exists>l. r = Some l \<and> l \<le> 33"
  by (auto simp: lang_fillFrom_def bind_eq_Some_conv split: if_splits)

lemma lang_loop_ok:
  "lang_loop buf len n p = Some (SIS_OK, e, rs) \<Longrightarrow> length rs = n \<and> (\<forall>l \<in> set rs. l \<le> 33)"
  by (induction n arbitrary: p e rs)
    (auto split: bind_splits if_splits prod.splits dest!: lang_fillFrom_ok)

lemma name_ptrs_length: "name_ptrs buf len p ls = Some (True, vs) \<Longrightarrow> length vs = length ls"
  by (induction ls arbitrary: p vs) (auto split: bind_splits if_splits prod.splits)

lemma req_fillFrom_ok:
  "req_fillFrom buf p len n = Some (SIS_OK, e, r) \<Longrightarrow>
    \<exists>q. r = Some q \<and> length (rq_nameLengths q) = n \<and> length (rq_namePtrs q) = n"
  by (auto simp: req_fillFrom_def Let_def split: bind_splits if_splits prod.splits
      dest!: read32s_length name_ptrs_length)

lemma req_loop_ok:
  "req_loop buf len k n p = Some (SIS_OK, e, rs) \<Longrightarrow>
    length rs = n \<and> (\<forall>r \<in> set rs. length (rq_nameLengths r) = k \<and> length (rq_namePtrs r) = k)"
  by (induction n arbitrary: p e rs)
    (auto split: bind_splits if_splits prod.splits dest!: req_fillFrom_ok)

lemma filerec_fillFrom_ok:
  "filerec_fillFrom buf p len n = Some (rc, e, r) \<Longrightarrow> rc = SIS_OK \<or> rc = SIS_TRUNCATEDDATA \<Longrightarrow>
    \<exists>q. r = Some q \<and> length (fr_fileLengths q) = length (fr_filePtrs q) \<and>
      (fr_flags q = 0 \<longrightarrow> length (fr_filePtrs q) = 1) \<and> (fr_flags q = 1 \<longrightarrow> length (fr_filePtrs q) = n)"
  by (auto simp: filerec_fillFrom_def Let_def split: bind_splits if_splits dest!: read32s_length)

lemma file_loop_ok:
  "file_loop buf len k n p = Some (SIS_OK, e, rs) \<Longrightarrow>
    length rs = n \<and> (\<forall>r \<in> set rs. length (fr_fileLengths r) = length (fr_filePtrs r) \<and>
      (fr_flags r = 0 \<longrightarrow> length (fr_filePtrs r) = 1) \<and> (fr_flags r = 1 \<longrightarrow> length (fr_filePtrs r) = k))"
proof (induction n arbitrary: p e rs)
  case (Suc n)
  then obtain rc e1 r rs' where step: "filerec_fillFrom buf p len k = Some (rc, e1, r)"
      "rc = SIS_OK \<or> rc = SIS_TRUNCATEDDATA" "file_loop buf len k n e1 = Some (SIS_OK, e, rs')"
      "rs = (case r of None \<Rightarrow> rs' | Some q \<Rightarrow> q # rs')"
    by (auto split: bind_splits if_splits prod.splits)
  from filerec_fillFrom_ok [OF step(1,2)] obtain q where "r = Some q"
      "length (fr_fileLengths q) = length (fr_filePtrs q)"
      "fr_flags q = 0 \<longrightarrow> length (fr_filePtrs q) = 1" "fr_flags q = 1 \<longrightarrow> length (fr_filePtrs q) = k" by blast
  with Suc.IH [OF step(3)] step(4) show ?case by simp
qed simp

lemma name_lengths_length: "name_lengths buf len p n = Some (True, ls) \<Longrightarrow> length ls = n"
  by (induction n arbitrary: p ls) (auto split: bind_splits if_splits prod.splits)

lemma copy_bytes_length: "copy_bytes buf p n = Some b \<Longrightarrow> int (length b) = n"
  by (auto simp: copy_bytes_def split: if_splits)

lemma component_names_ok:
  "component_names buf len p ls = Some (True, vs, names) \<Longrightarrow>
    length names = length ls \<and>
    (\<forall>i < length ls. names ! i \<noteq> [] \<and> last (names ! i) = 0 \<and> int (length (names ! i)) = uint (ls ! i) + 1)"
proof (induction ls arbitrary: p vs names)
  case (Cons l ls)
  then obtain v name vs' names' where step: "copy_bytes buf (uint (v :: 32 word)) (sint l) = Some name"
      "component_names buf len (p + 4) ls = Some (True, vs', names')" "names = (name @ [0]) # names'"
    by (auto simp: bind_eq_Some_conv split: if_splits)
  have "0 \<le> sint l" using step(1) by (auto simp: copy_bytes_def split: if_splits)
  moreover have "sint l < 2 ^ 31" using sint_lt [of l] by simp
  ultimately have "sint l mod 2 ^ 32 = sint l" by (intro mod_pos_pos_trivial) simp_all
  then have "int (length name) = uint l"
    using copy_bytes_length [OF step(1)] by (simp add: uint_sint take_bit_eq_mod)
  then show ?case
    using Cons.IH [OF step(2)] step(3) by (auto simp: nth_Cons split: nat.split)
qed simp

lemma component_fillFrom_ok:
  assumes "component_fillFrom buf p len n c = Some (SIS_OK, e, c')"
  shows "length (cn_names c') = n \<and> length (cn_nameLengths c') = n \<and>
    (\<forall>i < n. cn_names c' ! i \<noteq> [] \<and> last (cn_names c' ! i) = 0 \<and>
      int (length (cn_names c' ! i)) = uint (cn_nameLengths c' ! i) + 1)"
proof -
  obtain ls vs names where "name_lengths buf len p n = Some (True, ls)"
      "component_names buf len (p + int n * 4) ls = Some (True, vs, names)"
      "c' = c\<lparr>cn_nameLengths := ls, cn_namePtrs := vs, cn_names := names, cn_nameCount := Some n\<rparr>"
    using assms by (auto simp: component_fillFrom_def bind_eq_Some_conv Let_def split: if_splits)
  then show ?thesis using component_names_ok name_lengths_length by fastforce
qed

lemma updateEnd_simps [simp]:
  "sf_header (updateEnd p f) = sf_header f" "sf_langRecords (updateEnd p f) = sf_langRecords f"
  "sf_reqRecords (updateEnd p f) = sf_reqRecords f" "sf_fileRecords (updateEnd p f) = sf_fileRecords f"
  "sf_componentRecord (updateEnd p f) = sf_componentRecord f"
  by (simp_all add: updateEnd_def)

text \<open>
  C21: when \<open>fillFrom\<close> reports success the object is well formed, whatever the buffer held: all
  records that the header announces are there, every language is one of the table, the
  requisites, the names and the files for each language have one entry per language, and each
  name is terminated and as long as its length says.
\<close>

theorem sisfile_wellformed:
  assumes "sisfile_fillFrom buf len f = Some (SIS_OK, f')"
  shows "sis_wf f'"
proof -
  obtain ix h where h: "header_fillFrom buf 0 len (sf_header f) = Some (SIS_OK, ix, h)"
    using assms by (auto simp: sisfile_fillFrom_def bind_eq_Some_conv Let_def split: if_splits)
  let ?n = "unat (m_nlangs h)"
  obtain ix1 ls where l: "lang_loop buf len ?n (to_int (m_languagePtr h)) = Some (SIS_OK, ix1, ls)"
    using assms by (auto simp: sisfile_fillFrom_def h bind_eq_Some_conv Let_def split: if_splits)
  obtain ix2 rs where r: "req_loop buf len ?n (unat (m_nreqs h)) (to_int (m_reqPtr h)) = Some (SIS_OK, ix2, rs)"
    using assms by (auto simp: sisfile_fillFrom_def h l bind_eq_Some_conv Let_def split: if_splits)
  obtain ix3 c where c: "component_fillFrom buf (to_int (m_componentPtr h)) len ?n (sf_componentRecord f) =
      Some (SIS_OK, ix3, c)"
    using assms by (auto simp: sisfile_fillFrom_def h l r bind_eq_Some_conv Let_def split: if_splits)
  obtain e where e: "getLastEnd c = Some e"
    using assms by (auto simp: sisfile_fillFrom_def h l r c bind_eq_Some_conv Let_def split: if_splits)
  obtain ix4 fs where fs: "file_loop buf len ?n (unat (m_nfiles h)) (to_int (m_filesPtr h)) = Some (SIS_OK, ix4, fs)"
    using assms by (auto simp: sisfile_fillFrom_def h l r c e bind_eq_Some_conv Let_def split: if_splits)
  have "sf_header f' = h" "sf_langRecords f' = ls" "sf_reqRecords f' = rs" "sf_componentRecord f' = c"
      "sf_fileRecords f' = fs"
    using assms by (auto simp: sisfile_fillFrom_def h l r c e fs)
  then show ?thesis
    using lang_loop_ok [OF l] req_loop_ok [OF r] component_fillFrom_ok [OF c] file_loop_ok [OF fs]
    by (simp add: sis_wf_def)
qed

lemma example_complete: "\<exists>f'. sisfile_fillFrom (sis_example 68) 88 example_file = Some (SIS_OK, f')"
proof -
  have h: "header_fillFrom (sis_example 68) 0 88 g = Some (SIS_OK, 68, example_header 68)" for g
    by (rule example_fillFrom) simp
  have lang: "lang_fillFrom (sis_example 68) 68 88 = Some (SIS_OK, 70, Some 1)"
    by (simp add: lang_fillFrom_def iadd_def read16_def rd_def example_bytes join16_def)
  have names: "component_fillFrom (sis_example 68) 70 88 (Suc 0) component_new = Some (SIS_OK, 86,
      \<lparr>cn_nameLengths = [1], cn_namePtrs = [86], cn_names = [[65, 0]], cn_nameCount = Some 1\<rparr>)"
    by (simp add: component_fillFrom_def iadd_def read32_def rd_def example_bytes join32_def copy_bytes_def
        component_new_def)
  show ?thesis
    by (simp add: sisfile_fillFrom_def h example_header_def lang example_file_def names getLastEnd_def Let_def)
qed

theorem sisfile_wellformed_witness:
  "\<exists>f'. sisfile_fillFrom (sis_example 68) 88 example_file = Some (SIS_OK, f') \<and> sis_wf f'"
  using example_complete sisfile_wellformed by blast

end
