(* ===== verification/Bitmap.thy ===== *)
theory Bitmap
  imports Prelude "HOL-Library.Signed_Division"
begin

text \<open>
  Bitmaps of the Psion, \<open>lib/psibitmap.cpp\<close>: \<open>encodeBitmap\<close> packs an image with two bits for a
  pixel, \<open>decodeBitmap\<close> unpacks one with up to eight, run-length encoded or not. The result of
  \<open>decodeBitmap\<close> is \<open>None\<close> if the code divides by zero, shifts too far or reads behind the end of
  its input. Counters of pixels and bytes are natural numbers: they are bounded by the input,
  which is taken to be small enough for an \<open>int\<close>.
\<close>

section \<open>Encoding\<close>

text \<open>
  The inner loop over a line, given the pixels that are left, and the two loops that complete
  the last byte and fill up to a multiple of four.
\<close>

definition line_end :: "int \<Rightarrow> nat \<Rightarrow> nat \<Rightarrow> bytes" where
  "line_end ov shift bc =
     (let b = (if shift \<noteq> 0 then [word_of_int ov] else []);
          bc = bc + length b
      in b @ replicate ((4 - bc mod 4) mod 4) 0)"

fun encode_line :: "int list \<Rightarrow> int \<Rightarrow> nat \<Rightarrow> nat \<Rightarrow> bytes" where
  "encode_line [] ov shift bc = line_end ov shift bc"
| "encode_line (p # ps) ov shift bc =
     (let v = p sdiv 85;
          ov = ov OR push_bit shift v
      in if shift = 6 then word_of_int ov # encode_line ps 0 0 (bc + 1)
         else encode_line ps ov (shift + 2) bc)"

definition encodeBitmap :: "int \<Rightarrow> int \<Rightarrow> (int \<Rightarrow> int \<Rightarrow> int) \<Rightarrow> bytes \<Rightarrow> bytes" where
  "encodeBitmap width height getPixel out =
     (let rawBuf = concat (map (\<lambda>y. encode_line (map (\<lambda>x. getPixel x y) [0..width - 1]) 0 0 0) [0..height - 1]);
          ib = le32 0x28 @ le32 width @ le32 height @ le32 0 @ le32 0 @ le32 2 @ le32 0 @ le32 0 @ le32 0 @ rawBuf
      in out @ le32 (int (length ib) + 4) @ ib)"

section \<open>Decoding\<close>

text \<open>What the loops use of the header, and their variables: \<open>oidx\<close>, \<open>x\<close> and the output.\<close>

record bitmap_format =
  bf_xPixels :: "32 word"
  bf_picsize :: "32 word"
  bf_bitsPerPixel :: nat
  bf_pixelsPerByte :: nat
  bf_grayVal :: int
  bf_bytesPerLine :: int
  bf_mask :: int

record bitmap_state =
  bm_oidx :: nat
  bm_x :: nat
  bm_out :: bytes

text \<open>
  The loop of the macro \<open>splitByte\<close>, \<open>n\<close> of whose rounds are left, and the macro. \<open>False\<close> is the
  \<open>return false\<close> of the function around it.
\<close>

fun splitByte_loop :: "bitmap_format \<Rightarrow> nat \<Rightarrow> nat \<Rightarrow> byte \<Rightarrow> bitmap_state \<Rightarrow> (bool \<times> bitmap_state) option" where
  "splitByte_loop f j 0 v s = Some (True, s)"
| "splitByte_loop f j (Suc n) v s =
     (if j \<noteq> 0 \<and> bf_xPixels f = 0 then None
      else if j \<noteq> 0 \<and> word_of_nat (bm_oidx s) mod bf_xPixels f = 0 then Some (True, s)
      else if word_of_nat (bm_oidx s) \<ge> bf_picsize f then Some (False, s)
      else splitByte_loop f (j + 1) n (drop_bit (bf_bitsPerPixel f) v)
        (s\<lparr>bm_out := bm_out s @ [word_of_int ((uint v AND bf_mask f) * bf_grayVal f)],
           bm_oidx := bm_oidx s + 1\<rparr>))"

definition splitByte :: "bitmap_format \<Rightarrow> 32 word \<Rightarrow> byte \<Rightarrow> bitmap_state \<Rightarrow> (bool \<times> bitmap_state) option" where
  "splitByte f linelen v s = do {
     (ok, s) \<leftarrow> (if int (bm_x s) < bf_bytesPerLine f then splitByte_loop f 0 (bf_pixelsPerByte f) v s
                else Some (True, s));
     Some (if ok then (True, s\<lparr>bm_x := if word_of_nat (bm_x s + 1) \<ge> linelen then 0 else bm_x s + 1\<rparr>)
           else (False, s)) }"

text \<open>The data without encoding; \<open>offset\<close> counts from the end of the header.\<close>

function decode_raw ::
  "bitmap_format \<Rightarrow> 32 word \<Rightarrow> bytes \<Rightarrow> nat \<Rightarrow> nat \<Rightarrow> bitmap_state \<Rightarrow> (bool \<times> bitmap_state) option" where
  "decode_raw f linelen p datlen offset s =
     (if offset < datlen then do {
        b \<leftarrow> getByte p offset;
        (ok, s) \<leftarrow> splitByte f linelen b s;
        if ok then decode_raw f linelen p datlen (offset + 1) s else Some (False, s) }
      else Some (True, s))"
  by pat_completeness auto
termination by (relation "measure (\<lambda>(f, linelen, p, datlen, offset, s). datlen - offset)") auto

text \<open>Run-length encoded: the first loop counts the bytes, the second unpacks them.\<close>

function rle_count :: "bytes \<Rightarrow> nat \<Rightarrow> nat \<Rightarrow> nat \<Rightarrow> nat option" where
  "rle_count p datlen offset i =
     (if offset < datlen then do {
        b \<leftarrow> getByte p offset;
        if b \<ge> 0x80 then rle_count p datlen (offset + (0x100 - unat b + 1)) (i + (0x100 - unat b))
        else rle_count p datlen (offset + 2) (i + (unat b + 1)) }
      else Some i)"
  by pat_completeness auto
termination by (relation "measure (\<lambda>(p, datlen, offset, i). datlen - offset)") auto

text \<open>The two inner loops: \<open>n\<close> different bytes, and one byte \<open>n\<close> times.\<close>

fun rle_literal ::
  "bitmap_format \<Rightarrow> 32 word \<Rightarrow> bytes \<Rightarrow> nat \<Rightarrow> nat \<Rightarrow> nat \<Rightarrow> bitmap_state \<Rightarrow> (bool \<times> bitmap_state) option" where
  "rle_literal f linelen p datlen 0 offset s = Some (True, s)"
| "rle_literal f linelen p datlen (Suc n) offset s =
     (if offset \<ge> datlen then Some (False, s)
      else do {
        b2 \<leftarrow> getByte p offset;
        (ok, s) \<leftarrow> splitByte f linelen b2 s;
        if ok then rle_literal f linelen p datlen n (offset + 1) s else Some (False, s) })"

fun rle_repeat :: "bitmap_format \<Rightarrow> 32 word \<Rightarrow> byte \<Rightarrow> nat \<Rightarrow> bitmap_state \<Rightarrow> (bool \<times> bitmap_state) option" where
  "rle_repeat f linelen b2 0 s = Some (True, s)"
| "rle_repeat f linelen b2 (Suc n) s = do {
     (ok, s) \<leftarrow> splitByte f linelen b2 s;
     if ok then rle_repeat f linelen b2 n s else Some (False, s) }"

function decode_rle ::
  "bitmap_format \<Rightarrow> 32 word \<Rightarrow> bytes \<Rightarrow> nat \<Rightarrow> nat \<Rightarrow> bitmap_state \<Rightarrow> (bool \<times> bitmap_state) option" where
  "decode_rle f linelen p datlen offset s =
     (if offset < datlen then do {
        b \<leftarrow> getByte p offset;
        if b \<ge> 0x80 then do {
          (ok, s) \<leftarrow> rle_literal f linelen p datlen (0x100 - unat b) (offset + 1) s;
          if ok then decode_rle f linelen p datlen (offset + 1 + (0x100 - unat b)) s else Some (False, s) }
        else if offset + 1 \<ge> datlen then Some (False, s)
        else do {
          b2 \<leftarrow> getByte p (offset + 1);
          (ok, s) \<leftarrow> rle_repeat f linelen b2 (unat b + 1) s;
          if ok then decode_rle f linelen p datlen (offset + 2) s else Some (False, s) } }
      else Some (True, s))"
  by pat_completeness auto
termination by (relation "measure (\<lambda>(f, linelen, p, datlen, offset, s). datlen - offset)") auto

declare decode_raw.simps [simp del] rle_count.simps [simp del] decode_rle.simps [simp del]

definition decodeBitmap :: "bytes \<Rightarrow> bytes \<Rightarrow> (bool \<times> 32 word \<times> 32 word \<times> bytes) option" where
  "decodeBitmap p out = do {
     totlen \<leftarrow> getDWord p 0;
     hdrlen \<leftarrow> getDWord p 4;
     let datlen = unat (totlen - hdrlen);
     xPixels \<leftarrow> getDWord p 8;
     yPixels \<leftarrow> getDWord p 12;
     xTwips \<leftarrow> getDWord p 16;
     yTwips \<leftarrow> getDWord p 20;
     bitsPerPixel \<leftarrow> getDWord p 24;
     unknown1 \<leftarrow> getDWord p 28;
     unknown2 \<leftarrow> getDWord p 32;
     rle \<leftarrow> getDWord p 36;
     let p = drop 40 p;
     let bpp = unat bitsPerPixel;
     if bpp = 0 \<or> bpp > 8 \<or> yPixels = 0 then None else do {
     let ppb = 8 div bpp;
     let f = \<lparr>bf_xPixels = xPixels, bf_picsize = xPixels * yPixels, bf_bitsPerPixel = bpp,
       bf_pixelsPerByte = ppb, bf_grayVal = 255 div (2 ^ bpp - 1),
       bf_bytesPerLine = sint ((xPixels + word_of_nat ppb - 1) div word_of_nat ppb), bf_mask = 2 * int bpp - 1\<rparr>;
     let s = \<lparr>bm_oidx = 0, bm_x = 0, bm_out = out\<rparr>;
     (ok, s) \<leftarrow>
       (if rle \<noteq> 0 then do {
          i \<leftarrow> rle_count p datlen 0 0;
          decode_rle f (word_of_nat i div yPixels) p datlen 0 s }
        else decode_raw f (word_of_nat datlen div yPixels) p datlen 0 s);
     Some (ok, xPixels, yPixels, bm_out s) } }"

end
