(* ===== verification/Bitmap_Roundtrip.thy ===== *)
theory Bitmap_Roundtrip
  imports Bitmap
begin

text \<open>
  \<open>decodeBitmap\<close> gives back the image that \<open>encodeBitmap\<close> packed, in four shades of grey. The
  proof goes by lines: a line is packed four pixels to a byte and filled with zeros, and the
  decoder, fed with the bytes of a line, adds its pixels.
\<close>

section \<open>Packing a line\<close>

fun pack4 :: "int list \<Rightarrow> int" where
  "pack4 [] = 0"
| "pack4 (a # r) = a + 4 * pack4 r"

definition shades :: "int list \<Rightarrow> bool" where
  "shades vs \<longleftrightarrow> (\<forall>v \<in> set vs. 0 \<le> v \<and> v < 4)"

lemma shades_simps [simp]: "shades []" "shades (v # vs) \<longleftrightarrow> 0 \<le> v \<and> v < 4 \<and> shades vs"
    "shades (vs @ ws) \<longleftrightarrow> shades vs \<and> shades ws"
  by (auto simp: shades_def)

lemma or_shift_add: "0 \<le> a \<Longrightarrow> a < 2 ^ n \<Longrightarrow> a OR push_bit n m = a + 2 ^ n * (m :: int)"
proof -
  assume "0 \<le> a" "a < 2 ^ n"
  then have "take_bit n a = a" by (simp add: take_bit_int_eq_self)
  then have low: "bit a i \<Longrightarrow> i < n" for i by (metis bit_take_bit_iff)
  have "a + push_bit n m = a OR push_bit n m"
    by (rule disjunctive_add_eq_or) (rule bit_eqI, auto simp: bit_simps dest!: low)
  then show ?thesis by (simp add: push_bit_eq_mult mult.commute)
qed

lemma or_shades:
  fixes a b c d :: int
  assumes "0 \<le> a" "a < 4" "0 \<le> b" "b < 4" "0 \<le> c" "c < 4"
  shows "((a OR 4 * b) OR 16 * c) OR 64 * d = a + (4 * b + (16 * c + 64 * d))"
  using assms or_shift_add [of a 2 b] or_shift_add [of "a + 4 * b" 4 c] or_shift_add [of "a + 4 * b + 16 * c" 6 d]
  by (simp add: push_bit_eq_mult mult.commute)

lemma or_shades2:
  fixes a b c :: int
  assumes "0 \<le> a" "a < 4" "0 \<le> b" "b < 4"
  shows "(a + 4 * b) OR 16 * c = a + (4 * b + 16 * c)"
  using assms or_shift_add [of "a + 4 * b" 4 c] by (simp add: push_bit_eq_mult mult.commute)

fun pack :: "int list \<Rightarrow> bytes" where
  "pack (a # b # c # d # r) = word_of_int (pack4 [a, b, c, d]) # pack r"
| "pack [] = []"
| "pack vs = [word_of_int (pack4 vs)]"

lemma length_pack: "length (pack vs) = (length vs + 3) div 4"
  by (induction vs rule: pack.induct) auto

lemma encode_line_pack:
  "shades (map (\<lambda>p. p sdiv 85) ps) \<Longrightarrow>
    encode_line ps 0 0 bc = (let b = pack (map (\<lambda>p. p sdiv 85) ps)
      in b @ replicate ((4 - (bc + length b) mod 4) mod 4) 0)"
proof (induction "map (\<lambda>p. p sdiv 85) ps" arbitrary: ps bc rule: pack.induct)
  case (1 a b c d r)
  then obtain p1 p2 p3 p4 ps' where ps: "ps = p1 # p2 # p3 # p4 # ps'" "a = p1 sdiv 85" "b = p2 sdiv 85"
      "c = p3 sdiv 85" "d = p4 sdiv 85" "r = map (\<lambda>p. p sdiv 85) ps'"
    by (auto simp: Cons_eq_map_conv)
  have r: "0 \<le> a" "a < 4" "0 \<le> b" "b < 4" "0 \<le> c" "c < 4" "0 \<le> d" "d < 4" "shades (map (\<lambda>p. p sdiv 85) ps')"
    using 1(3) ps by simp_all
  show ?case
    using 1(1) [OF ps(6) r(9), of "bc + 1"] ps or_shades [OF r(1-6), of d]
    by (simp add: Let_def push_bit_eq_mult mult.commute del: of_int_add of_int_mult)
qed (auto simp: line_end_def Let_def push_bit_eq_mult mult.commute or_shades2
  or_shades [where c = 0 and d = 0, simplified] simp del: of_int_add of_int_mult)

section \<open>Unpacking a byte\<close>

lemma pack4_range: "shades vs \<Longrightarrow> 0 \<le> pack4 vs \<and> pack4 vs < 4 ^ length vs"
  by (induction vs) auto

lemma uint_pack4: "shades vs \<Longrightarrow> length vs \<le> 4 \<Longrightarrow> uint (word_of_int (pack4 vs) :: byte) = pack4 vs"
proof -
  assume "shades vs" "length vs \<le> 4"
  then have "4 ^ length vs \<le> (4 ^ 4 :: int)" "0 \<le> pack4 vs" "pack4 vs < 4 ^ length vs"
    using pack4_range power_increasing [of "length vs" 4 "4 :: int"] by auto
  then show ?thesis by (simp add: uint_word_of_int)
qed

lemma byte_low:
  assumes "shades (v # vs)" and "length vs \<le> 3"
  shows "uint (word_of_int (pack4 (v # vs)) :: byte) AND 3 = v"
    and "drop_bit 2 (word_of_int (pack4 (v # vs)) :: byte) = word_of_int (pack4 vs)"
proof -
  have u: "uint (word_of_int (pack4 (v # vs)) :: byte) = v + 4 * pack4 vs"
    using uint_pack4 [OF assms(1)] assms(2) by simp
  have "(v + 4 * pack4 vs) AND 3 = (v + 4 * pack4 vs) mod 4"
    using take_bit_eq_mask [of 2 "v + 4 * pack4 vs"] by (simp add: take_bit_eq_mod mask_numeral)
  then show "uint (word_of_int (pack4 (v # vs)) :: byte) AND 3 = v"
    unfolding u using assms(1) by simp
  have "0 \<le> v + 4 * pack4 vs" "v + 4 * pack4 vs < 2 ^ 8"
    using u uint_lt2p [of "word_of_int (pack4 (v # vs)) :: byte"]
      uint_ge_0 [of "word_of_int (pack4 (v # vs)) :: byte"] by simp_all
  then have "take_bit 8 (v + 4 * pack4 vs) = v + 4 * pack4 vs" by (simp add: take_bit_int_eq_self)
  then have "uint (drop_bit 2 (word_of_int (pack4 (v # vs)) :: byte)) = pack4 vs"
    using assms(1) by (simp only: unsigned_drop_bit_eq u) (simp add: drop_bit_eq_div)
  then show "drop_bit 2 (word_of_int (pack4 (v # vs)) :: byte) = word_of_int (pack4 vs)"
    by (metis word_of_int_uint)
qed

definition grey4 :: "nat \<Rightarrow> nat \<Rightarrow> bitmap_format" where
  "grey4 w h = \<lparr>bf_xPixels = word_of_nat w, bf_picsize = word_of_nat (w * h), bf_bitsPerPixel = 2,
     bf_pixelsPerByte = 4, bf_grayVal = 85, bf_bytesPerLine = int ((w + 3) div 4), bf_mask = 3\<rparr>"

lemma grey4_simps [simp]:
  "bf_xPixels (grey4 w h) = word_of_nat w" "bf_picsize (grey4 w h) = word_of_nat (w * h)"
  "bf_bitsPerPixel (grey4 w h) = 2" "bf_pixelsPerByte (grey4 w h) = 4" "bf_grayVal (grey4 w h) = 85"
  "bf_bytesPerLine (grey4 w h) = int ((w + 3) div 4)" "bf_mask (grey4 w h) = 3"
  by (simp_all add: grey4_def)

definition grey_bytes :: "int list \<Rightarrow> bytes" where
  "grey_bytes vs = map (\<lambda>v. word_of_int (85 * v)) vs"

lemma word_of_nat_small: "m < 2 ^ 32 \<Longrightarrow> unat (word_of_nat m :: 32 word) = m"
  by (simp add: unat_of_nat take_bit_eq_mod)

lemma mod_pixels:
  assumes "m < 2 ^ 32" and "w < 2 ^ 32" and "0 < w"
  shows "word_of_nat m mod (word_of_nat w :: 32 word) = 0 \<longleftrightarrow> m mod w = 0"
  using assms word_of_nat_small [of m] word_of_nat_small [of w]
  by (metis unat_0 unat_eq_zero unat_mod_distrib)

text \<open>
  The rounds of \<open>splitByte\<close> for the pixels \<open>vs\<close>, which end the line (column \<open>k\<close> on) or fill the
  byte.
\<close>

lemma splitByte_loop_pixels:
  assumes "0 < w" and "w * h < 2 ^ 32" and "y < h"
  shows "shades vs \<Longrightarrow> j + n = 4 \<Longrightarrow> length vs \<le> n \<Longrightarrow> k + length vs \<le> w \<Longrightarrow>
    length vs = n \<or> k + length vs = w \<Longrightarrow> j = 0 \<or> 0 < k \<Longrightarrow> vs \<noteq> [] \<or> j \<noteq> 0 \<Longrightarrow>
    bm_oidx s = y * w + k \<Longrightarrow>
    splitByte_loop (grey4 w h) j n (word_of_int (pack4 vs)) s =
      Some (True, s\<lparr>bm_oidx := bm_oidx s + length vs, bm_out := bm_out s @ grey_bytes vs\<rparr>)"
proof (induction vs arbitrary: j n k s)
  case Nil
  show ?case
  proof (cases n)
    case (Suc m)
    have "y * w + w \<le> w * h" using assms(3) by (metis Suc_leI add.commute mult.commute mult_Suc mult_le_mono2)
    then have small: "y * w + w < 2 ^ 32" "w < 2 ^ 32" using assms(2) by linarith+
    have "k = w" using Nil Suc by simp
    then have "word_of_nat (bm_oidx s) mod (word_of_nat w :: 32 word) = 0"
      using Nil mod_pixels [OF small assms(1)] by simp
    moreover have "(word_of_nat w :: 32 word) \<noteq> 0"
      using word_of_nat_small [OF small(2)] assms(1) by (metis unat_0 less_irrefl)
    ultimately show ?thesis using Nil Suc by (simp add: grey4_def grey_bytes_def)
  qed (simp add: grey_bytes_def)
next
  case (Cons v vs)
  then obtain m where n: "n = Suc m" by (cases n) auto
  have "y * w + w \<le> w * h" using assms(3) by (metis Suc_leI add.commute mult.commute mult_Suc mult_le_mono2)
  then have small: "y * w + k < 2 ^ 32" "w < 2 ^ 32" "y * w + k < w * h"
    using assms(2) Cons.prems(4) by simp_all
  have w0: "(word_of_nat w :: 32 word) \<noteq> 0"
    using word_of_nat_small [OF small(2)] assms(1) by (metis unat_0 less_irrefl)
  have k: "\<not> (j \<noteq> 0 \<and> word_of_nat (y * w + k) mod (word_of_nat w :: 32 word) = 0)"
    using mod_pixels [OF small(1,2) assms(1)] Cons.prems(4,6) by auto
  have pic: "\<not> word_of_nat (y * w + k) \<ge> (word_of_nat (w * h) :: 32 word)"
    using small(3) word_of_nat_small [OF small(1)] word_of_nat_small [OF assms(2)]
    by (simp add: word_le_nat_alt)
  have vs: "shades vs" "length vs \<le> 3" using Cons.prems by auto
  note low = byte_low [OF Cons.prems(1) vs(2)]
  let ?s = "s\<lparr>bm_out := bm_out s @ [word_of_int (85 * v)], bm_oidx := bm_oidx s + 1\<rparr>"
  have step: "splitByte_loop (grey4 w h) j n (word_of_int (pack4 (v # vs))) s =
      splitByte_loop (grey4 w h) (j + 1) m (word_of_int (pack4 vs)) ?s"
  proof -
    have "\<not> (j \<noteq> 0 \<and> bf_xPixels (grey4 w h) = 0)" using w0 by simp
    moreover have "\<not> (j \<noteq> 0 \<and> word_of_nat (bm_oidx s) mod bf_xPixels (grey4 w h) = 0)"
      unfolding grey4_simps Cons.prems(8) by (rule k)
    moreover have "\<not> word_of_nat (bm_oidx s) \<ge> bf_picsize (grey4 w h)"
      unfolding grey4_simps Cons.prems(8) by (rule pic)
    ultimately show ?thesis
      unfolding n splitByte_loop.simps if_not_P
      by (simp only: if_False grey4_simps low mult.commute [of 85])
  qed
  show ?case
    unfolding step
    using Cons.IH [OF vs(1), of "j + 1" m "k + 1" ?s] Cons.prems n by (simp add: grey_bytes_def)
qed

section \<open>Unpacking lines\<close>

text \<open>The raw decoder is a fold over the bytes.\<close>

fun feed :: "bitmap_format \<Rightarrow> 32 word \<Rightarrow> bytes \<Rightarrow> bitmap_state \<Rightarrow> (bool \<times> bitmap_state) option" where
  "feed f linelen [] s = Some (True, s)"
| "feed f linelen (b # bs) s = do {
     (ok, s) \<leftarrow> splitByte f linelen b s;
     if ok then feed f linelen bs s else Some (False, s) }"

lemma feed_append:
  "feed f l (a @ b) s = do { (ok, s) \<leftarrow> feed f l a s; if ok then feed f l b s else Some (False, s) }"
proof (induction a arbitrary: s)
  case (Cons x a)
  then show ?case by (cases "splitByte f l x s") (auto split: prod.split)
qed simp

lemma decode_raw_feed:
  "offset \<le> length p \<Longrightarrow> decode_raw f l p (length p) offset s = feed f l (drop offset p) s"
proof (induction f l p "length p" offset s rule: decode_raw.induct)
  case (1 f l p offset s)
  show ?case
  proof (cases "offset < length p")
    case True
    then have "drop offset p = p ! offset # drop (offset + 1) p" by (simp add: Cons_nth_drop_Suc)
    moreover have "getByte p offset = Some (p ! offset)" using True by (simp add: getByte_def)
    moreover have "decode_raw f l p (length p) (offset + 1) s' = feed f l (drop (offset + 1) p) s'"
      if "splitByte f l (p ! offset) s = Some (True, s')" for s'
      using 1(1) [OF True, of "p ! offset" "(True, s')" True s'] that True by (simp add: getByte_def)
    ultimately show ?thesis
      using True by (subst decode_raw.simps) (auto split: bind_split prod.split)
  qed (use 1(2) in \<open>simp add: decode_raw.simps\<close>)
qed

text \<open>The column of the byte after \<open>x\<close>, in lines of \<open>l\<close> bytes.\<close>

definition next_col :: "nat \<Rightarrow> nat \<Rightarrow> nat" where
  "next_col l x = (if x \<ge> l then 0 else x)"

lemma splitByte_pixels:
  assumes "0 < w" and "w * h < 2 ^ 32" and "y < h" and "l < 2 ^ 32" and "x < l"
    and "shades vs" and "vs \<noteq> []" and "length vs \<le> 4" and "4 * x + length vs \<le> w"
    and "length vs = 4 \<or> 4 * x + length vs = w" and "bm_oidx s = y * w + 4 * x" and "bm_x s = x"
  shows "splitByte (grey4 w h) (word_of_nat l) (word_of_int (pack4 vs)) s =
    Some (True, s\<lparr>bm_oidx := bm_oidx s + length vs, bm_out := bm_out s @ grey_bytes vs, bm_x := next_col l (x + 1)\<rparr>)"
proof -
  have "x < (w + 3) div 4" using assms(7,9) by (cases vs) auto
  moreover have "word_of_nat (x + 1) \<ge> (word_of_nat l :: 32 word) \<longleftrightarrow> x + 1 \<ge> l"
    using assms(4,5) word_of_nat_small [of "x + 1"] word_of_nat_small [of l] by (simp add: word_le_nat_alt)
  ultimately show ?thesis
    using splitByte_loop_pixels [OF assms(1-3,6), of 0 4 "4 * x" s] assms(7-12)
    by (simp add: splitByte_def next_col_def)
qed

lemma feed_pixels:
  assumes "0 < w" and "w * h < 2 ^ 32" and "y < h" and "l < 2 ^ 32" and "(w + 3) div 4 \<le> l"
  shows "shades vs \<Longrightarrow> vs \<noteq> [] \<Longrightarrow> 4 * x + length vs = w \<Longrightarrow> bm_oidx s = y * w + 4 * x \<Longrightarrow> bm_x s = x \<Longrightarrow>
    feed (grey4 w h) (word_of_nat l) (pack vs) s =
      Some (True, s\<lparr>bm_oidx := bm_oidx s + length vs, bm_out := bm_out s @ grey_bytes vs,
        bm_x := next_col l ((w + 3) div 4)\<rparr>)"
proof (induction vs arbitrary: x s rule: pack.induct [case_names four none one two three])
  case (four a b c d r)
  have x: "x < l" using four(4) assms(5) by (auto simp: less_eq_div_iff_mult_less_eq)
  let ?s = "s\<lparr>bm_oidx := bm_oidx s + 4, bm_out := bm_out s @ grey_bytes [a, b, c, d], bm_x := next_col l (x + 1)\<rparr>"
  have step: "splitByte (grey4 w h) (word_of_nat l) (word_of_int (pack4 [a, b, c, d])) s = Some (True, ?s)"
    using splitByte_pixels [OF assms(1-4) x, of "[a, b, c, d]" s] four(2-6) by simp
  show ?case
  proof (cases "r = []")
    case True
    then have "x + 1 = (w + 3) div 4" using four(4) by auto
    then show ?thesis using step True by (simp add: grey_bytes_def del: pack4.simps)
  next
    case False
    then have "x + 1 < (w + 3) div 4" using four(4) by (cases r) auto
    then have "next_col l (x + 1) = x + 1" using assms(5) by (simp add: next_col_def)
    then show ?thesis
      using step four(1) [of "x + 1" ?s] four(2-6) False by (simp add: grey_bytes_def del: pack4.simps)
  qed
next
  case (one v)
  then have "x < l" "x + 1 = (w + 3) div 4" using assms(5) by auto
  then show ?case
    using splitByte_pixels [OF assms(1-4), of x "[v]" s] one by (simp add: grey_bytes_def)
next
  case (two v v')
  then have "x < l" "x + 1 = (w + 3) div 4" using assms(5) by auto
  then show ?case
    using splitByte_pixels [OF assms(1-4), of x "[v, v']" s] two by (simp add: grey_bytes_def)
next
  case (three v v' v'')
  then have "x < l" "x + 1 = (w + 3) div 4" using assms(5) by auto
  then show ?case
    using splitByte_pixels [OF assms(1-4), of x "[v, v', v'']" s] three by (simp add: grey_bytes_def)
qed simp

lemma feed_padding:
  "x + m = l \<Longrightarrow> (w + 3) div 4 \<le> x \<Longrightarrow> l < 2 ^ 32 \<Longrightarrow> bm_x s = next_col l x \<Longrightarrow>
    feed (grey4 w h) (word_of_nat l) (replicate m 0) s = Some (True, s\<lparr>bm_x := 0\<rparr>)"
proof (induction m arbitrary: x s)
  case (Suc m)
  then have x: "x < l" "bm_x s = x" by (auto simp: next_col_def)
  have "word_of_nat (x + 1) \<ge> (word_of_nat l :: 32 word) \<longleftrightarrow> x + 1 \<ge> l"
    using Suc.prems(3) x(1) word_of_nat_small [of "x + 1"] word_of_nat_small [of l] by (simp add: word_le_nat_alt)
  then have "splitByte (grey4 w h) (word_of_nat l) 0 s = Some (True, s\<lparr>bm_x := next_col l (x + 1)\<rparr>)"
    using Suc.prems(2) x by (simp add: splitByte_def next_col_def)
  then show ?case using Suc.IH [of "x + 1" "s\<lparr>bm_x := next_col l (x + 1)\<rparr>"] Suc.prems by simp
qed (simp add: next_col_def)

definition line_length :: "nat \<Rightarrow> nat" where
  "line_length w = (w + 3) div 4 + (4 - (w + 3) div 4 mod 4) mod 4"

definition line :: "int list \<Rightarrow> bytes" where
  "line vs = pack vs @ replicate ((4 - length (pack vs) mod 4) mod 4) 0"

lemma length_line: "length (line vs) = line_length (length vs)"
  by (simp add: line_def line_length_def length_pack)

lemma feed_line:
  assumes "0 < w" and "w * h < 2 ^ 32" and "y < h" and "line_length w < 2 ^ 32"
    and "shades vs" and "length vs = w" and "bm_oidx s = y * w" and "bm_x s = 0"
  shows "feed (grey4 w h) (word_of_nat (line_length w)) (line vs) s =
    Some (True, s\<lparr>bm_oidx := (y + 1) * w, bm_out := bm_out s @ grey_bytes vs, bm_x := 0\<rparr>)"
proof -
  let ?s = "s\<lparr>bm_oidx := bm_oidx s + w, bm_out := bm_out s @ grey_bytes vs,
    bm_x := next_col (line_length w) ((w + 3) div 4)\<rparr>"
  have "feed (grey4 w h) (word_of_nat (line_length w)) (pack vs) s = Some (True, ?s)"
    using feed_pixels [OF assms(1-4) _ assms(5), of 0 s] assms(1,6-8) by (auto simp: line_length_def)
  moreover have "feed (grey4 w h) (word_of_nat (line_length w))
      (replicate ((4 - (w + 3) div 4 mod 4) mod 4) 0) ?s = Some (True, ?s\<lparr>bm_x := 0\<rparr>)"
    by (rule feed_padding [of "(w + 3) div 4"]) (use assms(4) in \<open>simp_all add: line_length_def\<close>)
  ultimately show ?thesis
    using assms(6,7) by (simp add: line_def feed_append length_pack)
qed

lemma feed_image:
  assumes "0 < w" and "w * h < 2 ^ 32" and "line_length w < 2 ^ 32"
  shows "\<forall>vs \<in> set vss. shades vs \<and> length vs = w \<Longrightarrow> y + length vss \<le> h \<Longrightarrow>
    bm_oidx s = y * w \<Longrightarrow> bm_x s = 0 \<Longrightarrow>
    \<exists>s'. feed (grey4 w h) (word_of_nat (line_length w)) (concat (map line vss)) s = Some (True, s') \<and>
      bm_out s' = bm_out s @ concat (map grey_bytes vss)"
proof (induction vss arbitrary: y s)
  case (Cons vs vss)
  let ?s = "s\<lparr>bm_oidx := (y + 1) * w, bm_out := bm_out s @ grey_bytes vs, bm_x := 0\<rparr>"
  have "feed (grey4 w h) (word_of_nat (line_length w)) (line vs) s = Some (True, ?s)"
    using feed_line [OF assms(1,2) _ assms(3), of y vs s] Cons.prems by simp
  moreover obtain s' where "feed (grey4 w h) (word_of_nat (line_length w)) (concat (map line vss)) ?s = Some (True, s')"
      "bm_out s' = bm_out ?s @ concat (map grey_bytes vss)"
    using Cons.IH [of "y + 1" ?s] Cons.prems by auto
  ultimately show ?case by (simp add: feed_append)
qed simp

lemma length_lines: "\<forall>vs \<in> set vss. length vs = w \<Longrightarrow> length (concat (map line vss)) = length vss * line_length w"
  by (induction vss) (simp_all add: length_line)

section \<open>The whole image\<close>

lemma line_encoded:
  assumes "\<forall>x. 0 \<le> g x \<and> g x \<le> (255 :: int)"
  shows "encode_line (map g xs) 0 0 0 = line (map (\<lambda>x. g x div 85) xs)"
    and "shades (map (\<lambda>x. g x div 85) xs)"
proof -
  have sdiv: "g x sdiv 85 = g x div 85" for x
    using assms [rule_format, of x] by (cases "g x = 0") (auto simp: signed_divide_int_def)
  show shades: "shades (map (\<lambda>x. g x div 85) xs)"
  proof -
    have "g x div 85 < 4" for x using assms [rule_format, of x] by linarith
    then show ?thesis using assms by (auto simp: shades_def pos_imp_zdiv_nonneg_iff)
  qed
  then have "shades (map (\<lambda>p. p sdiv 85) (map g xs))" by (simp add: sdiv comp_def)
  from encode_line_pack [OF this, of 0] show "encode_line (map g xs) 0 0 0 = line (map (\<lambda>x. g x div 85) xs)"
    by (simp add: line_def sdiv comp_def Let_def)
qed

lemma bytes_per_line:
  assumes "w < 2 ^ 16"
  shows "sint ((word_of_nat w + word_of_nat 4 - 1) div word_of_nat 4 :: 32 word) = int ((w + 3) div 4)"
proof -
  let ?a = "word_of_nat w + word_of_nat 4 - 1 :: 32 word"
  have "?a = word_of_nat (w + 3)" by simp
  then have a: "unat ?a = w + 3" using word_of_nat_small [of "w + 3"] assms by (simp add: add.commute)
  have "unat (?a div word_of_nat 4) = (w + 3) div 4" by (simp only: unat_div_distrib a) simp
  then have u: "uint (?a div word_of_nat 4) = int ((w + 3) div 4)" by (simp only: uint_nat)
  have "int ((w + 3) div 4) < 2 ^ 31" using assms by simp
  then show ?thesis
    by (simp only: sint_uint u) (simp add: signed_take_bit_int_eq_self)
qed

text \<open>
  C18: an image that has been encoded is decoded to the same image in four shades of grey:
  decoding succeeds, returns the width and the height, and gives each pixel, in lines from the
  top, the multiple of 85 that is next below its value.
\<close>

theorem bitmap_roundtrip:
  assumes "0 < w" and "w < 2 ^ 16" and "0 < h" and "h < 2 ^ 16" and "\<forall>x y. 0 \<le> g x y \<and> g x y \<le> 255"
  shows "decodeBitmap (encodeBitmap (int w) (int h) g []) [] = Some (True, word_of_nat w, word_of_nat h,
    concat (map (\<lambda>y. map (\<lambda>x. word_of_int (85 * (g x y div 85))) [0..int w - 1]) [0..int h - 1]))"
proof -
  define vss where "vss = map (\<lambda>y. map (\<lambda>x. g x y div 85) [0..int w - 1]) [0..int h - 1]"
  define raw where "raw = concat (map line vss)"
  let ?l = "line_length w"
  have vss: "\<forall>vs \<in> set vss. shades vs \<and> length vs = w" "length vss = h"
    using line_encoded(2) [of "\<lambda>x. g x y" for y] assms(5) by (auto simp: vss_def)
  have l: "?l \<le> w + 4" by (simp add: line_length_def)
  have wh: "w * h < 2 ^ 32"
    using mult_strict_mono [of w "2 ^ 16" h "2 ^ 16"] assms by simp
  have len: "length raw = h * ?l" using length_lines [of vss w] vss by (simp add: raw_def)
  have small: "length raw + 40 < 2 ^ 32"
  proof -
    have "?l \<le> 16400" using assms(2) by (simp add: line_length_def)
    then have "h * ?l \<le> 2 ^ 16 * 16400" using assms(4) by (intro mult_le_mono) simp_all
    then show ?thesis using len by simp
  qed
  have enc: "encodeBitmap (int w) (int h) g [] =
      le32 (int (length raw) + 40) @ le32 0x28 @ le32 (int w) @ le32 (int h) @ le32 0 @ le32 0 @ le32 2 @
      le32 0 @ le32 0 @ le32 0 @ raw"
  proof -
    have "encode_line (map (\<lambda>x. g x y) [0..int w - 1]) 0 0 0 = line (map (\<lambda>x. g x y div 85) [0..int w - 1])" for y
      using line_encoded(1) [of "\<lambda>x. g x y"] assms(5) by simp
    then show ?thesis by (simp add: encodeBitmap_def raw_def vss_def comp_def Let_def add.commute)
  qed
  have datlen: "unat (word_of_int (int (length raw) + 40) - 40 :: 32 word) = length raw"
    using word_of_nat_small [of "length raw"] small by simp
  have linelen: "word_of_nat (length raw) div word_of_nat h = (word_of_nat ?l :: 32 word)"
  proof -
    have "unat (word_of_nat (length raw) div word_of_nat h :: 32 word) = ?l"
      using word_of_nat_small [of "length raw"] word_of_nat_small [of h] small assms(3,4) len
      by (simp add: unat_div_distrib)
    moreover have "unat (word_of_nat ?l :: 32 word) = ?l" using word_of_nat_small [of ?l] l assms(2) by simp
    ultimately show ?thesis by (simp add: word_unat_eq_iff)
  qed
  have h0: "(word_of_nat h :: 32 word) \<noteq> 0"
  proof
    assume "(word_of_nat h :: 32 word) = 0"
    then have "unat (word_of_nat h :: 32 word) = 0" by (simp only: unat_0)
    then show False using word_of_nat_small [of h] assms(3,4) by simp
  qed
  obtain s' where s': "feed (grey4 w h) (word_of_nat ?l) raw \<lparr>bm_oidx = 0, bm_x = 0, bm_out = []\<rparr> = Some (True, s')"
      "bm_out s' = concat (map grey_bytes vss)"
    using feed_image [OF assms(1) wh _ vss(1), of 0 "\<lparr>bm_oidx = 0, bm_x = 0, bm_out = []\<rparr>"] vss(2) l assms(2)
    by (auto simp: raw_def)
  have dec: "decode_raw (grey4 w h) (word_of_nat ?l) raw (length raw) 0 \<lparr>bm_oidx = 0, bm_x = 0, bm_out = []\<rparr> =
      Some (True, s')"
    using decode_raw_feed [of 0 raw] s'(1) by simp
  have out: "concat (map grey_bytes vss) =
      concat (map (\<lambda>y. map (\<lambda>x. word_of_int (85 * (g x y div 85))) [0..int w - 1]) [0..int h - 1])"
    by (simp add: vss_def grey_bytes_def comp_def)
  have four: "8 div Suc (Suc 0) = 4" unfolding numeral_2_eq_2 [symmetric] by simp
  have bpl: "sint ((word_of_nat w + 3) div 4 :: 32 word) = int ((w + 3) div 4)"
    using bytes_per_line [OF assms(2)] by (simp add: add.commute)
  have f: "\<lparr>bf_xPixels = word_of_nat w, bf_picsize = word_of_nat w * word_of_nat h, bf_bitsPerPixel = Suc (Suc 0),
      bf_pixelsPerByte = 4, bf_grayVal = 85,
      bf_bytesPerLine = int ((w + 3) div 4),
      bf_mask = 3\<rparr> = grey4 w h"
    by (simp add: grey4_def)
  show ?thesis
    unfolding enc decodeBitmap_def
    using h0 word_of_nat_small [of "length raw"] small by (simp add: datlen linelen four bpl f dec s'(2) out Let_def add.commute)
qed

text \<open>A gradient of 6 by 2 pixels.\<close>

theorem bitmap_roundtrip_witness:
  "decodeBitmap (encodeBitmap (int 6) (int 2) (\<lambda>x y. min 255 (max 0 (40 * x + 100 * y))) []) [] =
    Some (True, 6, 2, [0, 0, 0, 85, 85, 170, 85, 85, 170, 170, 255, 255])"
proof -
  have "[0..5] = [0, 1, 2, 3, 4, 5 :: int]" "[0..1] = [0, 1 :: int]"
    by (simp_all add: upto.simps)
  then show ?thesis
    using bitmap_roundtrip [of 6 2 "\<lambda>x y. min 255 (max 0 (40 * x + 100 * y))"] by simp
qed

end
