(* ===== verification/Rpcs.thy ===== *)
theory Rpcs
  imports Rfsv Ini
begin

text \<open>
  Remote procedure calls to the Psion: \<open>lib/rpcs.cc\<close>, \<open>lib/rpcs16.cc\<close>, \<open>lib/rpcs32.cc\<close> and
  \<open>lib/psiprocess.cc\<close>, over the connection of \<open>Rfsv\<close>. The time zone of the singleton \<open>PsiZone\<close>,
  which \<open>getMachineInfo\<close> sets, is part of the state. A reference parameter that a call may leave
  as it is takes its old value. The listing of the scratch memory, which only the device ends,
  is a partial function. Messages on standard output are left out.
\<close>

section \<open>State and connection\<close>

record 'w rpcs =
  p_status :: int
  p_mtCacheS5mx :: "32 word"
  p_zone :: "psi_timezone option"
  p_world :: 'w

definition PSI_MACH_S5 :: int where "PSI_MACH_S5 = 32"

definition QUERY_NCP :: byte where "QUERY_NCP = 0x00"
definition EXEC_PROG :: byte where "EXEC_PROG = 0x01"
definition QUERY_DRIVE :: byte where "QUERY_DRIVE = 0x02"
definition STOP_PROG :: byte where "STOP_PROG = 0x03"
definition QUERY_PROG :: byte where "QUERY_PROG = 0x04"
definition FORMAT_OPEN :: byte where "FORMAT_OPEN = 0x05"
definition FORMAT_READ :: byte where "FORMAT_READ = 0x06"
definition GET_UNIQUEID :: byte where "GET_UNIQUEID = 0x07"
definition GET_OWNERINFO :: byte where "GET_OWNERINFO = 0x08"
definition GET_MACHINETYPE :: byte where "GET_MACHINETYPE = 0x09"
definition GET_CMDLINE :: byte where "GET_CMDLINE = 0x0a"
definition FUSER :: byte where "FUSER = 0x0b"
definition GET_MACHINE_INFO :: byte where "GET_MACHINE_INFO = 0x64"
definition CLOSE_RPCS_HANDLE :: byte where "CLOSE_RPCS_HANDLE = 0x65"
definition REG_OPEN_ITER :: byte where "REG_OPEN_ITER = 0x66"
definition REG_READ_ITER :: byte where "REG_READ_ITER = 0x67"
definition SET_TIME :: byte where "SET_TIME = 0x6b"
definition CONFIG_OPEN :: byte where "CONFIG_OPEN = 0x6c"
definition CONFIG_READ :: byte where "CONFIG_READ = 0x6d"
definition QUIT_SERVER :: byte where "QUIT_SERVER = 0xff"

lemmas rpcs_commands =
  QUERY_NCP_def EXEC_PROG_def QUERY_DRIVE_def STOP_PROG_def QUERY_PROG_def FORMAT_OPEN_def
  FORMAT_READ_def GET_UNIQUEID_def GET_OWNERINFO_def GET_MACHINETYPE_def GET_CMDLINE_def FUSER_def
  GET_MACHINE_INFO_def CLOSE_RPCS_HANDLE_def REG_OPEN_ITER_def REG_READ_ITER_def SET_TIME_def
  CONFIG_OPEN_def CONFIG_READ_def QUIT_SERVER_def

definition rpcs_send :: "'w socket \<Rightarrow> bytes \<Rightarrow> 'w rpcs \<Rightarrow> bool \<times> 'w rpcs" where
  "rpcs_send so b s = (let (ok, w) = so_send so b (p_world s) in (ok, s\<lparr>p_world := w\<rparr>))"

definition rpcs_recv :: "'w socket \<Rightarrow> 'w rpcs \<Rightarrow> bytes option \<times> 'w rpcs" where
  "rpcs_recv so s = (let (r, w) = so_recv so (p_world s) in (r, s\<lparr>p_world := w\<rparr>))"

definition rpcs_reset :: "'w socket \<Rightarrow> 'w rpcs \<Rightarrow> 'w rpcs" where
  "rpcs_reset so s =
     (let (ok, s) = rpcs_send so (ascii ''SYS$RPCS'' @ [0]) (s\<lparr>p_mtCacheS5mx := 0, p_status := E_PSI_FILE_DISC\<rparr>)
      in if \<not> ok then s
      else case rpcs_recv so s of
        (None, s) \<Rightarrow> s
      | (Some a, s) \<Rightarrow> if peekString so a 0 = ''Ok'' then s\<lparr>p_status := E_PSI_GEN_NONE\<rparr> else s)"

definition rpcs_reconnect :: "'w socket \<Rightarrow> 'w rpcs \<Rightarrow> 'w rpcs" where
  "rpcs_reconnect so s = rpcs_reset so (s\<lparr>p_world := so_reconnect so (p_world s)\<rparr>)"

definition rpcs_construct :: "'w socket \<Rightarrow> psi_timezone option \<Rightarrow> 'w \<Rightarrow> 'w rpcs" where
  "rpcs_construct so zone w =
     rpcs_reset so \<lparr>p_status = E_PSI_GEN_NONE, p_mtCacheS5mx = 0, p_zone = zone, p_world = w\<rparr>"

definition rpcs_sendCommand :: "'w socket \<Rightarrow> byte \<Rightarrow> bytes \<Rightarrow> 'w rpcs \<Rightarrow> bool \<times> 'w rpcs" where
  "rpcs_sendCommand so cc data s =
     (let s = (if p_status s = E_PSI_FILE_DISC then rpcs_reconnect so s else s)
      in if p_status s = E_PSI_FILE_DISC then (False, s)
      else let a = cc # data; (result, s) = rpcs_send so a s
      in if result then (True, s)
      else let (result, s) = rpcs_send so a (rpcs_reconnect so s)
      in if result then (True, s) else (False, s\<lparr>p_status := E_PSI_FILE_DISC\<rparr>))"

text \<open>The status is the first byte of the reply or the last one.\<close>

definition rpcs_getResponse :: "'w socket \<Rightarrow> bool \<Rightarrow> 'w rpcs \<Rightarrow> int \<times> bytes \<times> 'w rpcs" where
  "rpcs_getResponse so statusIsFirstByte s =
     (case rpcs_recv so s of
        (None, s) \<Rightarrow> (E_PSI_FILE_DISC, [], s\<lparr>p_status := E_PSI_FILE_DISC\<rparr>)
      | (Some data, s) \<Rightarrow>
          if statusIsFirstByte then (sint (peek so data 0), drop 1 data, s)
          else if data \<noteq> [] then (sint (last data), butlast data, s)
          else (E_PSI_GEN_FAIL, data, s))"

text \<open>Request and reply, as every method combines them.\<close>

definition rpcs_call :: "'w socket \<Rightarrow> byte \<Rightarrow> bytes \<Rightarrow> bool \<Rightarrow> 'w rpcs \<Rightarrow> int \<times> bytes \<times> 'w rpcs" where
  "rpcs_call so cc data first s =
     (let (ok, s) = rpcs_sendCommand so cc data s
      in if ok then rpcs_getResponse so first s else (E_PSI_FILE_DISC, data, s))"

section \<open>Operations of both machines\<close>

definition getNCPversion :: "'w socket \<Rightarrow> int \<Rightarrow> int \<Rightarrow> 'w rpcs \<Rightarrow> int \<times> int \<times> int \<times> 'w rpcs" where
  "getNCPversion so major minor s =
     (let (res, a, s) = rpcs_call so QUERY_NCP [] True s
      in if res \<noteq> E_PSI_GEN_NONE then (res, major, minor, s)
      else if length a \<noteq> 2 then (E_PSI_GEN_FAIL, major, minor, s)
      else (res, uint (peek so a 0), uint (peek so a 1), s))"

definition execProgram :: "'w socket \<Rightarrow> string \<Rightarrow> string \<Rightarrow> 'w rpcs \<Rightarrow> int \<times> 'w rpcs" where
  "execProgram so program args s =
     (let a = stringT program @ replicate (127 - length program) 0 @
            [word_of_nat (length args + 1), 0x20] @ stringT args;
          (res, a, s) = rpcs_call so EXEC_PROG a True s
      in (res, s))"

definition stopProgram :: "'w socket \<Rightarrow> string \<Rightarrow> 'w rpcs \<Rightarrow> int \<times> 'w rpcs" where
  "stopProgram so program s = (let (res, a, s) = rpcs_call so STOP_PROG (stringT program) True s in (res, s))"

definition queryProgram :: "'w socket \<Rightarrow> string \<Rightarrow> 'w rpcs \<Rightarrow> int \<times> 'w rpcs" where
  "queryProgram so program s = (let (res, a, s) = rpcs_call so QUERY_PROG (stringT program) True s in (res, s))"

definition formatOpen :: "'w socket \<Rightarrow> char \<Rightarrow> int \<Rightarrow> int \<Rightarrow> 'w rpcs \<Rightarrow> int \<times> int \<times> int \<times> 'w rpcs" where
  "formatOpen so drive handle count s =
     (let (res, a, s) = rpcs_call so FORMAT_OPEN (ascii [toupper drive, CHR '':''] @ [0]) True s
      in if res \<noteq> E_PSI_GEN_NONE then (res, handle, count, s)
      else if length a \<noteq> 4 then (E_PSI_GEN_FAIL, handle, count, s)
      else (res, uint (peekWord so a 0), uint (peekWord so a 2), s))"

definition formatRead :: "'w socket \<Rightarrow> int \<Rightarrow> 'w rpcs \<Rightarrow> int \<times> 'w rpcs" where
  "formatRead so handle s = (let (res, a, s) = rpcs_call so FORMAT_READ (le16 handle) True s in (res, s))"

definition getUniqueID :: "'w socket \<Rightarrow> string \<Rightarrow> int \<Rightarrow> 'w rpcs \<Rightarrow> int \<times> int \<times> 'w rpcs" where
  "getUniqueID so device ident s =
     (let (res, a, s) = rpcs_call so GET_UNIQUEID (stringT device) True s
      in if res \<noteq> E_PSI_GEN_NONE then (res, ident, s)
      else if length a \<noteq> 4 then (E_PSI_GEN_FAIL, ident, s)
      else (res, uint (peekDWord so a 0), s))"

definition getMachineType :: "'w socket \<Rightarrow> int \<Rightarrow> 'w rpcs \<Rightarrow> int \<times> int \<times> 'w rpcs" where
  "getMachineType so t s =
     (let (res, a, s) = rpcs_call so GET_MACHINETYPE [] True s
      in if res \<noteq> E_PSI_GEN_NONE then (res, t, s)
      else if length a \<noteq> 2 then (E_PSI_GEN_FAIL, t, s)
      else let t = uint (peekWord so a 0);
               s = s\<lparr>p_mtCacheS5mx := p_mtCacheS5mx s OR 4\<rparr>;
               s = (if res = E_PSI_GEN_NONE \<and> t = PSI_MACH_S5
                    then s\<lparr>p_mtCacheS5mx := p_mtCacheS5mx s OR 1\<rparr> else s)
      in (res, t, s))"

text \<open>
  \<open>strncpy\<close> of \<open>n\<close> bytes into \<open>buf\<close>, and the loop that ends the string at the first byte 6;
  \<open>strchr\<close> stops at the end of the string.
\<close>

definition strncpy_into :: "nat \<Rightarrow> bytes \<Rightarrow> bytes \<Rightarrow> bytes" where
  "strncpy_into n str buf = take n (str @ replicate n 0) @ drop n buf"

fun cut_at_6 :: "bytes \<Rightarrow> bytes" where
  "cut_at_6 [] = []"
| "cut_at_6 (c # cs) = (if c = 0 then 0 # cs else if c = 6 then 0 # cs else c # cut_at_6 cs)"

definition fuser :: "'w socket \<Rightarrow> string \<Rightarrow> bytes \<Rightarrow> 'w rpcs \<Rightarrow> int \<times> bytes \<times> 'w rpcs" where
  "fuser so name buf s =
     (let (res, a, s) = rpcs_call so FUSER (stringT name) True s
      in if res \<noteq> E_PSI_GEN_NONE then (res, buf, s)
      else (res, cut_at_6 (strncpy_into (length buf - 1) (ascii (peekString so a 0)) buf), s))"

definition quitServer :: "'w socket \<Rightarrow> 'w rpcs \<Rightarrow> int \<times> 'w rpcs" where
  "quitServer so s = (let (res, a, s) = rpcs_call so QUIT_SERVER [] True s in (res, s))"

definition getCmdLine :: "'w socket \<Rightarrow> string \<Rightarrow> string \<Rightarrow> 'w rpcs \<Rightarrow> int \<times> string \<times> 'w rpcs" where
  "getCmdLine so process ret s =
     (let (res, a, s) = rpcs_call so GET_CMDLINE (stringT process) True s
      in (res, if res = E_PSI_GEN_NONE then peekString so a 0 else ret, s))"

section \<open>The list of programs\<close>

record psiprocess =
  pp_pid :: int
  pp_name :: string
  pp_args :: string
  pp_s5mx :: bool

text \<open>The decimal representation of a number, as the output operator writes it.\<close>

fun digits :: "nat \<Rightarrow> string" where
  "digits n = (if n < 10 then [char_of (48 + n)] else digits (n div 10) @ [char_of (48 + n mod 10)])"

declare digits.simps [simp del]

definition decimal :: "int \<Rightarrow> string" where
  "decimal n = (if n < 0 then CHR ''-'' # digits (nat (- n)) else digits (nat n))"

text \<open>
  The name with which a process is addressed. The code returns a pointer to this string after
  it has been destroyed; the definition is the string.
\<close>

definition getProcId :: "psiprocess \<Rightarrow> string" where
  "getProcId p =
     pp_name p @ ''.$'' @
     (if pp_s5mx p then replicate (2 - length (decimal (pp_pid p))) CHR ''0'' @ decimal (pp_pid p)
      else decimal (pp_pid p))"

definition setArgs :: "string \<Rightarrow> psiprocess \<Rightarrow> psiprocess" where
  "setArgs args p = p\<lparr>pp_args := args\<rparr>"

text \<open>\<open>strstr (s, ".$")\<close>: the parts before and behind its first occurrence.\<close>

fun find_dollar :: "string \<Rightarrow> (string \<times> string) option" where
  "find_dollar (a # b # r) =
     (if a = CHR ''.'' \<and> b = CHR ''$'' then Some ([], r)
      else map_option (\<lambda>(x, y). (a # x, y)) (find_dollar (b # r)))"
| "find_dollar s = None"

text \<open>\<open>sscanf (p, "%d")\<close>: \<open>None\<close> if there is no number.\<close>

definition digit :: "char \<Rightarrow> bool" where
  "digit c \<longleftrightarrow> CHR ''0'' \<le> c \<and> c \<le> CHR ''9''"

definition digits_val :: "string \<Rightarrow> int" where
  "digits_val ds = foldl (\<lambda>n c. 10 * n + int (of_char c - 48)) 0 ds"

definition scan_int :: "string \<Rightarrow> int option" where
  "scan_int p =
     (let p = dropWhile isspace p;
          (neg, p) = (case p of c # r \<Rightarrow> if c = CHR ''-'' then (True, r)
                        else if c = CHR ''+'' then (False, r) else (False, p) | [] \<Rightarrow> (False, p));
          ds = takeWhile digit p
      in if ds = [] then None else Some (if neg then - digits_val ds else digits_val ds))"

text \<open>
  The loop over a reply, with \<open>l\<close> bytes left: a name with the number of the process and the
  arguments, each ended by a zero. Without a number behind \<open>.$\<close> the variable is uninitialised.
\<close>

function process_loop :: "'w socket \<Rightarrow> bool \<Rightarrow> int \<Rightarrow> bytes \<Rightarrow> psiprocess list \<Rightarrow> psiprocess list" where
  "process_loop so s5mx l a ret =
     (if l > 0 then
        (let str = peekString so a 0;
             sl = length str + 1;
             l = l - int sl;
             a = drop sl a;
             (name, pid) = (case find_dollar str of
               Some (n, p) \<Rightarrow> (n, case scan_int p of Some i \<Rightarrow> i | None \<Rightarrow> sint (so_junk so))
             | None \<Rightarrow> (str, 0));
             args = peekString so a 0;
             proc = \<lparr>pp_pid = pid, pp_name = name, pp_args = args, pp_s5mx = s5mx\<rparr>;
             sl = length args + 1
         in process_loop so s5mx (l - int sl) (drop sl a) (ret @ [proc]))
      else ret)"
  by pat_completeness auto
termination by (relation "measure (\<lambda>(so, s5mx, l, a, ret). nat l)") auto

declare process_loop.simps [simp del]

text \<open>
  The loop over the drives: whether it came to its end, whether any query succeeded, and the
  processes.
\<close>

fun query_drives ::
  "'w socket \<Rightarrow> bool \<Rightarrow> string \<Rightarrow> bool \<Rightarrow> psiprocess list \<Rightarrow> 'w rpcs \<Rightarrow>
   bool \<times> bool \<times> psiprocess list \<times> 'w rpcs" where
  "query_drives so s5mx [] anySuccess ret s = (True, anySuccess, ret, s)"
| "query_drives so s5mx (d # ds) anySuccess ret s =
     (let (ok, s) = rpcs_sendCommand so QUERY_DRIVE (ascii [d]) s
      in if \<not> ok then (False, anySuccess, ret, s)
      else let (res, a, s) = rpcs_getResponse so False s
      in if res = E_PSI_GEN_NONE
         then query_drives so s5mx ds True (process_loop so s5mx (int (length a)) a ret) s
         else query_drives so s5mx ds anySuccess ret s)"

fun add_cmdlines :: "'w socket \<Rightarrow> psiprocess list \<Rightarrow> 'w rpcs \<Rightarrow> psiprocess list \<times> 'w rpcs" where
  "add_cmdlines so [] s = ([], s)"
| "add_cmdlines so (p # ps) s =
     (let (res, cmdline, s) = getCmdLine so (getProcId p) [] s;
          p = (if res = E_PSI_GEN_NONE then setArgs (cmdline @ '' '' @ pp_args p) p else p);
          (ps, s) = add_cmdlines so ps s
      in (p # ps, s))"

text \<open>\<open>machine_info\<close> is the virtual method \<open>getMachineInfo\<close>.\<close>

definition queryPrograms ::
  "'w socket \<Rightarrow> ('w rpcs \<Rightarrow> int \<times> 'w rpcs) \<Rightarrow> psiprocess list \<Rightarrow> 'w rpcs \<Rightarrow> int \<times> psiprocess list \<times> 'w rpcs" where
  "queryPrograms so machine_info old s =
     (let (ok, s) = rpcs_sendCommand so GET_UNIQUEID (stringT ''M:'') s
      in if \<not> ok then (E_PSI_FILE_DISC, old, s)
      else let (res, a, s) = rpcs_getResponse so False s;
               drives = (if res = E_PSI_GEN_NONE then ''ABCDEFGHIJKLMNOPQRSTUVWXYZ'' else ''C'');
               (failed, s) =
                 (if p_mtCacheS5mx s AND 4 = 0
                  then (let (res, t, s) = getMachineType so 0 s in (res \<noteq> E_PSI_GEN_NONE, s))
                  else (False, s))
      in if failed then (E_PSI_GEN_FAIL, [], s)
      else let (disc, s) =
                 (if p_mtCacheS5mx s AND 9 = 1
                  then (let (res, s) = machine_info s in (res = E_PSI_FILE_DISC, s))
                  else (False, s))
      in if disc then (E_PSI_FILE_DISC, [], s)
      else let (complete, anySuccess, ret, s) = query_drives so (p_mtCacheS5mx s = 15) drives False [] s
      in if \<not> complete then (E_PSI_FILE_DISC, ret, s)
      else let (ret, s) = (if anySuccess \<and> ret \<noteq> [] then add_cmdlines so ret s else (ret, s))
      in (if anySuccess then E_PSI_GEN_NONE else E_PSI_GEN_FAIL, ret, s))"

section \<open>SIBO machines\<close>

definition getMachineInfo16 :: "'w rpcs \<Rightarrow> int \<times> 'w rpcs" where
  "getMachineInfo16 s = (E_PSI_NOT_SIBO, s)"

definition getOwnerInfo16 :: "'w socket \<Rightarrow> bytes list \<Rightarrow> 'w rpcs \<Rightarrow> int \<times> bytes list \<times> 'w rpcs" where
  "getOwnerInfo16 so owner s =
     (let (res, a, s) = rpcs_call so GET_OWNERINFO [] True s
      in if res \<noteq> E_PSI_GEN_NONE then (res, owner, s)
      else let a = a @ [0]
      in (E_PSI_GEN_NONE, map (\<lambda>i. stringT (peekString so a (52 * i))) [0..<4], s))"

section \<open>EPOC machines\<close>

record machineInfo =
  machineType :: int
  machineName :: string
  machineUID :: "64 word"
  countryCode :: "32 word"
  uiLanguage :: int
  romMajor :: "16 word"
  romMinor :: "16 word"
  romBuild :: "16 word"
  romSize :: "32 word"
  romProgrammable :: bool
  ramSize :: "32 word"
  ramFree :: "32 word"
  ramMaxFree :: "32 word"
  ramDiskSize :: "32 word"
  registrySize :: "32 word"
  displayWidth :: "32 word"
  displayHeight :: "32 word"
  mi_time :: "32 word \<times> 32 word"
  mi_tz :: psi_timezone
  mainBatteryInsertionTime :: "32 word \<times> 32 word"
  mainBatteryStatus :: int
  mainBatteryUsedTime :: "32 word \<times> 32 word"
  mainBatteryCurrent :: "32 word"
  mainBatteryUsedPower :: "32 word"
  mainBatteryVoltage :: "32 word"
  mainBatteryMaxVoltage :: "32 word"
  backupBatteryStatus :: int
  backupBatteryVoltage :: "32 word"
  backupBatteryMaxVoltage :: "32 word"
  externalPowerUsedTime :: "32 word \<times> 32 word"
  externalPower :: bool

text \<open>The fields of the reply of 256 bytes; a time is the pair of its low and high half.\<close>

definition machine_fields :: "'w socket \<Rightarrow> bytes \<Rightarrow> machineInfo" where
  "machine_fields so a =
     (let d = peekDWord so a; w = peekWord so a
      in \<lparr>machineType = uint (d 0), machineName = take 16 (peekString so a 16),
          machineUID = push_bit 32 (ucast (d 44)) OR ucast (d 40), countryCode = d 56,
          uiLanguage = uint (d 164), romMajor = ucast (peek so a 4), romMinor = ucast (peek so a 5),
          romBuild = w 6, romSize = d 140, romProgrammable = d 160 \<noteq> 0, ramSize = d 136,
          ramFree = d 148, ramMaxFree = d 144, ramDiskSize = d 152, registrySize = d 156,
          displayWidth = d 32, displayHeight = d 36, mi_time = (d 48, d 52),
          mi_tz = \<lparr>utc_offset = sint (d 60), dst_zones = ucast (d 64), home_zone = ucast (d 68)\<rparr>,
          mainBatteryInsertionTime = (d 72, d 76), mainBatteryStatus = uint (d 80),
          mainBatteryUsedTime = (d 84, d 88), mainBatteryCurrent = d 92, mainBatteryUsedPower = d 96,
          mainBatteryVoltage = d 100, mainBatteryMaxVoltage = d 104, backupBatteryStatus = uint (d 108),
          backupBatteryVoltage = d 112, backupBatteryMaxVoltage = d 116,
          externalPowerUsedTime = (d 124, d 128), externalPower = d 120 \<noteq> 0\<rparr>)"

definition getMachineInfo :: "'w socket \<Rightarrow> machineInfo \<Rightarrow> 'w rpcs \<Rightarrow> int \<times> machineInfo \<times> 'w rpcs" where
  "getMachineInfo so mi s =
     (let (res, a, s) = rpcs_call so GET_MACHINE_INFO [] True s
      in if res \<noteq> E_PSI_GEN_NONE then (res, mi, s)
      else if length a \<noteq> 256 then (E_PSI_GEN_FAIL, mi, s)
      else let mi = machine_fields so a;
               s = s\<lparr>p_zone := Some (mi_tz mi), p_mtCacheS5mx := p_mtCacheS5mx s OR 8\<rparr>;
               s = (if machineName mi = ''SERIES5mx'' then s\<lparr>p_mtCacheS5mx := p_mtCacheS5mx s OR 2\<rparr> else s)
      in (res, mi, s))"

text \<open>The parts between the bytes 6, the last one only if it is not empty.\<close>

fun owner_lines :: "string \<Rightarrow> string \<Rightarrow> bytes list" where
  "owner_lines part [] = (if part \<noteq> [] then [stringT part] else [])"
| "owner_lines part (c # cs) =
     (if c = CHR 0x06 then stringT part # owner_lines [] cs else owner_lines (part @ [c]) cs)"

definition getOwnerInfo32 :: "'w socket \<Rightarrow> bytes list \<Rightarrow> 'w rpcs \<Rightarrow> int \<times> bytes list \<times> 'w rpcs" where
  "getOwnerInfo32 so owner s =
     (let (res, a, s) = rpcs_call so GET_OWNERINFO [] True s
      in if res \<noteq> E_PSI_GEN_NONE then (res, owner, s)
      else (res, owner_lines [] (peekString so (a @ [0]) 0), s))"

definition regOpenIter :: "'w socket \<Rightarrow> 32 word \<Rightarrow> string \<Rightarrow> 16 word \<Rightarrow> 'w rpcs \<Rightarrow> int \<times> 16 word \<times> 'w rpcs" where
  "regOpenIter so uid match handle s =
     (let (ok, s) = rpcs_sendCommand so REG_OPEN_ITER
        (dword uid @ le32 (int (length match)) @ stringT match) s
      in if \<not> ok then (E_PSI_FILE_DISC, handle, s)
      else let (res, a, s) = rpcs_getResponse so True s
      in (E_PSI_GEN_NONE, if length a = 2 then peekWord so a 0 else handle, s))"

definition regReadIter :: "'w socket \<Rightarrow> 16 word \<Rightarrow> 'w rpcs \<Rightarrow> int \<times> 'w rpcs" where
  "regReadIter so handle s =
     (let (ok, s) = rpcs_sendCommand so REG_READ_ITER (le16 (uint handle)) s
      in if \<not> ok then (E_PSI_FILE_DISC, s)
      else let (res, a, s) = rpcs_getResponse so True s
      in (if length a = 3 \<and> peek so a 2 = 0xff then E_PSI_FILE_EOF else E_PSI_GEN_NONE, s))"

text \<open>\<open>raw\<close> is an uninitialised \<open>PsiTime\<close>; the reply to the request is not read.\<close>

definition setTime :: "'w socket \<Rightarrow> psitime \<Rightarrow> machineInfo \<Rightarrow> int \<Rightarrow> 'w rpcs \<Rightarrow> int \<times> 'w rpcs" where
  "setTime so raw mi time s =
     (let (res, mi, s) = getMachineInfo so mi s
      in if res \<noteq> E_PSI_GEN_NONE then (res, s)
      else case p_zone s of
        None \<Rightarrow> (E_PSI_GEN_FAIL, s)
      | Some z \<Rightarrow>
          let pt = PsiTime_unix ((so_time so)\<lparr>te_zone := Some z\<rparr>) (time + utc_offset z) raw;
              a = dword (ptv_low pt) @ dword (ptv_high pt) @ dword (countryCode mi) @
                  le32 (utc_offset z) @ le32 (uint (dst_zones z)) @ le32 (uint (home_zone z));
              (ok, s) = rpcs_sendCommand so SET_TIME a s
          in (if ok then E_PSI_GEN_NONE else E_PSI_FILE_DISC, s))"

definition configOpen :: "'w socket \<Rightarrow> 16 word \<Rightarrow> 32 word \<Rightarrow> 'w rpcs \<Rightarrow> int \<times> 16 word \<times> 'w rpcs" where
  "configOpen so handle sz s =
     (let (res, a, s) = rpcs_call so CONFIG_OPEN (dword sz) True s
      in (res, if res = E_PSI_GEN_NONE \<and> length a \<ge> 2 then peekWord so a 0 else handle, s))"

definition closeHandle :: "'w socket \<Rightarrow> 16 word \<Rightarrow> 'w rpcs \<Rightarrow> int \<times> 'w rpcs" where
  "closeHandle so handle s =
     (let (res, a, s) = rpcs_call so CLOSE_RPCS_HANDLE (le16 (uint handle)) True s in (res, s))"

text \<open>The loop reads until a reply is empty; the handle is closed only after an error.\<close>

partial_function (option) config_loop ::
  "'w socket \<Rightarrow> 16 word \<Rightarrow> bytes \<Rightarrow> 'w rpcs \<Rightarrow> (int \<times> bytes \<times> 'w rpcs) option" where
  "config_loop so handle ret s =
     (let (ok, s) = rpcs_sendCommand so CONFIG_READ (le16 (uint handle) @ le32 2047) s
      in if \<not> ok then Some (E_PSI_FILE_DISC, ret, s)
      else let (res, a, s) = rpcs_getResponse so True s
      in if res \<noteq> E_PSI_GEN_NONE then (let (_, s) = closeHandle so handle s in Some (res, ret, s))
      else if a \<noteq> [] then config_loop so handle (ret @ a) s
      else Some (E_PSI_GEN_NONE, ret, s))"

definition configRead :: "'w socket \<Rightarrow> 32 word \<Rightarrow> 'w rpcs \<Rightarrow> (int \<times> bytes \<times> 'w rpcs) option" where
  "configRead so sz s =
     (let (res, handle, s) = configOpen so (ucast (so_junk so)) sz s
      in if res \<noteq> E_PSI_GEN_NONE then Some (res, [], s) else config_loop so handle [] s)"

text \<open>\<open>configWrite\<close> returns before it does anything.\<close>

definition configWrite :: "bytes \<Rightarrow> 'w rpcs \<Rightarrow> int \<times> 'w rpcs" where
  "configWrite data s = (E_PSI_GEN_NONE, s)"

end
