(* ===== verification/Rpcs_Lemmas.thy ===== *)
theory Rpcs_Lemmas
  imports Rpcs
begin

text \<open>
  Properties of the remote procedure calls: the list of processes is read back from the reply
  the device writes, the owner's name is cut into its lines, the scratch memory is read block
  by block, and an invariant of the cache of the machine type over all operations. The device
  of the examples is a scripted one: it records what it is sent and answers from a list.
\<close>

section \<open>Numbers and names of processes\<close>

lemma digits_val_snoc: "digits_val (ds @ [c]) = 10 * digits_val ds + int (of_char c - 48)"
  by (simp add: digits_val_def)

lemma digits_val_zeros [simp]: "digits_val (replicate k CHR ''0'' @ ds) = digits_val ds"
  by (induction k) (simp_all add: digits_val_def)

lemma digit_char: "k < 10 \<Longrightarrow> digit (char_of (48 + k)) \<and> of_char (char_of (48 + k) :: char) = 48 + k"
  for k :: nat
  by (simp add: digit_def less_eq_char_def)

lemma digits_spec: "digits n \<noteq> [] \<and> (\<forall>c \<in> set (digits n). digit c) \<and> digits_val (digits n) = int n"
proof (induction n rule: digits.induct)
  case (1 n)
  show ?case
  proof (cases "n < 10")
    case True
    then show ?thesis
      using digit_char [of n] by (simp add: digits.simps [of n] digits_val_def)
  next
    case False
    have "n mod 10 < 10" by simp
    from False 1 digit_char [OF this] show ?thesis
      by (auto simp: digits.simps [of n] digits_val_snoc zdiv_int zmod_int)
  qed
qed

lemma digit_not_space [simp]: "digit c \<Longrightarrow> \<not> isspace c"
  by (auto simp: digit_def isspace_def less_eq_char_def)

lemma not_digit_signs [simp]: "\<not> digit CHR ''-''" "\<not> digit CHR ''+''"
  by (simp_all add: digit_def less_eq_char_def)

lemma scan_int_digits:
  assumes "ds \<noteq> []" "\<forall>c \<in> set ds. digit c"
  shows "scan_int ds = Some (digits_val ds)" "scan_int (CHR ''-'' # ds) = Some (- digits_val ds)"
proof -
  from assms obtain c r where ds: "ds = c # r" "digit c" by (cases ds) auto
  then have "c \<noteq> CHR ''-''" "c \<noteq> CHR ''+''" by auto
  moreover from assms ds have tw: "takeWhile digit r = r" by (simp add: takeWhile_eq_all_conv)
  moreover have "\<not> isspace CHR ''-''" by (simp add: isspace_def)
  ultimately show "scan_int ds = Some (digits_val ds)"
    "scan_int (CHR ''-'' # ds) = Some (- digits_val ds)"
    using ds tw by (simp_all add: scan_int_def tw del: takeWhile_eq_all_conv)
qed

lemma scan_int_decimal: "scan_int (replicate (2 - length (decimal n)) CHR ''0'' @ decimal n) = Some n"
  "scan_int (decimal n) = Some n"
proof -
  have z: "digit CHR ''0''" by (simp add: digit_def less_eq_char_def)
  have *: "scan_int (replicate k CHR ''0'' @ digits m) = Some (int m)" for k m
    using digits_spec [of m] z by (subst scan_int_digits) auto
  have neg: "2 - length (decimal n) = 0" if "n < 0"
    using that digits_spec [of "nat (- n)"] by (cases "digits (nat (- n))") (auto simp: decimal_def)
  have minus: "scan_int (CHR ''-'' # digits m) = Some (- int m)" for m
    using digits_spec [of m] by (subst scan_int_digits) auto
  show "scan_int (replicate (2 - length (decimal n)) CHR ''0'' @ decimal n) = Some n"
  proof (cases "n < 0")
    case True
    then show ?thesis using neg minus by (simp add: decimal_def)
  next
    case False
    then show ?thesis using * by (simp add: decimal_def)
  qed
  show "scan_int (decimal n) = Some n"
    using * [of 0] minus by (simp add: decimal_def)
qed

lemma find_dollar_name: "find_dollar n = None \<Longrightarrow> find_dollar (n @ ''.$'' @ r) = Some (n, r)"
  by (induction n rule: find_dollar.induct) (auto split: if_splits)

lemma set_decimal: "c \<in> set (decimal n) \<Longrightarrow> c = CHR ''-'' \<or> digit c"
  using digits_spec by (auto simp: decimal_def split: if_splits)

lemma getProcId_no_zero: "CHR 0x00 \<notin> set (pp_name p) \<Longrightarrow> CHR 0x00 \<notin> set (getProcId p)"
proof -
  have "\<not> digit CHR 0x00" by (simp add: digit_def less_eq_char_def)
  then have "CHR 0x00 \<notin> set (decimal (pp_pid p))" using set_decimal by fastforce
  then show "CHR 0x00 \<notin> set (pp_name p) \<Longrightarrow> CHR 0x00 \<notin> set (getProcId p)"
    by (auto simp: getProcId_def)
qed

lemma peekString_stringT [simp]:
  "CHR 0x00 \<notin> set n \<Longrightarrow> peekString so (stringT n @ r) 0 = n"
proof -
  assume "CHR 0x00 \<notin> set n"
  moreover have "CHR 0x00 \<in> set (chars (ascii n))" if "0 \<in> set (ascii n)"
    unfolding chars_def set_map by (rule image_eqI [OF _ that]) (simp add: char_of_def)
  ultimately have "\<forall>c \<in> set (ascii n). c \<noteq> 0" by auto
  then show ?thesis
    by (simp add: peekString_def stringT_def takeWhile_append)
qed

lemma length_stringT [simp]: "length (stringT n) = length n + 1"
  by (simp add: stringT_def)

text \<open>What the device writes for a list of processes, and the processes that can be written.\<close>

definition process_reply :: "psiprocess list \<Rightarrow> bytes" where
  "process_reply ps = concat (map (\<lambda>p. stringT (getProcId p) @ stringT (pp_args p)) ps)"

definition process_ok :: "bool \<Rightarrow> psiprocess \<Rightarrow> bool" where
  "process_ok s5mx p \<longleftrightarrow>
     CHR 0x00 \<notin> set (pp_name p) \<and> CHR 0x00 \<notin> set (pp_args p) \<and>
     find_dollar (pp_name p) = None \<and> pp_s5mx p = s5mx"

lemma getProcId_scanned:
  "find_dollar (pp_name p) = None \<Longrightarrow>
   \<exists>r. find_dollar (getProcId p) = Some (pp_name p, r) \<and> scan_int r = Some (pp_pid p)"
  using scan_int_decimal [of "pp_pid p"] find_dollar_name by (auto simp: getProcId_def)

lemma process_loop_one:
  assumes p: "process_ok s5mx p"
  shows "process_loop so s5mx (int (length (process_reply (p # ps)))) (process_reply (p # ps)) ret =
         process_loop so s5mx (int (length (process_reply ps))) (process_reply ps) (ret @ [p])"
proof -
  from p have ok: "CHR 0x00 \<notin> set (getProcId p)" "CHR 0x00 \<notin> set (pp_args p)"
      "find_dollar (pp_name p) = None" "pp_s5mx p = s5mx"
    using getProcId_no_zero [of p] by (auto simp: process_ok_def)
  obtain r where r: "find_dollar (getProcId p) = Some (pp_name p, r)" "scan_int r = Some (pp_pid p)"
    using getProcId_scanned ok(3) by blast
  let ?b = "stringT (pp_args p) @ process_reply ps"
  have "process_reply (p # ps) = stringT (getProcId p) @ ?b" by (simp add: process_reply_def)
  moreover have "process_loop so s5mx (int (length (stringT (getProcId p) @ ?b)))
      (stringT (getProcId p) @ ?b) ret =
    process_loop so s5mx (int (length (process_reply ps))) (process_reply ps)
      (ret @ [\<lparr>pp_pid = pp_pid p, pp_name = pp_name p, pp_args = pp_args p, pp_s5mx = s5mx\<rparr>])"
    by (subst process_loop.simps) (simp add: ok r)
  moreover have "\<lparr>pp_pid = pp_pid p, pp_name = pp_name p, pp_args = pp_args p, pp_s5mx = s5mx\<rparr> = p"
    using ok by simp
  ultimately show ?thesis by (simp only:)
qed

lemma process_loop_appends:
  "\<forall>p \<in> set ps. process_ok s5mx p \<Longrightarrow>
   process_loop so s5mx (int (length (process_reply ps))) (process_reply ps) ret = ret @ ps"
proof (induction ps arbitrary: ret)
  case Nil
  then show ?case by (simp add: process_reply_def process_loop.simps)
next
  case (Cons p ps)
  then show ?case by (simp add: process_loop_one)
qed

text \<open>
  C13: The processes a device lists are the processes of the result. If the names hold no zero
  and no \<open>.$\<close>, the arguments hold no zero, and the device writes each process as the name with
  which the client addresses it and its arguments, both ended by zero, then the loop over the
  reply appends exactly these processes, numbers of any sign included.
\<close>

theorem rpcs_process_list:
  assumes "\<forall>p \<in> set ps. process_ok s5mx p"
  shows "process_loop so s5mx (int (length (process_reply ps))) (process_reply ps) ret = ret @ ps"
  using assms by (rule process_loop_appends)

definition some_processes :: "psiprocess list" where
  "some_processes =
     [\<lparr>pp_pid = 7, pp_name = ''Word'', pp_args = ''M:note.wrd'', pp_s5mx = True\<rparr>,
      \<lparr>pp_pid = 31, pp_name = ''SYS.S'', pp_args = [], pp_s5mx = True\<rparr>]"

theorem rpcs_process_list_witness:
  "\<forall>so :: 'w socket. process_loop so True (int (length (process_reply some_processes))) (process_reply some_processes) [] =
   some_processes"
proof (intro allI)
  fix so :: "'w socket"
  have "\<forall>p \<in> set some_processes. process_ok True p"
    by (simp add: some_processes_def process_ok_def)
  from rpcs_process_list [OF this, of so "[]"]
  show "process_loop so True (int (length (process_reply some_processes))) (process_reply some_processes) [] =
    some_processes" by simp
qed

section \<open>The scratch memory\<close>

text \<open>A device that records what it is sent and answers from a list.\<close>

definition scripted :: "timeenv \<Rightarrow> (bytes list \<times> bytes list) socket" where
  "scripted env =
     \<lparr>so_send = (\<lambda>b (sent, replies). (True, (sent @ [b], replies))),
      so_recv = (\<lambda>(sent, replies). case replies of
        [] \<Rightarrow> (None, (sent, [])) | r # rs \<Rightarrow> (Some r, (sent, rs))),
      so_reconnect = (\<lambda>w. w), so_tail = [], so_junk = 0, so_time = env\<rparr>"

lemma scripted_simps [simp]:
  "so_send (scripted env) b (sent, replies) = (True, (sent @ [b], replies))"
  "so_recv (scripted env) (sent, r # rs) = (Some r, (sent, rs))"
  "so_recv (scripted env) (sent, []) = (None, (sent, []))"
  "so_tail (scripted env) = []"
  by (simp_all add: scripted_def)

lemma scripted_call:
  assumes "p_status s \<noteq> E_PSI_FILE_DISC" "p_world s = (sent, (st # data) # rs)"
  shows "rpcs_sendCommand (scripted env) cc b s = (True, s\<lparr>p_world := (sent @ [cc # b], (st # data) # rs)\<rparr>)"
    "rpcs_getResponse (scripted env) True (s\<lparr>p_world := (sent', (st # data) # rs)\<rparr>) =
       (sint st, data, s\<lparr>p_world := (sent', rs)\<rparr>)"
    "rpcs_call (scripted env) cc b True s = (sint st, data, s\<lparr>p_world := (sent @ [cc # b], rs)\<rparr>)"
  using assms
  by (simp_all add: rpcs_sendCommand_def rpcs_send_def rpcs_getResponse_def rpcs_recv_def peek_def
      rpcs_call_def)

definition config_request :: "16 word \<Rightarrow> bytes" where
  "config_request h = CONFIG_READ # le16 (uint h) @ le32 2047"

lemma config_loop_reads:
  assumes "\<forall>b \<in> set blocks. b \<noteq> []" "p_status s \<noteq> E_PSI_FILE_DISC"
    "p_world s = (sent, map ((#) 0) blocks @ [0] # rs)"
  shows "config_loop (scripted env) h ret s =
    Some (E_PSI_GEN_NONE, ret @ concat blocks,
          s\<lparr>p_world := (sent @ replicate (Suc (length blocks)) (config_request h), rs)\<rparr>)"
  using assms
proof (induction blocks arbitrary: ret s sent)
  case Nil
  then show ?case
    by (subst config_loop.simps)
       (simp add: scripted_call config_request_def E_PSI_GEN_NONE_def)
next
  case (Cons b bs)
  have "config_loop (scripted env) h ret s = config_loop (scripted env) h (ret @ b)
          (s\<lparr>p_world := (sent @ [config_request h], map ((#) 0) bs @ [0] # rs)\<rparr>)"
    using Cons.prems
    by (subst config_loop.simps)
       (simp add: scripted_call config_request_def E_PSI_GEN_NONE_def)
  with Cons show ?case by (simp add: replicate_app_Cons_same)
qed

text \<open>
  Reading the scratch memory gives all of it. Against a device that opens a handle and then
  answers with any number of blocks, none empty, and an empty one, \<open>configRead\<close> ends with the
  blocks in order. It has sent the request to open and one request per reply, and nothing else:
  the handle is not closed.
\<close>

theorem rpcs_config_read:
  assumes "\<forall>b \<in> set blocks. b \<noteq> []" "p_status s \<noteq> E_PSI_FILE_DISC"
    "p_world s = (sent, (0 # le16 (uint h)) # map ((#) 0) blocks @ [0] # rs)"
  shows "configRead (scripted env) sz s =
    Some (E_PSI_GEN_NONE, concat blocks,
          s\<lparr>p_world := (sent @ (CONFIG_OPEN # dword sz) #
            replicate (Suc (length blocks)) (config_request h), rs)\<rparr>)"
proof -
  have "join16 (ucast h) (word_of_int (drop_bit 8 (uint h))) = h"
    using join16_split [of "uint h"] by simp
  then have "configOpen (scripted env) h0 sz s = (E_PSI_GEN_NONE, h,
      s\<lparr>p_world := (sent @ [CONFIG_OPEN # dword sz], map ((#) 0) blocks @ [0] # rs)\<rparr>)" for h0
    using assms(2,3)
    by (simp add: configOpen_def scripted_call E_PSI_GEN_NONE_def peekWord_def peek_def le16_def)
  then show ?thesis
    using config_loop_reads [of blocks] assms by (simp add: configRead_def)
qed

theorem rpcs_config_read_witness:
  "\<forall>env. \<exists>s'. configRead (scripted env) 5
     \<lparr>p_status = E_PSI_GEN_NONE, p_mtCacheS5mx = 0, p_zone = None,
       p_world = ([], [[0, 7, 0], [0, 1, 2, 3], [0, 4, 5], [0]])\<rparr> =
   Some (E_PSI_GEN_NONE, [1, 2, 3, 4, 5], s')"
  using rpcs_config_read [of "[[1, 2, 3], [4, 5]]"
      "\<lparr>p_status = E_PSI_GEN_NONE, p_mtCacheS5mx = 0, p_zone = None,
        p_world = ([], [[0, 7, 0], [0, 1, 2, 3], [0, 4, 5], [0]])\<rparr>" "[]" 7 "[]" _ 5]
  by (simp add: E_PSI_GEN_NONE_def E_PSI_FILE_DISC_def le16_def)

section \<open>Every operation\<close>

text \<open>The operations a client can call, of either machine; the rest of their results is free.\<close>

inductive rpcs_op :: "'w socket \<Rightarrow> 'w rpcs \<Rightarrow> 'w rpcs \<Rightarrow> bool" for so where
  op_reset: "s' = rpcs_reset so s \<Longrightarrow> rpcs_op so s s'"
| op_reconnect: "s' = rpcs_reconnect so s \<Longrightarrow> rpcs_op so s s'"
| op_version: "getNCPversion so i j s = (r, i', j', s') \<Longrightarrow> rpcs_op so s s'"
| op_exec: "execProgram so n a s = (r, s') \<Longrightarrow> rpcs_op so s s'"
| op_stop: "stopProgram so n s = (r, s') \<Longrightarrow> rpcs_op so s s'"
| op_query: "queryProgram so n s = (r, s') \<Longrightarrow> rpcs_op so s s'"
| op_programs16: "queryPrograms so getMachineInfo16 ps s = (r, ps', s') \<Longrightarrow> rpcs_op so s s'"
| op_programs32: "queryPrograms so (\<lambda>s. let (r, mi', s) = getMachineInfo so mi s in (r, s)) ps s = (r, ps', s') \<Longrightarrow> rpcs_op so s s'"
| op_format: "formatOpen so d i j s = (r, i', j', s') \<Longrightarrow> rpcs_op so s s'"
| op_format_read: "formatRead so i s = (r, s') \<Longrightarrow> rpcs_op so s s'"
| op_unique: "getUniqueID so n i s = (r, i', s') \<Longrightarrow> rpcs_op so s s'"
| op_machine: "getMachineType so i s = (r, i', s') \<Longrightarrow> rpcs_op so s s'"
| op_fuser: "fuser so n b s = (r, b', s') \<Longrightarrow> rpcs_op so s s'"
| op_quit: "quitServer so s = (r, s') \<Longrightarrow> rpcs_op so s s'"
| op_cmdline: "getCmdLine so n a s = (r, a', s') \<Longrightarrow> rpcs_op so s s'"
| op_owner16: "getOwnerInfo16 so os s = (r, os', s') \<Longrightarrow> rpcs_op so s s'"
| op_owner32: "getOwnerInfo32 so os s = (r, os', s') \<Longrightarrow> rpcs_op so s s'"
| op_info: "getMachineInfo so mi s = (r, mi', s') \<Longrightarrow> rpcs_op so s s'"
| op_reg_open: "regOpenIter so u n h s = (r, h', s') \<Longrightarrow> rpcs_op so s s'"
| op_reg_read: "regReadIter so h s = (r, s') \<Longrightarrow> rpcs_op so s s'"
| op_time: "setTime so raw mi i s = (r, s') \<Longrightarrow> rpcs_op so s s'"
| op_config: "configRead so u s = Some (r, b, s') \<Longrightarrow> rpcs_op so s s'"
| op_config_write: "configWrite b s = (r, s') \<Longrightarrow> rpcs_op so s s'"
| op_close: "closeHandle so h s = (r, s') \<Longrightarrow> rpcs_op so s s'"


inductive rpcs_reachable :: "'w socket \<Rightarrow> 'w rpcs \<Rightarrow> bool" for so where
  rpcs_start: "rpcs_reachable so (rpcs_construct so zone w)"
| rpcs_step: "rpcs_reachable so s \<Longrightarrow> rpcs_op so s s' \<Longrightarrow> rpcs_reachable so s'"

text \<open>
  The bits of the cache: 4 the type of the machine is known, 1 it is a Series 5, 8 its
  description is known, 2 it is a Series 5mx.
\<close>

definition cache_ok :: "32 word \<Rightarrow> bool" where
  "cache_ok m \<longleftrightarrow> (bit m 0 \<longrightarrow> bit m 2) \<and> (bit m 1 \<longrightarrow> bit m 3) \<and> (\<forall>n \<ge> 4. \<not> bit m n)"

definition rpcs_inv :: "'w rpcs \<Rightarrow> bool" where
  "rpcs_inv s \<longleftrightarrow> cache_ok (p_mtCacheS5mx s) \<and> p_status s \<in> {E_PSI_GEN_NONE, E_PSI_FILE_DISC}"

lemma cache_ok_simps [simp]:
  "cache_ok 0"
  "cache_ok m \<Longrightarrow> cache_ok (m OR 4)"
  "cache_ok m \<Longrightarrow> cache_ok (m OR 8)"
  "cache_ok m \<Longrightarrow> cache_ok (m OR 5)"
  "cache_ok m \<Longrightarrow> cache_ok (m OR 10)"
proof -
  have b: "bit (m OR 4) n \<longleftrightarrow> bit m n \<or> n = 2" "bit (m OR 8) n \<longleftrightarrow> bit m n \<or> n = 3"
    "bit (m OR 2) n \<longleftrightarrow> bit m n \<or> n = 1" "bit (m OR 1) n \<longleftrightarrow> bit m n \<or> n = 0" for m :: "32 word" and n
    using bit_exp_iff [where ?'a = "32 word", of 2 n] bit_exp_iff [where ?'a = "32 word", of 3 n]
      bit_exp_iff [where ?'a = "32 word", of 1 n] bit_exp_iff [where ?'a = "32 word", of 0 n]
    by (auto simp only: bit_or_iff power_0 power_one_right) auto
  have five: "m OR 5 = (m OR 4) OR 1" and ten: "m OR 10 = (m OR 8) OR 2"
    by (simp_all add: or.assoc)
  show "cache_ok 0"
    by (simp add: cache_ok_def)
  show "cache_ok m \<Longrightarrow> cache_ok (m OR 4)"
    "cache_ok m \<Longrightarrow> cache_ok (m OR 8)"
    "cache_ok m \<Longrightarrow> cache_ok (m OR 5)"
    "cache_ok m \<Longrightarrow> cache_ok (m OR 10)"
    unfolding cache_ok_def five ten b by simp_all
qed

lemma rpcs_inv_world [simp]:
  "rpcs_inv (s\<lparr>p_world := w\<rparr>) = rpcs_inv s"
  "rpcs_inv (s\<lparr>p_zone := z\<rparr>) = rpcs_inv s"
  by (simp_all add: rpcs_inv_def)

lemma rpcs_inv_send [simp]: "rpcs_send so b s = (ok, s') \<Longrightarrow> rpcs_inv s' = rpcs_inv s"
  and rpcs_inv_recv [simp]: "rpcs_recv so s = (r, s') \<Longrightarrow> rpcs_inv s' = rpcs_inv s"
  by (auto simp: rpcs_send_def rpcs_recv_def split: prod.splits)

lemma rpcs_inv_reset [simp]: "rpcs_inv (rpcs_reset so s)"
  by (auto simp: rpcs_reset_def rpcs_send_def rpcs_recv_def rpcs_inv_def
      split: prod.splits option.splits)

lemma rpcs_inv_reconnect [simp]: "rpcs_inv (rpcs_reconnect so s)"
  by (simp add: rpcs_reconnect_def)

lemma rpcs_inv_sendCommand:
  assumes "rpcs_sendCommand so cc b s = (ok, s')" "rpcs_inv s"
  shows "rpcs_inv s'"
proof -
  have disc: "rpcs_inv (s\<lparr>p_status := E_PSI_FILE_DISC\<rparr>)" if "rpcs_inv s" for s :: "'a rpcs"
    using that by (simp add: rpcs_inv_def)
  from assms show ?thesis
    by (auto simp: rpcs_sendCommand_def Let_def intro!: disc split: prod.splits if_splits)
qed

lemma rpcs_inv_getResponse:
  "rpcs_getResponse so first s = (r, a, s') \<Longrightarrow> rpcs_inv s \<Longrightarrow> rpcs_inv s'"
  by (auto simp: rpcs_getResponse_def rpcs_recv_def rpcs_inv_def split: prod.splits option.splits if_splits)

lemma rpcs_inv_call:
  "rpcs_call so cc b first s = (r, a, s') \<Longrightarrow> rpcs_inv s \<Longrightarrow> rpcs_inv s'"
  by (auto simp: rpcs_call_def dest: rpcs_inv_sendCommand rpcs_inv_getResponse
      split: prod.splits if_splits)

text \<open>The calls that only send and receive.\<close>

lemma rpcs_inv_requests:
  assumes "rpcs_inv s"
  shows "getNCPversion so i j s = (r, i', j', s') \<Longrightarrow> rpcs_inv s'"
    "execProgram so n a s = (r, s') \<Longrightarrow> rpcs_inv s'"
    "stopProgram so n s = (r, s') \<Longrightarrow> rpcs_inv s'"
    "queryProgram so n s = (r, s') \<Longrightarrow> rpcs_inv s'"
    "formatOpen so d i j s = (r, i', j', s') \<Longrightarrow> rpcs_inv s'"
    "formatRead so i s = (r, s') \<Longrightarrow> rpcs_inv s'"
    "getUniqueID so n i s = (r, i', s') \<Longrightarrow> rpcs_inv s'"
    "fuser so n b s = (r, b', s') \<Longrightarrow> rpcs_inv s'"
    "quitServer so s = (r, s') \<Longrightarrow> rpcs_inv s'"
    "getCmdLine so n a s = (r, a', s') \<Longrightarrow> rpcs_inv s'"
    "getOwnerInfo16 so os s = (r, os', s') \<Longrightarrow> rpcs_inv s'"
    "getOwnerInfo32 so os s = (r, os', s') \<Longrightarrow> rpcs_inv s'"
    "closeHandle so h s = (r, s') \<Longrightarrow> rpcs_inv s'"
    "configOpen so h u s = (r, h', s') \<Longrightarrow> rpcs_inv s'"
    "regOpenIter so u n h s = (r, h', s') \<Longrightarrow> rpcs_inv s'"
    "regReadIter so h s = (r, s') \<Longrightarrow> rpcs_inv s'"
  using assms
  by (auto simp: getNCPversion_def execProgram_def stopProgram_def queryProgram_def formatOpen_def
      formatRead_def getUniqueID_def fuser_def quitServer_def getCmdLine_def getOwnerInfo16_def
      getOwnerInfo32_def closeHandle_def configOpen_def regOpenIter_def regReadIter_def Let_def
      dest: rpcs_inv_call rpcs_inv_sendCommand rpcs_inv_getResponse split: prod.splits if_splits)

lemma rpcs_inv_getMachineType:
  assumes "getMachineType so i s = (r, i', s')" "rpcs_inv s"
  shows "rpcs_inv s'"
proof -
  obtain res a s1 where call: "rpcs_call so GET_MACHINETYPE [] True s = (res, a, s1)"
    by (metis prod_cases3)
  with assms have "rpcs_inv s1" by (blast intro: rpcs_inv_call)
  with assms call show ?thesis
    by (auto simp: getMachineType_def rpcs_inv_def or.assoc Let_def split: if_splits)
qed

lemma rpcs_inv_getMachineInfo:
  assumes "getMachineInfo so mi s = (r, mi', s')" "rpcs_inv s"
  shows "rpcs_inv s'"
proof -
  obtain res a s1 where call: "rpcs_call so GET_MACHINE_INFO [] True s = (res, a, s1)"
    by (metis prod_cases3)
  with assms have "rpcs_inv s1" by (blast intro: rpcs_inv_call)
  with assms call show ?thesis
    by (auto simp: getMachineInfo_def rpcs_inv_def or.assoc Let_def split: if_splits)
qed

lemma rpcs_inv_setTime:
  "setTime so raw mi t s = (r, s') \<Longrightarrow> rpcs_inv s \<Longrightarrow> rpcs_inv s'"
  by (auto simp: setTime_def Let_def dest: rpcs_inv_getMachineInfo rpcs_inv_sendCommand
      split: prod.splits if_splits option.splits)

lemma rpcs_inv_query_drives:
  "query_drives so x ds b ps s = (c, b', ps', s') \<Longrightarrow> rpcs_inv s \<Longrightarrow> rpcs_inv s'"
  by (induction so x ds b ps s arbitrary: c b' ps' s' rule: query_drives.induct)
     (auto dest: rpcs_inv_sendCommand rpcs_inv_getResponse split: prod.splits if_splits)

lemma rpcs_inv_add_cmdlines:
  "add_cmdlines so ps s = (ps', s') \<Longrightarrow> rpcs_inv s \<Longrightarrow> rpcs_inv s'"
  by (induction so ps s arbitrary: ps' s' rule: add_cmdlines.induct)
     (auto dest: rpcs_inv_requests(10) split: prod.splits if_splits)

lemma rpcs_inv_queryPrograms:
  assumes info: "\<And>s r s'. machine_info s = (r, s') \<Longrightarrow> rpcs_inv s \<Longrightarrow> rpcs_inv s'"
    and "queryPrograms so machine_info ps s = (r, ps', s')" "rpcs_inv s"
  shows "rpcs_inv s'"
proof -
  obtain ok s1 where send: "rpcs_sendCommand so GET_UNIQUEID (stringT ''M:'') s = (ok, s1)"
    by (metis prod.exhaust)
  obtain res a s2 where resp: "rpcs_getResponse so False s1 = (res, a, s2)"
    by (metis prod_cases3)
  define drives where
    "drives = (if res = E_PSI_GEN_NONE then ''ABCDEFGHIJKLMNOPQRSTUVWXYZ'' else ''C'')"
  obtain failed s3 where mach: "(if p_mtCacheS5mx s2 AND 4 = 0
      then (let (res, t, s) = getMachineType so 0 s2 in (res \<noteq> E_PSI_GEN_NONE, s))
      else (False, s2)) = (failed, s3)"
    by (metis prod.exhaust)
  obtain disc s4 where desc: "(if p_mtCacheS5mx s3 AND 9 = 1
      then (let (res, s) = machine_info s3 in (res = E_PSI_FILE_DISC, s))
      else (False, s3)) = (disc, s4)"
    by (metis prod.exhaust)
  obtain complete anySuccess rs s5 where loop:
    "query_drives so (p_mtCacheS5mx s4 = 15) drives False [] s4 = (complete, anySuccess, rs, s5)"
    by (metis prod_cases4)
  obtain rs' s6 where args:
    "(if anySuccess \<and> rs \<noteq> [] then add_cmdlines so rs s5 else (rs, s5)) = (rs', s6)"
    by (metis prod.exhaust)
  have inv: "rpcs_inv s1" using send assms(3) by (rule rpcs_inv_sendCommand)
  then have "rpcs_inv s2" using resp by (blast intro: rpcs_inv_getResponse)
  then have inv3: "rpcs_inv s3"
    using mach by (auto split: if_splits prod.splits dest: rpcs_inv_getMachineType)
  then have inv4: "rpcs_inv s4"
    using desc by (auto split: if_splits prod.splits dest: info)
  then have inv5: "rpcs_inv s5"
    using loop by (blast intro: rpcs_inv_query_drives)
  then have "rpcs_inv s6"
    using args by (auto split: if_splits dest: rpcs_inv_add_cmdlines)
  with inv inv3 inv4 inv5 assms(2) show ?thesis
    by (auto simp: queryPrograms_def send resp mach desc loop args drives_def [symmetric]
        split: if_splits)
qed

lemma rpcs_inv_config_loop:
  assumes "config_loop so h ret s = Some y" "rpcs_inv s"
  shows "rpcs_inv (snd (snd y))"
proof -
  have "rpcs_inv s \<longrightarrow> rpcs_inv (snd (snd y))"
  proof (rule config_loop.raw_induct
      [where P = "\<lambda>so h ret s y. rpcs_inv s \<longrightarrow> rpcs_inv (snd (snd y))", OF _ assms(1)], goal_cases)
    case (1 loop so h ret s y)
    note IH = 1(1) and run = 1(2)
    from run show ?case
      by (auto split: prod.splits if_splits)
         (blast intro: IH [THEN mp] rpcs_inv_requests(13) rpcs_inv_getResponse rpcs_inv_sendCommand)+
  qed
  with assms(2) show ?thesis by blast
qed

lemma rpcs_inv_configRead:
  "configRead so u s = Some (r, b, s') \<Longrightarrow> rpcs_inv s \<Longrightarrow> rpcs_inv s'"
  by (auto simp: configRead_def dest: rpcs_inv_requests(14) [rotated] dest!: rpcs_inv_config_loop
      split: prod.splits if_splits)

lemma rpcs_op_inv: "rpcs_op so s s' \<Longrightarrow> rpcs_inv s \<Longrightarrow> rpcs_inv s'"
proof (induction rule: rpcs_op.induct)
  case (op_programs16 ps s r ps' s')
  from this(1) show ?case
    by (rule rpcs_inv_queryPrograms [rotated]) (auto simp: getMachineInfo16_def op_programs16)
next
  case (op_programs32 mi ps s r ps' s')
  from this(1) show ?case
    by (rule rpcs_inv_queryPrograms [rotated])
       (auto simp: op_programs32 split: prod.splits dest: rpcs_inv_getMachineInfo)
qed (auto simp: configWrite_def dest: rpcs_inv_requests rpcs_inv_getMachineType
      rpcs_inv_getMachineInfo rpcs_inv_setTime rpcs_inv_configRead)

lemma rpcs_reachable_inv: "rpcs_reachable so s \<Longrightarrow> rpcs_inv s"
  by (induction rule: rpcs_reachable.induct) (auto simp: rpcs_construct_def dest: rpcs_op_inv)

lemma cache_ok_values:
  assumes "cache_ok m"
  shows "m \<in> {0, 4, 5, 8, 10, 12, 13, 14, 15}"
proof -
  have "bit m n \<longleftrightarrow> n < 4 \<and> bit m n" for n
    using assms by (auto simp: cache_ok_def simp flip: not_le)
  then have "m = take_bit 4 m" by (intro bit_eqI) (simp add: bit_take_bit_iff)
  then have "unat m = unat (take_bit 4 m)" by simp
  also have "\<dots> = take_bit 4 (unat m)" by (simp add: unsigned_take_bit_eq)
  also have "\<dots> < 16" using take_bit_nat_less_exp [of 4 "unat m"] by simp
  finally have "unat m < 16" .
  then have "unat m \<in> set [0..<16]" by simp
  then have "m \<in> of_nat ` set [0..<16]" by (rule image_eqI [rotated]) simp
  then have "m \<in> {0, 1, 2, 3, 4, 5, 6, 7, 8, 9, 10, 11, 12, 13, 14, 15}"
    by (auto simp: upt_rec)
  then show ?thesis using assms by (auto simp: cache_ok_def)
qed

text \<open>
  C12: The cache of the machine type is consistent in every state the operations can reach, in
  any order and with any answers of the device: it is one of nine values, a Series 5 is only
  noted together with a known type, a Series 5mx only together with a known description, and
  the value 15 that \<open>queryPrograms\<close> looks for means all of it. The status is one of the two values
  that the requests look at.
\<close>

theorem rpcs_cache_consistent:
  assumes "rpcs_reachable so s"
  shows "p_mtCacheS5mx s \<in> {0, 4, 5, 8, 10, 12, 13, 14, 15} \<and>
         p_status s \<in> {E_PSI_GEN_NONE, E_PSI_FILE_DISC}"
  using rpcs_reachable_inv [OF assms] cache_ok_values by (auto simp: rpcs_inv_def)

theorem rpcs_cache_consistent_witness:
  "\<forall>env. p_mtCacheS5mx (rpcs_reset (scripted env) (rpcs_construct (scripted env) None ([], [])))
     \<in> {0, 4, 5, 8, 10, 12, 13, 14, 15}"
proof
  fix env
  have "rpcs_reachable (scripted env)
      (rpcs_reset (scripted env) (rpcs_construct (scripted env) None ([], [])))"
    by (rule rpcs_step [OF rpcs_start op_reset]) simp
  from rpcs_cache_consistent [OF this]
  show "p_mtCacheS5mx (rpcs_reset (scripted env) (rpcs_construct (scripted env) None ([], [])))
     \<in> {0, 4, 5, 8, 10, 12, 13, 14, 15}" by simp
qed

end
