(* ===== verification/SisInstall.thy ===== *)
theory SisInstall
  imports SisFile Rfsv32
begin

text \<open>
  The installer of SIS files: \<open>sisinstall/sisinstaller.cpp\<close>, \<open>sisinstall/sismain.cpp\<close>, over the
  device of \<open>lib/psion.cpp\<close> and \<open>lib/fakepsion.cpp\<close>. What the installer reaches outside itself is
  a record of functions on a state \<open>'w\<close>: the methods of \<open>Psion\<close>, temporary files, the user's
  input. A temporary file is its contents. The result of an operation is \<open>None\<close> if the code
  reads or writes outside a buffer, or does not return; the nesting of SIS files is bounded by
  a number that counts down. Messages are left out, except where they overflow their buffer.
\<close>

section \<open>The device and the host\<close>

record 'w psion =
  ps_copyFromPsion :: "string \<Rightarrow> 'w \<Rightarrow> (int \<times> bytes \<times> 'w) option"
  ps_copyToPsion :: "bytes \<Rightarrow> string \<Rightarrow> 'w \<Rightarrow> int \<times> 'w"
  ps_devinfo :: "char \<Rightarrow> drive \<Rightarrow> 'w \<Rightarrow> int \<times> drive \<times> 'w"
  ps_devlist :: "32 word \<Rightarrow> 'w \<Rightarrow> int \<times> 32 word \<times> 'w"
  ps_dir :: "string \<Rightarrow> 'w \<Rightarrow> (int \<times> plpdirent list \<times> 'w) option"
  ps_mkdir :: "string \<Rightarrow> 'w \<Rightarrow> int \<times> 'w"
  ps_remove :: "string \<Rightarrow> 'w \<Rightarrow> 'w"

text \<open>
  \<open>ho_mkstemp\<close>: whether a temporary file could be made; \<open>ho_write\<close>: whether all bytes could be
  written to it and it could be closed; \<open>ho_fgets\<close>: a line of at most so many characters.
\<close>

record 'w host =
  ho_mkstemp :: "'w \<Rightarrow> bool \<times> 'w"
  ho_write :: "bytes \<Rightarrow> 'w \<Rightarrow> bool \<times> 'w"
  ho_fgets :: "nat \<Rightarrow> 'w \<Rightarrow> string option \<times> 'w"
  ho_drive :: drive
  ho_header :: sis_header

text \<open>The callback of the copies, which never cancels: \<open>continueRunning\<close> is always set.\<close>

definition checkAbortHash :: "32 word \<Rightarrow> bool" where
  "checkAbortHash tot = True"

text \<open>\<open>Psion\<close> passes each call on to the remote file access; here to that of an EPOC machine.\<close>

definition psion32 :: "'v socket \<Rightarrow> psitime \<Rightarrow> 'v rfsv psion" where
  "psion32 so raw =
     \<lparr>ps_copyFromPsion = (\<lambda>from. copyFromPsion_fd so from (Some checkAbortHash)),
      ps_copyToPsion = (\<lambda>contents to. copyToPsion so (Some contents) to (Some checkAbortHash)),
      ps_devinfo = devinfo so,
      ps_devlist = devlist so,
      ps_dir = dir so raw,
      ps_mkdir = mkdir so,
      ps_remove = (\<lambda>name s. snd (remove so name s))\<rparr>"

text \<open>
  \<open>dirExists\<close>: the handle is closed whether or not it was opened.
\<close>

definition dirExists :: "'v socket \<Rightarrow> string \<Rightarrow> 'v rfsv \<Rightarrow> bool \<times> 'v rfsv" where
  "dirExists so name s =
     (let (res, h, s) = opendir so PSI_A_ARCHIVE name s; (_, s) = closedir so h s
      in (res = E_PSI_GEN_NONE, s))"

text \<open>The device of a dry run. It inherits \<open>copyFromPsion\<close>, which needs a connection.\<close>

definition fakePsion :: "'w psion" where
  "fakePsion =
     \<lparr>ps_copyFromPsion = (\<lambda>from w. None),
      ps_copyToPsion = (\<lambda>contents to w. (E_PSI_GEN_NONE, w)),
      ps_devinfo = (\<lambda>letter d w. (E_PSI_GEN_NONE, d, w)),
      ps_devlist = (\<lambda>devbits w. (E_PSI_GEN_FAIL, devbits, w)),
      ps_dir = (\<lambda>name w. Some (E_PSI_GEN_NONE, [], w)),
      ps_mkdir = (\<lambda>name w. (E_PSI_GEN_NONE, w)),
      ps_remove = (\<lambda>name w. w)\<rparr>"

section \<open>State\<close>

record 'w installer =
  in_file :: sisfile
  in_drive :: byte
  in_installed :: "sisfile list"
  in_world :: 'w

datatype file_result = FILE_OK | FILE_SKIP | FILE_ABORT

definition set_buf :: "bytes \<Rightarrow> 'w installer \<Rightarrow> 'w installer" where
  "set_buf buf st = st\<lparr>in_file := (in_file st)\<lparr>sf_buf := buf\<rparr>\<rparr>"

definition sisfile_new :: "sis_header \<Rightarrow> sisfile" where
  "sisfile_new junk =
     \<lparr>sf_header = junk, sf_langRecords = [], sf_fileRecords = [], sf_reqRecords = [],
      sf_componentRecord = component_new, sf_buf = [], sf_end = 0\<rparr>"

text \<open>An element of an array; \<open>None\<close> past its end.\<close>

definition at :: "'a list \<Rightarrow> nat \<Rightarrow> 'a option" where
  "at xs i = (if i < length xs then Some (xs ! i) else None)"

text \<open>The characters in front of the first zero.\<close>

definition c_string :: "bytes \<Rightarrow> string" where
  "c_string b = chars (takeWhile (\<lambda>c. c \<noteq> 0) b)"

section \<open>Copying to the device\<close>

text \<open>
  \<open>createDirs\<close> goes back from the end of the name to the last separator, which is not the first
  character, makes the directory in front of it and returns.
\<close>

definition parent_dir :: "string \<Rightarrow> string option" where
  "parent_dir filename =
     map_option (\<lambda>i. take i filename)
       (List.find (\<lambda>i. filename ! i = CHR ''/'' \<or> filename ! i = CHR 0x5C) (rev [1..<length filename]))"

definition createDirs :: "'w psion \<Rightarrow> string \<Rightarrow> 'w \<Rightarrow> 'w" where
  "createDirs ps filename w =
     (case parent_dir filename of None \<Rightarrow> w | Some d \<Rightarrow> snd (ps_mkdir ps d w))"

text \<open>
  \<open>copyBuf\<close> for \<open>len\<close> bytes at \<open>ptr\<close>, the null pointer if \<open>None\<close>, from which \<open>write\<close> writes
  nothing.
\<close>

definition copyBuf :: "'w psion \<Rightarrow> 'w host \<Rightarrow> bytes \<Rightarrow> nat option \<Rightarrow> int \<Rightarrow> string \<Rightarrow> 'w \<Rightarrow> 'w option" where
  "copyBuf ps ho buf ptr len filename w =
     (let w = createDirs ps filename w; (made, w) = ho_mkstemp ho w
      in if \<not> made then Some w
      else case ptr of
        None \<Rightarrow>
          (if len = 0 then (let (ok, w) = ho_write ho [] w in
             Some (if ok then snd (ps_copyToPsion ps [] filename w) else w))
           else Some w)
      | Some p \<Rightarrow> do {
          data \<leftarrow> copy_bytes buf (int p) len;
          let (ok, w) = ho_write ho data w;
          Some (if ok then snd (ps_copyToPsion ps data filename w) else w) })"

section \<open>The drive\<close>

text \<open>The letters of the drives to choose from: those of a disk or of memory.\<close>

fun drive_choices :: "'w psion \<Rightarrow> drive \<Rightarrow> 32 word \<Rightarrow> nat list \<Rightarrow> 'w \<Rightarrow> char list \<times> 'w" where
  "drive_choices ps junk devbits [] w = ([], w)"
| "drive_choices ps junk devbits (i # is) w =
     (if devbits AND 1 \<noteq> 0 then
        (let (res, d, w) = ps_devinfo ps (char_of (i + 65)) junk w;
             (ds, w) = drive_choices ps junk (drop_bit 1 devbits) is w
         in (if res = E_PSI_GEN_NONE \<and> (d_mediaType d = 3 \<or> d_mediaType d = 5)
             then char_of (i + 65) # ds else ds, w))
      else drive_choices ps junk (drop_bit 1 devbits) is w)"

text \<open>The question is repeated until it is answered, at the end of the input forever.\<close>

partial_function (option) ask_drive :: "'w host \<Rightarrow> char list \<Rightarrow> 'w \<Rightarrow> (char \<times> 'w) option" where
  "ask_drive ho drivelist w =
     (case ho_fgets ho 2 w of
        (None, w) \<Rightarrow> ask_drive ho drivelist w
      | (Some readbuf, w) \<Rightarrow>
          (let ch = (case readbuf of [] \<Rightarrow> CHR 0x00 | c # _ \<Rightarrow> c)
           in if isalpha ch \<and> toupper ch \<in> set drivelist then Some (toupper ch, w)
           else ask_drive ho drivelist w))"

text \<open>
  With 26 drives the terminating zero is written behind the list. The uninitialised \<open>Drive\<close> is
  a field of the host.
\<close>

definition selectDrive :: "'w psion \<Rightarrow> 'w host \<Rightarrow> 'w installer \<Rightarrow> 'w installer option" where
  "selectDrive ps ho st =
     (let (res, devbits, w) = ps_devlist ps 0 (in_world st);
          (drivelist, w) = (if res = E_PSI_GEN_NONE
             then drive_choices ps (ho_drive ho) devbits [0..<26] w else ([], w));
          st = st\<lparr>in_world := w\<rparr>
      in if length drivelist = 26 then None
      else case drivelist of
        [] \<Rightarrow> Some (st\<lparr>in_drive := 67\<rparr>)
      | [d] \<Rightarrow> Some (st\<lparr>in_drive := of_char d\<rparr>)
      | _ \<Rightarrow>
          if in_drive st \<noteq> 0 then Some st
          else do {
            (d, w) \<leftarrow> ask_drive ho drivelist w;
            Some (st\<lparr>in_drive := of_char d, in_world := w\<rparr>) })"

section \<open>Installing one file\<close>

text \<open>
  \<open>copyFile\<close>: the destination is copied to an array of 256 characters. A destination that begins
  with an exclamation mark is on the chosen drive, which is noted in the header and in the
  record itself. \<open>no\<close> is \<open>m_fileNo\<close>.
\<close>

definition choose_drive :: "'w psion \<Rightarrow> 'w host \<Rightarrow> nat \<Rightarrow> 'w installer \<Rightarrow> 'w installer option" where
  "choose_drive ps ho destptr st = do {
     c \<leftarrow> rd (sf_buf (in_file st)) (int destptr);
     if c = 33 then do {
       st \<leftarrow> (if in_drive st = 0 then selectDrive ps ho st else Some st);
       f \<leftarrow> sisfile_setDrive (in_drive st) (in_file st);
       Some (st\<lparr>in_file := f\<rparr>) }
     else Some st }"

definition copyFile :: "'w psion \<Rightarrow> 'w host \<Rightarrow> nat \<Rightarrow> sis_filerec \<Rightarrow> 'w installer \<Rightarrow> 'w installer option" where
  "copyFile ps ho no r st =
     (case getDestPtr r of
        None \<Rightarrow> Some st
      | Some destptr \<Rightarrow> do {
          st \<leftarrow> choose_drive ps ho destptr st;
          let len = to_int (fr_destLength r);
          dest \<leftarrow> copy_bytes (sf_buf (in_file st)) (int destptr) len;
          if len \<ge> 256 then None else do {
          (dest, st) \<leftarrow>
            (case dest of
               c # cs \<Rightarrow> if c = 33
                 then do { buf \<leftarrow> setMainDrive r (in_drive st) (sf_buf (in_file st));
                           Some (in_drive st # cs, set_buf buf st) }
                 else Some (dest, st)
             | [] \<Rightarrow> Some (dest, st));
          l \<leftarrow> at (fr_fileLengths r) no;
          ptr \<leftarrow> getFilePtr r (int no);
          w \<leftarrow> copyBuf ps ho (sf_buf (in_file st)) ptr (to_int l) (c_string dest) (in_world st);
          Some (st\<lparr>in_world := w\<rparr>) } })"

text \<open>Whether the user says no: also at the end of the input, and with a zero.\<close>

definition says_no :: "string option \<Rightarrow> bool" where
  "says_no res = (case res of None \<Rightarrow> True | Some b \<Rightarrow> b = [] \<or> hd b \<in> {CHR ''N'', CHR ''n'', CHR 0x00})"

text \<open>The text file of a record, shown before the question its details ask.\<close>

definition showInfo :: "'w host \<Rightarrow> nat \<Rightarrow> sis_filerec \<Rightarrow> 'w installer \<Rightarrow> (file_result \<times> 'w installer) option" where
  "showInfo ho no r st = do {
     l \<leftarrow> at (fr_fileLengths r) no;
     ptr \<leftarrow> getFilePtr r (int no);
     if fr_fileDetails r \<in> {0, 1, 2} then do {
       let (res, w) = ho_fgets ho 8 (in_world st);
       let st = st\<lparr>in_world := w\<rparr>;
       Some (if fr_fileDetails r = 1 \<and> says_no res then FILE_SKIP
             else if fr_fileDetails r = 2 \<and> says_no res then FILE_ABORT else FILE_OK, st) }
     else Some (FILE_OK, st) }"

text \<open>
  A SIS file inside the buffer, installed by \<open>run\<close> with the drive of this one. It shares the
  buffer and, if there is one, the list of installed files.
\<close>

type_synonym 'w sis_run =
  "byte option \<Rightarrow> sisfile \<Rightarrow> sisfile list \<Rightarrow> 'w \<Rightarrow> (SisRC \<times> sisfile \<times> sisfile list \<times> 'w) option"

definition header_drive :: "sisfile \<Rightarrow> byte" where
  "header_drive f = ucast (m_installationDrive (sf_header f))"

definition after_nested ::
  "nat \<Rightarrow> sisfile \<Rightarrow> sisfile list \<Rightarrow> 'w \<Rightarrow> 'w installer \<Rightarrow> 'w installer option" where
  "after_nested p sub inst w st = do {
     let st = set_buf (take p (sf_buf (in_file st)) @ sf_buf sub)
       (st\<lparr>in_installed := (if in_installed st = [] then [] else inst), in_world := w\<rparr>);
     if in_drive st = 0 then do {
       let st = st\<lparr>in_drive := header_drive sub\<rparr>;
       f \<leftarrow> sisfile_setDrive (in_drive st) (in_file st);
       Some (st\<lparr>in_file := f\<rparr>) }
     else Some st }"

definition installNested ::
  "'w sis_run \<Rightarrow> sis_header \<Rightarrow> nat \<Rightarrow> sis_filerec \<Rightarrow> 'w installer \<Rightarrow> 'w installer option" where
  "installNested runsub junk no r st = do {
     l \<leftarrow> at (fr_fileLengths r) no;
     ptr \<leftarrow> getFilePtr r (int no);
     case ptr of
       None \<Rightarrow> if uint l < 68 then Some st else None
     | Some p \<Rightarrow> do {
         (rc, sub) \<leftarrow> sisfile_fillFrom (drop p (sf_buf (in_file st))) (uint l) (sisfile_new junk);
         if rc \<noteq> SIS_OK then Some (set_buf (take p (sf_buf (in_file st)) @ sf_buf sub) st) else do {
         (rc, sub, inst, w) \<leftarrow>
           runsub (Some (header_drive (in_file st))) sub (in_installed st) (in_world st);
         after_nested p sub inst w st } } }"

definition installFile ::
  "'w psion \<Rightarrow> 'w host \<Rightarrow> 'w sis_run \<Rightarrow> nat \<Rightarrow> sis_filerec \<Rightarrow> 'w installer \<Rightarrow>
   (file_result \<times> 'w installer) option" where
  "installFile ps ho runsub no r st =
     (if fr_fileType r = 0 then do { st \<leftarrow> copyFile ps ho no r st; Some (FILE_OK, st) }
      else if fr_fileType r = 1 then showInfo ho no r st
      else if fr_fileType r = 2
      then do { st \<leftarrow> installNested runsub (ho_header ho) no r st; Some (FILE_OK, st) }
      else Some (FILE_OK, st))"

section \<open>The files that are installed already\<close>

definition SYSTEMINSTALL :: string where
  "SYSTEMINSTALL = ''c:'' @ [CHR 0x5C] @ ''system'' @ [CHR 0x5C] @ ''install'' @ [CHR 0x5C]"

definition loadPsionSis ::
  "'w psion \<Rightarrow> 'w host \<Rightarrow> string \<Rightarrow> sisfile list \<Rightarrow> 'w \<Rightarrow> (sisfile list \<times> 'w) option" where
  "loadPsionSis ps ho name installed w =
     (let (made, w) = ho_mkstemp ho w
      in if \<not> made then Some (installed, w) else do {
        (res, sisbuf, w) \<leftarrow> ps_copyFromPsion ps name w;
        if res \<noteq> E_PSI_GEN_NONE then Some (installed, w) else do {
        (rc, f) \<leftarrow> sisfile_fillFrom sisbuf (int (length sisbuf)) (sisfile_new (ho_header ho));
        Some (if rc = SIS_OK then f # installed else installed, w) } })"

fun load_all ::
  "'w psion \<Rightarrow> 'w host \<Rightarrow> string list \<Rightarrow> sisfile list \<Rightarrow> 'w \<Rightarrow> (sisfile list \<times> 'w) option" where
  "load_all ps ho [] installed w = Some (installed, w)"
| "load_all ps ho (name # names) installed w =
     (if length SYSTEMINSTALL + length name > 255 then None else do {
      (installed, w) \<leftarrow> loadPsionSis ps ho (SYSTEMINSTALL @ name) installed w;
      load_all ps ho names installed w })"

definition loadInstalled ::
  "'w psion \<Rightarrow> 'w host \<Rightarrow> sisfile list \<Rightarrow> 'w \<Rightarrow> (SisRC \<times> sisfile list \<times> 'w) option" where
  "loadInstalled ps ho installed w = do {
     (res, files, w) \<leftarrow> ps_dir ps SYSTEMINSTALL w;
     if res \<noteq> E_PSI_GEN_NONE then Some (SIS_FAILED, installed, w) else do {
     (installed, w) \<leftarrow> load_all ps ho (map de_name files) installed w;
     Some (SIS_OK, installed, w) } }"

section \<open>Uninstalling\<close>

text \<open>The pointer may be null, the array holds 256 characters.\<close>

definition removeFile :: "'w psion \<Rightarrow> sis_filerec \<Rightarrow> bytes \<Rightarrow> 'w \<Rightarrow> 'w option" where
  "removeFile ps r buf w = do {
     let len = to_int (fr_destLength r);
     dest \<leftarrow> (case getDestPtr r of
        None \<Rightarrow> if len = 0 then Some [] else None
      | Some p \<Rightarrow> copy_bytes buf (int p) len);
     if len \<ge> 256 then None else Some (ps_remove ps (c_string dest) w) }"

definition uninstallFile :: "'w psion \<Rightarrow> sis_filerec \<Rightarrow> bytes \<Rightarrow> 'w \<Rightarrow> 'w option" where
  "uninstallFile ps r buf w =
     (if fr_fileType r = 0 \<or> fr_fileType r = 4 then removeFile ps r buf w else Some w)"

fun uninstall_loop :: "'w psion \<Rightarrow> byte \<Rightarrow> sis_filerec list \<Rightarrow> bytes \<Rightarrow> 'w \<Rightarrow> (bytes \<times> 'w) option" where
  "uninstall_loop ps drive [] buf w = Some (buf, w)"
| "uninstall_loop ps drive (r # rs) buf w = do {
     buf \<leftarrow> setMainDrive r drive buf;
     w \<leftarrow> uninstallFile ps r buf w;
     uninstall_loop ps drive rs buf w }"

text \<open>
  The last \<open>m_installationFiles\<close> records, of which there may be more than records, when the
  first index is negative.
\<close>

definition uninstall :: "'w psion \<Rightarrow> sisfile \<Rightarrow> 'w \<Rightarrow> (sisfile \<times> 'w) option" where
  "uninstall ps f w =
     (let n = unat (m_nfiles (sf_header f)); k = unat (m_installationFiles (sf_header f))
      in if k > n \<or> (k > 0 \<and> n > length (sf_fileRecords f)) then None
      else do {
        (buf, w) \<leftarrow> uninstall_loop ps (header_drive f)
          (take k (drop (n - k) (sf_fileRecords f))) (sf_buf f) w;
        Some (f\<lparr>sf_buf := buf\<rparr>, w) })"

section \<open>Installing a file\<close>

text \<open>The index of the last installed file for the same application.\<close>

definition old_version :: "sisfile list \<Rightarrow> sisfile \<Rightarrow> nat option" where
  "old_version installed f =
     List.find (\<lambda>i. sisfile_compareApp (installed ! i) f \<in> {SIS_VER_EARLIER, SIS_SAME_OR_LATER, SIS_OTHER_VARIANT})
       (rev [0..<length installed])"

definition uninstall_old ::
  "'w psion \<Rightarrow> sisfile \<Rightarrow> sisfile list \<Rightarrow> 'w \<Rightarrow> (sisfile list \<times> 'w) option" where
  "uninstall_old ps f installed w =
     (case old_version installed f of
        None \<Rightarrow> Some (installed, w)
      | Some i \<Rightarrow> do {
          (old, w) \<leftarrow> uninstall ps (installed ! i) w;
          Some (installed[i := old], w) })"

text \<open>
  The loop over the records, from the last one to the first: whether it was aborted and how many
  records were done. The installation language is always the first one.
\<close>

fun install_loop ::
  "'w psion \<Rightarrow> 'w host \<Rightarrow> 'w sis_run \<Rightarrow> nat list \<Rightarrow> bool \<Rightarrow> nat \<Rightarrow> 'w installer \<Rightarrow>
   (bool \<times> nat \<times> 'w installer) option" where
  "install_loop ps ho runsub [] skipnext copied st = Some (False, copied, st)"
| "install_loop ps ho runsub (n # ns) skipnext copied st = do {
     r \<leftarrow> at (sf_fileRecords (in_file st)) n;
     if skipnext then install_loop ps ho runsub ns False (copied + 1) st else do {
     (outcome, st) \<leftarrow> installFile ps ho runsub 0 r st;
     case outcome of
       FILE_OK \<Rightarrow> install_loop ps ho runsub ns False (copied + 1) st
     | FILE_SKIP \<Rightarrow> install_loop ps ho runsub ns True (copied + 1) st
     | FILE_ABORT \<Rightarrow> Some (True, copied, st) } }"

definition residual_name :: "string \<Rightarrow> string" where
  "residual_name compName =
     ''C:'' @ [CHR 0x5C] @ ''System'' @ [CHR 0x5C] @ ''Install'' @ [CHR 0x5C] @
     takeWhile (\<lambda>c. c \<noteq> CHR '' '') compName @ ''.sis''"

text \<open>What \<open>run\<close> does before and after the loop; both fill arrays with the name.\<close>

definition run_prepare ::
  "'w psion \<Rightarrow> 'w host \<Rightarrow> byte option \<Rightarrow> sisfile \<Rightarrow> sisfile list \<Rightarrow> 'w \<Rightarrow> (string \<times> 'w installer) option" where
  "run_prepare ps ho parent f installed w =
     (if parent = None \<and> list_ex (\<lambda>i. sisfile_getLanguage f i = None) [0..<unat (m_nlangs (sf_header f))]
      then None else do {
      let f = sisfile_setLanguage 0 f;
      name \<leftarrow> map_option c_string (sisfile_getName f);
      if length name > 999 then None else do {
      (installed, w) \<leftarrow>
        (if installed = [] then do { (rc, i, w) \<leftarrow> loadInstalled ps ho [] w; Some (i, w) }
         else Some (installed, w));
      (installed, w) \<leftarrow> uninstall_old ps f installed w;
      Some (name, \<lparr>in_file = f, in_drive = (case parent of None \<Rightarrow> 0 | Some d \<Rightarrow> d),
        in_installed = installed, in_world = w\<rparr>) } })"

definition run_finish ::
  "'w psion \<Rightarrow> 'w host \<Rightarrow> string \<Rightarrow> bool \<Rightarrow> nat \<Rightarrow> 'w installer \<Rightarrow> (SisRC \<times> 'w installer) option" where
  "run_finish ps ho name aborted copied st = do {
     f \<leftarrow> sisfile_setFiles (int copied) (in_file st);
     let st = st\<lparr>in_file := f\<rparr>;
     if copied = 0 then Some (SIS_ABORTED, st)
     else if length (residual_name name) > 255 then None
     else do {
       w \<leftarrow> copyBuf ps ho (sf_buf f) (Some 0) (to_int (sf_end f)) (residual_name name) (in_world st);
       Some (if aborted then SIS_ABORTED else SIS_OK, st\<lparr>in_world := w\<rparr>) } }"

fun sis_run :: "'w psion \<Rightarrow> 'w host \<Rightarrow> nat \<Rightarrow> 'w sis_run" where
  "sis_run ps ho 0 parent f installed w = None"
| "sis_run ps ho (Suc depth) parent f installed w = do {
     (name, st) \<leftarrow> run_prepare ps ho parent f installed w;
     (aborted, copied, st) \<leftarrow> install_loop ps ho (sis_run ps ho depth)
       (rev [0..<unat (m_nfiles (sf_header f))]) False 0 st;
     (rc, st) \<leftarrow> run_finish ps ho name aborted copied st;
     Some (rc, in_file st, in_installed st, in_world st) }"

text \<open>\<open>main\<close>, once the file has been read: the code of the parser or of the installer.\<close>

definition sis_main :: "'w psion \<Rightarrow> 'w host \<Rightarrow> nat \<Rightarrow> bytes \<Rightarrow> 'w \<Rightarrow> (SisRC \<times> 'w) option" where
  "sis_main ps ho depth buf w = do {
     (rc, f) \<leftarrow> sisfile_fillFrom buf (int (length buf)) (sisfile_new (ho_header ho));
     if rc \<noteq> SIS_OK then Some (rc, w) else do {
     (rc, f, installed, w) \<leftarrow> sis_run ps ho depth None f [] w;
     Some (rc, w) } }"

end
