(* ===== verification/SisInstall_Lemmas.thy ===== *)
theory SisInstall_Lemmas
  imports SisInstall SisFile_Safe
begin

text \<open>
  Installing a SIS file and removing it again. The device and the host are arbitrary up to what
  \<open>stores\<close>, \<open>keeps\<close> and \<open>picks\<close> ask of them: copying a file to the device stores it under its
  name, removing it deletes it, and nothing else touches the files.
\<close>

section \<open>The device\<close>

definition stores :: "'w psion \<Rightarrow> ('w \<Rightarrow> string \<Rightarrow> bytes option) \<Rightarrow> bool" where
  "stores ps view \<longleftrightarrow>
     (\<forall>d w. view (snd (ps_mkdir ps d w)) = view w) \<and>
     (\<forall>c n w. view (snd (ps_copyToPsion ps c n w)) = (view w)(n \<mapsto> c)) \<and>
     (\<forall>n w. view (ps_remove ps n w) = (view w)(n := None))"

definition keeps :: "'w host \<Rightarrow> ('w \<Rightarrow> string \<Rightarrow> bytes option) \<Rightarrow> bool" where
  "keeps ho view \<longleftrightarrow>
     (\<forall>w. \<exists>w'. ho_mkstemp ho w = (True, w') \<and> view w' = view w) \<and>
     (\<forall>b w. \<exists>w'. ho_write ho b w = (True, w') \<and> view w' = view w)"

definition picks :: "'w psion \<Rightarrow> 'w host \<Rightarrow> ('w \<Rightarrow> string \<Rightarrow> bytes option) \<Rightarrow> byte \<Rightarrow> bool" where
  "picks ps ho view d \<longleftrightarrow> d \<noteq> 0 \<and> d \<noteq> 33 \<and>
     (\<forall>st. in_drive st = 0 \<longrightarrow>
        (\<exists>w'. selectDrive ps ho st = Some (st\<lparr>in_drive := d, in_world := w'\<rparr>) \<and>
              view w' = view (in_world st)))"

section \<open>Pieces of the buffer\<close>

definition slice :: "nat \<Rightarrow> nat \<Rightarrow> bytes \<Rightarrow> bytes" where
  "slice p n buf = take n (drop p buf)"

lemma length_slice: "p + n \<le> length buf \<Longrightarrow> length (slice p n buf) = n"
  by (simp add: slice_def)

lemma nth_slice: "p + n \<le> length buf \<Longrightarrow> i < n \<Longrightarrow> slice p n buf ! i = buf ! (p + i)"
  by (simp add: slice_def)

lemma copy_bytes_slice: "p + n \<le> length buf \<Longrightarrow> copy_bytes buf (int p) (int n) = Some (slice p n buf)"
  by (auto simp: copy_bytes_def slice_def)

lemma slice_eqI:
  assumes "length b = length buf" "p + n \<le> length buf" "\<And>i. p \<le> i \<Longrightarrow> i < p + n \<Longrightarrow> b ! i = buf ! i"
  shows "slice p n b = slice p n buf"
  using assms by (intro nth_equalityI) (simp_all add: length_slice nth_slice)

lemma slice_Cons:
  "0 < n \<Longrightarrow> p + n \<le> length buf \<Longrightarrow> slice p n buf = buf ! p # slice (p + 1) (n - 1) buf"
  by (cases n) (simp_all add: slice_def Cons_nth_drop_Suc [symmetric])

section \<open>Records that install one file\<close>

abbreviation dest_pos :: "sis_filerec \<Rightarrow> nat" where "dest_pos r \<equiv> unat (fr_destPtr r)"
abbreviation dest_len :: "sis_filerec \<Rightarrow> nat" where "dest_len r \<equiv> unat (fr_destLength r)"
abbreviation file_pos :: "sis_filerec \<Rightarrow> nat" where "file_pos r \<equiv> unat (fr_filePtrs r ! 0)"
abbreviation file_len :: "sis_filerec \<Rightarrow> nat" where "file_len r \<equiv> unat (fr_fileLengths r ! 0)"

definition plain_record :: "bytes \<Rightarrow> sis_filerec \<Rightarrow> bool" where
  "plain_record buf r \<longleftrightarrow>
     fr_fileType r = 0 \<and> fr_destPtr r < fr_len r \<and>
     0 < dest_len r \<and> dest_len r < 256 \<and> dest_pos r + dest_len r \<le> length buf \<and>
     fr_fileLengths r \<noteq> [] \<and> fr_filePtrs r \<noteq> [] \<and> fr_filePtrs r ! 0 < fr_len r \<and>
     file_len r < 2 ^ 31 \<and> file_pos r + file_len r \<le> length buf"

text \<open>The positions that an installation changes, and records that keep clear of them.\<close>

definition patched :: "sis_filerec list \<Rightarrow> nat set" where
  "patched rs = {26..<32} \<union> dest_pos ` set rs"

definition clear_of_patches :: "sis_filerec list \<Rightarrow> bool" where
  "clear_of_patches rs \<longleftrightarrow>
     (\<forall>r \<in> set rs. 32 \<le> dest_pos r \<and>
        {dest_pos r + 1..<dest_pos r + dest_len r} \<inter> patched rs = {} \<and>
        {file_pos r..<file_pos r + file_len r} \<inter> patched rs = {})"

text \<open>The name under which a record is installed when the drive is \<open>d\<close>, and its contents.\<close>

definition target :: "byte \<Rightarrow> bytes \<Rightarrow> sis_filerec \<Rightarrow> string" where
  "target d buf r =
     (let b = slice (dest_pos r) (dest_len r) buf
      in c_string (if hd b = 33 then d # tl b else b))"

definition contents :: "bytes \<Rightarrow> sis_filerec \<Rightarrow> bytes" where
  "contents buf r = slice (file_pos r) (file_len r) buf"

text \<open>The state between two records: \<open>done\<close> are the records installed so far.\<close>

definition installing ::
  "byte \<Rightarrow> bytes \<Rightarrow> sis_filerec list \<Rightarrow> sis_filerec set \<Rightarrow> sisfile \<Rightarrow> byte \<Rightarrow> bool" where
  "installing d buf rs ready f dr \<longleftrightarrow>
     sf_fileRecords f = rs \<and> length (sf_buf f) = length buf \<and>
     (\<forall>i < length buf. i \<notin> patched rs \<longrightarrow> sf_buf f ! i = buf ! i) \<and>
     (\<forall>r \<in> set rs. sf_buf f ! dest_pos r = buf ! dest_pos r \<or>
        buf ! dest_pos r = 33 \<and> sf_buf f ! dest_pos r = d) \<and>
     (\<forall>r \<in> ready. sf_buf f ! dest_pos r \<noteq> 33) \<and> (dr = 0 \<or> dr = d)"

lemma sint_less: "unat w < 2 ^ 31 \<Longrightarrow> sint (w :: 32 word) = int (unat w)"
proof -
  assume "unat w < 2 ^ 31"
  then have "int (unat w) < int (2 ^ 31)" by (rule of_nat_less_iff [THEN iffD2])
  then have "uint w < 2 ^ 31" by simp
  moreover have "- (2 ^ 31) \<le> uint w" by (rule order_trans [OF _ uint_ge_0]) simp
  ultimately show ?thesis by (simp add: sint_uint signed_take_bit_int_eq_self)
qed

lemma copyBuf_stores:
  assumes "stores ps view" "keeps ho view" "p + n \<le> length buf"
  shows "\<exists>w'. copyBuf ps ho buf (Some p) (int n) name w = Some w' \<and>
         view w' = (view w)(name \<mapsto> slice p n buf)"
proof -
  have "view (createDirs ps name w) = view w"
    using assms(1) by (simp add: createDirs_def stores_def split: option.split)
  moreover obtain w1 where "ho_mkstemp ho (createDirs ps name w) = (True, w1)"
      "view w1 = view (createDirs ps name w)"
    using assms(2) unfolding keeps_def by blast
  moreover obtain w2 where "ho_write ho (slice p n buf) w1 = (True, w2)" "view w2 = view w1"
    using assms(2) unfolding keeps_def by blast
  ultimately show ?thesis
    using assms(1,3) by (simp add: copyBuf_def copy_bytes_slice stores_def)
qed

lemma ucast_scast: "ucast (scast d :: 32 word) = (d :: byte)"
  by (rule bit_eqI) (auto simp: bit_simps)

lemma rd_nat: "i < length b \<Longrightarrow> rd b (int i) = Some (b ! i)"
  by (simp add: rd_def)

text \<open>What the two patches of the buffer change.\<close>

lemma setDrive_patch:
  assumes "32 \<le> length (sf_buf f)"
  obtains f' where "sisfile_setDrive d f = Some f'" "sf_fileRecords f' = sf_fileRecords f"
    "length (sf_buf f') = length (sf_buf f)" "\<forall>i. i \<notin> {26..<32} \<longrightarrow> sf_buf f' ! i = sf_buf f ! i"
    "sf_end f' = sf_end f" "header_drive f' = d" "m_nfiles (sf_header f') = m_nfiles (sf_header f)"
proof -
  let ?h = "(sf_header f)\<lparr>m_installationDrive := scast d\<rparr>"
  let ?b = "(sf_buf f)[28 := d, 31 := 0, 30 := 0, 29 := 0]"
  have e: "sisfile_setDrive d f = Some (f\<lparr>sf_header := ?h, sf_buf := ?b\<rparr>)"
    using assms by (simp add: sisfile_setDrive_def header_setDrive_def wr_def OFF_INSTALLATION_DRIVE_def)
  show ?thesis
    by (rule that [OF e]) (auto simp: header_drive_def ucast_scast nth_list_update_neq)
qed

lemma installing_cong:
  assumes "installing d buf rs ready f dr" "clear_of_patches rs"
    "sf_fileRecords f' = sf_fileRecords f" "length (sf_buf f') = length (sf_buf f)"
    "\<forall>i. i \<notin> {26..<32} \<longrightarrow> sf_buf f' ! i = sf_buf f ! i" "ready \<subseteq> set rs" "dr' = 0 \<or> dr' = d"
  shows "installing d buf rs ready f' dr'"
proof -
  have "sf_buf f' ! dest_pos r = sf_buf f ! dest_pos r" if "r \<in> set rs" for r
    using that assms(2,5) by (auto simp: clear_of_patches_def)
  with assms show ?thesis
    by (auto simp: installing_def patched_def subset_iff)
qed

lemma choose_drive_installing:
  assumes ps: "picks ps ho view d"
    and inv: "installing d buf rs ready (in_file st) (in_drive st)" "clear_of_patches rs" "ready \<subseteq> set rs"
    and r: "r \<in> set rs" "plain_record buf r" "32 \<le> length buf"
  obtains st' where "choose_drive ps ho (dest_pos r) st = Some st'"
    "installing d buf rs ready (in_file st') (in_drive st')" "view (in_world st') = view (in_world st)"
    "sf_buf (in_file st') ! dest_pos r = sf_buf (in_file st) ! dest_pos r"
    "sf_buf (in_file st) ! dest_pos r = 33 \<Longrightarrow> in_drive st' = d \<and> header_drive (in_file st') = d"
    "sf_end (in_file st') = sf_end (in_file st)"
    "m_nfiles (sf_header (in_file st')) = m_nfiles (sf_header (in_file st))"
    "sf_buf (in_file st) ! dest_pos r \<noteq> 33 \<Longrightarrow> st' = st"
proof -
  have len: "length (sf_buf (in_file st)) = length buf" using inv by (simp add: installing_def)
  have pos: "dest_pos r < length buf" using r by (simp add: plain_record_def)
  have rd: "rd (sf_buf (in_file st)) (int (dest_pos r)) = Some (sf_buf (in_file st) ! dest_pos r)"
    using len pos by (intro rd_nat) simp
  show ?thesis
  proof (cases "sf_buf (in_file st) ! dest_pos r = 33")
    case False
    then show ?thesis using rd inv by (intro that [of st]) (simp_all add: choose_drive_def)
  next
    case True
    obtain st1 where st1: "(if in_drive st = 0 then selectDrive ps ho st else Some st) = Some st1"
        "in_drive st1 = d" "in_file st1 = in_file st" "view (in_world st1) = view (in_world st)"
    proof (cases "in_drive st = 0")
      case True
      then obtain w' where "selectDrive ps ho st = Some (st\<lparr>in_drive := d, in_world := w'\<rparr>)"
          "view w' = view (in_world st)"
        using ps unfolding picks_def by blast
      with True show ?thesis by (intro that [of "st\<lparr>in_drive := d, in_world := w'\<rparr>"]) simp_all
    next
      case False
      then show ?thesis using inv(1) by (intro that [of st]) (simp_all add: installing_def)
    qed
    obtain f' where f': "sisfile_setDrive d (in_file st) = Some f'"
        "sf_fileRecords f' = sf_fileRecords (in_file st)"
        "length (sf_buf f') = length (sf_buf (in_file st))"
        "\<forall>i. i \<notin> {26..<32} \<longrightarrow> sf_buf f' ! i = sf_buf (in_file st) ! i"
        "sf_end f' = sf_end (in_file st)" "header_drive f' = d"
        "m_nfiles (sf_header f') = m_nfiles (sf_header (in_file st))"
      using setDrive_patch [of "in_file st" d] r(3) len by metis
    have "installing d buf rs ready f' d"
      using installing_cong [OF inv(1,2) f'(2-4) inv(3)] by simp
    moreover have "dest_pos r \<notin> {26..<32}" using inv(2) r(1) by (auto simp: clear_of_patches_def)
    ultimately show ?thesis
      using rd True st1 f' by (intro that [of "st1\<lparr>in_file := f'\<rparr>"]) (simp_all add: choose_drive_def)
  qed
qed

text \<open>Destination and contents of a record in a buffer that has been patched.\<close>

lemma installing_slices:
  assumes "installing d buf rs ready f dr" "clear_of_patches rs" "r \<in> set rs" "plain_record buf r"
  shows "slice (dest_pos r + 1) (dest_len r - 1) (sf_buf f) = slice (dest_pos r + 1) (dest_len r - 1) buf"
    "slice (file_pos r) (file_len r) (sf_buf f) = contents buf r"
proof -
  have same: "sf_buf f ! i = buf ! i" if "i < length buf" "i \<notin> patched rs" for i
    using that assms(1) by (simp add: installing_def)
  have len: "length (sf_buf f) = length buf" using assms(1) by (simp add: installing_def)
  have clear: "i \<notin> patched rs" if "Suc (dest_pos r) \<le> i" "i < dest_pos r + dest_len r" for i
    using that assms(2,3) unfolding clear_of_patches_def by fastforce
  have fclear: "i \<notin> patched rs" if "file_pos r \<le> i" "i < file_pos r + file_len r" for i
    using that assms(2,3) unfolding clear_of_patches_def by fastforce
  have bounds: "dest_pos r + dest_len r \<le> length buf" "file_pos r + file_len r \<le> length buf"
      "0 < dest_len r"
    using assms(4) by (simp_all only: plain_record_def)
  show "slice (dest_pos r + 1) (dest_len r - 1) (sf_buf f) = slice (dest_pos r + 1) (dest_len r - 1) buf"
    by (rule slice_eqI [OF len]) (use bounds in \<open>auto intro!: same dest: clear\<close>)
  show "slice (file_pos r) (file_len r) (sf_buf f) = contents buf r"
    unfolding contents_def by (rule slice_eqI [OF len]) (use bounds in \<open>auto intro!: same dest: fclear\<close>)
qed

lemma target_cons:
  assumes "plain_record buf r"
  shows "target d buf r = c_string ((if buf ! dest_pos r = 33 then d else buf ! dest_pos r) #
           slice (dest_pos r + 1) (dest_len r - 1) buf)"
proof -
  have "slice (dest_pos r) (dest_len r) buf =
      buf ! dest_pos r # slice (dest_pos r + 1) (dest_len r - 1) buf"
    using assms by (intro slice_Cons) (simp_all only: plain_record_def)
  then show ?thesis by (simp add: target_def)
qed

text \<open>\<open>copyFile\<close> from the point where the destination is known.\<close>

lemma copyFile_end:
  assumes "stores ps view" "keeps ho view" "plain_record buf r"
    and inv: "installing d buf rs ready f dr" "clear_of_patches rs" "r \<in> set rs"
  obtains w' where
    "do { l \<leftarrow> at (fr_fileLengths r) 0; ptr \<leftarrow> getFilePtr r (int 0);
          copyBuf ps ho (sf_buf f) ptr (to_int l) name w } = Some w'"
    "view w' = (view w)(name \<mapsto> contents buf r)"
proof -
  have r: "fr_fileLengths r \<noteq> []" "fr_filePtrs r \<noteq> []" "fr_filePtrs r ! 0 < fr_len r"
      "file_len r < 2 ^ 31" "file_pos r + file_len r \<le> length buf"
    using assms(3) unfolding plain_record_def by blast+
  then have "at (fr_fileLengths r) 0 = Some (fr_fileLengths r ! 0)"
      "getFilePtr r (int 0) = Some (Some (file_pos r))"
    by (simp_all add: at_def getFilePtr_def Let_def not_le [symmetric])
  moreover have "to_int (fr_fileLengths r ! 0) = int (file_len r)" using r(4) by (rule sint_less)
  moreover have "length (sf_buf f) = length buf" using inv(1) by (simp add: installing_def)
  ultimately show ?thesis
    using copyBuf_stores [OF assms(1,2), of "file_pos r" "file_len r" "sf_buf f" name w] r(5) that
      installing_slices(2) [OF inv assms(3)] by auto
qed

lemma installing_patched:
  assumes inv: "installing d buf rs ready f dr" "ready \<subseteq> set rs" "r \<in> set rs" and "d \<noteq> 33"
    and "buf ! dest_pos r = 33" "dest_pos r < length buf" "dr = 0 \<or> dr = d"
  shows "installing d buf rs (insert r ready) (f\<lparr>sf_buf := (sf_buf f)[dest_pos r := d]\<rparr>) dr"
  using assms unfolding installing_def patched_def
  by (auto simp: nth_list_update subset_iff)

lemma copyFile_installs:
  assumes env: "stores ps view" "keeps ho view" "picks ps ho view d"
    and inv: "installing d buf rs ready (in_file st) (in_drive st)" "clear_of_patches rs" "ready \<subseteq> set rs"
    and r: "r \<in> set rs" "plain_record buf r" "32 \<le> length buf"
  obtains st' where "copyFile ps ho 0 r st = Some st'"
    "installing d buf rs (insert r ready) (in_file st') (in_drive st')"
    "view (in_world st') = (view (in_world st))(target d buf r \<mapsto> contents buf r)"
    "sf_end (in_file st') = sf_end (in_file st)"
    "m_nfiles (sf_header (in_file st')) = m_nfiles (sf_header (in_file st))"
proof -
  obtain st1 where st1: "choose_drive ps ho (dest_pos r) st = Some st1"
    "installing d buf rs ready (in_file st1) (in_drive st1)" "view (in_world st1) = view (in_world st)"
    "sf_buf (in_file st1) ! dest_pos r = sf_buf (in_file st) ! dest_pos r"
    "sf_buf (in_file st) ! dest_pos r = 33 \<Longrightarrow> in_drive st1 = d \<and> header_drive (in_file st1) = d"
    "sf_end (in_file st1) = sf_end (in_file st)"
    "m_nfiles (sf_header (in_file st1)) = m_nfiles (sf_header (in_file st))"
    using choose_drive_installing [OF env(3) inv r] by metis
  let ?b = "sf_buf (in_file st1)" and ?p = "dest_pos r" and ?n = "dest_len r"
  have plain: "?p < length buf" "?p + ?n \<le> length buf" "0 < ?n" "?n < 256" "fr_destPtr r < fr_len r"
    using r(2) unfolding plain_record_def by linarith+
  have len: "length ?b = length buf" using st1(2) by (simp add: installing_def)
  have d: "d \<noteq> 33" using env(3) by (simp add: picks_def)
  have ptr: "getDestPtr r = Some ?p" using plain by (simp add: getDestPtr_def)
  have n: "to_int (fr_destLength r) = int ?n" using plain(4) by (intro sint_less) simp
  have small: "int ?n < int 256" using plain(4) by (rule of_nat_less_iff [THEN iffD2])
  have dest: "copy_bytes ?b (int ?p) (int ?n) = Some (?b ! ?p # slice (?p + 1) (?n - 1) buf)"
    using plain len by (simp only: copy_bytes_slice slice_Cons installing_slices(1) [OF st1(2) inv(2) r(1,2)])
  show ?thesis
  proof (cases "?b ! ?p = 33")
    case True
    then have drive: "in_drive st1 = d" and orig: "buf ! ?p = 33"
      using st1(2,4,5) r(1) d by (auto simp: installing_def)
    let ?st2 = "set_buf (?b[?p := d]) st1"
    have inv2: "installing d buf rs (insert r ready) (in_file ?st2) (in_drive ?st2)"
      using installing_patched [OF st1(2) inv(3) r(1) d orig plain(1)] drive by (simp add: set_buf_def)
    have up: "int ?p < int (length buf)" using plain(1) by (rule of_nat_less_iff [THEN iffD2])
    have main: "setMainDrive r d ?b = Some (?b[?p := d])"
      using True len plain rd_nat [of ?p ?b] up by (simp add: setMainDrive_def wr_def)
    obtain w' where "do { l \<leftarrow> at (fr_fileLengths r) 0; ptr \<leftarrow> getFilePtr r (int 0);
          copyBuf ps ho (sf_buf (in_file ?st2)) ptr (to_int l)
            (c_string (d # slice (?p + 1) (?n - 1) buf)) (in_world ?st2) } = Some w'"
        "view w' = (view (in_world ?st2))(c_string (d # slice (?p + 1) (?n - 1) buf) \<mapsto> contents buf r)"
      using copyFile_end [OF env(1,2) r(2) inv2 inv(2) r(1)] by blast
    then show ?thesis
      using ptr st1 dest n plain small True drive main inv2 orig target_cons [OF r(2)]
      by (intro that [of "?st2\<lparr>in_world := w'\<rparr>"])
         (auto simp: copyFile_def set_buf_def bind_eq_Some_conv)
  next
    case False
    have ready: "installing d buf rs (insert r ready) (in_file st1) (in_drive st1)"
      using st1(2) False by (simp add: installing_def)
    have t: "target d buf r = c_string (?b ! ?p # slice (?p + 1) (?n - 1) buf)"
      using st1(2) False r(1) target_cons [OF r(2)] by (auto simp: installing_def)
    obtain w' where "do { l \<leftarrow> at (fr_fileLengths r) 0; ptr \<leftarrow> getFilePtr r (int 0);
          copyBuf ps ho ?b ptr (to_int l) (target d buf r) (in_world st1) } = Some w'"
        "view w' = (view (in_world st1))(target d buf r \<mapsto> contents buf r)"
      using copyFile_end [OF env(1,2) r(2) st1(2) inv(2) r(1)] by blast
    then show ?thesis
      using ptr st1 dest n plain small False ready t
      by (intro that [of "st1\<lparr>in_world := w'\<rparr>"]) (auto simp: copyFile_def bind_eq_Some_conv)
  qed
qed

section \<open>The whole installation\<close>

definition installed_files ::
  "byte \<Rightarrow> bytes \<Rightarrow> sis_filerec list \<Rightarrow> (string \<Rightarrow> bytes option) \<Rightarrow> string \<Rightarrow> bytes option" where
  "installed_files d buf rs = fold (\<lambda>r m. m(target d buf r \<mapsto> contents buf r)) (rev rs)"

definition installable :: "sisfile \<Rightarrow> bool" where
  "installable f \<longleftrightarrow>
     sf_fileRecords f \<noteq> [] \<and> unat (m_nfiles (sf_header f)) = length (sf_fileRecords f) \<and>
     (\<forall>r \<in> set (sf_fileRecords f). plain_record (sf_buf f) r) \<and> clear_of_patches (sf_fileRecords f) \<and>
     32 \<le> length (sf_buf f) \<and> unat (sf_end f) \<le> length (sf_buf f) \<and> unat (sf_end f) < 2 ^ 31"

lemma install_loop_installs:
  assumes env: "stores ps view" "keeps ho view" "picks ps ho view d"
    and rs: "clear_of_patches rs" "\<forall>r \<in> set rs. plain_record buf r" "32 \<le> length buf"
  shows "installing d buf rs ready (in_file st) (in_drive st) \<Longrightarrow> ready \<subseteq> set rs \<Longrightarrow>
    \<forall>n \<in> set ns. n < length rs \<Longrightarrow>
    \<exists>st'. install_loop ps ho runsub ns False k st = Some (False, k + length ns, st') \<and>
      installing d buf rs (ready \<union> (!) rs ` set ns) (in_file st') (in_drive st') \<and>
      view (in_world st') =
        fold (\<lambda>r m. m(target d buf r \<mapsto> contents buf r)) (map ((!) rs) ns) (view (in_world st)) \<and>
      sf_end (in_file st') = sf_end (in_file st) \<and>
      m_nfiles (sf_header (in_file st')) = m_nfiles (sf_header (in_file st))"
proof (induction ns arbitrary: ready st k)
  case Nil
  then show ?case by simp
next
  case (Cons n ns)
  let ?r = "rs ! n"
  have r: "?r \<in> set rs" using Cons.prems(3) by simp
  then have plain: "plain_record buf ?r" using rs(2) by blast
  obtain st1 where st1: "copyFile ps ho 0 ?r st = Some st1"
    "installing d buf rs (insert ?r ready) (in_file st1) (in_drive st1)"
    "view (in_world st1) = (view (in_world st))(target d buf ?r \<mapsto> contents buf ?r)"
    "sf_end (in_file st1) = sf_end (in_file st)"
    "m_nfiles (sf_header (in_file st1)) = m_nfiles (sf_header (in_file st))"
    using copyFile_installs [OF env Cons.prems(1) rs(1) Cons.prems(2) r plain rs(3)] by metis
  have "installFile ps ho runsub 0 ?r st = Some (FILE_OK, st1)"
    using st1(1) plain by (simp add: installFile_def plain_record_def)
  moreover have "at (sf_fileRecords (in_file st)) n = Some ?r"
    using Cons.prems(1,3) by (simp add: installing_def at_def)
  ultimately have "install_loop ps ho runsub (n # ns) False k st =
      install_loop ps ho runsub ns False (k + 1) st1"
    by simp
  moreover have "insert ?r ready \<subseteq> set rs" using Cons.prems(2) r by simp
  ultimately show ?case
    using Cons.IH [OF st1(2), of "k + 1"] Cons.prems(3) st1(3-5) by simp
qed

lemma map_nth_rev: "map ((!) xs) (rev [0..<length xs]) = rev xs"
  by (simp add: rev_map [symmetric] map_nth)

lemma installing_start:
  assumes "in_file st = sisfile_setLanguage 0 f" "in_drive st = 0"
  shows "installing d (sf_buf f) (sf_fileRecords f) {} (in_file st) (in_drive st)"
  using assms by (simp add: installing_def sisfile_setLanguage_def)

lemma run_prepare_state:
  "run_prepare ps ho None f installed w = Some (name, st) \<Longrightarrow>
   in_file st = sisfile_setLanguage 0 f \<and> in_drive st = 0"
  by (auto simp: run_prepare_def Let_def bind_eq_Some_conv split: if_splits)

lemma setFiles_patch:
  assumes "32 \<le> length (sf_buf f)" "n < 2 ^ 16"
  obtains f' where "sisfile_setFiles (int n) f = Some f'" "sf_fileRecords f' = sf_fileRecords f"
    "length (sf_buf f') = length (sf_buf f)" "\<forall>i. i \<notin> {26..<32} \<longrightarrow> sf_buf f' ! i = sf_buf f ! i"
    "sf_end f' = sf_end f" "unat (m_installationFiles (sf_header f')) = n"
    "m_nfiles (sf_header f') = m_nfiles (sf_header f)"
proof -
  let ?h = "(sf_header f)\<lparr>m_installationFiles := word_of_int (int n)\<rparr>"
  let ?b = "(sf_buf f)[26 := word_of_int (int n AND 255), 27 := word_of_int (drop_bit 8 (int n) AND 255)]"
  have e: "sisfile_setFiles (int n) f = Some (f\<lparr>sf_header := ?h, sf_buf := ?b\<rparr>)"
    using assms(1) by (simp add: sisfile_setFiles_def header_setFiles_def write16_def wr_def OFF_NUMBER_OF_FILES_def)
  show ?thesis
    using assms(2) by (intro that [OF e]) (auto simp: nth_list_update_neq unat_of_nat)
qed

lemma sis_run_installs:
  assumes env: "stores ps view" "keeps ho view" "picks ps ho view d"
    and prep: "run_prepare ps ho None f installed w = Some (name, st)"
    and f: "installable f" and name: "length (residual_name name) \<le> 255"
  obtains f' inst w' where "sis_run ps ho (Suc depth) None f installed w = Some (SIS_OK, f', inst, w')"
    "view w' = (installed_files d (sf_buf f) (sf_fileRecords f) (view (in_world st)))
       (residual_name name \<mapsto> take (unat (sf_end f)) (sf_buf f'))"
    "\<exists>dr. installing d (sf_buf f) (sf_fileRecords f) (set (sf_fileRecords f)) f' dr"
    "unat (m_installationFiles (sf_header f')) = length (sf_fileRecords f)"
    "m_nfiles (sf_header f') = m_nfiles (sf_header f)"
proof -
  let ?rs = "sf_fileRecords f" and ?buf = "sf_buf f"
  have n: "unat (m_nfiles (sf_header f)) = length ?rs" "?rs \<noteq> []" "\<forall>r \<in> set ?rs. plain_record ?buf r"
      "clear_of_patches ?rs" "32 \<le> length ?buf" "unat (sf_end f) \<le> length ?buf" "unat (sf_end f) < 2 ^ 31"
    using f unfolding installable_def by blast+
  have st: "in_file st = sisfile_setLanguage 0 f" "in_drive st = 0"
    using run_prepare_state [OF prep] by simp_all
  obtain st1 where st1: "install_loop ps ho (sis_run ps ho depth) (rev [0..<length ?rs]) False 0 st =
        Some (False, length ?rs, st1)"
      "installing d ?buf ?rs (set ?rs) (in_file st1) (in_drive st1)"
      "view (in_world st1) = installed_files d ?buf ?rs (view (in_world st))"
      "sf_end (in_file st1) = sf_end f" "m_nfiles (sf_header (in_file st1)) = m_nfiles (sf_header f)"
    using install_loop_installs [OF env n(4,3,5) installing_start [OF st],
        of "rev [0..<length ?rs]" "sis_run ps ho depth" 0] st
    by (auto simp: map_nth_rev installed_files_def nth_image sisfile_setLanguage_def)
  obtain f' where f': "sisfile_setFiles (int (length ?rs)) (in_file st1) = Some f'"
      "sf_fileRecords f' = sf_fileRecords (in_file st1)"
      "length (sf_buf f') = length (sf_buf (in_file st1))"
      "\<forall>i. i \<notin> {26..<32} \<longrightarrow> sf_buf f' ! i = sf_buf (in_file st1) ! i"
      "sf_end f' = sf_end (in_file st1)" "unat (m_installationFiles (sf_header f')) = length ?rs"
      "m_nfiles (sf_header f') = m_nfiles (sf_header (in_file st1))"
  proof (rule setFiles_patch [of "in_file st1" "length ?rs"])
    show "32 \<le> length (sf_buf (in_file st1))" using st1(2) n(5) by (simp add: installing_def)
    show "length ?rs < 2 ^ 16" using unsigned_less [of "m_nfiles (sf_header f)", where ?'a = nat] n(1) by simp
  qed auto
  have inv: "installing d ?buf ?rs (set ?rs) f' (in_drive st1)"
    by (rule installing_cong [OF st1(2) n(4) f'(2-4) subset_refl])
       (use st1(2) in \<open>simp add: installing_def\<close>)
  then have len: "length (sf_buf f') = length ?buf" by (simp add: installing_def)
  have e: "to_int (sf_end f') = int (unat (sf_end f))" "slice 0 (unat (sf_end f)) (sf_buf f') = take (unat (sf_end f)) (sf_buf f')"
    using sint_less [OF n(7)] st1(4) f'(5) by (simp_all add: slice_def)
  obtain w' where w': "copyBuf ps ho (sf_buf f') (Some 0) (int (unat (sf_end f))) (residual_name name) (in_world st1) = Some w'"
      "view w' = (view (in_world st1))(residual_name name \<mapsto> take (unat (sf_end f)) (sf_buf f'))"
    using copyBuf_stores [OF env(1,2), of 0 "unat (sf_end f)" "sf_buf f'" "residual_name name" "in_world st1"]
      n(6) len e(2) by auto
  have "sis_run ps ho (Suc depth) None f installed w = Some (SIS_OK, f', in_installed st1, w')"
    using prep st1(1) f'(1) n(1,2) name w'(1) e(1) by (simp add: run_finish_def)
  then show ?thesis
    using that w'(2) st1(3,5) inv f'(6,7) by auto
qed

section \<open>Uninstalling\<close>

lemma uninstall_loop_removes:
  assumes "stores ps view" "installing d buf rs (set rs) f dr" "clear_of_patches rs"
    "\<forall>r \<in> set rs. plain_record buf r" "set xs \<subseteq> set rs"
  shows "\<exists>w'. uninstall_loop ps e xs (sf_buf f) w = Some (sf_buf f, w') \<and>
    view w' = (\<lambda>n. if n \<in> target d buf ` set xs then None else view w n)"
  using assms(5)
proof (induction xs arbitrary: w)
  case Nil
  then show ?case by simp
next
  case (Cons r xs)
  let ?b = "sf_buf f" and ?p = "dest_pos r" and ?n = "dest_len r"
  have r: "r \<in> set rs" "plain_record buf r" using Cons.prems assms(4) by auto
  have plain: "?p < length buf" "?p + ?n \<le> length buf" "0 < ?n" "?n < 256" "fr_destPtr r < fr_len r"
      "fr_fileType r = 0"
    using r(2) unfolding plain_record_def by linarith+
  have len: "length ?b = length buf" using assms(2) by (simp add: installing_def)
  have b: "?b ! ?p \<noteq> 33" "?b ! ?p = (if buf ! ?p = 33 then d else buf ! ?p)"
    using assms(2) r(1) by (auto simp: installing_def)
  have "rd ?b (int ?p) = Some (?b ! ?p)" using plain(1) len by (intro rd_nat) simp
  then have drive: "setMainDrive r e ?b = Some ?b" using b(1) by (simp add: setMainDrive_def)
  have "copy_bytes ?b (int ?p) (int ?n) = Some (?b ! ?p # slice (?p + 1) (?n - 1) buf)"
    using plain len by (simp only: copy_bytes_slice slice_Cons installing_slices(1) [OF assms(2,3) r])
  moreover have "int ?n < int 256" using plain(4) by (rule of_nat_less_iff [THEN iffD2])
  moreover have "to_int (fr_destLength r) = int ?n" using plain(4) by (intro sint_less) simp
  ultimately have "uninstallFile ps r ?b w = Some (ps_remove ps (target d buf r) w)"
    using plain b(2) by (simp add: uninstallFile_def removeFile_def getDestPtr_def target_cons [OF r(2)])
  moreover have "view (ps_remove ps (target d buf r) w) = (view w)(target d buf r := None)"
    using assms(1) by (simp add: stores_def)
  moreover obtain w' where "uninstall_loop ps e xs ?b (ps_remove ps (target d buf r) w) = Some (?b, w')"
      "view w' = (\<lambda>n. if n \<in> target d buf ` set xs then None else view (ps_remove ps (target d buf r) w) n)"
    using Cons by auto
  ultimately show ?case using drive by auto
qed

lemma uninstall_removes:
  assumes "stores ps view" "installing d buf rs (set rs) f dr" "clear_of_patches rs"
    "\<forall>r \<in> set rs. plain_record buf r"
    and "unat (m_nfiles (sf_header f)) = length rs" "unat (m_installationFiles (sf_header f)) = length rs"
  shows "\<exists>w'. uninstall ps f w = Some (f, w') \<and>
    view w' = (\<lambda>n. if n \<in> target d buf ` set rs then None else view w n)"
proof -
  have "sf_fileRecords f = rs" using assms(2) by (simp add: installing_def)
  then show ?thesis
    using uninstall_loop_removes [OF assms(1-4) subset_refl, of "header_drive f" w] assms(5,6)
    by (auto simp: uninstall_def)
qed

lemma fold_files_other:
  "n \<notin> target d buf ` set xs \<Longrightarrow> fold (\<lambda>r m. m(target d buf r \<mapsto> contents buf r)) xs m n = m n"
  by (induction xs arbitrary: m) auto

lemma installed_files_other:
  "n \<notin> target d buf ` set rs \<Longrightarrow> installed_files d buf rs m n = m n"
  by (simp add: installed_files_def fold_files_other)

text \<open>
  C8: Installing a SIS file puts every file it holds on the device. The device may be any for which
  copying stores a file under its name; the records are of plain files inside the buffer, with
  destinations of less than 256 characters. A destination that begins with an exclamation mark goes
  to the drive \<open>d\<close> that the installer picks, and of two records with the same destination the
  first one stays. The rest of the device is what it was after the old version was removed,
  except for the residual SIS file that a later installation reads.
\<close>

theorem sis_install_stores_files:
  assumes "stores ps view" "keeps ho view" "picks ps ho view d"
    and "run_prepare ps ho None f installed w = Some (name, st)"
    and "installable f" and "length (residual_name name) \<le> 255"
  shows "\<exists>f' inst w'. sis_run ps ho (Suc depth) None f installed w = Some (SIS_OK, f', inst, w') \<and>
    view w' = (installed_files d (sf_buf f) (sf_fileRecords f) (view (in_world st)))
       (residual_name name \<mapsto> take (unat (sf_end f)) (sf_buf f'))"
  by (rule sis_run_installs [OF assms]) blast


section \<open>An example\<close>

text \<open>A device that is its files, a host without trouble, and a file with two records.\<close>

definition store_psion :: "(string \<Rightarrow> bytes option) psion" where
  "store_psion = fakePsion\<lparr>ps_copyToPsion := (\<lambda>c n w. (E_PSI_GEN_NONE, w(n \<mapsto> c))),
     ps_remove := (\<lambda>n w. w(n := None))\<rparr>"

definition store_host :: "drive \<Rightarrow> sis_header \<Rightarrow> 'w host" where
  "store_host dr h = \<lparr>ho_mkstemp = Pair True, ho_write = (\<lambda>b w. (True, w)),
     ho_fgets = (\<lambda>n w. (None, w)), ho_drive = dr, ho_header = h\<rparr>"

definition small_record :: "32 word \<Rightarrow> 32 word \<Rightarrow> sis_filerec" where
  "small_record dest data = \<lparr>fr_flags = 0, fr_fileType = 0, fr_fileDetails = 0, fr_sourceLength = 0,
     fr_sourcePtr = 0, fr_destLength = 4, fr_destPtr = dest, fr_fileLengths = [3],
     fr_filePtrs = [data], fr_len = 54\<rparr>"

definition small_sis :: "sis_header \<Rightarrow> sisfile" where
  "small_sis h =
     \<lparr>sf_header = h\<lparr>m_nlangs := 1, m_nfiles := 2\<rparr>, sf_langRecords = [1],
      sf_fileRecords = [small_record 40 48, small_record 44 51], sf_reqRecords = [],
      sf_componentRecord = \<lparr>cn_nameLengths = [3], cn_namePtrs = [0], cn_names = [ascii ''App'' @ [0]],
        cn_nameCount = Some 1\<rparr>,
      sf_buf = replicate 40 0 @ ascii ''!:/aD:/b'' @ [1, 2, 3, 4, 5, 6], sf_end = 48\<rparr>"

lemma store_env:
  "stores store_psion (\<lambda>w. w)" "keeps (store_host dr h) (\<lambda>w. w)"
  "picks store_psion (store_host dr h) (\<lambda>w. w) 67"
  by (auto simp: stores_def keeps_def picks_def store_psion_def fakePsion_def store_host_def
      selectDrive_def E_PSI_GEN_NONE_def E_PSI_GEN_FAIL_def)

lemma small_prepare:
  "run_prepare store_psion (store_host dr h) None (small_sis h) [] w =
   Some (''App'', \<lparr>in_file = sisfile_setLanguage 0 (small_sis h), in_drive = 0, in_installed = [], in_world = w\<rparr>)"
  by (simp add: run_prepare_def small_sis_def sisfile_getLanguage_def sisfile_getName_def component_getName_def
      sisfile_setLanguage_def store_psion_def fakePsion_def loadInstalled_def uninstall_old_def old_version_def
      c_string_def ascii_def chars_def E_PSI_GEN_NONE_def char_of_def bit_Suc_0_iff)

lemma small_installable: "installable (small_sis h)"
  by (simp add: installable_def small_sis_def small_record_def plain_record_def clear_of_patches_def
      patched_def)

lemma small_targets:
  "target 67 (sf_buf (small_sis h)) ` set (sf_fileRecords (small_sis h)) = {''C:/a'', ''D:/b''}"
  by (simp add: small_sis_def small_record_def target_def slice_def c_string_def ascii_def chars_def Let_def char_of_def bit_Suc_0_iff)

theorem sis_install_stores_files_witness:
  "\<forall>dr h. \<exists>f' inst w'. sis_run store_psion (store_host dr h) 1 None (small_sis h) [] Map.empty =
       Some (SIS_OK, f', inst, w') \<and>
     w' ''C:/a'' = Some [1, 2, 3] \<and> w' ''D:/b'' = Some [4, 5, 6]" (is "\<forall>dr h. ?P dr h")
proof (intro allI)
  fix dr :: drive and h :: sis_header
  have "length (residual_name ''App'') \<le> 255" by (simp add: residual_name_def)
  note run = sis_install_stores_files [OF store_env small_prepare [of dr h Map.empty] small_installable this, where depth = 0]
  have "installed_files 67 (sf_buf (small_sis h)) (sf_fileRecords (small_sis h)) m =
      m(''D:/b'' \<mapsto> [4, 5, 6], ''C:/a'' \<mapsto> [1, 2, 3])" for m
    by (simp add: installed_files_def small_sis_def small_record_def target_def contents_def slice_def
        c_string_def ascii_def chars_def Let_def char_of_def bit_Suc_0_iff)
  with run show "?P dr h" by (auto simp: residual_name_def)
qed


end
