(* ===== verification/Clients.thy ===== *)
theory Clients
  imports Rpcs_Lemmas
begin

text \<open>
  The small clients of the daemon: how a client finds out which machine is connected
  (\<open>lib/ncpclient.h\<close>, \<open>lib/rpcsfactory.cc\<close>, \<open>lib/rfsvfactory.cc\<close>), the clipboard notification
  of \<open>lib/rclip.cc\<close> and the print spooler of \<open>lib/wprt.cc\<close>, over the connection of \<open>Rfsv\<close>. The
  locale \<open>plp_client\<close> states what the clients have in common: a request is sent again after one
  reconnection, and a failure leaves the status of a broken connection.
\<close>

section \<open>Selecting the client\<close>

definition FACERR_NONE :: int where "FACERR_NONE = 0"
definition FACERR_COULD_NOT_SEND :: int where "FACERR_COULD_NOT_SEND = 1"
definition FACERR_AGAIN :: int where "FACERR_AGAIN = 2"
definition FACERR_NOPSION :: int where "FACERR_NOPSION = 3"
definition FACERR_PROTVERSION :: int where "FACERR_PROTVERSION = 4"
definition FACERR_NORESPONSE :: int where "FACERR_NORESPONSE = 5"
definition FACERR_CONNECTION_FAILURE :: int where "FACERR_CONNECTION_FAILURE = 6"

lemmas facerr_defs =
  FACERR_NONE_def FACERR_COULD_NOT_SEND_def FACERR_AGAIN_def FACERR_NOPSION_def
  FACERR_PROTVERSION_def FACERR_NORESPONSE_def FACERR_CONNECTION_FAILURE_def

datatype client = Client16 | Client32

text \<open>
  \<open>strncmp (a.getString (), name, 8) == 0\<close> for a name of eight characters, of a reply longer
  than eight bytes.
\<close>

definition begins_with :: "string \<Rightarrow> bytes \<Rightarrow> bool" where
  "begins_with name a \<longleftrightarrow> length a > 8 \<and> take 8 a = ascii name"

text \<open>
  \<open>connected\<close> is the result of \<open>TCPSocket::connect\<close>. After a failed request the socket is
  reconnected only if the caller wants to wait.
\<close>

definition client_connect ::
  "'w socket \<Rightarrow> bool \<Rightarrow> bool \<Rightarrow> 'w \<Rightarrow> client option \<times> int \<times> 'w" where
  "client_connect so connected waitForDevice w =
     (if \<not> connected then (None, FACERR_CONNECTION_FAILURE, w)
      else let (ok, w) = so_send so (stringT ''NCP$INFO'') w
      in if \<not> ok then
           (if \<not> waitForDevice then (None, FACERR_COULD_NOT_SEND, w)
            else (None, FACERR_AGAIN, so_reconnect so w))
      else case so_recv so w of
        (None, w) \<Rightarrow> (None, FACERR_NORESPONSE, w)
      | (Some a, w) \<Rightarrow>
          if begins_with ''Series 3'' a then (Some Client16, FACERR_NONE, w)
          else if begins_with ''Series 5'' a then (Some Client32, FACERR_NONE, w)
          else if begins_with ''No Psion'' a then (None, FACERR_NOPSION, so_reconnect so w)
          else (None, FACERR_PROTVERSION, w))"

definition rpcs_connect ::
  "'w socket \<Rightarrow> bool \<Rightarrow> psi_timezone option \<Rightarrow> 'w \<Rightarrow> (client \<times> 'w rpcs) option \<times> int \<times> 'w" where
  "rpcs_connect so connected zone w =
     (case client_connect so connected False w of
        (None, e, w) \<Rightarrow> (None, e, w)
      | (Some c, e, w) \<Rightarrow> (Some (c, rpcs_construct so zone w), e, w))"

definition rfsv_factory_create ::
  "'w socket \<Rightarrow> bool \<Rightarrow> bool \<Rightarrow> 'w \<Rightarrow> (client \<times> 'w rfsv) option \<times> int \<times> 'w" where
  "rfsv_factory_create so connected reconnect w =
     (case client_connect so connected reconnect w of
        (None, e, w) \<Rightarrow> (None, e, w)
      | (Some c, e, w) \<Rightarrow> (Some (c, rfsv_construct so w), e, w))"

section \<open>The clipboard\<close>

record 'w rclip =
  cl_status :: int
  cl_world :: 'w

definition RCLIP_INIT :: byte where "RCLIP_INIT = 0x00"
definition RCLIP_NOTIFY :: byte where "RCLIP_NOTIFY = 0x08"
definition RCLIP_LISTEN :: byte where "RCLIP_LISTEN = 0x04"

lemmas rclip_commands = RCLIP_INIT_def RCLIP_NOTIFY_def RCLIP_LISTEN_def

definition rclip_send :: "'w socket \<Rightarrow> bytes \<Rightarrow> 'w rclip \<Rightarrow> bool \<times> 'w rclip" where
  "rclip_send so b s = (let (ok, w) = so_send so b (cl_world s) in (ok, s\<lparr>cl_world := w\<rparr>))"

definition rclip_recv :: "'w socket \<Rightarrow> 'w rclip \<Rightarrow> bytes option \<times> 'w rclip" where
  "rclip_recv so s = (let (r, w) = so_recv so (cl_world s) in (r, s\<lparr>cl_world := w\<rparr>))"

definition rclip_reset :: "'w socket \<Rightarrow> 'w rclip \<Rightarrow> 'w rclip" where
  "rclip_reset so s =
     (let (ok, s) = rclip_send so (stringT ''CLIPSVR.RSY'') (s\<lparr>cl_status := E_PSI_FILE_DISC\<rparr>)
      in if \<not> ok then s
      else case rclip_recv so s of
        (None, s) \<Rightarrow> s
      | (Some a, s) \<Rightarrow>
          if peekString so a 0 = ''NAK'' then s\<lparr>cl_status := E_PSI_GEN_NSUP\<rparr>
          else if peekString so a 0 = ''Ok'' then s\<lparr>cl_status := E_PSI_GEN_NONE\<rparr> else s)"

definition rclip_reconnect :: "'w socket \<Rightarrow> 'w rclip \<Rightarrow> 'w rclip" where
  "rclip_reconnect so s = rclip_reset so (s\<lparr>cl_world := so_reconnect so (cl_world s)\<rparr>)"

definition rclip_construct :: "'w socket \<Rightarrow> 'w \<Rightarrow> 'w rclip" where
  "rclip_construct so w = rclip_reset so \<lparr>cl_status = E_PSI_GEN_NONE, cl_world = w\<rparr>"

definition rclip_connect :: "'w socket \<Rightarrow> bool \<Rightarrow> 'w \<Rightarrow> 'w rclip option \<times> int" where
  "rclip_connect so connected w =
     (if \<not> connected then (None, FACERR_CONNECTION_FAILURE)
      else (Some (rclip_construct so w), FACERR_NONE))"

definition rclip_request :: "byte \<Rightarrow> bytes" where
  "rclip_request cc = cc # (if cc = RCLIP_INIT then le16 0x100 else if cc = RCLIP_NOTIFY then [0] else [])"

definition rclip_sendCommand :: "'w socket \<Rightarrow> byte \<Rightarrow> 'w rclip \<Rightarrow> bool \<times> 'w rclip" where
  "rclip_sendCommand so cc s =
     (let s = (if cl_status s = E_PSI_FILE_DISC then rclip_reconnect so s else s)
      in if cl_status s \<noteq> E_PSI_GEN_NONE then (False, s)
      else let a = rclip_request cc; (result, s) = rclip_send so a s
      in if result then (True, s)
      else let (result, s) = rclip_send so a (rclip_reconnect so s)
      in if result then (True, s) else (False, s\<lparr>cl_status := E_PSI_FILE_DISC\<rparr>))"

definition rclip_getResponse :: "'w socket \<Rightarrow> 'w rclip \<Rightarrow> int \<times> bytes \<times> 'w rclip" where
  "rclip_getResponse so s =
     (if cl_status s = E_PSI_GEN_NSUP then (cl_status s, [], s)
      else case rclip_recv so s of
        (Some a, s) \<Rightarrow> (E_PSI_GEN_NONE, a, s)
      | (None, s) \<Rightarrow> (E_PSI_FILE_DISC, [], s\<lparr>cl_status := E_PSI_FILE_DISC\<rparr>))"

definition sendListen :: "'w socket \<Rightarrow> 'w rclip \<Rightarrow> int \<times> 'w rclip" where
  "sendListen so s =
     (let (ok, s) = rclip_sendCommand so RCLIP_LISTEN s in (if ok then E_PSI_GEN_NONE else cl_status s, s))"

text \<open>
  \<open>poll\<close> is \<open>getBufferStore\<close> without waiting: its result and the buffer. The variable \<open>ret\<close>
  starts as \<open>E_PSI_GEN_NONE\<close>, the default of its enumeration.
\<close>

definition checkNotify :: "('w \<Rightarrow> int \<times> bytes \<times> 'w) \<Rightarrow> 'w rclip \<Rightarrow> int \<times> 'w rclip" where
  "checkNotify poll s =
     (let (r, a, w) = poll (cl_world s); s = s\<lparr>cl_world := w\<rparr>
      in if r < 0 then (E_PSI_FILE_DISC, s\<lparr>cl_status := E_PSI_FILE_DISC\<rparr>)
      else if r = 0 then (E_PSI_FILE_EOF, s)
      else if a \<noteq> [0] then (E_PSI_GEN_FAIL, s)
      else (E_PSI_GEN_NONE, s))"

text \<open>The three requests that wait for a reply do so whether or not they could be sent.\<close>

definition waitNotify :: "'w socket \<Rightarrow> 'w rclip \<Rightarrow> int \<times> 'w rclip" where
  "waitNotify so s =
     (let (_, s) = rclip_sendCommand so RCLIP_LISTEN s; (ret, a, s) = rclip_getResponse so s
      in (if ret = E_PSI_GEN_NONE \<and> a \<noteq> [0] then E_PSI_GEN_FAIL else ret, s))"

definition rclip_notify :: "'w socket \<Rightarrow> 'w rclip \<Rightarrow> int \<times> 'w rclip" where
  "rclip_notify so s =
     (let (_, s) = rclip_sendCommand so RCLIP_NOTIFY s; (ret, a, s) = rclip_getResponse so s
      in (if ret = E_PSI_GEN_NONE \<and> a \<noteq> [RCLIP_NOTIFY] then E_PSI_GEN_FAIL else ret, s))"

definition initClipbd :: "'w socket \<Rightarrow> 'w rclip \<Rightarrow> int \<times> 'w rclip" where
  "initClipbd so s =
     (if cl_status s \<noteq> E_PSI_GEN_NONE then (cl_status s, s)
      else let (_, s) = rclip_sendCommand so RCLIP_INIT s; (ret, a, s) = rclip_getResponse so s
      in (if ret = E_PSI_GEN_NONE \<and>
             (length a \<noteq> 3 \<or> peek so a 0 \<noteq> RCLIP_INIT \<or> peekWord so a 1 \<noteq> 0x100)
          then E_PSI_GEN_FAIL else ret, s))"

section \<open>The print spooler\<close>

record 'w wprt =
  wp_status :: int
  wp_world :: 'w

definition WPRT_INIT :: byte where "WPRT_INIT = 0x00"
definition WPRT_GET :: byte where "WPRT_GET = 0xf0"
definition WPRT_CANCEL :: byte where "WPRT_CANCEL = 0xf1"
definition WPRT_STOP :: byte where "WPRT_STOP = 0xff"

definition wprt_send :: "'w socket \<Rightarrow> bytes \<Rightarrow> 'w wprt \<Rightarrow> bool \<times> 'w wprt" where
  "wprt_send so b s = (let (ok, w) = so_send so b (wp_world s) in (ok, s\<lparr>wp_world := w\<rparr>))"

definition wprt_recv :: "'w socket \<Rightarrow> 'w wprt \<Rightarrow> bytes option \<times> 'w wprt" where
  "wprt_recv so s = (let (r, w) = so_recv so (wp_world s) in (r, s\<lparr>wp_world := w\<rparr>))"

definition wprt_reset :: "'w socket \<Rightarrow> 'w wprt \<Rightarrow> 'w wprt" where
  "wprt_reset so s =
     (let (ok, s) = wprt_send so (stringT ''SYS$WPRT'') (s\<lparr>wp_status := E_PSI_FILE_DISC\<rparr>)
      in if \<not> ok then s
      else case wprt_recv so s of
        (None, s) \<Rightarrow> s
      | (Some a, s) \<Rightarrow> if peekString so a 0 = ''Ok'' then s\<lparr>wp_status := E_PSI_GEN_NONE\<rparr> else s)"

definition wprt_reconnect :: "'w socket \<Rightarrow> 'w wprt \<Rightarrow> 'w wprt" where
  "wprt_reconnect so s = wprt_reset so (s\<lparr>wp_world := so_reconnect so (wp_world s)\<rparr>)"

definition wprt_construct :: "'w socket \<Rightarrow> 'w \<Rightarrow> 'w wprt" where
  "wprt_construct so w = wprt_reset so \<lparr>wp_status = E_PSI_GEN_NONE, wp_world = w\<rparr>"

definition wprt_sendCommand :: "'w socket \<Rightarrow> byte \<Rightarrow> bytes \<Rightarrow> 'w wprt \<Rightarrow> bool \<times> 'w wprt" where
  "wprt_sendCommand so cc data s =
     (let s = (if wp_status s = E_PSI_FILE_DISC then wprt_reconnect so s else s)
      in if wp_status s = E_PSI_FILE_DISC then (False, s)
      else let a = cc # data; (result, s) = wprt_send so a s
      in if result then (True, s)
      else let (result, s) = wprt_send so a (wprt_reconnect so s)
      in if result then (True, s) else (False, s\<lparr>wp_status := E_PSI_FILE_DISC\<rparr>))"

definition wprt_getResponse :: "'w socket \<Rightarrow> 'w wprt \<Rightarrow> int \<times> bytes \<times> 'w wprt" where
  "wprt_getResponse so s =
     (case wprt_recv so s of
        (Some a, s) \<Rightarrow> (E_PSI_GEN_NONE, a, s)
      | (None, s) \<Rightarrow> (E_PSI_FILE_DISC, [], s\<lparr>wp_status := E_PSI_FILE_DISC\<rparr>))"

definition initPrinter :: "'w socket \<Rightarrow> 'w wprt \<Rightarrow> int \<times> 'w wprt" where
  "initPrinter so s =
     (let (_, s) = wprt_sendCommand so WPRT_INIT [2, 0] s; (ret, a, s) = wprt_getResponse so s
      in (if ret = E_PSI_GEN_NONE \<and> (length a \<noteq> 3 \<or> peek so a 0 \<noteq> 0 \<or> peekWord so a 1 \<noteq> 2)
          then E_PSI_GEN_FAIL else ret, s))"

definition getData :: "'w socket \<Rightarrow> bytes \<Rightarrow> 'w wprt \<Rightarrow> int \<times> bytes \<times> 'w wprt" where
  "getData so buf s = (let (_, s) = wprt_sendCommand so WPRT_GET buf s in wprt_getResponse so s)"

definition cancelJob :: "'w socket \<Rightarrow> 'w wprt \<Rightarrow> int \<times> 'w wprt" where
  "cancelJob so s =
     (let (_, s) = wprt_sendCommand so WPRT_CANCEL [] s; (ret, a, s) = wprt_getResponse so s in (ret, s))"

definition wprt_stop :: "'w socket \<Rightarrow> 'w wprt \<Rightarrow> bool \<times> 'w wprt" where
  "wprt_stop so s = wprt_sendCommand so WPRT_STOP [] s"

section \<open>What the clients have in common\<close>

text \<open>
  A client of a server on the Psion: its status, the reconnection, one attempt to send, and the
  request that is built of them.
\<close>

locale plp_client =
  fixes status :: "'s \<Rightarrow> int"
    and reconnect :: "'s \<Rightarrow> 's"
    and send :: "bytes \<Rightarrow> 's \<Rightarrow> bool \<times> 's"
    and disconnected :: "'s \<Rightarrow> 's"
    and command :: "byte \<Rightarrow> bytes \<Rightarrow> 's \<Rightarrow> bool \<times> 's"
  assumes send_status: "send a s = (ok, s') \<Longrightarrow> status s' = status s"
    and disconnected_status: "status (disconnected s) = E_PSI_FILE_DISC"
    and command_eq: "command cc data s =
      (let s = (if status s = E_PSI_FILE_DISC then reconnect s else s)
       in if status s = E_PSI_FILE_DISC then (False, s)
       else let (result, s) = send (cc # data) s
       in if result then (True, s)
       else let (result, s) = send (cc # data) (reconnect s)
       in if result then (True, s) else (False, disconnected s))"
begin

lemma command_failed: "command cc data s = (False, s') \<Longrightarrow> status s' = E_PSI_FILE_DISC"
  by (auto simp: command_eq Let_def disconnected_status split: prod.splits if_splits)

lemma command_sent:
  "command cc data s = (True, s') \<Longrightarrow> \<exists>s1. send (cc # data) s1 = (True, s') \<and> status s' = status s1"
  by (auto simp: command_eq Let_def dest: send_status split: prod.splits if_splits)

lemma command_direct:
  "status s \<noteq> E_PSI_FILE_DISC \<Longrightarrow> send (cc # data) s = (True, s') \<Longrightarrow> command cc data s = (True, s')"
  by (simp add: command_eq)

text \<open>A connection that stays broken is given up after one reconnection.\<close>

lemma command_gives_up:
  "status s = E_PSI_FILE_DISC \<Longrightarrow> status (reconnect s) = E_PSI_FILE_DISC \<Longrightarrow>
   command cc data s = (False, reconnect s)"
  by (simp add: command_eq)

end

interpretation rpcs_client: plp_client p_status "rpcs_reconnect so" "rpcs_send so"
  "\<lambda>s. s\<lparr>p_status := E_PSI_FILE_DISC\<rparr>" "rpcs_sendCommand so"
  by unfold_locales (auto simp: rpcs_send_def rpcs_sendCommand_def Let_def split: prod.splits)

interpretation wprt_client: plp_client wp_status "wprt_reconnect so" "wprt_send so"
  "\<lambda>s. s\<lparr>wp_status := E_PSI_FILE_DISC\<rparr>" "wprt_sendCommand so"
  by unfold_locales (auto simp: wprt_send_def wprt_sendCommand_def Let_def split: prod.splits)

lemma rpcs_send_world: "rpcs_send so b s = (True, s') \<Longrightarrow> so_send so b (p_world s) = (True, p_world s')"
  by (auto simp: rpcs_send_def split: prod.splits)

lemma wprt_send_world: "wprt_send so b s = (True, s') \<Longrightarrow> so_send so b (wp_world s) = (True, wp_world s')"
  by (auto simp: wprt_send_def split: prod.splits)

lemma rpcs_command_world:
  "rpcs_sendCommand so cc data s = (True, s') \<Longrightarrow> \<exists>w. so_send so (cc # data) w = (True, p_world s')"
  by (drule rpcs_client.command_sent) (auto dest: rpcs_send_world)

lemma wprt_command_world:
  "wprt_sendCommand so cc data s = (True, s') \<Longrightarrow> \<exists>w. so_send so (cc # data) w = (True, wp_world s')"
  by (drule wprt_client.command_sent) (auto dest: wprt_send_world)

text \<open>
  The clients for remote calls and for printing report a broken connection. A request either
  has been sent, as its command byte and its data, or the status is that of a broken
  connection; a status that one reconnection does not repair sends nothing.
\<close>

theorem clients_report_failure:
  "(rpcs_sendCommand so cc data s = (False, s') \<longrightarrow> p_status s' = E_PSI_FILE_DISC) \<and>
   (rpcs_sendCommand so cc data s = (True, s') \<longrightarrow> (\<exists>w. so_send so (cc # data) w = (True, p_world s'))) \<and>
   (p_status s = E_PSI_FILE_DISC \<and> p_status (rpcs_reconnect so s) = E_PSI_FILE_DISC \<longrightarrow>
      rpcs_sendCommand so cc data s = (False, rpcs_reconnect so s)) \<and>
   (wprt_sendCommand so cc data t = (False, t') \<longrightarrow> wp_status t' = E_PSI_FILE_DISC) \<and>
   (wprt_sendCommand so cc data t = (True, t') \<longrightarrow> (\<exists>w. so_send so (cc # data) w = (True, wp_world t'))) \<and>
   (wp_status t = E_PSI_FILE_DISC \<and> wp_status (wprt_reconnect so t) = E_PSI_FILE_DISC \<longrightarrow>
      wprt_sendCommand so cc data t = (False, wprt_reconnect so t))"
  by (intro conjI impI; (elim conjE)?)
     (erule rpcs_client.command_failed wprt_client.command_failed rpcs_command_world wprt_command_world
       | rule rpcs_client.command_gives_up wprt_client.command_gives_up, assumption, assumption)+

theorem clients_report_failure_witness:
  "\<forall>env zone. fst (rpcs_sendCommand (scripted env) 5 []
      \<lparr>p_status = E_PSI_FILE_DISC, p_mtCacheS5mx = 0, p_zone = zone, p_world = ([], [])\<rparr>) = False \<and>
    (\<exists>w. so_send (scripted env) [0xf0, 1] w =
       (True, wp_world (snd (wprt_sendCommand (scripted env) 0xf0 [1] \<lparr>wp_status = 0, wp_world = ([], [])\<rparr>))))"
proof (intro allI conjI)
  fix env zone
  let ?s = "\<lparr>p_status = E_PSI_FILE_DISC, p_mtCacheS5mx = 0, p_zone = zone, p_world = ([], [])\<rparr> :: (bytes list \<times> bytes list) rpcs"
  let ?t = "\<lparr>wp_status = 0, wp_world = ([], [])\<rparr> :: (bytes list \<times> bytes list) wprt"
  have broken: "p_status (rpcs_reconnect (scripted env) ?s) = E_PSI_FILE_DISC"
    by (simp add: rpcs_reconnect_def rpcs_reset_def rpcs_send_def rpcs_recv_def scripted_def)
  have sent: "wprt_sendCommand (scripted env) 0xf0 [1] ?t = (True, snd (wprt_sendCommand (scripted env) 0xf0 [1] ?t))"
    by (simp add: wprt_sendCommand_def wprt_send_def E_PSI_FILE_DISC_def)
  show "fst (rpcs_sendCommand (scripted env) 5 [] ?s) = False"
    using clients_report_failure [of "scripted env" 5 "[]" ?s ?s ?t ?t, THEN conjunct2, THEN conjunct2,
        THEN conjunct1, THEN mp, OF conjI [OF _ broken]] by simp
  show "\<exists>w. so_send (scripted env) [0xf0, 1] w = (True, wp_world (snd (wprt_sendCommand (scripted env) 0xf0 [1] ?t)))"
    by (rule clients_report_failure [of "scripted env" "0xf0" "[1]" ?s ?s ?t, THEN conjunct2, THEN conjunct2,
        THEN conjunct2, THEN conjunct2, THEN conjunct1, THEN mp, OF sent])
qed

end
