(* ===== verification/Session.thy ===== *)
theory Session
  imports Channels
begin

text \<open>
  The threads of the daemon: \<open>lib/ncpsession.cc\<close>. The record \<open>session\<close> holds the members of
  \<open>NCPSession\<close> and where its three threads are; a round of a thread is one step, except that the
  poll of each socket is a step of its own, as is the wait between the failure of the link and
  the reset, so that the packets of the serial line and the check for lost ones, which are
  threads of \<open>DataLink\<close> and \<open>Link\<close>, and the clients come in between. Within a step the operations of \<open>Channels\<close> run to their end; the
  interleaving inside them, which no lock excludes, is not modelled. The accepted sockets are
  numbers, objects of the class \<open>SocketChannel\<close> live in the store of \<open>ncp\<close>.
\<close>

section \<open>State\<close>

datatype link_pc = Link_watch | Link_failed | Link_done
datatype poll_pc = Poll_watch | Poll_sockets "nat list" | Poll_done

record session =
  ss_ncp :: ncp
  ss_socketChannels :: "nat list"
  ss_autoexit :: bool
  ss_cancelled :: bool
  ss_watched :: "nat list"
  ss_link :: link_pc
  ss_poll :: poll_pc
  ss_listening :: bool

definition session_start :: "bool \<Rightarrow> ncp \<Rightarrow> session" where
  "session_start autoexit n =
     \<lparr>ss_ncp = n, ss_socketChannels = [], ss_autoexit = autoexit, ss_cancelled = False,
      ss_watched = [], ss_link = Link_watch, ss_poll = Poll_watch, ss_listening = True\<rparr>"

definition session_cancel :: "session \<Rightarrow> session" where
  "session_cancel s = s\<lparr>ss_cancelled := True\<rparr>"

section \<open>The link thread\<close>

text \<open>The round up to the second wait, and what follows that wait.\<close>

definition link_thread_check :: "session \<Rightarrow> session" where
  "link_thread_check s =
     (if ss_cancelled s then s\<lparr>ss_link := Link_done\<rparr>
      else let (failed, n) = ncp_hasFailed (ss_ncp s); s = s\<lparr>ss_ncp := n\<rparr>
      in if \<not> failed then s
      else if ss_autoexit s then (session_cancel s)\<lparr>ss_link := Link_done\<rparr>
      else s\<lparr>ss_link := Link_failed\<rparr>)"

definition link_thread_reset :: "session \<Rightarrow> session" where
  "link_thread_reset s =
     (if ss_cancelled s then s\<lparr>ss_link := Link_done\<rparr>
      else s\<lparr>ss_ncp := ncp_reset (ss_ncp s), ss_link := Link_watch\<rparr>)"

section \<open>The polling thread\<close>

definition poll_begin :: "session \<Rightarrow> session" where
  "poll_begin s =
     (if ss_cancelled s then s\<lparr>ss_poll := Poll_done\<rparr>
      else s\<lparr>ss_poll := Poll_sockets (ss_socketChannels s)\<rparr>)"

definition socket_of :: "nat \<Rightarrow> ncp \<Rightarrow> nat" where
  "socket_of p n = (case ch_kind (chan_of p n) of LinkChan \<Rightarrow> 0 | SocketChan k \<Rightarrow> k)"

text \<open>The poll of the next socket of the copy; \<open>res\<close> and \<open>a\<close> are what its socket reads.\<close>

definition poll_next :: "int \<Rightarrow> int \<Rightarrow> bytes \<Rightarrow> session \<Rightarrow> session" where
  "poll_next now res a s =
     (case ss_poll s of
        Poll_sockets (p # ps) \<Rightarrow>
          s\<lparr>ss_ncp := socketPoll now p (socket_of p (ss_ncp s)) res a (ss_ncp s), ss_poll := Poll_sockets ps\<rparr>
      | _ \<Rightarrow> s)"

text \<open>The destructor closes the socket.\<close>

definition socketchan_delete :: "nat \<Rightarrow> ncp \<Rightarrow> ncp" where
  "socketchan_delete p n = ncp_delete p (sock_close (socket_of p n) n)"

fun remove_terminated :: "nat list \<Rightarrow> ncp \<Rightarrow> nat list \<times> ncp" where
  "remove_terminated [] n = ([], n)"
| "remove_terminated (p # ps) n =
     (if shouldTerminate p n then remove_terminated ps (socketchan_delete p n)
      else (let (ps, n) = remove_terminated ps n in (p # ps, n)))"

definition poll_cleanup :: "session \<Rightarrow> session" where
  "poll_cleanup s =
     (let (ps, n) = remove_terminated (ss_socketChannels s) (ss_ncp s)
      in s\<lparr>ss_socketChannels := ps, ss_ncp := n, ss_poll := Poll_watch\<rparr>)"

section \<open>New clients\<close>

text \<open>
  \<open>check_for_new_socket_connection\<close> with an accepted socket: a client that cannot be served
  is told so once it has sent its request for the version.
\<close>

definition check_for_new_socket_connection :: "nat \<Rightarrow> session \<Rightarrow> session" where
  "check_for_new_socket_connection k s =
     (if length (ss_socketChannels s) < maxLinks (ss_ncp s) \<and> ncp_gotLinkChannel (ss_ncp s)
      then let (p, n) = socketchan_new k (ss_ncp s)
        in s\<lparr>ss_ncp := n, ss_socketChannels := ss_socketChannels s @ [p], ss_watched := ss_watched s @ [k]\<rparr>
      else s\<lparr>ss_ncp := sock_close k (sock_send k (stringT (''No Psion Connected'' @ [CHR 0x0A])) (ss_ncp s))\<rparr>)"

text \<open>The end of the main thread, once the other two have ended.\<close>

definition session_finish :: "session \<Rightarrow> session" where
  "session_finish s =
     s\<lparr>ss_ncp := ncp_shutdown (statusCallback False 0 (ss_ncp s)), ss_listening := False\<rparr>"

section \<open>Steps\<close>

inductive session_step :: "session \<Rightarrow> session \<Rightarrow> bool" where
  step_link: "ss_link s = Link_watch \<Longrightarrow> session_step s (link_thread_check s)"
| step_reset: "ss_link s = Link_failed \<Longrightarrow> session_step s (link_thread_reset s)"
| step_poll: "ss_poll s = Poll_watch \<Longrightarrow> session_step s (poll_begin s)"
| step_socket: "ss_poll s = Poll_sockets (p # ps) \<Longrightarrow> session_step s (poll_next now res a s)"
| step_cleanup: "ss_poll s = Poll_sockets [] \<Longrightarrow> session_step s (poll_cleanup s)"
| step_accept: "ss_listening s \<Longrightarrow> \<not> ss_cancelled s \<Longrightarrow> session_step s (check_for_new_socket_connection k s)"
| step_packet: "ss_listening s \<Longrightarrow> session_step s (s\<lparr>ss_ncp := ncp_link_receive now b (ss_ncp s)\<rparr>)"
| step_timer: "ss_listening s \<Longrightarrow>
    session_step s (s\<lparr>ss_ncp := (ss_ncp s)\<lparr>n_link := link_retransmit (n_link (ss_ncp s))\<rparr>\<rparr>)"
| step_cancel: "session_step s (session_cancel s)"
| step_finish: "ss_listening s \<Longrightarrow> ss_cancelled s \<Longrightarrow> ss_link s = Link_done \<Longrightarrow> ss_poll s = Poll_done \<Longrightarrow>
    session_step s (session_finish s)"

inductive session_reachable :: "bool \<Rightarrow> ncp \<Rightarrow> session \<Rightarrow> bool" for autoexit n where
  session_init: "session_reachable autoexit n (session_start autoexit n)"
| session_next: "session_reachable autoexit n s \<Longrightarrow> session_step s s' \<Longrightarrow> session_reachable autoexit n s'"

inductive_cases session_stepE: "session_step s s'"

end
