(* ===== verification/Clients_Daemon.thy ===== *)
theory Clients_Daemon
  imports Clients Session
begin

text \<open>
  A client and the daemon together: what a new client of \<open>ncpd\<close> learns about the machine.
\<close>

lemma socketchan_new_simps:
  "socketchan_new k n = (n_fresh n, n\<lparr>n_chans := (n_chans n)(n_fresh n \<mapsto> chan_new (SocketChan k)), n_fresh := n_fresh n + 1\<rparr>)"
  by (simp add: socketchan_new_def ncp_alloc_def)

text \<open>The request for the version, and the daemon's answer to it.\<close>

lemma info_request:
  "0 \<in> set (stringT ''NCP$INFO'')" "is_ncp_command (stringT ''NCP$INFO'')"
  "take 4 (drop 4 (stringT ''NCP$INFO'')) = ascii ''INFO''"
  by (simp_all add: stringT_def is_ncp_command_def ascii_def)

lemma socketPoll_info:
  assumes "ch_registerName (chan_of p n) = None"
  shows "socketPoll now p k 1 (stringT ''NCP$INFO'') n =
    sock_send k (stringT (if n_protocolVersion n = PV_SERIES_3 then ''Series 3''
       else if n_protocolVersion n = PV_SERIES_5 then ''Series 5'' else ''Unknown!'')) n"
  using assms by (simp add: socketPoll_def info_request ncpCommand_def Let_def)

lemma begins_with_stringT:
  "begins_with ''Series 3'' (stringT ''Series 3'')" "\<not> begins_with ''Series 3'' (stringT ''Series 5'')"
  "begins_with ''Series 5'' (stringT ''Series 5'')" "\<not> begins_with ''Series 3'' (stringT ''Unknown!'')"
  "\<not> begins_with ''Series 5'' (stringT ''Unknown!'')" "\<not> begins_with ''No Psion'' (stringT ''Unknown!'')"
  "\<not> begins_with ''Series 3'' (stringT (''No Psion Connected'' @ [CHR 0x0A]))"
  "\<not> begins_with ''Series 5'' (stringT (''No Psion Connected'' @ [CHR 0x0A]))"
  "begins_with ''No Psion'' (stringT (''No Psion Connected'' @ [CHR 0x0A]))"
  by (simp_all add: begins_with_def stringT_def ascii_def)



end
