(* ===== verification/Session_Invariant.thy ===== *)
theory Session_Invariant
  imports Session
begin

text \<open>
  What holds in every state the daemon can reach: the invariant of the link inside it, the
  bounds of the channel table, and that the sockets of the session are objects that exist. And
  what does not hold: an object that the session has deleted may still be in the table of NCP.
\<close>

named_theorems ncp_intros \<open>operations that keep the invariant of the channel store\<close>

section \<open>The invariant of the channel store\<close>

text \<open>The objects of class \<open>SocketChannel\<close> with their sockets.\<close>

definition sockets :: "ncp \<Rightarrow> (nat \<times> nat) set" where
  "sockets s = {(p, k). \<exists>ch. n_chans s p = Some ch \<and> ch_kind ch = SocketChan k}"

definition ncp_inv :: "(nat \<times> nat) set \<Rightarrow> ncp \<Rightarrow> bool" where
  "ncp_inv S s \<longleftrightarrow>
     sockets s = S \<and> (\<forall>p \<ge> n_fresh s. n_chans s p = None) \<and>
     (\<forall>lp. n_lChan s = Some lp \<longrightarrow> (\<exists>ch. n_chans s lp = Some ch \<and> ch_kind ch = LinkChan)) \<and>
     n_maxChannels s \<in> {MAX_CHANNELS_SIBO, MAX_CHANNELS_PSION} \<and>
     length (n_channelPtr s) = MAX_CHANNELS_PSION + 1 \<and>
     length (n_messageList s) = MAX_CHANNELS_PSION + 1 \<and> link_reachable (n_link s)"

lemma ncp_inv_updates [simp]:
  "ncp_inv S (s\<lparr>n_sock := x1\<rparr>) = ncp_inv S s"
  "ncp_inv S (s\<lparr>n_failed := x2\<rparr>) = ncp_inv S s"
  "ncp_inv S (s\<lparr>n_protocolVersion := x3\<rparr>) = ncp_inv S s"
  "ncp_inv S (s\<lparr>n_lastSentChannel := x4\<rparr>) = ncp_inv S s"
  "ncp_inv S (s\<lparr>n_pcServers := x5\<rparr>) = ncp_inv S s"
  "ncp_inv S (s\<lparr>n_status := x6\<rparr>) = ncp_inv S s"
  "ncp_inv S (s\<lparr>n_uaf := x7\<rparr>) = ncp_inv S s"
  "ncp_inv S (s\<lparr>n_remoteChanList := x8\<rparr>) = ncp_inv S s"
  by (simp_all add: ncp_inv_def sockets_def)

lemma ncp_inv_link [ncp_intros]:
  "ncp_inv S s \<Longrightarrow> link_reachable l \<Longrightarrow> ncp_inv S (s\<lparr>n_link := l\<rparr>)"
  and ncp_inv_messages [ncp_intros]:
  "ncp_inv S s \<Longrightarrow> ncp_inv S (s\<lparr>n_messageList := (n_messageList s)[i := m]\<rparr>)"
  and ncp_inv_lChan [ncp_intros]: "ncp_inv S s \<Longrightarrow> ncp_inv S (s\<lparr>n_lChan := None\<rparr>)"
  and ncp_inv_max [ncp_intros]: "ncp_inv S s \<Longrightarrow> ncp_inv S (s\<lparr>n_maxChannels := MAX_CHANNELS_PSION\<rparr>)"
  by (simp_all add: ncp_inv_def sockets_def)

lemma ncp_inv_reachable: "ncp_inv S s \<Longrightarrow> link_reachable (n_link s)"
  by (simp add: ncp_inv_def)

lemma set_slot_inv [ncp_intros]: "ncp_inv S s \<Longrightarrow> ncp_inv S (set_slot i x s)"
  by (simp add: set_slot_def ncp_inv_def sockets_def)

lemma chan_modify_inv:
  assumes "ncp_inv S s" "\<And>ch. ch_kind (f ch) = ch_kind ch"
  shows "ncp_inv S (chan_modify p f s)"
proof (cases "n_chans s p")
  case None
  then show ?thesis using assms(1) by (simp add: chan_modify_def)
next
  case (Some ch)
  then have "p < n_fresh s" using assms(1) by (auto simp: ncp_inv_def not_le [symmetric])
  with Some show ?thesis
    using assms unfolding ncp_inv_def sockets_def chan_modify_def
    by (auto split: if_splits)
qed

lemma chan_modify_ops [ncp_intros]:
  "ncp_inv S s \<Longrightarrow> ncp_inv S (setNcpChannel p n s)"
  "ncp_inv S s \<Longrightarrow> ncp_inv S (terminateWhenAsked p s)"
  "ncp_inv S s \<Longrightarrow> ncp_inv S (setNcpConnectName p name s)"
  by (simp_all add: setNcpChannel_def terminateWhenAsked_def setNcpConnectName_def chan_modify_inv)

lemma ncp_l_send_inv [ncp_intros]: "ncp_inv S s \<Longrightarrow> ncp_inv S (ncp_l_send b s)"
  by (simp add: ncp_l_send_def ncp_inv_link link_reachable.send ncp_inv_reachable)

lemma controlChannel_inv [ncp_intros]: "ncp_inv S s \<Longrightarrow> ncp_inv S (controlChannel c t cmd s)"
  by (simp add: controlChannel_def ncp_l_send_inv)

lemma fold_l_send_inv: "ncp_inv S s \<Longrightarrow> ncp_inv S (fold ncp_l_send bs s)"
  by (induction bs arbitrary: s) (simp_all add: ncp_l_send_inv)

lemma ncp_send_inv [ncp_intros]: "ncp_inv S s \<Longrightarrow> ncp_inv S (ncp_send c a s)"
  by (simp add: ncp_send_def fold_fragments fold_l_send_inv Let_def)

lemma ncpSend_inv [ncp_intros]: "ncp_inv S s \<Longrightarrow> ncp_inv S (ncpSend p a s)"
  by (simp add: ncpSend_def ncp_send_inv)

lemma getFirstUnusedChan_inv [ncp_intros]:
  "ncp_inv S s \<Longrightarrow> ncp_inv S (snd (getFirstUnusedChan s))"
  by (simp add: getFirstUnusedChan_def set_slot_inv Let_def)

lemma first_unused_inv: "getFirstUnusedChan s = (n, s') \<Longrightarrow> ncp_inv S s \<Longrightarrow> ncp_inv S s'"
  using getFirstUnusedChan_inv by force

lemma ncp_connect_inv [ncp_intros]: "ncp_inv S s \<Longrightarrow> ncp_inv S (snd (ncp_connect p s))"
  by (auto simp: ncp_connect_def Let_def intro!: ncp_intros dest: first_unused_inv split: prod.splits if_splits)

lemma ncp_Register_inv [ncp_intros]: "ncp_inv S s \<Longrightarrow> ncp_inv S (ncp_Register p s)"
  by (auto simp: ncp_Register_def linkchan_Register_def Let_def intro!: ncp_intros chan_modify_inv
      dest: first_unused_inv split: prod.splits if_splits option.splits)

lemma ncp_disconnect_inv [ncp_intros]: "ncp_inv S s \<Longrightarrow> ncp_inv S (ncp_disconnect c s)"
  by (simp add: ncp_disconnect_def Let_def controlChannel_inv set_slot_inv chan_modify_ops)

lemma sock_inv [ncp_intros]:
  "ncp_inv S s \<Longrightarrow> ncp_inv S (sock_send k b s)" "ncp_inv S s \<Longrightarrow> ncp_inv S (sock_close k s)"
  by (simp_all add: sock_send_def sock_close_def)

lemma statusCallback_inv [ncp_intros]: "ncp_inv S s \<Longrightarrow> ncp_inv S (statusCallback c v s)"
  by (simp add: statusCallback_def)

section \<open>Socket channels\<close>

lemma ncpCommand_inv [ncp_intros]: "ncp_inv S s \<Longrightarrow> ncp_inv S (snd (ncpCommand k a s))"
  by (auto simp: ncpCommand_def Let_def registerPcServer_def intro!: ncp_intros)

lemma socketPoll_inv [ncp_intros]: "ncp_inv S s \<Longrightarrow> ncp_inv S (socketPoll now p k res a s)"
  by (auto simp: socketPoll_def Let_def intro!: ncp_intros chan_modify_inv)

lemma ncpConnectAck_inv [ncp_intros]: "ncp_inv S s \<Longrightarrow> ncp_inv S (ncpConnectAck p s)"
  by (auto simp: ncpConnectAck_def socketchan_ncpConnectAck_def intro!: ncp_intros chan_modify_inv
      split: chan_kind.splits)

lemma ncpConnectNak_inv [ncp_intros]: "ncp_inv S s \<Longrightarrow> ncp_inv S (ncpConnectNak now p s)"
  by (auto simp: ncpConnectNak_def socketchan_ncpConnectNak_def socketchan_ncpConnectTerminate_def Let_def
      intro!: ncp_intros chan_modify_inv split: chan_kind.splits)

lemma RegisterAck_inv [ncp_intros]: "ncp_inv S s \<Longrightarrow> ncp_inv S (RegisterAck c name s)"
  by (auto simp: RegisterAck_def ncpRegisterAck_def socketchan_ncpRegisterAck_def
      intro!: ncp_intros chan_modify_inv split: option.splits chan_kind.splits)

lemma registerAck_loop_inv:
  "registerAck_loop ser name ses st s = (st', s') \<Longrightarrow> ncp_inv S s \<Longrightarrow> ncp_inv S s'"
  by (induction ser name ses st s arbitrary: st' s' rule: registerAck_loop.induct)
     (auto simp: Let_def intro!: ncp_intros split: if_splits)

lemma ncpDataCallback_inv [ncp_intros]: "ncp_inv S s \<Longrightarrow> ncp_inv S (ncpDataCallback p a s)"
  by (auto simp: ncpDataCallback_def linkchan_ncpDataCallback_def Let_def intro!: ncp_intros chan_modify_inv
      dest: registerAck_loop_inv split: chan_kind.splits prod.splits)

section \<open>Objects that come and go\<close>

lemma ncp_alloc_link:
  assumes "ncp_inv S s" "ncp_alloc ch s = (p, s')" "ch_kind ch = LinkChan"
  shows "ncp_inv S s' \<and> (\<exists>ch. n_chans s' p = Some ch \<and> ch_kind ch = LinkChan)"
proof -
  have p: "p = n_fresh s" "s' = s\<lparr>n_chans := (n_chans s)(p := Some ch), n_fresh := p + 1\<rparr>"
    using assms(2) by (auto simp: ncp_alloc_def)
  moreover have "n_chans s (n_fresh s) = None" using assms(1) by (simp add: ncp_inv_def)
  ultimately show ?thesis using assms(1,3) unfolding ncp_inv_def sockets_def by (auto split: if_splits)
qed

text \<open>The number of an object, its kind included, is what \<open>ncp_connect\<close> leaves alone.\<close>

definition is_link :: "nat \<Rightarrow> ncp \<Rightarrow> bool" where
  "is_link p s \<longleftrightarrow> (\<exists>ch. n_chans s p = Some ch \<and> ch_kind ch = LinkChan)"

lemma is_link_updates [simp]:
  "is_link p (s\<lparr>n_channelPtr := x1\<rparr>) = is_link p s"
  "is_link p (s\<lparr>n_link := x2\<rparr>) = is_link p s"
  "is_link p (set_slot i x s) = is_link p s"
  "is_link p (ncp_l_send b s) = is_link p s"
  "is_link p (controlChannel c t cmd s) = is_link p s"
  by (simp_all add: is_link_def set_slot_def ncp_l_send_def controlChannel_def)

lemma is_link_modify:
  "is_link p s \<Longrightarrow> (\<And>ch. ch_kind (f ch) = ch_kind ch) \<Longrightarrow> is_link p (chan_modify q f s)"
  by (auto simp: is_link_def chan_modify_def split: option.split)

lemma is_link_connect: "is_link p s \<Longrightarrow> is_link p (snd (ncp_connect q s))"
  by (auto simp: ncp_connect_def getFirstUnusedChan_def setNcpChannel_def Let_def intro!: is_link_modify
      split: prod.splits if_splits)

lemma linkchan_new_both:
  assumes "ncp_inv S s"
  shows "ncp_inv S (snd (linkchan_new c s)) \<and> is_link (fst (linkchan_new c s)) (snd (linkchan_new c s))"
proof -
  define ch where "ch = (if c \<noteq> -1 then (chan_new LinkChan)\<lparr>ch_ncpChannel := c\<rparr> else chan_new LinkChan)"
  obtain p s1 where new: "ncp_alloc ch s = (p, s1)" by (metis prod.exhaust)
  have "ch_kind ch = LinkChan" by (simp add: ch_def chan_new_def)
  then have "ncp_inv S s1" "is_link p s1"
    using ncp_alloc_link [OF assms new] by (auto simp: is_link_def)
  moreover have "linkchan_new c s = (p, snd (ncp_connect p s1))"
    by (simp add: linkchan_new_def Let_def ch_def [symmetric] new)
  ultimately show ?thesis by (simp add: ncp_connect_inv is_link_connect)
qed

lemma set_lChan_inv: "ncp_inv S s \<Longrightarrow> is_link p s \<Longrightarrow> ncp_inv S (s\<lparr>n_lChan := Some p\<rparr>)"
  by (simp add: ncp_inv_def is_link_def sockets_def)

text \<open>A new link channel, entered into the table and noted as the link channel.\<close>

lemma link_channel_inv [ncp_intros]:
  "ncp_inv S s \<Longrightarrow>
   ncp_inv S ((set_slot i x (snd (linkchan_new c s)))\<lparr>n_lChan := Some (fst (linkchan_new c s))\<rparr>)"
  using linkchan_new_both [of S s c] by (intro set_lChan_inv set_slot_inv) auto

lemma delete_lChan_inv:
  assumes "ncp_inv S s" "n_lChan s = Some lp"
  shows "ncp_inv S ((ncp_delete lp s)\<lparr>n_lChan := None\<rparr>)"
proof -
  obtain ch where ch: "n_chans s lp = Some ch" "ch_kind ch = LinkChan"
    using assms by (auto simp: ncp_inv_def)
  have "sockets ((ncp_delete lp s)\<lparr>n_lChan := None\<rparr>) = sockets s"
    using ch by (auto simp: sockets_def ncp_delete_def split: if_splits)
  then show ?thesis using assms(1) by (simp add: ncp_inv_def ncp_delete_def)
qed

section \<open>Messages, failure and reset\<close>

lemma decode_connect_link_inv [ncp_intros]:
  assumes "ncp_inv S s" shows "ncp_inv S (decode_connect_link c s)"
proof -
  obtain n s1 where n: "(case n_lChan s of Some lp \<Rightarrow> (getNcpChannel lp s, s)
      | None \<Rightarrow> (let (n, s) = getFirstUnusedChan s in (int n, s))) = (n, s1)"
    by (metis prod.exhaust)
  then have "ncp_inv S s1"
    using assms by (auto dest: first_unused_inv split: option.splits prod.splits)
  moreover define s2 where
    "s2 = statusCallback True (n_protocolVersion (controlChannel n NCON_MSG_CONNECT_RESPONSE [c, 0] s1))
       (controlChannel n NCON_MSG_CONNECT_RESPONSE [c, 0] s1)"
  ultimately have inv: "ncp_inv S s2" by (auto intro: ncp_intros)
  have "decode_connect_link c s =
      (case n_lChan s2 of
         Some lp \<Rightarrow> ncpConnectAck lp s2
       | None \<Rightarrow> ncpConnectAck (fst (linkchan_new n s2))
           ((set_slot (nat n) (Ptr (fst (linkchan_new n s2))) (snd (linkchan_new n s2)))
              \<lparr>n_lChan := Some (fst (linkchan_new n s2))\<rparr>))"
    unfolding decode_connect_link_def n s2_def by (simp only: Let_def split_beta fst_conv snd_conv)
  then show ?thesis
    using ncpConnectAck_inv [OF inv] ncpConnectAck_inv [OF link_channel_inv [OF inv]]
    by (simp split: option.split)
qed

lemma decode_connect_other_inv [ncp_intros]: "ncp_inv S s \<Longrightarrow> ncp_inv S (decode_connect_other c name s)"
  by (auto simp: decode_connect_other_def clientConnect_def Let_def split_beta
      intro!: ncp_intros split: option.splits)

lemma decode_info_inv [ncp_intros]: "ncp_inv S s \<Longrightarrow> ncp_inv S (decode_info now b s)"
  by (auto simp: decode_info_def Let_def intro!: ncp_intros ncp_inv_max)

lemma decode_response_inv [ncp_intros]: "ncp_inv S s \<Longrightarrow> ncp_inv S (decode_connect_response now c b s)"
  by (auto simp: decode_connect_response_def Let_def intro!: ncp_intros)

lemma purge_inv [ncp_intros]:
  "ncp_inv S s \<Longrightarrow> ncp_inv S (s\<lparr>n_link := link_purgeQueue c (n_link s)\<rparr>)"
  by (simp add: ncp_inv_link link_reachable.purge ncp_inv_reachable)

lemma decodeControlMessage_inv [ncp_intros]: "ncp_inv S s \<Longrightarrow> ncp_inv S (decodeControlMessage now b s)"
  by (auto simp: decodeControlMessage_def Let_def intro!: ncp_intros)

lemma ncp_receive_inv [ncp_intros]: "ncp_inv S s \<Longrightarrow> ncp_inv S (ncp_receive now b s)"
  by (auto simp: ncp_receive_def Let_def intro!: ncp_intros)

lemma ncp_link_receive_inv [ncp_intros]: "ncp_inv S s \<Longrightarrow> ncp_inv S (ncp_link_receive now b s)"
  by (auto simp: ncp_link_receive_def Let_def split_beta intro!: ncp_intros link_reachable.receive
      dest: ncp_inv_reachable split: option.split)

lemma terminate_all_inv: "ncp_inv S s \<Longrightarrow> ncp_inv S (terminate_all is s)"
  by (induction "is" s rule: terminate_all.induct) (simp_all add: ncp_intros Let_def)

lemma disconnect_all_inv: "ncp_inv S s \<Longrightarrow> ncp_inv S (disconnect_all is s)"
  by (induction "is" s rule: disconnect_all.induct) (simp_all add: ncp_intros Let_def)

lemma ncp_reset_inv [ncp_intros]:
  assumes "ncp_inv S s" shows "ncp_inv S (ncp_reset s)"
proof -
  let ?s = "(terminate_all [0..<maxLinks s] s)\<lparr>n_failed := False\<rparr>"
  have inv: "ncp_inv S ?s" using assms by (simp add: terminate_all_inv)
  have "ncp_inv S ((case n_lChan ?s of None \<Rightarrow> ?s | Some lp \<Rightarrow> ncp_delete lp ?s)\<lparr>n_lChan := None\<rparr>)"
    using inv delete_lChan_inv [OF inv] ncp_inv_lChan [OF inv] by (simp split: option.split)
  then show ?thesis
    by (auto simp: ncp_reset_def Let_def intro!: ncp_intros link_reachable.reset dest: ncp_inv_reachable)
qed

lemma ncp_hasFailed_inv [ncp_intros]:
  assumes "ncp_inv S s" shows "ncp_inv S (snd (ncp_hasFailed s))"
proof -
  obtain lf l where l: "link_hasFailed (n_link s) = (lf, l)" by (metis prod.exhaust)
  then have "l = snd (link_hasFailed (n_link s))" by simp
  then have reach: "link_reachable l" using ncp_inv_reachable [OF assms] link_reachable.failed by simp
  define s1 where "s1 = s\<lparr>n_link := l, n_failed := n_failed s \<or> lf\<rparr>"
  define s2 where "s2 = statusCallback False 0 s1"
  have inv: "ncp_inv S s1" "ncp_inv S s2"
    using assms reach by (simp_all add: s1_def s2_def ncp_intros)
  have "ncp_inv S ((ncp_delete lp (set_slot i Null s2))\<lparr>n_lChan := None\<rparr>)" if "n_lChan s2 = Some lp" for lp i
    using delete_lChan_inv [OF set_slot_inv [OF inv(2)], of i Null lp] that by (simp add: set_slot_def)
  moreover have "ncp_inv S (s2\<lparr>n_lChan := None\<rparr>)" using inv(2) by (rule ncp_inv_lChan)
  ultimately show ?thesis
    using inv(1) unfolding ncp_hasFailed_def l prod.case Let_def s1_def [symmetric] s2_def [symmetric]
    by (auto split: option.split)
qed

lemma ncp_shutdown_inv [ncp_intros]: "ncp_inv S s \<Longrightarrow> ncp_inv S (ncp_shutdown s)"
  by (simp add: ncp_shutdown_def controlChannel_inv disconnect_all_inv)

section \<open>The invariant of the session\<close>

text \<open>
  The sockets the session holds are different objects that exist, and all there are; the poll
  that is under way only has sockets of the session; there are never more than the table of NCP
  can take.
\<close>

definition session_inv :: "session \<Rightarrow> bool" where
  "session_inv s \<longleftrightarrow>
     (\<exists>S. ncp_inv S (ss_ncp s) \<and> fst ` S = set (ss_socketChannels s)) \<and>
     distinct (ss_socketChannels s) \<and> length (ss_socketChannels s) \<le> MAX_CHANNELS_PSION \<and>
     (\<forall>ps. ss_poll s = Poll_sockets ps \<longrightarrow> set ps \<subseteq> set (ss_socketChannels s))"

lemma session_inv_ncp:
  assumes "session_inv s" "\<And>S. ncp_inv S (ss_ncp s) \<Longrightarrow> ncp_inv S n"
  shows "session_inv (s\<lparr>ss_ncp := n\<rparr>)"
  using assms by (auto simp: session_inv_def)

lemma socketchan_new_inv:
  assumes "ncp_inv S n" "socketchan_new k n = (p, n')"
  shows "ncp_inv (insert (p, k) S) n' \<and> p \<notin> fst ` S"
proof -
  have p: "p = n_fresh n" "n' = n\<lparr>n_chans := (n_chans n)(p := Some (chan_new (SocketChan k))), n_fresh := p + 1\<rparr>"
    using assms(2) by (auto simp: socketchan_new_def ncp_alloc_def)
  moreover have none: "n_chans n (n_fresh n) = None" using assms(1) by (simp add: ncp_inv_def)
  moreover have "ch_kind (chan_new (SocketChan k)) = SocketChan k" by (simp add: chan_new_def)
  ultimately show ?thesis
    using assms(1) unfolding ncp_inv_def sockets_def by (fastforce split: if_splits)
qed

lemma socketchan_delete_inv:
  assumes "ncp_inv S n" "p \<in> fst ` S"
  shows "ncp_inv {x \<in> S. fst x \<noteq> p} (socketchan_delete p n)"
proof -
  have "n_lChan n \<noteq> Some p" using assms unfolding ncp_inv_def sockets_def by fastforce
  then show ?thesis
    using assms(1) unfolding socketchan_delete_def ncp_delete_def sock_close_def ncp_inv_def sockets_def
    by (auto split: if_splits)
qed

lemma remove_terminated_inv:
  "remove_terminated ps n = (ps', n') \<Longrightarrow> ncp_inv S n \<Longrightarrow> set ps \<subseteq> fst ` S \<Longrightarrow> distinct ps \<Longrightarrow>
   ncp_inv {x \<in> S. fst x \<in> set ps \<longrightarrow> fst x \<in> set ps'} n' \<and> set ps' \<subseteq> set ps \<and> distinct ps' \<and>
   length ps' \<le> length ps"
proof (induction ps n arbitrary: ps' n' S rule: remove_terminated.induct)
  case (1 n)
  then show ?case by simp
next
  case (2 p ps n)
  show ?case
  proof (cases "shouldTerminate p n")
    case True
    have "ncp_inv {x \<in> S. fst x \<noteq> p} (socketchan_delete p n)"
      using socketchan_delete_inv 2 by simp
    then have "ncp_inv {x \<in> {x \<in> S. fst x \<noteq> p}. fst x \<in> set ps \<longrightarrow> fst x \<in> set ps'} n' \<and> set ps' \<subseteq> set ps \<and>
        distinct ps' \<and> length ps' \<le> length ps"
      using 2(1) [OF True] 2(3,5,6) True by fastforce
    moreover have "{x \<in> {x \<in> S. fst x \<noteq> p}. fst x \<in> set ps \<longrightarrow> fst x \<in> set ps'} =
        {x \<in> S. fst x \<in> set (p # ps) \<longrightarrow> fst x \<in> set ps'}" if "set ps' \<subseteq> set ps"
      using 2(6) that by auto
    ultimately show ?thesis by auto
  next
    case False
    then obtain qs where qs: "remove_terminated ps n = (qs, n')" "ps' = p # qs"
      using 2(3) by (auto split: prod.splits)
    then have "ncp_inv {x \<in> S. fst x \<in> set ps \<longrightarrow> fst x \<in> set qs} n' \<and> set qs \<subseteq> set ps \<and> distinct qs \<and>
        length qs \<le> length ps"
      using 2(2) [OF False] 2(4,5,6) by simp
    moreover have "{x \<in> S. fst x \<in> set ps \<longrightarrow> fst x \<in> set qs} =
        {x \<in> S. fst x \<in> set (p # ps) \<longrightarrow> fst x \<in> set (p # qs)}"
      using 2(6) by auto
    ultimately show ?thesis using qs(2) 2(6) by auto
  qed
qed

section \<open>Every reachable state\<close>

lemma session_inv_fields [simp]:
  "session_inv (s\<lparr>ss_cancelled := x1\<rparr>) = session_inv s"
  "session_inv (s\<lparr>ss_link := x2\<rparr>) = session_inv s"
  "session_inv (s\<lparr>ss_watched := x3\<rparr>) = session_inv s"
  "session_inv (s\<lparr>ss_listening := x4\<rparr>) = session_inv s"
  by (simp_all add: session_inv_def)

lemma link_thread_check_inv: "session_inv s \<Longrightarrow> session_inv (link_thread_check s)"
  using ncp_hasFailed_inv [of _ "ss_ncp s"]
  by (auto simp: link_thread_check_def session_cancel_def Let_def split_beta intro!: session_inv_ncp)

lemma link_thread_reset_inv: "session_inv s \<Longrightarrow> session_inv (link_thread_reset s)"
  by (auto simp: link_thread_reset_def intro!: session_inv_ncp ncp_reset_inv)

lemma poll_begin_inv: "session_inv s \<Longrightarrow> session_inv (poll_begin s)"
  by (auto simp: poll_begin_def session_inv_def)

lemma poll_next_inv:
  assumes "session_inv s" shows "session_inv (poll_next now res a s)"
proof (cases "ss_poll s")
  case (Poll_sockets ps)
  have "session_inv (s\<lparr>ss_ncp := socketPoll now p (socket_of p (ss_ncp s)) res a (ss_ncp s)\<rparr>)" for p
    using assms by (rule session_inv_ncp) (rule socketPoll_inv)
  with Poll_sockets show ?thesis
    using assms by (cases ps) (auto simp: poll_next_def session_inv_def)
qed (use assms in \<open>simp_all add: poll_next_def\<close>)

lemma poll_cleanup_inv:
  assumes "session_inv s" shows "session_inv (poll_cleanup s)"
proof -
  obtain S where S: "ncp_inv S (ss_ncp s)" "fst ` S = set (ss_socketChannels s)"
    using assms by (auto simp: session_inv_def)
  obtain ps n where r: "remove_terminated (ss_socketChannels s) (ss_ncp s) = (ps, n)" by (metis prod.exhaust)
  let ?S = "{x \<in> S. fst x \<in> set (ss_socketChannels s) \<longrightarrow> fst x \<in> set ps}"
  have inv: "ncp_inv ?S n" "set ps \<subseteq> set (ss_socketChannels s)" "distinct ps"
      "length ps \<le> length (ss_socketChannels s)"
    using remove_terminated_inv [OF r S(1)] S(2) assms by (auto simp: session_inv_def)
  have "fst ` ?S = set ps" using S(2) inv(2) by (auto simp: image_iff)
  then have "\<exists>S. ncp_inv S n \<and> fst ` S = set ps" using inv(1) by blast
  then show ?thesis
    using inv assms r by (simp add: poll_cleanup_def session_inv_def)
qed

lemma ncp_inv_maxLinks: "ncp_inv S n \<Longrightarrow> maxLinks n \<le> MAX_CHANNELS_PSION"
  by (auto simp: ncp_inv_def maxLinks_def MAX_CHANNELS_PSION_def MAX_CHANNELS_SIBO_def)

lemma check_for_new_socket_connection_inv:
  assumes "session_inv s" shows "session_inv (check_for_new_socket_connection k s)"
proof (cases "length (ss_socketChannels s) < maxLinks (ss_ncp s) \<and> ncp_gotLinkChannel (ss_ncp s)")
  case True
  obtain S where S: "ncp_inv S (ss_ncp s)" "fst ` S = set (ss_socketChannels s)"
    using assms by (auto simp: session_inv_def)
  obtain p n where new: "socketchan_new k (ss_ncp s) = (p, n)" by (metis prod.exhaust)
  have inv: "ncp_inv (insert (p, k) S) n" "p \<notin> set (ss_socketChannels s)"
    using socketchan_new_inv [OF S(1) new] S(2) by auto
  have "fst ` insert (p, k) S = set (ss_socketChannels s @ [p])" using S(2) by auto
  then have "\<exists>S. ncp_inv S n \<and> fst ` S = set (ss_socketChannels s @ [p])" using inv(1) by blast
  moreover have "length (ss_socketChannels s @ [p]) \<le> MAX_CHANNELS_PSION"
    using True ncp_inv_maxLinks [OF S(1)] by simp
  ultimately show ?thesis
    using True new inv(2) assms
    by (auto simp: check_for_new_socket_connection_def session_inv_def)
next
  case False
  then show ?thesis
    using assms by (auto simp: check_for_new_socket_connection_def intro!: session_inv_ncp sock_inv)
qed

lemma session_step_inv: "session_step s s' \<Longrightarrow> session_inv s \<Longrightarrow> session_inv s'"
proof (induction rule: session_step.induct)
  case (step_timer s)
  then show ?case
    by (auto intro!: session_inv_ncp ncp_inv_link link_reachable.retransmit dest: ncp_inv_reachable)
next
  case (step_finish s)
  then show ?case
    by (auto simp: session_finish_def intro!: session_inv_ncp ncp_shutdown_inv statusCallback_inv)
qed (auto simp: session_cancel_def intro: link_thread_check_inv link_thread_reset_inv poll_begin_inv
      poll_next_inv poll_cleanup_inv check_for_new_socket_connection_inv session_inv_ncp ncp_link_receive_inv)

lemma session_start_inv:
  "session_inv (session_start autoexit
     (ncp_new (link_construct line clock magic speed junk) callback remote sent tail))"
  by (simp add: session_inv_def session_start_def ncp_inv_def ncp_new_def sockets_def link_reachable.construct)

lemma session_reachable_inv: "session_reachable autoexit n s \<Longrightarrow> session_inv (session_start autoexit n) \<Longrightarrow> session_inv s"
  by (induction rule: session_reachable.induct) (auto dest: session_step_inv)

text \<open>
  C26: What holds in every state the daemon can reach, whatever the clients send, the device
  answers and the line loses, in any order of the threads' rounds. The sockets the session polls
  are different objects that exist, at most 256; the link channel, if there is one, is an object
  that exists; and the link inside has the invariant of the link.
\<close>

theorem session_reachable_invariant:
  assumes "session_reachable autoexit
     (ncp_new (link_construct line clock magic speed junk) callback remote sent tail) s"
  shows "(\<forall>p \<in> set (ss_socketChannels s). \<exists>ch k. n_chans (ss_ncp s) p = Some ch \<and> ch_kind ch = SocketChan k) \<and>
    distinct (ss_socketChannels s) \<and> length (ss_socketChannels s) \<le> 256 \<and>
    (\<forall>lp. n_lChan (ss_ncp s) = Some lp \<longrightarrow>
       (\<exists>ch. n_chans (ss_ncp s) lp = Some ch \<and> ch_kind ch = LinkChan)) \<and>
    link_inv (n_link (ss_ncp s))"
proof -
  have inv: "session_inv s" using session_reachable_inv [OF assms session_start_inv] .
  then obtain S where S: "ncp_inv S (ss_ncp s)" "fst ` S = set (ss_socketChannels s)"
    by (auto simp: session_inv_def)
  have "\<exists>ch k. n_chans (ss_ncp s) p = Some ch \<and> ch_kind ch = SocketChan k" if "p \<in> fst ` S" for p
    using that S(1) by (auto simp: ncp_inv_def sockets_def)
  then show ?thesis
    using inv S link_reachable_inv [of "n_link (ss_ncp s)"]
    by (auto simp: session_inv_def ncp_inv_def MAX_CHANNELS_PSION_def)
qed

theorem session_reachable_invariant_witness:
  "\<forall>line clock magic speed junk callback remote sent tail.
   link_inv (n_link (ss_ncp (check_for_new_socket_connection 7
     (session_start True (ncp_new (link_construct line clock magic speed junk) callback remote sent tail)))))"
proof (intro allI)
  fix line clock magic speed junk callback remote sent tail
  let ?n = "ncp_new (link_construct line clock magic speed junk) callback remote sent tail"
  have "session_step (session_start True ?n) (check_for_new_socket_connection 7 (session_start True ?n))"
    by (rule step_accept) (simp_all add: session_start_def)
  then have "session_reachable True ?n (check_for_new_socket_connection 7 (session_start True ?n))"
    by (rule session_next [OF session_init])
  from session_reachable_invariant [OF this]
  show "link_inv (n_link (ss_ncp (check_for_new_socket_connection 7 (session_start True ?n))))" by blast
qed

section \<open>A client that waits too long\<close>

text \<open>
  C27: A client whose server does not answer within 15 seconds leaves a dangling pointer. The poll
  of its socket marks the object, and the end of the same round deletes it, but nobody takes it out
  of the table of NCP: its slot still counts as valid. When the device then refuses the
  connection after all, NCP calls the deleted object.
\<close>

theorem session_timeout_dangles:
  assumes "ss_poll s = Poll_sockets [p]" and "ss_socketChannels s = [p]"
    and "n_chans (ss_ncp s) p = Some ch" and "ch_registerName ch \<noteq> None" and "\<not> ch_isConnected ch"
    and "now > ch_connectTryTimestamp ch + 15"
    and "n_channelPtr (ss_ncp s) ! unat x = Ptr p"
    and "s' = poll_cleanup (poll_next now res a s)"
  shows "session_step s (poll_next now res a s) \<and> session_step (poll_next now res a s) s' \<and>
    ss_socketChannels s' = [] \<and> n_chans (ss_ncp s') p = None \<and> isValidChannel (unat x) (ss_ncp s') \<and>
    n_uaf (ncp_receive later [0, remote, NCON_MSG_CONNECT_RESPONSE, x, 1] (ss_ncp s'))"
proof -
  let ?k = "socket_of p (ss_ncp s)"
  let ?n = "terminateWhenAsked p (ss_ncp s)"
  have poll: "poll_next now res a s = s\<lparr>ss_ncp := ?n, ss_poll := Poll_sockets []\<rparr>"
    using assms(1,3-6) by (auto simp: poll_next_def socketPoll_def chan_of_def Let_def)
  have chans: "n_chans ?n p = Some (ch\<lparr>ch_terminate := True\<rparr>)" "n_channelPtr ?n = n_channelPtr (ss_ncp s)"
    using assms(3) by (simp_all add: terminateWhenAsked_def chan_modify_def)
  then have "shouldTerminate p ?n" by (simp add: shouldTerminate_def chan_of_def)
  then have s': "s' = s\<lparr>ss_ncp := socketchan_delete p ?n, ss_socketChannels := [], ss_poll := Poll_watch\<rparr>"
    using assms(2,8) poll by (simp add: poll_cleanup_def)
  then have after: "n_chans (ss_ncp s') p = None" "n_channelPtr (ss_ncp s') ! unat x = Ptr p"
    using chans assms(7) by (simp_all add: socketchan_delete_def ncp_delete_def sock_close_def)
  have "n_uaf (ncp_receive later [0, remote, NCON_MSG_CONNECT_RESPONSE, x, 1] (ss_ncp s'))"
    using after
    by (simp add: ncp_receive_def decodeControlMessage_def decode_connect_response_def Let_def
        ncp_peek_def link_peek_def NCON_MSG_CONNECT_RESPONSE_def NCON_MSG_CONNECT_TO_SERVER_def
        isValidChannel_def slot_ptr_def ncpConnectNak_def chan_of_def chan_new_def
        terminateWhenAsked_def chan_modify_def)
  moreover have "session_step s (poll_next now res a s)" by (rule step_socket) (rule assms(1))
  moreover have "session_step (poll_next now res a s) s'"
    unfolding assms(8) by (rule step_cleanup) (simp add: poll)
  ultimately show ?thesis
    using after s' by (simp add: isValidChannel_def)
qed

theorem session_timeout_dangles_witness:
  "n_uaf (ncp_receive 20 [0, 5, NCON_MSG_CONNECT_RESPONSE, 1, 1]
     (ss_ncp (poll_cleanup (poll_next 16 0 []
       ((session_start False ncp_connected)\<lparr>ss_socketChannels := [0], ss_poll := Poll_sockets [0]\<rparr>)))))"
proof -
  let ?s = "(session_start False ncp_connected)\<lparr>ss_socketChannels := [0], ss_poll := Poll_sockets [0]\<rparr>"
  let ?ch = "(chan_new (SocketChan 7))\<lparr>ch_registerName := Some [65], ch_ncpChannel := 1\<rparr>"
  have "n_chans (ss_ncp ?s) 0 = Some ?ch" "n_channelPtr (ss_ncp ?s) ! unat (1 :: byte) = Ptr 0"
    by (simp_all add: session_start_def ncp_connected_def)
  from session_timeout_dangles [of ?s 0 ?ch 16 1 _ 0 "[]" 20 5, OF _ _ this(1) _ _ _ this(2) refl]
  show ?thesis by (simp add: chan_new_def)
qed

end
