(* ===== verification/IoWatch.thy ===== *)
theory IoWatch
  imports Prelude
begin

text \<open>
  The set of watched descriptors: \<open>lib/iowatch.cc\<close>. The array is kept in descending order. Under
  the invariant \<open>iowatch_inv\<close> the operations act on a set of descriptors, except that a
  descriptor which was the lowest when it was removed is not added again.
\<close>

definition FD_SETSIZE :: nat where "FD_SETSIZE = 1024"

record iowatch =
  fileDescriptorCount :: nat
  fileDescriptors :: "int list"

text \<open>
  The \<open>memset\<close> of \<open>FD_SETSIZE\<close> bytes sets the first quarter of the integers to -1; \<open>junk\<close> is what
  the allocated block held.
\<close>

definition iowatch_new :: "int list \<Rightarrow> iowatch" where
  "iowatch_new junk =
     \<lparr>fileDescriptorCount = 0,
      fileDescriptors = replicate (FD_SETSIZE div 4) (- 1) @ drop (FD_SETSIZE div 4) junk\<rparr>"

function fd_pos :: "(int \<Rightarrow> bool) \<Rightarrow> int list \<Rightarrow> nat \<Rightarrow> nat \<Rightarrow> nat" where
  "fd_pos go xs n pos = (if pos < n \<and> go (xs ! pos) then fd_pos go xs n (pos + 1) else pos)"
  by auto
termination by (relation "measure (\<lambda>(_, _, n, pos). n - pos)") auto

declare fd_pos.simps [simp del]

text \<open>The two shifting loops: up from the end, and down from the position.\<close>

fun shift_up :: "nat \<Rightarrow> nat \<Rightarrow> int list \<Rightarrow> int list" where
  "shift_up 0 pos xs = xs"
| "shift_up (Suc i) pos xs = (if Suc i > pos then shift_up i pos (xs[Suc i := xs ! i]) else xs)"

function shift_down :: "nat \<Rightarrow> nat \<Rightarrow> int list \<Rightarrow> int list" where
  "shift_down i n xs = (if i < n then shift_down (i + 1) n (xs[i := xs ! (i + 1)]) else xs)"
  by auto
termination by (relation "measure (\<lambda>(i, n, _). n - i)") auto

declare shift_down.simps [simp del]

text \<open>\<open>None\<close> is an access outside the array.\<close>

definition addIO :: "int \<Rightarrow> iowatch \<Rightarrow> iowatch option" where
  "addIO fd w =
     (let n = fileDescriptorCount w; xs = fileDescriptors w; pos = fd_pos (\<lambda>x. fd < x) xs n 0
      in if pos \<ge> FD_SETSIZE then None
      else if xs ! pos = fd then Some w
      else if n \<ge> FD_SETSIZE then None
      else Some (w\<lparr>fileDescriptors := (shift_up n pos xs)[pos := fd], fileDescriptorCount := n + 1\<rparr>))"

definition remIO :: "int \<Rightarrow> iowatch \<Rightarrow> iowatch" where
  "remIO fd w =
     (let n = fileDescriptorCount w; xs = fileDescriptors w; pos = fd_pos (\<lambda>x. fd \<noteq> x) xs n 0
      in if pos = n then w
      else w\<lparr>fileDescriptors := shift_down pos (n - 1) xs, fileDescriptorCount := n - 1\<rparr>)"

text \<open>What \<open>watch\<close> gives to \<open>select\<close>: the number of descriptors to look at and the set.\<close>

definition watched_fds :: "iowatch \<Rightarrow> int list" where
  "watched_fds w = take (fileDescriptorCount w) (fileDescriptors w)"

definition select_args :: "iowatch \<Rightarrow> int \<times> int set" where
  "select_args w = (fold (\<lambda>fd m. if fd > m then fd else m) (watched_fds w) 0 + 1, set (watched_fds w))"

section \<open>The loops\<close>

lemma fd_pos_spec:
  "pos \<le> n \<Longrightarrow> n \<le> length xs \<Longrightarrow>
   fd_pos go xs n pos = pos + length (takeWhile go (drop pos (take n xs)))"
proof (induction go xs n pos rule: fd_pos.induct)
  case (1 go xs n pos)
  show ?case
  proof (cases "pos < n")
    case True
    then have "drop pos (take n xs) = xs ! pos # drop (Suc pos) (take n xs)"
      using 1 by (simp add: Cons_nth_drop_Suc [symmetric])
    then show ?thesis using 1 True by (subst fd_pos.simps) simp
  qed (use 1 in \<open>simp add: fd_pos.simps\<close>)
qed

lemma shift_up_length [simp]: "length (shift_up i pos xs) = length xs"
  by (induction i pos xs rule: shift_up.induct) simp_all

lemma shift_up_spec:
  "i < length xs \<Longrightarrow> pos \<le> i \<Longrightarrow>
   (shift_up i pos xs)[pos := x] = take pos xs @ x # drop pos (take i xs) @ drop (Suc i) xs"
proof (induction i pos xs rule: shift_up.induct)
  case (1 pos xs)
  then show ?case by (simp add: upd_conv_take_nth_drop)
next
  case (2 i pos xs)
  show ?case
  proof (cases "Suc i > pos")
    case True
    moreover have "drop (Suc i) (xs[Suc i := xs ! i]) = xs ! i # drop (Suc (Suc i)) xs"
      using 2(2) by (simp add: drop_update_swap Cons_nth_drop_Suc [symmetric])
    moreover have "drop pos (take (Suc i) xs) = drop pos (take i xs) @ [xs ! i]"
      using 2(2) True by (simp add: take_Suc_conv_app_nth)
    ultimately show ?thesis using 2 by simp
  next
    case False
    then have "pos = Suc i" using 2(3) by simp
    then show ?thesis using 2(2) by (simp add: upd_conv_take_nth_drop)
  qed
qed

lemma shift_down_length [simp]: "length (shift_down i n xs) = length xs"
  by (induction i n xs rule: shift_down.induct) (simp add: shift_down.simps)

lemma shift_down_spec:
  "i \<le> n \<Longrightarrow> n < length xs \<Longrightarrow>
   take (Suc n) (shift_down i n xs) = take i xs @ drop (Suc i) (take (Suc n) xs) @ [xs ! n]"
proof (induction i n xs rule: shift_down.induct)
  case (1 i n xs)
  show ?case
  proof (cases "i < n")
    case True
    have "take (Suc i) (xs[i := xs ! (i + 1)]) = take i xs @ [xs ! (i + 1)]"
      using True 1(3) by (simp add: take_Suc_conv_app_nth)
    moreover have "drop (Suc i) (take (Suc n) xs) = xs ! (i + 1) # drop (Suc (Suc i)) (take (Suc n) xs)"
      using True 1(3) by (simp add: Cons_nth_drop_Suc [symmetric])
    moreover have "drop (Suc (Suc i)) (take (Suc n) (xs[i := xs ! (i + 1)])) = drop (Suc (Suc i)) (take (Suc n) xs)"
      by (simp add: drop_take)
    ultimately show ?thesis using 1 True by (subst shift_down.simps) simp
  next
    case False
    then have "i = n" using 1(2) by simp
    then show ?thesis using 1(3) by (simp add: shift_down.simps take_Suc_conv_app_nth)
  qed
qed


section \<open>The set of descriptors\<close>

definition iowatch_inv :: "iowatch \<Rightarrow> bool" where
  "iowatch_inv w \<longleftrightarrow> length (fileDescriptors w) = FD_SETSIZE \<and> fileDescriptorCount w \<le> FD_SETSIZE \<and>
     sorted_wrt (>) (watched_fds w)"

text \<open>
  The cell behind the last descriptor, which \<open>addIO\<close> compares too when it reaches the end of the
  descriptors.
\<close>

definition stale_cell :: "int \<Rightarrow> iowatch \<Rightarrow> bool" where
  "stale_cell fd w \<longleftrightarrow> (\<forall>x \<in> set (watched_fds w). fd < x) \<and> fileDescriptorCount w < FD_SETSIZE \<and>
     fileDescriptors w ! fileDescriptorCount w = fd"

lemma takeWhile_split:
  fixes fd :: int
  assumes "sorted_wrt (>) xs"
  shows "xs = takeWhile (\<lambda>x. fd < x) xs @ dropWhile (\<lambda>x. fd < x) xs"
    and "x \<in> set (takeWhile (\<lambda>x. fd < x) xs) \<Longrightarrow> fd < x"
    and "x \<in> set (dropWhile (\<lambda>x. fd < x) xs) \<Longrightarrow> x \<le> fd"
proof -
  show "x \<in> set (dropWhile (\<lambda>x. fd < x) xs) \<Longrightarrow> x \<le> fd"
    using assms by (induction xs) (fastforce split: if_splits)+
qed (auto dest: set_takeWhileD)

lemma addIO_spec:
  assumes "iowatch_inv w" "\<not> stale_cell fd w" "fileDescriptorCount w < FD_SETSIZE \<or> fd \<in> set (watched_fds w)"
  shows "\<exists>w'. addIO fd w = Some w' \<and> iowatch_inv w' \<and> set (watched_fds w') = insert fd (set (watched_fds w))"
proof -
  let ?n = "fileDescriptorCount w" and ?xs = "fileDescriptors w" and ?ys = "watched_fds w"
  let ?hi = "takeWhile (\<lambda>x. fd < x) ?ys" and ?lo = "dropWhile (\<lambda>x. fd < x) ?ys"
  let ?pos = "length ?hi"
  have len: "length ?xs = FD_SETSIZE" "?n \<le> FD_SETSIZE" "length ?ys = ?n" and srt: "sorted_wrt (>) ?ys"
    using assms(1) by (auto simp: iowatch_inv_def watched_fds_def)
  note split = takeWhile_split [OF srt, where fd = fd]
  have pos: "fd_pos (\<lambda>x. fd < x) ?xs ?n 0 = ?pos"
    using len by (simp add: fd_pos_spec watched_fds_def)
  have "?pos \<le> ?n" using len by (metis length_takeWhile_le)
  have lo: "drop ?pos ?ys = ?lo" "take ?pos ?ys = ?hi"
    by (simp_all add: dropWhile_eq_drop takeWhile_eq_take [symmetric])
  show ?thesis
  proof (cases "fd \<in> set ?ys")
    case True
    then have "?lo \<noteq> []" using split(1,2) by (metis append_Nil2 less_irrefl)
    then have "?pos < ?n" using lo len by (metis drop_eq_Nil linorder_not_less)
    moreover have "hd ?lo = fd"
    proof -
      have "fd \<in> set ?lo" using True split(2) by (metis Un_iff less_irrefl set_append split(1))
      then obtain y ys where "?lo = y # ys" "fd = y \<or> fd \<in> set ys" by (cases ?lo) auto
      moreover have "sorted_wrt (>) ?lo" using srt by (metis sorted_wrt_append split(1))
      ultimately show ?thesis using split(3) [of y] by auto
    qed
    ultimately have "?xs ! ?pos = fd"
      using lo by (metis hd_drop_conv_nth len(3) nth_take watched_fds_def)
    then show ?thesis
      using assms(1) True pos \<open>?pos < ?n\<close> len by (auto simp: addIO_def Let_def insert_absorb)
  next
    case False
    then have n: "?n < FD_SETSIZE" using assms(3) by simp
    have "?xs ! ?pos \<noteq> fd"
    proof (cases "?pos = ?n")
      case True
      then have "?lo = []" using lo len by (metis drop_all order_refl)
      then have "\<forall>x \<in> set ?ys. fd < x" using split(1,2) by (metis append_Nil2)
      then show ?thesis using assms(2) n True by (simp add: stale_cell_def)
    next
      case False
      then have "?pos < ?n" using \<open>?pos \<le> ?n\<close> by simp
      then show ?thesis using \<open>fd \<notin> set ?ys\<close> len by (metis nth_mem nth_take watched_fds_def)
    qed
    then have add: "addIO fd w = Some (w\<lparr>fileDescriptors := (shift_up ?n ?pos ?xs)[?pos := fd], fileDescriptorCount := ?n + 1\<rparr>)"
      using n \<open>?pos \<le> ?n\<close> pos by (simp add: addIO_def Let_def)
    let ?w = "w\<lparr>fileDescriptors := (shift_up ?n ?pos ?xs)[?pos := fd], fileDescriptorCount := ?n + 1\<rparr>"
    have "watched_fds ?w = take (Suc ?n) ((shift_up ?n ?pos ?xs)[?pos := fd])" by (simp add: watched_fds_def)
    also have "\<dots> = ?hi @ fd # ?lo"
    proof -
      have A: "take ?pos ?xs = ?hi" using \<open>?pos \<le> ?n\<close> lo(2) unfolding watched_fds_def by (simp only: take_take min.absorb1)
      have B: "drop ?pos (take ?n ?xs) = ?lo" using lo(1) unfolding watched_fds_def .
      have "?n < length ?xs" using n len(1) by simp
      from shift_up_spec [OF this \<open>?pos \<le> ?n\<close>, of fd]
      have "(shift_up ?n ?pos ?xs)[?pos := fd] = (?hi @ fd # ?lo) @ drop (Suc ?n) ?xs"
        unfolding A B by simp
      moreover have "length (?hi @ fd # ?lo) = Suc ?n"
        using arg_cong [OF split(1), of length] len(3) unfolding length_append length_Cons by linarith
      ultimately show ?thesis by (metis append_eq_conv_conj)
    qed
    finally have w': "watched_fds ?w = ?hi @ fd # ?lo" .
    have "sorted_wrt (>) (?hi @ fd # ?lo)"
    proof -
      have "sorted_wrt (>) (?hi @ ?lo)" using srt split(1) by simp
      moreover have "\<forall>x \<in> set ?hi. fd < x" "\<forall>x \<in> set ?lo. x < fd"
        using split(2,3) False by (auto dest: set_dropWhileD simp: order_le_less)
      ultimately show ?thesis unfolding sorted_wrt_append by auto
    qed
    moreover have "set (?hi @ fd # ?lo) = insert fd (set ?ys)"
      using split(1) by (metis Un_insert_right list.simps(15) set_append)
    ultimately have "iowatch_inv ?w" "set (watched_fds ?w) = insert fd (set ?ys)"
      unfolding iowatch_inv_def w' using len(1) n by (simp_all del: set_append)
    with add show ?thesis by blast
  qed
qed

lemma remIO_spec:
  assumes "iowatch_inv w"
  shows "iowatch_inv (remIO fd w) \<and> set (watched_fds (remIO fd w)) = set (watched_fds w) - {fd}"
proof -
  let ?n = "fileDescriptorCount w" and ?xs = "fileDescriptors w" and ?ys = "watched_fds w"
  let ?a = "takeWhile (\<lambda>x. fd \<noteq> x) ?ys"
  let ?pos = "length ?a"
  have len: "length ?xs = FD_SETSIZE" "?n \<le> FD_SETSIZE" "length ?ys = ?n" and srt: "sorted_wrt (>) ?ys"
    using assms by (auto simp: iowatch_inv_def watched_fds_def)
  have pos: "fd_pos (\<lambda>x. fd \<noteq> x) ?xs ?n 0 = ?pos"
    using len by (simp add: fd_pos_spec watched_fds_def)
  show ?thesis
  proof (cases "fd \<in> set ?ys")
    case False
    then have "?a = ?ys" by (intro takeWhile_eq_all_conv [THEN iffD2]) auto
    then have "?pos = ?n" by (simp only: len(3))
    then have "remIO fd w = w" using pos by (simp only: remIO_def Let_def simp_thms if_True)
    then show ?thesis using assms False by simp
  next
    case True
    then obtain as bs where ys: "?ys = as @ fd # bs" "fd \<notin> set as" using split_list_first [OF True] by blast
    have a: "?a = as" unfolding ys(1) by (subst takeWhile_append2) (use ys(2) in auto)
    have n: "?n = Suc (length as + length bs)" using len ys by simp
    have "take ?n (shift_down (length as) (?n - 1) ?xs) =
        take (length as) ?ys @ drop (Suc (length as)) ?ys @ [?xs ! (?n - 1)]"
      using shift_down_spec [of "length as" "?n - 1" ?xs] n len by (simp add: watched_fds_def)
    then have "take ?n (shift_down (length as) (?n - 1) ?xs) = (as @ bs) @ [?xs ! (?n - 1)]"
      using ys by simp
    then have "take (?n - 1) (shift_down (length as) (?n - 1) ?xs) = as @ bs"
      using n by (metis (no_types, lifting) append_eq_conv_conj diff_Suc_1 length_append min.absorb1
          le_add2 plus_1_eq_Suc take_take)
    then have "watched_fds (remIO fd w) = as @ bs"
      using n pos a by (simp add: remIO_def watched_fds_def Let_def)
    then show ?thesis
      using srt ys n pos a len by (auto simp: iowatch_inv_def sorted_wrt_append remIO_def Let_def)
  qed
qed

lemma iowatch_new_inv:
  "length junk = FD_SETSIZE \<Longrightarrow> iowatch_inv (iowatch_new junk) \<and> set (watched_fds (iowatch_new junk)) = {}"
  by (simp add: iowatch_inv_def iowatch_new_def watched_fds_def FD_SETSIZE_def)

lemma fold_max: "fold (\<lambda>fd m. if fd > m then fd else m) xs (m :: int) = Max (insert m (set xs))"
proof (induction xs arbitrary: m)
  case (Cons x xs)
  have "(if x > m then x else m) = max m x" by (simp add: max_def)
  then have "fold (\<lambda>fd m. if fd > m then fd else m) (x # xs) m = Max (insert (max m x) (set xs))"
    using Cons by simp
  also have "\<dots> = Max (insert m (set (x # xs)))"
    by (cases "xs = []") (simp_all add: Max_insert max.assoc max.commute)
  finally show ?case .
qed simp

lemma readd_lost:
  assumes "iowatch_inv w" "fileDescriptorCount w > 0" "fd = List.last (watched_fds w)"
  shows "addIO fd (remIO fd w) = Some (remIO fd w)"
proof -
  let ?n = "fileDescriptorCount w" and ?xs = "fileDescriptors w"
  have len: "length ?xs = FD_SETSIZE" "?n \<le> FD_SETSIZE" and srt: "sorted_wrt (>) (watched_fds w)"
    using assms(1) by (auto simp: iowatch_inv_def)
  obtain m where n: "?n = Suc m" using assms(2) by (cases ?n) auto
  have ys: "watched_fds w = take m ?xs @ [fd]"
    using assms(3) n len by (simp add: watched_fds_def take_Suc_conv_app_nth)
  then have nth: "?xs ! m = fd" using n len by (simp add: watched_fds_def take_Suc_conv_app_nth)
  have hi: "\<forall>x \<in> set (take m ?xs). fd < x" using srt ys by (simp add: sorted_wrt_append)
  have "takeWhile (\<lambda>x. fd \<noteq> x) (take ?n ?xs) = take m ?xs"
    using ys hi by (auto simp: watched_fds_def takeWhile_append)
  then have rem: "remIO fd w = w\<lparr>fileDescriptors := ?xs, fileDescriptorCount := m\<rparr>"
    using n len by (simp add: remIO_def fd_pos_spec Let_def shift_down.simps)
  have "length (takeWhile (\<lambda>x. fd < x) (take m ?xs)) = m"
    using hi n len by (metis takeWhile_eq_all_conv length_take min.absorb2 Suc_leD)
  then show ?thesis
    using n len nth by (simp add: rem addIO_def fd_pos_spec Let_def)
qed

text \<open>
  C28: The watched descriptors are a set. A new object watches nothing; adding a descriptor
  inserts it into what is given to \<open>select\<close>, and removing one takes it out; the count given to
  \<open>select\<close> is one more than the highest descriptor. But the cell behind the last descriptor is
  compared as well: the lowest descriptor, once removed, is not watched when it is added again.
\<close>

theorem iowatch_is_set:
  assumes "iowatch_inv w"
  shows "iowatch_inv (remIO fd w) \<and> snd (select_args (remIO fd w)) = snd (select_args w) - {fd} \<and>
    (\<not> stale_cell fd w \<and> fileDescriptorCount w < FD_SETSIZE \<longrightarrow>
      (\<exists>w'. addIO fd w = Some w' \<and> iowatch_inv w' \<and> snd (select_args w') = insert fd (snd (select_args w)))) \<and>
    fst (select_args w) = Max (insert 0 (snd (select_args w))) + 1 \<and>
    (fileDescriptorCount w > 0 \<and> fd = List.last (watched_fds w) \<longrightarrow> addIO fd (remIO fd w) = Some (remIO fd w))"
  using remIO_spec [OF assms] addIO_spec [OF assms] readd_lost [OF assms]
  by (auto simp: select_args_def fold_max)

theorem iowatch_is_set_witness:
  "let w = iowatch_new (replicate 1024 0); w' = the (addIO 3 w)
   in snd (select_args w') = {3} \<and> addIO 3 (remIO 3 w') = Some (remIO 3 w')"
proof -
  let ?w = "iowatch_new (replicate 1024 0)"
  have w: "iowatch_inv ?w" "snd (select_args ?w) = {}"
    using iowatch_new_inv [of "replicate 1024 0"] by (simp_all add: FD_SETSIZE_def select_args_def)
  have "\<not> stale_cell 3 ?w" "fileDescriptorCount ?w < FD_SETSIZE"
    by (simp_all add: stale_cell_def iowatch_new_def FD_SETSIZE_def nth_append)
  then obtain w' where w': "addIO 3 ?w = Some w'" "iowatch_inv w'" "snd (select_args w') = {3}"
    using iowatch_is_set [OF w(1), of 3] w(2) by auto
  then have "watched_fds w' \<noteq> []" "set (watched_fds w') = {3}" by (auto simp: select_args_def)
  then have "fileDescriptorCount w' > 0" "3 = List.last (watched_fds w')"
    using List.last_in_set [of "watched_fds w'"] by (auto simp: watched_fds_def)
  then show ?thesis using iowatch_is_set [OF w'(2), of 3] w' by simp
qed

end
