(* ===== verification/PrintPage.thy ===== *)
theory PrintPage
  imports Bitmap Rpcs "HOL-Library.Signed_Division"
begin

text \<open>
  The pages of a print job: \<open>plpprint/plpprintd.cc\<close> up to \<open>convertPage\<close>. A page is a sequence of
  drawing commands in binary, which \<open>convertPage\<close> turns into PostScript. \<open>decode_op\<close> holds what
  each case of the switch reads, \<open>exec_op\<close> what it prints and changes; the position \<open>i\<close> and the
  static variables are the record \<open>page\<close>, with the text of the output file. \<open>None\<close> is a read
  behind the contents of the page, or a page that never ends. Debugging output to another file
  is not modelled.
\<close>

section \<open>Formatted output\<close>

definition nl :: string where "nl = [CHR 0x0A]"

definition hexdigit :: "nat \<Rightarrow> char" where
  "hexdigit n = (if n < 10 then char_of (48 + n) else char_of (87 + n))"

fun hex :: "nat \<Rightarrow> nat \<Rightarrow> string" where
  "hex 0 n = []"
| "hex (Suc k) n = hex k (n div 16) @ [hexdigit (n mod 16)]"

text \<open>\<open>%d\<close> and \<open>%u\<close> of 32 bits, \<open>%d\<close> of a byte; a position in a comment.\<close>

definition dd :: "32 word \<Rightarrow> string" where "dd w = decimal (sint w)"
definition du :: "32 word \<Rightarrow> string" where "du w = decimal (uint w)"
definition db :: "byte \<Rightarrow> string" where "db b = decimal (uint b)"

definition at_pos :: "int \<Rightarrow> string \<Rightarrow> string" where
  "at_pos i s = ''% @'' @ decimal i @ '': '' @ s @ nl"

definition cstring :: "bytes \<Rightarrow> string" where
  "cstring b = chars (takeWhile (\<lambda>c. c \<noteq> 0) b)"

fun spaced :: "string list \<Rightarrow> string" where
  "spaced [] = []"
| "spaced [x] = x"
| "spaced (x # xs) = x @ '' '' @ spaced xs"

section \<open>Fonts\<close>

record fontmap_entry =
  fe_psifont :: string
  fe_bold :: bool
  fe_italic :: bool
  fe_psfont :: string

definition FALLBACK_FONT :: string where "FALLBACK_FONT = ''Courier''"

definition fe :: "string \<Rightarrow> bool \<Rightarrow> bool \<Rightarrow> string \<Rightarrow> fontmap_entry" where
  "fe psifont bold italic psfont =
     \<lparr>fe_psifont = psifont, fe_bold = bold, fe_italic = italic, fe_psfont = psfont\<rparr>"

definition default_fontmap :: "fontmap_entry list" where
  "default_fontmap =
     [fe ''Times New Roman'' False False ''Times-Roman'', fe ''Times New Roman'' True False ''Times-Bold'',
      fe ''Times New Roman'' False True ''Times-Italic'', fe ''Times New Roman'' True True ''Times-BoldItalic'',
      fe ''Arial'' False False ''Helvetica'', fe ''Arial'' True False ''Helvetica-Bold'',
      fe ''Arial'' False True ''Helvetica-Oblique'', fe ''Arial'' True True ''Helvetica-BoldOblique'',
      fe ''Courier New'' False False ''Courier'', fe ''Courier New'' True False ''Courier-Bold'',
      fe ''Courier New'' False True ''Courier-Oblique'', fe ''Courier New'' True True ''Courier-BoldOblique'',
      fe ''Swiss'' False False ''Courier'', fe ''Swiss'' True False ''Courier-Bold'',
      fe ''Swiss'' False True ''Courier-Oblique'', fe ''Swiss'' True True ''Courier-BoldOblique'']"

text \<open>\<open>strsep\<close> at colons: the field up to the first colon, and the rest if there is a colon.\<close>

definition strsep :: "string option \<Rightarrow> string option \<times> string option" where
  "strsep bp =
     (case bp of None \<Rightarrow> (None, None)
      | Some s \<Rightarrow> let t = takeWhile (\<lambda>c. c \<noteq> CHR '':'') s
          in (Some t, if length t < length s then Some (drop (length t + 1) s) else None))"

text \<open>A field that is there and not empty.\<close>

definition field :: "string option \<Rightarrow> string option" where
  "field x = (case x of Some (c # cs) \<Rightarrow> Some (c # cs) | _ \<Rightarrow> None)"

text \<open>A line that \<open>fgets\<close> returned, up to a number sign and the newline.\<close>

definition fontmap_line :: "string \<Rightarrow> fontmap_entry option" where
  "fontmap_line buf =
     (let buf = takeWhile (\<lambda>c. c \<noteq> CHR ''#'') buf; buf = takeWhile (\<lambda>c. c \<noteq> CHR 0x0A) buf;
          (psifont, bp) = strsep (Some buf); (b, bp) = strsep bp; (i, bp) = strsep bp; (psfont, bp) = strsep bp
      in do {
        psifont \<leftarrow> field psifont;
        b \<leftarrow> field b;
        bold \<leftarrow> scan_int b;
        i \<leftarrow> field i;
        italic \<leftarrow> scan_int i;
        psfont \<leftarrow> field psfont;
        Some (fe psifont ((word_of_int bold :: 32 word) \<noteq> 0) ((word_of_int italic :: 32 word) \<noteq> 0) psfont) })"

text \<open>New entries are put in front. \<open>file\<close> holds the lines of the file, if it can be opened.\<close>

definition init_fontmap :: "string list option \<Rightarrow> fontmap_entry list" where
  "init_fontmap lines =
     (let entries = fold (\<lambda>l es. case fontmap_line l of None \<Rightarrow> es | Some e \<Rightarrow> e # es)
            (case lines of None \<Rightarrow> [] | Some ls \<Rightarrow> ls) []
      in if entries \<noteq> [] then entries else fold (#) default_fontmap [])"

definition fontmap_search :: "fontmap_entry list \<Rightarrow> string \<Rightarrow> bool \<Rightarrow> bool \<Rightarrow> string" where
  "fontmap_search fm fname bold italic =
     (case List.find (\<lambda>e. fe_psifont e = fname \<and> fe_bold e = bold \<and> fe_italic e = italic) fm of
        Some e \<Rightarrow> fe_psfont e | None \<Rightarrow> FALLBACK_FONT)"

text \<open>\<open>std::string::find\<close> other than \<open>npos\<close>.\<close>

fun occurs :: "string \<Rightarrow> string \<Rightarrow> bool" where
  "occurs t [] \<longleftrightarrow> t = []"
| "occurs t (c # s) \<longleftrightarrow> take (length t) (c # s) = t \<or> occurs t s"


section \<open>The state of a page\<close>

text \<open>
  The position, the baseline offset of the last font, the static variables of the bounding box
  and of the fonts used, and the text of the output file.
\<close>

record page =
  pg_i :: int
  pg_boffset :: int
  pg_minx :: "32 word"
  pg_maxx :: "32 word"
  pg_miny :: "32 word"
  pg_maxy :: "32 word"
  pg_fonts :: string
  pg_out :: string

definition emit :: "string \<Rightarrow> page \<Rightarrow> page" where
  "emit s st = st\<lparr>pg_out := pg_out st @ s\<rparr>"

definition ps_setfont :: "fontmap_entry list \<Rightarrow> string \<Rightarrow> bool \<Rightarrow> bool \<Rightarrow> 32 word \<Rightarrow> page \<Rightarrow> page" where
  "ps_setfont fm fname bold italic fsize st =
     (let psf = fontmap_search fm fname bold italic;
          st = (if occurs psf (pg_fonts st) then st
                else st\<lparr>pg_fonts := pg_fonts st @ ''%%+ font '' @ psf @ nl\<rparr>)
      in emit (du fsize @ '' /'' @ psf @ '' F'' @ nl) st)"

fun ps_escape :: "bytes \<Rightarrow> bytes" where
  "ps_escape [] = []"
| "ps_escape (c # cs) =
     (if c = 0x28 \<or> c = 0x29 then 0x5c # c # ps_escape cs else c # ps_escape cs)"

text \<open>The rows of a bitmap; the decoded bytes may end too early.\<close>

fun bitmap_rows :: "nat \<Rightarrow> nat \<Rightarrow> bytes \<Rightarrow> string option" where
  "bitmap_rows 0 w b = Some []"
| "bitmap_rows (Suc h) w b =
     (if length b < w then None
      else do { r \<leftarrow> bitmap_rows h w (drop w b);
                Some (concat (map (\<lambda>x. hex 2 (unat x)) (take w b)) @ nl @ r) })"

definition ps_bitmap :: "32 word \<Rightarrow> 32 word \<Rightarrow> 32 word \<Rightarrow> 32 word \<Rightarrow> bytes \<Rightarrow> page \<Rightarrow> page option" where
  "ps_bitmap llx lly urx ury buf st = do {
     (ok, width, height, out) \<leftarrow> decodeBitmap buf [];
     if \<not> ok then Some st else do {
       rows \<leftarrow> bitmap_rows (nat (sint height)) (nat (sint width)) out;
       Some (emit (spaced [du llx, du lly, du urx, du ury, dd width, dd height, ''I''] @ nl @ rows) st) } }"

section \<open>The commands of a page\<close>

text \<open>
  What the cases of the switch read, in the order of the bytes. The last component of a bitmap
  is the memory at its length, of which \<open>decodeBitmap\<close> gets the address.
\<close>

datatype page_op =
    Start_section "32 word"
  | End_of_page
  | Drawing_mode byte
  | Clip_rect "32 word" "32 word" "32 word" "32 word"
  | Cancel_clip
  | Unknown06 byte "32 word"
  | Set_font bytes byte "16 word" "32 word" "32 word" "32 word"
  | End_font
  | Underline byte
  | Strikethru byte
  | Newline "32 word" "32 word"
  | Carriage_return "32 word" "32 word"
  | Foreground byte byte byte
  | Pen_style byte
  | Pen_thickness "32 word" "32 word"
  | Background byte byte byte
  | Brush_style byte
  | Unknown17 "32 word" "32 word"
  | Draw_line "32 word" "32 word" "32 word" "32 word"
  | Unknown1b "32 word" "32 word"
  | Draw_ellipse "32 word" "32 word" "32 word" "32 word"
  | Draw_rectangle "32 word" "32 word" "32 word" "32 word"
  | Draw_polygon "(32 word \<times> 32 word) list" byte
  | Draw_bitmap "32 word" "32 word" "32 word" "32 word" "32 word" bytes
  | Draw_bitmap4 "32 word" "32 word" "32 word" "32 word" "32 word" bytes "32 word" "32 word" "32 word" "32 word"
  | Draw_label bytes "32 word" "32 word"
  | Draw_justified bytes "32 word" "32 word" "32 word" "32 word" "32 word" byte "32 word"
  | Unhandled byte

text \<open>A counted string at offset 1: the string and the offset behind it.\<close>

definition counted :: "bytes \<Rightarrow> (bytes \<times> nat) option" where
  "counted p = do {
     b \<leftarrow> getByte p 1;
     (n, ofs) \<leftarrow> (if b AND 1 \<noteq> 0 then do { w \<leftarrow> getWord p 1; Some (unat (drop_bit 3 w), 3) }
                  else Some (unat (drop_bit 2 b), 2));
     if length p < ofs + n then None else Some (take n (drop ofs p), ofs + n) }"

fun points :: "nat \<Rightarrow> nat \<Rightarrow> bytes \<Rightarrow> ((32 word \<times> 32 word) list \<times> nat) option" where
  "points 0 ofs p = Some ([], ofs)"
| "points (Suc n) ofs p = do {
     x \<leftarrow> getDWord p ofs; y \<leftarrow> getDWord p (ofs + 4);
     (xs, ofs) \<leftarrow> points n (ofs + 8) p;
     Some ((x, y) # xs, ofs) }"

definition rd1 :: "(byte \<Rightarrow> page_op) \<Rightarrow> bytes \<Rightarrow> (page_op \<times> nat) option" where
  "rd1 c p = do { b \<leftarrow> getByte p 1; Some (c b, 2) }"

definition rd3 :: "(byte \<Rightarrow> byte \<Rightarrow> byte \<Rightarrow> page_op) \<Rightarrow> bytes \<Rightarrow> (page_op \<times> nat) option" where
  "rd3 c p = do { x \<leftarrow> getByte p 1; y \<leftarrow> getByte p 2; z \<leftarrow> getByte p 3; Some (c x y z, 4) }"

definition rd_xy :: "(32 word \<Rightarrow> 32 word \<Rightarrow> page_op) \<Rightarrow> bytes \<Rightarrow> (page_op \<times> nat) option" where
  "rd_xy c p = do { x \<leftarrow> getDWord p 1; y \<leftarrow> getDWord p 5; Some (c x y, 9) }"

definition rd_rect :: "(32 word \<Rightarrow> 32 word \<Rightarrow> 32 word \<Rightarrow> 32 word \<Rightarrow> page_op) \<Rightarrow> bytes \<Rightarrow> (page_op \<times> nat) option" where
  "rd_rect c p = do {
     l \<leftarrow> getDWord p 1; t \<leftarrow> getDWord p 5; r \<leftarrow> getDWord p 9; b \<leftarrow> getDWord p 13; Some (c l t r b, 17) }"

definition rd_font :: "bytes \<Rightarrow> (page_op \<times> nat) option" where
  "rd_font p = do {
     (fname, ofs) \<leftarrow> counted p;
     screenfont \<leftarrow> getByte p ofs;
     basesize \<leftarrow> getWord p (ofs + 1);
     style \<leftarrow> getDWord p (ofs + 3);
     fontsize \<leftarrow> getDWord p (ofs + 7);
     boffset \<leftarrow> getDWord p (ofs + 11);
     Some (Set_font fname screenfont basesize style fontsize boffset, ofs + 15) }"

definition rd_polygon :: "bytes \<Rightarrow> (page_op \<times> nat) option" where
  "rd_polygon p = do {
     count \<leftarrow> getDWord p 1;
     (xs, ofs) \<leftarrow> points (unat count) 5 p;
     frule \<leftarrow> getByte p ofs;
     Some (Draw_polygon xs frule, ofs + 1) }"

definition rd_bitmap :: "bytes \<Rightarrow> (page_op \<times> nat) option" where
  "rd_bitmap p = do {
     llx \<leftarrow> getDWord p 1; lly \<leftarrow> getDWord p 13; urx \<leftarrow> getDWord p 9; ury \<leftarrow> getDWord p 5;
     blen \<leftarrow> getDWord p 17;
     Some (Draw_bitmap llx ury urx lly blen (drop 17 p), 17 + unat blen) }"

definition rd_bitmap4 :: "bytes \<Rightarrow> (page_op \<times> nat) option" where
  "rd_bitmap4 p = do {
     llx \<leftarrow> getDWord p 1; lly \<leftarrow> getDWord p 13; urx \<leftarrow> getDWord p 9; ury \<leftarrow> getDWord p 5;
     blen \<leftarrow> getDWord p 17;
     let ofs = 17 + unat blen;
     u1 \<leftarrow> getDWord p ofs; u2 \<leftarrow> getDWord p (ofs + 4); u3 \<leftarrow> getDWord p (ofs + 8); u4 \<leftarrow> getDWord p (ofs + 12);
     Some (Draw_bitmap4 llx ury urx lly blen (drop 17 p) u1 u2 u3 u4, ofs + 16) }"

definition rd_label :: "bytes \<Rightarrow> (page_op \<times> nat) option" where
  "rd_label p = do {
     (t, ofs) \<leftarrow> counted p;
     x \<leftarrow> getDWord p ofs; y \<leftarrow> getDWord p (ofs + 4);
     Some (Draw_label t x y, ofs + 8) }"

definition rd_justified :: "bytes \<Rightarrow> (page_op \<times> nat) option" where
  "rd_justified p = do {
     (t, ofs) \<leftarrow> counted p;
     l \<leftarrow> getDWord p ofs; tp \<leftarrow> getDWord p (ofs + 4); r \<leftarrow> getDWord p (ofs + 8);
     b \<leftarrow> getDWord p (ofs + 12); baseline \<leftarrow> getDWord p (ofs + 16);
     align \<leftarrow> getByte p (ofs + 20); amargin \<leftarrow> getDWord p (ofs + 21);
     Some (Draw_justified t l tp r b baseline align amargin, ofs + 25) }"

text \<open>One command and the number of bytes the position advances; \<open>p\<close> is the page from the position on.\<close>

definition decode_op :: "bytes \<Rightarrow> (page_op \<times> nat) option" where
  "decode_op p = do {
     opcode \<leftarrow> getByte p 0;
     if opcode = 0x00 then do { w \<leftarrow> getDWord p 1; Some (Start_section w, 5) }
     else if opcode = 0x01 then Some (End_of_page, length p + 1)
     else if opcode = 0x03 then rd1 Drawing_mode p
     else if opcode = 0x04 then rd_rect Clip_rect p
     else if opcode = 0x05 then Some (Cancel_clip, 1)
     else if opcode = 0x06 then do { b \<leftarrow> getByte p 1; w \<leftarrow> getDWord p 2; Some (Unknown06 b w, 6) }
     else if opcode = 0x07 then rd_font p
     else if opcode = 0x08 then Some (End_font, 1)
     else if opcode = 0x09 then rd1 Underline p
     else if opcode = 0x0a then rd1 Strikethru p
     else if opcode = 0x0b then rd_xy Newline p
     else if opcode = 0x0c then rd_xy Carriage_return p
     else if opcode = 0x0d then rd3 Foreground p
     else if opcode = 0x0e then rd1 Pen_style p
     else if opcode = 0x0f then rd_xy Pen_thickness p
     else if opcode = 0x10 then rd3 Background p
     else if opcode = 0x11 then rd1 Brush_style p
     else if opcode = 0x17 then rd_xy Unknown17 p
     else if opcode = 0x19 then rd_rect Draw_line p
     else if opcode = 0x1b then rd_xy Unknown1b p
     else if opcode = 0x1f then rd_rect Draw_ellipse p
     else if opcode = 0x20 then rd_rect Draw_rectangle p
     else if opcode = 0x23 then rd_polygon p
     else if opcode = 0x25 then rd_bitmap p
     else if opcode = 0x26 then rd_bitmap4 p
     else if opcode = 0x27 then rd_label p
     else if opcode = 0x28 then rd_justified p
     else Some (Unhandled opcode, 1) }"


section \<open>What a command prints\<close>

definition regular :: "bool \<Rightarrow> bool \<Rightarrow> string" where
  "regular bold italic = (if bold then ''Bold'' else []) @ (if italic then ''Italic'' else []) @
     (if bold \<or> italic then [] else ''Regular'')"

text \<open>
  \<open>left < minx\<close> compares an \<open>unsigned long\<close> with an \<open>int\<close>, which is converted with its sign.
\<close>

definition ulong :: "32 word \<Rightarrow> 64 word" where "ulong w = ucast w"
definition ulong_int :: "32 word \<Rightarrow> 64 word" where "ulong_int w = scast w"

definition clip_bounds :: "32 word \<Rightarrow> 32 word \<Rightarrow> 32 word \<Rightarrow> 32 word \<Rightarrow> page \<Rightarrow> page" where
  "clip_bounds left tp right bottom st =
     (let st = (if ulong left < ulong_int (pg_minx st) then st\<lparr>pg_minx := left\<rparr> else st);
          st = (if ulong right > ulong_int (pg_maxx st) then st\<lparr>pg_maxx := right\<rparr> else st);
          st = (if ulong tp < ulong_int (pg_miny st) then st\<lparr>pg_miny := tp\<rparr> else st)
      in if ulong bottom > ulong_int (pg_maxy st) then st\<lparr>pg_maxy := bottom\<rparr> else st)"

definition exec_font :: "fontmap_entry list \<Rightarrow> int \<Rightarrow> bytes \<Rightarrow> 32 word \<Rightarrow> 32 word \<Rightarrow> 32 word \<Rightarrow> page \<Rightarrow> page" where
  "exec_font fm i fname style fontsize boffset st =
     (let italic = (style AND 1 \<noteq> 0); bold = (style AND 2 \<noteq> 0);
          st = emit (at_pos i (''Font '' @ [CHR 0x27] @ cstring fname @ [CHR 0x27] @ '' '' @ du fontsize @ '' '' @
                 regular bold italic)) (st\<lparr>pg_boffset := uint boffset\<rparr>)
      in ps_setfont fm (cstring fname) bold italic fontsize st)"

definition exec_label :: "int \<Rightarrow> bytes \<Rightarrow> 32 word \<Rightarrow> 32 word \<Rightarrow> page \<Rightarrow> page" where
  "exec_label i t x y st =
     (let text = cstring (ps_escape t)
      in emit (at_pos i (''Text '' @ [CHR 0x27] @ text @ [CHR 0x27] @ '' '' @ spaced [dd x, dd y]) @
               ''('' @ text @ '') '' @ spaced [dd x, decimal (uint y + pg_boffset st), ''0 0 -1 T''] @ nl) st)"

definition exec_justified ::
  "int \<Rightarrow> bytes \<Rightarrow> 32 word \<Rightarrow> 32 word \<Rightarrow> 32 word \<Rightarrow> 32 word \<Rightarrow> 32 word \<Rightarrow> byte \<Rightarrow> 32 word \<Rightarrow> page \<Rightarrow> page" where
  "exec_justified i t left tp right bottom baseline align amargin st =
     (let st = emit (at_pos i (''JText '' @ [CHR 0x27] @ cstring t @ [CHR 0x27] @ '' '' @
                 spaced [dd left, decimal (sint bottom + pg_boffset st), dd tp, dd right, dd baseline, db align, dd amargin])) st;
          text = cstring (ps_escape t);
          (left, right) = (if align = 2 then (left, right - amargin) else (left + amargin, right));
          bottom = bottom - word_of_int (sint (bottom - tp) sdiv 4)
      in emit (''('' @ text @ '') '' @
           spaced [dd left, decimal (sint bottom + pg_boffset st), dd tp, dd right, db align, ''T''] @ nl) st)"

text \<open>
  The case of the switch behind its reads, for a command of \<open>n\<close> bytes. The position is an \<open>int\<close>,
  the length of a bitmap an \<open>unsigned long\<close>.
\<close>

definition exec_op :: "fontmap_entry list \<Rightarrow> page_op \<times> nat \<Rightarrow> page \<Rightarrow> page option" where
  "exec_op fm = (\<lambda>(c, n) st.
     let i = pg_i st; i' = sint (word_of_int (i + int n) :: 32 word); st = st\<lparr>pg_i := i'\<rparr>
     in case c of
       Start_section w \<Rightarrow> Some (emit (at_pos i (''Section '' @ du (w AND 3) @ '', Page '' @ du (drop_bit 2 w)) @
           ''1 1 TH 32 DM RC 1 PS CC'' @ nl) st)
     | End_of_page \<Rightarrow> Some st
     | Drawing_mode m \<Rightarrow> Some (emit (at_pos i (''Drawing mode '' @ hex 2 (unat m)) @ db m @ '' DM'' @ nl) st)
     | Clip_rect l t r b \<Rightarrow> Some (emit (at_pos i' (''bbox '' @ spaced [du l, du t, du r, du b]) @
           spaced [du l, du t, du r, du b, ''CB''] @ nl) (clip_bounds l t r b st))
     | Cancel_clip \<Rightarrow> Some (emit (at_pos i ''Cancel Cliprect'' @ ''CC'' @ nl) st)
     | Unknown06 b w \<Rightarrow> Some (emit (at_pos i (''U06 '' @ db b @ '' 0x'' @ hex 8 (unat w))) st)
     | Set_font fname screenfont basesize style fontsize boffset \<Rightarrow>
         Some (exec_font fm i fname style fontsize boffset st)
     | End_font \<Rightarrow> Some (emit (at_pos i ''End Font'') st)
     | Underline b \<Rightarrow> Some (emit (at_pos i (''Underline '' @ db b) @ db b @ '' UL'' @ nl) st)
     | Strikethru b \<Rightarrow> Some (emit (at_pos i (''Strikethru '' @ db b) @ db b @ '' ST'' @ nl) st)
     | Newline x y \<Rightarrow> Some (emit (at_pos i (''Newline '' @ spaced [dd x, dd y])) st)
     | Carriage_return x y \<Rightarrow> Some (emit (at_pos i (''CR '' @ spaced [dd x, dd y])) st)
     | Foreground r g b \<Rightarrow> Some (emit (at_pos i (''Foreground '' @ spaced [db r, db g, db b]) @
           spaced [db r, db g, db b, ''FG''] @ nl) st)
     | Pen_style b \<Rightarrow> Some (emit (at_pos i (''Pen Style '' @ db b) @ db b @ '' PS'' @ nl) st)
     | Pen_thickness x y \<Rightarrow> Some (emit (at_pos i (''Pen thickness '' @ spaced [du x, du y]) @
           spaced [du x, du y, ''TH''] @ nl) st)
     | Background r g b \<Rightarrow> Some (emit (at_pos i (''Background '' @ spaced [db r, db g, db b]) @
           spaced [db r, db g, db b, ''BG''] @ nl) st)
     | Brush_style b \<Rightarrow> Some (emit (at_pos i (''Brush style '' @ db b) @ db b @ '' BS'' @ nl) st)
     | Unknown17 x y \<Rightarrow> Some (emit (at_pos i (''U17 '' @ spaced [du x, du y])) st)
     | Draw_line l t r b \<Rightarrow> Some (emit (at_pos i (''Line '' @ spaced [du l, du t, du r, du b]) @
           spaced [du l, du t, du r, du b, ''L''] @ nl) st)
     | Unknown1b x y \<Rightarrow> Some (emit (at_pos i (''U1b '' @ spaced [du x, du y])) st)
     | Draw_ellipse l t r b \<Rightarrow> Some (emit (at_pos i (''Ellipse '' @ spaced [du l, du t, du r, du b]) @
           spaced [du l, du t, du r, du b, ''E''] @ nl) st)
     | Draw_rectangle l t r b \<Rightarrow> Some (emit (at_pos i (''Rectangle '' @ spaced [du l, du t, du r, du b]) @
           spaced [du l, du t, du r, du b, ''R''] @ nl) st)
     | Draw_polygon xs frule \<Rightarrow> Some (emit (at_pos i (''Polygon ('' @ decimal (int (length xs)) @ '' segments)'') @
           ''['' @ nl @ concat (map (\<lambda>(x, y). spaced [dd x, dd y] @ nl) xs) @
           ''] '' @ (if frule \<noteq> 0 then ''false'' else ''true'') @ '' P'' @ nl) st)
     | Draw_bitmap llx ury urx lly blen buf \<Rightarrow>
         ps_bitmap llx lly urx ury buf (emit (at_pos i ''Bitmap'') st)
     | Draw_bitmap4 llx ury urx lly blen buf u1 u2 u3 u4 \<Rightarrow>
         ps_bitmap llx lly urx ury buf (emit (at_pos i (''Bitmap '' @ spaced [du u1, du u2, du u3, du u4])) st)
     | Draw_label t x y \<Rightarrow> Some (exec_label i t x y st)
     | Draw_justified t l tp r b baseline align amargin \<Rightarrow>
         Some (exec_justified i t l tp r b baseline align amargin st)
     | Unhandled opcode \<Rightarrow>
         Some (emit (''@'' @ decimal i @ '': UNHANDLED OPCODE '' @ hex 2 (unat opcode) @ nl) st))"

definition page_step :: "fontmap_entry list \<Rightarrow> bytes \<Rightarrow> page \<Rightarrow> page option" where
  "page_step fm buf st =
     (if pg_i st < 0 then None
      else do { c \<leftarrow> decode_op (drop (nat (pg_i st)) buf); exec_op fm c st })"

partial_function (option) page_loop :: "fontmap_entry list \<Rightarrow> bytes \<Rightarrow> page \<Rightarrow> page option" where
  "page_loop fm buf st =
     (if pg_i st < int (length buf)
      then do { st \<leftarrow> page_step fm buf st; page_loop fm buf st }
      else Some st)"

declare page_loop.simps [code]

text \<open>
  What the file does not determine: the version, \<open>ctime\<close> of now, and the contents of the prolog
  file; with no prolog file the code reads from a null pointer.
\<close>

record print_env =
  pe_version :: string
  pe_ctime :: string
  pe_prolog :: "string option"

definition page_header :: "print_env \<Rightarrow> string option" where
  "page_header env = do {
     prolog \<leftarrow> pe_prolog env;
     Some (''%!PS-Adobe-3.0'' @ nl @ ''%%Creator: plpprintd '' @ pe_version env @ nl @
       ''%%CreationDate: '' @ pe_ctime env @ ''%%Pages: (atend)'' @ nl @ ''%%BoundingBox: (atend)'' @ nl @
       ''%%DocumentNeededResources: (atend)'' @ nl @ ''%%LanguageLevel: 2'' @ nl @ ''%%EndComments'' @ nl @
       ''%%BeginProlog'' @ nl @ prolog @ ''%%EndProlog'' @ nl @ ''%%BeginSetup'' @ nl @
       ''currentpagedevice /PageSize get 1 get /top exch def'' @ nl @ ''ip 1 1 TH 32 DM RC 1 PS'' @ nl @
       ''%%EndSetup'' @ nl) }"

definition twips20 :: "32 word \<Rightarrow> string" where "twips20 w = decimal (sint w sdiv 20)"

definition page_trailer :: "int \<Rightarrow> page \<Rightarrow> page" where
  "page_trailer n st =
     (let fonts = (if pg_fonts st = [] then ''none'' @ nl else drop 4 (pg_fonts st));
          st = (if pg_fonts st = [] then st else st\<lparr>pg_fonts := fonts\<rparr>)
      in emit (''%%Trailer'' @ nl @ ''%%DocumentNeededResources: '' @ fonts @
           ''%%Pages: '' @ decimal (n + 1) @ nl @
           ''%%BoundingBox: '' @ spaced [twips20 (pg_minx st), twips20 (pg_miny st), twips20 (pg_maxx st), twips20 (pg_maxy st)] @ nl @
           ''%%EOF'' @ nl) st)"

definition convertPage ::
  "print_env \<Rightarrow> fontmap_entry list \<Rightarrow> int \<Rightarrow> bool \<Rightarrow> bytes \<Rightarrow> page \<Rightarrow> page option" where
  "convertPage env fm n lastp buf st = do {
     st \<leftarrow> (if n = 0 then do {
              header \<leftarrow> page_header env;
              Some (emit header (st\<lparr>pg_minx := 9999, pg_miny := 9999, pg_maxx := 0, pg_maxy := 0, pg_fonts := []\<rparr>)) }
            else Some st);
     let st = emit (''%%Page: '' @ spaced [decimal (n + 1), decimal (n + 1)] @ nl) (st\<lparr>pg_i := 0, pg_boffset := 0\<rparr>);
     st \<leftarrow> page_loop fm buf st;
     let st = emit (''showpage'' @ nl) st;
     Some (if lastp then page_trailer n st else st) }"

end
