(* ===== verification/PrintSpool.thy ===== *)
theory PrintSpool
  imports PrintPage Clients
begin

text \<open>
  The jobs of the print daemon: \<open>service_loop\<close> of \<open>plpprint/plpprintd.cc\<close>. Each round fetches a
  packet from the device, adds it to the page, converts complete pages into the spool file and hands
  the file to the print command at the end of the job. What happens to files is a log of events; \<open>None\<close>
  is the use of a closed stream, a null pointer or bytes behind a packet, or a page that never ends.
\<close>

definition fakePage :: bytes where
  "fakePage = [0x2a, 0x2a, 0x09, 0x00, 0x00, 0x00, 0x82, 0x2e, 0x00, 0x00, 0xc6, 0x41, 0x00, 0x00, 0x00]"

text \<open>
  A spool file created, deleted, left for the user with its contents, or its contents piped to the
  print command.
\<close>

datatype spool_event =
  Ev_create string | Ev_unlink string | Ev_stored string string | Ev_spooled string

text \<open>
  The environment: the results of \<open>mkstemp\<close> in the order of the calls, with the name it leaves, if
  a print command is set, and if \<open>popen\<close> starts it.
\<close>

record spool_env =
  se_print :: print_env
  se_fontmap :: "fontmap_entry list"
  se_mkstemp :: "nat \<Rightarrow> bool \<times> string"
  se_printcmd :: bool
  se_popen :: bool

text \<open>
  The variables of \<open>service_loop\<close>; \<open>sp_file\<close> is whether \<open>f\<close> is an open stream, and what has been
  written to it is the text of \<open>sp_page\<close>.
\<close>

record spool =
  sp_spoolOpen :: bool
  sp_pageStart :: bool
  sp_cancelled :: bool
  sp_plen :: "64 word"
  sp_pageCount :: int
  sp_pageBuf :: bytes
  sp_file :: bool
  sp_page :: page
  sp_jname :: string
  sp_created :: nat
  sp_log :: "spool_event list"

definition spool_start :: "64 word \<Rightarrow> string \<Rightarrow> page \<Rightarrow> nat \<Rightarrow> spool_event list \<Rightarrow> spool" where
  "spool_start plen jname page created log =
     \<lparr>sp_spoolOpen = False, sp_pageStart = True, sp_cancelled = False, sp_plen = plen, sp_pageCount = 0,
      sp_pageBuf = [], sp_file = False, sp_page = page, sp_jname = jname, sp_created = created, sp_log = log\<rparr>"

definition spool_note :: "spool_event \<Rightarrow> spool \<Rightarrow> spool" where
  "spool_note e st = st\<lparr>sp_log := sp_log st @ [e]\<rparr>"

text \<open>\<open>fclose\<close> of the stream.\<close>

definition spool_close :: "spool \<Rightarrow> spool option" where
  "spool_close st = (if sp_file st then Some (st\<lparr>sp_file := False\<rparr>) else None)"

text \<open>The empty page that a device sends to cancel a job.\<close>

definition spool_fake :: "spool \<Rightarrow> spool option" where
  "spool_fake st =
     (let st = st\<lparr>sp_cancelled := False\<rparr>
      in if sp_spoolOpen st then do {
           st \<leftarrow> spool_close st;
           Some (spool_note (Ev_unlink (sp_jname st)) st) }
         else Some st)"

text \<open>The first packet of a job: the spool file, or a request to cancel the job.\<close>

definition spool_create :: "spool_env \<Rightarrow> 'w socket \<Rightarrow> spool \<Rightarrow> 'w wprt \<Rightarrow> spool \<times> 'w wprt" where
  "spool_create env so st w =
     (if \<not> sp_spoolOpen st \<and> \<not> sp_cancelled st then
        (let (ok, name) = se_mkstemp env (sp_created st);
             st = st\<lparr>sp_jname := name, sp_created := sp_created st + 1\<rparr>
         in if ok then
              (spool_note (Ev_create name) (st\<lparr>sp_spoolOpen := True, sp_pageStart := True, sp_pageCount := 0,
                 sp_file := True, sp_page := (sp_page st)\<lparr>pg_out := []\<rparr>, sp_plen := 0\<rparr>), w)
            else (st\<lparr>sp_cancelled := True, sp_file := False, sp_plen := 0\<rparr>, snd (cancelJob so w)))
      else (st, w))"

text \<open>A page that is complete.\<close>

definition spool_convert :: "spool_env \<Rightarrow> bool \<Rightarrow> spool \<Rightarrow> spool option" where
  "spool_convert env jobEnd st =
     (if \<not> sp_file st then None
      else do {
        page \<leftarrow> convertPage (se_print env) (se_fontmap env) (sp_pageCount st) jobEnd (sp_pageBuf st) (sp_page st);
        Some (st\<lparr>sp_page := page, sp_pageCount := sp_pageCount st + 1, sp_pageBuf := [], sp_pageStart := True\<rparr>) })"

text \<open>
  The data of a packet: \<open>plen\<close> is unsigned, so that a page is complete only if exactly the
  announced number of bytes has arrived.
\<close>

definition spool_data :: "spool_env \<Rightarrow> bool \<Rightarrow> bytes \<Rightarrow> spool \<Rightarrow> spool option" where
  "spool_data env jobEnd buf st = do {
     let buf = drop 1 buf;
     (buf, st) \<leftarrow> (if sp_pageStart st then do {
          d \<leftarrow> getDWord buf 1;
          Some (drop 13 buf, st\<lparr>sp_plen := ucast (d - 8), sp_pageStart := False, sp_pageBuf := []\<rparr>) }
        else Some (buf, st));
     let st = st\<lparr>sp_pageBuf := sp_pageBuf st @ buf, sp_plen := sp_plen st - of_nat (length buf)\<rparr>;
     if sp_plen st = 0 then spool_convert env jobEnd st else Some st }"

text \<open>The end of the job.\<close>

definition spool_print :: "spool_env \<Rightarrow> spool \<Rightarrow> spool option" where
  "spool_print env st =
     (if \<not> se_printcmd env then Some (spool_note (Ev_stored (sp_jname st) (pg_out (sp_page st))) st)
      else if \<not> se_popen env then None
      else Some (spool_note (Ev_unlink (sp_jname st)) (spool_note (Ev_spooled (pg_out (sp_page st))) st)))"

definition spool_end :: "spool_env \<Rightarrow> spool \<Rightarrow> spool option" where
  "spool_end env st = do {
     st \<leftarrow> (if sp_spoolOpen st then spool_close st else Some st);
     st \<leftarrow> (if \<not> sp_cancelled st then (if sp_pageCount st > 0 then spool_print env st else Some st)
           else Some (spool_note (Ev_unlink (sp_jname st)) st));
     Some (st\<lparr>sp_spoolOpen := False\<rparr>) }"

definition spool_packet ::
  "spool_env \<Rightarrow> 'w socket \<Rightarrow> bytes \<Rightarrow> spool \<Rightarrow> 'w wprt \<Rightarrow> (spool \<times> 'w wprt) option" where
  "spool_packet env so buf st w =
     (if buf = fakePage then do { st \<leftarrow> spool_fake st; Some (st, w) }
      else let (st, w) = spool_create env so st w in do {
        b \<leftarrow> getByte buf 0;
        let (st, w) = (if b \<noteq> 0x2a \<and> b \<noteq> 0xff then (st\<lparr>sp_cancelled := True\<rparr>, snd (cancelJob so w)) else (st, w));
        let jobEnd = (b = 0xff);
        st \<leftarrow> (if \<not> sp_cancelled st then spool_data env jobEnd buf st else Some st);
        st \<leftarrow> (if jobEnd then spool_end env st else Some st);
        Some (st, w) })"

text \<open>A round of the job loop: whether it goes on, and the state.\<close>

definition spool_round ::
  "spool_env \<Rightarrow> 'w socket \<Rightarrow> spool \<Rightarrow> 'w wprt \<Rightarrow> (bool \<times> spool \<times> 'w wprt) option" where
  "spool_round env so st w =
     (let (ret, buf, w) = getData so [] w
      in if ret = E_PSI_FILE_DISC then Some (False, st, w)
      else if ret = E_PSI_GEN_NONE then do {
        (st, w) \<leftarrow> spool_packet env so buf st w;
        Some (True, st, w) }
      else Some (True, st, w))"

partial_function (option) service_loop ::
  "spool_env \<Rightarrow> 'w socket \<Rightarrow> spool \<Rightarrow> 'w wprt \<Rightarrow> (spool \<times> 'w wprt) option" where
  "service_loop env so st w = do {
     (jobLoop, st, w) \<leftarrow> spool_round env so st w;
     if jobLoop then service_loop env so st w else Some (st, w) }"

end
