(* ===== verification/PrintPage_Lemmas.thy ===== *)
theory PrintPage_Lemmas
  imports PrintPage
begin

text \<open>
  What a page of a print job becomes: the commands that a device wrote are read back, whatever
  they are, and executed in order; the bounding box is that of the clipping rectangles; text in
  PostScript strings; and a page that never ends.
\<close>

section \<open>A page as the device writes it\<close>

definition le :: "32 word \<Rightarrow> bytes" where "le w = le32 (uint w)"

lemma getDWord_le [simp]: "getDWord (le w @ xs) 0 = Some w" "length (le w) = 4" "le w \<noteq> []"
  by (simp_all add: le_def del: length_0_conv)

lemma getDWord_Cons [simp]:
  "getDWord (x # xs) (Suc i) = getDWord xs i" "getDWord (x # xs) (numeral k) = getDWord xs (pred_numeral k)"
  by (simp_all add: getDWord_def numeral_eq_Suc)

lemma getWord_Cons [simp]:
  "getWord (x # xs) (Suc i) = getWord xs i" "getWord (x # xs) (numeral k) = getWord xs (pred_numeral k)"
  by (simp_all add: getWord_def numeral_eq_Suc)

lemma getDWord_le_Suc [simp]: "getDWord (le w @ xs) (numeral k) = (if 4 \<le> (numeral k :: nat) then getDWord xs (numeral k - 4) else getDWord (le w @ xs) (numeral k))"
  by simp

lemma getDWord_Cons_add: "getDWord (x # xs) (numeral k + n) = getDWord xs (pred_numeral k + n)"
  and getWord_Cons_add: "getWord (x # xs) (numeral k + n) = getWord xs (pred_numeral k + n)"
  and getByte_Cons_add: "getByte (x # xs) (numeral k + n) = getByte xs (pred_numeral k + n)"
  by (simp_all add: numeral_eq_Suc)

lemmas get_Cons_add = getDWord_Cons_add getWord_Cons_add getByte_Cons_add

text \<open>A string with its length in one byte, or in two if it is longer.\<close>

definition str_bytes :: "bytes \<Rightarrow> bytes" where
  "str_bytes t = (if length t < 64 then [word_of_nat (4 * length t)] else le16 (8 * int (length t) + 1)) @ t"

fun op_bytes :: "page_op \<Rightarrow> bytes" where
  "op_bytes (Start_section w) = 0x00 # le w"
| "op_bytes End_of_page = [0x01]"
| "op_bytes (Drawing_mode b) = [0x03, b]"
| "op_bytes (Clip_rect l t r b) = 0x04 # le l @ le t @ le r @ le b"
| "op_bytes Cancel_clip = [0x05]"
| "op_bytes (Unknown06 b w) = 0x06 # b # le w"
| "op_bytes (Set_font f scr base style size' bofs) = 0x07 # str_bytes f @ scr # le16 (uint base) @ le style @ le size' @ le bofs"
| "op_bytes End_font = [0x08]"
| "op_bytes (Underline b) = [0x09, b]"
| "op_bytes (Strikethru b) = [0x0a, b]"
| "op_bytes (Newline x y) = 0x0b # le x @ le y"
| "op_bytes (Carriage_return x y) = 0x0c # le x @ le y"
| "op_bytes (Foreground r g b) = [0x0d, r, g, b]"
| "op_bytes (Pen_style b) = [0x0e, b]"
| "op_bytes (Pen_thickness x y) = 0x0f # le x @ le y"
| "op_bytes (Background r g b) = [0x10, r, g, b]"
| "op_bytes (Brush_style b) = [0x11, b]"
| "op_bytes (Unknown17 x y) = 0x17 # le x @ le y"
| "op_bytes (Draw_line l t r b) = 0x19 # le l @ le t @ le r @ le b"
| "op_bytes (Unknown1b x y) = 0x1b # le x @ le y"
| "op_bytes (Draw_ellipse l t r b) = 0x1f # le l @ le t @ le r @ le b"
| "op_bytes (Draw_rectangle l t r b) = 0x20 # le l @ le t @ le r @ le b"
| "op_bytes (Draw_polygon xs b) = 0x23 # le (word_of_nat (length xs)) @ concat (map (\<lambda>(x, y). le x @ le y) xs) @ [b]"
| "op_bytes (Draw_bitmap llx ury urx lly blen buf) = 0x25 # le llx @ le ury @ le urx @ le lly"
| "op_bytes (Draw_bitmap4 llx ury urx lly blen buf u1 u2 u3 u4) = 0x26 # le llx @ le ury @ le urx @ le lly"
| "op_bytes (Draw_label t x y) = 0x27 # str_bytes t @ le x @ le y"
| "op_bytes (Draw_justified t l tp r b base al m) =
     0x28 # str_bytes t @ le l @ le tp @ le r @ le b @ le base @ al # le m"
| "op_bytes (Unhandled c) = [c]"

definition known_opcodes :: "byte list" where
  "known_opcodes = [0x00, 0x01, 0x03, 0x04, 0x05, 0x06, 0x07, 0x08, 0x09, 0x0a, 0x0b, 0x0c, 0x0d, 0x0e, 0x0f,
     0x10, 0x11, 0x17, 0x19, 0x1b, 0x1f, 0x20, 0x23, 0x25, 0x26, 0x27, 0x28]"

text \<open>The commands with a fixed layout, within the limits of their counts.\<close>

fun plain_op :: "page_op \<Rightarrow> bool" where
  "plain_op End_of_page = False"
| "plain_op (Draw_bitmap _ _ _ _ _ _) = False"
| "plain_op (Draw_bitmap4 _ _ _ _ _ _ _ _ _ _) = False"
| "plain_op (Set_font f _ _ _ _ _) = (length f < 8192)"
| "plain_op (Draw_label t _ _) = (length t < 8192)"
| "plain_op (Draw_justified t _ _ _ _ _ _ _) = (length t < 8192)"
| "plain_op (Draw_polygon xs _) = (length xs < 2 ^ 32)"
| "plain_op (Unhandled c) = (c \<notin> set known_opcodes)"
| "plain_op _ = True"

text \<open>
  A page: commands with their lengths, up to the end of the page or of the buffer. A bitmap
  begins with its length, which counts itself.
\<close>

inductive page_encoding :: "(page_op \<times> nat) list \<Rightarrow> bytes \<Rightarrow> bool" where
  enc_nil: "page_encoding [] []"
| enc_end: "page_encoding [(End_of_page, length r + 2)] (0x01 # r)"
| enc_op: "page_encoding cs r \<Longrightarrow> plain_op c \<Longrightarrow>
    page_encoding ((c, length (op_bytes c)) # cs) (op_bytes c @ r)"
| enc_bitmap: "page_encoding cs r \<Longrightarrow> getDWord data 0 = Some blen \<Longrightarrow> length data = unat blen \<Longrightarrow>
    c = Draw_bitmap llx ury urx lly blen (data @ r) \<Longrightarrow>
    page_encoding ((c, 17 + length data) # cs) (op_bytes c @ data @ r)"
| enc_bitmap4: "page_encoding cs r \<Longrightarrow> getDWord data 0 = Some blen \<Longrightarrow> length data = unat blen \<Longrightarrow>
    c = Draw_bitmap4 llx ury urx lly blen (data @ le u1 @ le u2 @ le u3 @ le u4 @ r) u1 u2 u3 u4 \<Longrightarrow>
    page_encoding ((c, 33 + length data) # cs) (op_bytes c @ data @ le u1 @ le u2 @ le u3 @ le u4 @ r)"

section \<open>Reading it back\<close>

lemma getWord_str: "getWord (le16 a @ xs) 0 = Some (word_of_int a)" by simp

lemma counted_str:
  assumes "length t < 8192"
  shows "counted (c # str_bytes t @ r) = Some (t, Suc (length (str_bytes t)))"
proof (cases "length t < 64")
  case True
  have "\<not> bit (word_of_nat (4 * length t) :: byte) 0" by (simp add: bit_0)
  then have "(word_of_nat (4 * length t) :: byte) AND 1 = 0" by (simp add: and_one_eq even_iff_mod_2_eq_zero [symmetric] bit_0)
  moreover have "unat (word_of_nat (4 * length t) :: byte) = 4 * length t"
    using True by (simp add: unat_of_nat take_bit_nat_eq_self del: of_nat_mult)
  then have "unat (drop_bit 2 (word_of_nat (4 * length t)) :: byte) = length t"
    unfolding unat_drop_bit_eq by (simp add: drop_bit_eq_div)
  ultimately show ?thesis using True by (simp add: counted_def str_bytes_def)
next
  case False
  have b: "getByte (c # le16 (8 * int (length t) + 1) @ t @ r) 1 = Some (word_of_int (8 * int (length t) + 1))"
    by (simp add: le16_def)
  have "(word_of_int (8 * int (length t) + 1) :: byte) AND 1 = 1"
    by (simp add: and_one_eq mod_2_eq_odd)
  moreover have "uint (word_of_int (8 * int (length t) + 1) :: 16 word) = 8 * int (length t) + 1"
    using assms by (simp only: uint_word_of_int) (simp add: take_bit_int_eq_self)
  then have "unat (word_of_int (8 * int (length t) + 1) :: 16 word) = 8 * length t + 1"
    by (metis int_ops(2) nat_int of_nat_add of_nat_mult of_nat_numeral unat_eq_nat_uint)
  then have "unat (drop_bit 3 (word_of_int (8 * int (length t) + 1)) :: 16 word) = length t"
    unfolding unat_drop_bit_eq by (simp add: drop_bit_eq_div)
  ultimately show ?thesis
    using False b by (simp add: counted_def str_bytes_def)
qed

lemma points_le:
  "points (length xs) (length pre) (pre @ concat (map (\<lambda>(x, y). le x @ le y) xs) @ r) =
     Some (xs, length pre + 8 * length xs)"
proof (induction xs arbitrary: pre)
  case (Cons xy xs)
  obtain x y where xy: "xy = (x, y)" by (cases xy)
  have "points (length xs) (length (pre @ le x @ le y)) ((pre @ le x @ le y) @ concat (map (\<lambda>(x, y). le x @ le y) xs) @ r) =
      Some (xs, length (pre @ le x @ le y) + 8 * length xs)" by (rule Cons.IH)
  then show ?case by (simp add: xy)
qed simp


lemma length_points: "length (concat (map (\<lambda>(x, y). le x @ le y) xs)) = 8 * length xs"
  by (induction xs) auto

lemma decode_plain:
  assumes "plain_op c"
  shows "decode_op (op_bytes c @ r) = Some (c, length (op_bytes c))"
proof (cases c)
  case (Set_font f scr base style sz bofs)
  then show ?thesis
    using assms by (simp add: decode_op_def rd_font_def counted_str get_Cons_add)
next
  case (Draw_polygon xs b)
  then show ?thesis
    using assms points_le [of xs "0x23 # le (word_of_nat (length xs))" "b # r"]
    by (simp add: decode_op_def rd_polygon_def get_Cons_add length_points unat_of_nat take_bit_nat_eq_self)
next
  case (Draw_label t x y)
  then show ?thesis using assms by (simp add: decode_op_def rd_label_def counted_str get_Cons_add)
next
  case (Draw_justified t l tp r b base al m)
  then show ?thesis using assms by (simp add: decode_op_def rd_justified_def counted_str get_Cons_add)
next
  case (Unhandled x)
  then show ?thesis using assms by (simp add: decode_op_def known_opcodes_def)
qed (use assms in \<open>simp_all add: decode_op_def rd1_def rd3_def rd_xy_def rd_rect_def\<close>)

lemma decode_bitmap:
  assumes "getDWord data 0 = Some blen" "length data = unat blen"
  shows "decode_op (op_bytes (Draw_bitmap llx ury urx lly blen buf) @ data @ r) =
      Some (Draw_bitmap llx ury urx lly blen (data @ r), 17 + length data)"
    "decode_op (op_bytes (Draw_bitmap4 llx ury urx lly blen buf u1 u2 u3 u4) @ data @ le u1 @ le u2 @ le u3 @ le u4 @ r) =
      Some (Draw_bitmap4 llx ury urx lly blen (data @ le u1 @ le u2 @ le u3 @ le u4 @ r) u1 u2 u3 u4, 33 + length data)"
proof -
  have len: "4 \<le> length data" using assms(1) by (auto simp: getDWord_def bind_eq_Some_conv dest: getByte_SomeD)
  then have blen: "getDWord (data @ xs) 0 = Some blen" for xs using assms(1) by simp
  show "decode_op (op_bytes (Draw_bitmap llx ury urx lly blen buf) @ data @ r) =
      Some (Draw_bitmap llx ury urx lly blen (data @ r), 17 + length data)"
    using assms(2) by (simp add: decode_op_def rd_bitmap_def blen)
  show "decode_op (op_bytes (Draw_bitmap4 llx ury urx lly blen buf u1 u2 u3 u4) @ data @ le u1 @ le u2 @ le u3 @ le u4 @ r) =
      Some (Draw_bitmap4 llx ury urx lly blen (data @ le u1 @ le u2 @ le u3 @ le u4 @ r) u1 u2 u3 u4, 33 + length data)"
    using assms(2) by (simp add: decode_op_def rd_bitmap4_def blen get_Cons_add)
qed

section \<open>Executing the commands in order\<close>

fun exec_ops :: "fontmap_entry list \<Rightarrow> (page_op \<times> nat) list \<Rightarrow> page \<Rightarrow> page option" where
  "exec_ops fm [] st = Some st"
| "exec_ops fm (c # cs) st = do { st \<leftarrow> exec_op fm c st; exec_ops fm cs st }"

lemma emit_simps [simp]:
  "pg_i (emit s st) = pg_i st" "pg_boffset (emit s st) = pg_boffset st" "pg_fonts (emit s st) = pg_fonts st"
  "pg_minx (emit s st) = pg_minx st" "pg_maxx (emit s st) = pg_maxx st"
  "pg_miny (emit s st) = pg_miny st" "pg_maxy (emit s st) = pg_maxy st"
  "pg_out (emit s st) = pg_out st @ s"
  by (simp_all add: emit_def)

lemma ps_setfont_simps [simp]:
  "pg_i (ps_setfont fm f b i sz st) = pg_i st"
  "pg_minx (ps_setfont fm f b i sz st) = pg_minx st" "pg_maxx (ps_setfont fm f b i sz st) = pg_maxx st"
  "pg_miny (ps_setfont fm f b i sz st) = pg_miny st" "pg_maxy (ps_setfont fm f b i sz st) = pg_maxy st"
  by (simp_all add: ps_setfont_def Let_def)

definition bbox :: "page \<Rightarrow> 32 word list" where
  "bbox st = [pg_minx st, pg_maxx st, pg_miny st, pg_maxy st]"

lemma bbox_emit [simp]: "bbox (emit s st) = bbox st"
  by (simp add: bbox_def)

lemma clip_bounds_i [simp]: "pg_i (clip_bounds l t r b st) = pg_i st"
  by (simp add: clip_bounds_def Let_def)

lemma ps_bitmap_keeps:
  "ps_bitmap llx lly urx ury buf st = Some st' \<Longrightarrow> pg_i st' = pg_i st \<and> bbox st' = bbox st"
  by (auto simp: ps_bitmap_def bind_eq_Some_conv split: if_splits prod.splits)

lemma exec_op_i:
  "exec_op fm (c, n) st = Some st' \<Longrightarrow> pg_i st' = sint (word_of_int (pg_i st + int n) :: 32 word)"
  by (cases c) (auto simp: exec_op_def exec_font_def exec_label_def exec_justified_def Let_def
      dest: ps_bitmap_keeps split: prod.splits)

lemma sint_position: "0 \<le> i \<Longrightarrow> i < 2 ^ 31 \<Longrightarrow> sint (word_of_int i :: 32 word) = i"
  by (simp add: signed_of_int signed_take_bit_int_eq_self)

lemma page_loop_step:
  assumes "decode_op (b @ r) = Some (c, length b)" "b \<noteq> []" "buf = pre @ b @ r" "pg_i st = int (length pre)"
    "length buf + 1 < 2 ^ 31"
    and rest: "\<And>st'. pg_i st' = int (length (pre @ b)) \<Longrightarrow> page_loop fm buf st' = exec_ops fm cs st'"
  shows "page_loop fm buf st = exec_ops fm ((c, length b) # cs) st"
proof -
  have i: "sint (word_of_int (int (length pre) + int (length b)) :: 32 word) = int (length (pre @ b))"
    using assms(3,5) by (subst sint_position) auto
  have "page_step fm buf st = exec_op fm (c, length b) st"
    using assms(1,3,4) by (simp add: page_step_def)
  moreover have "pg_i st < int (length buf)" using assms(2-4) by (cases b) simp_all
  moreover have "page_loop fm buf st' = exec_ops fm cs st'" if "exec_op fm (c, length b) st = Some st'" for st'
    using exec_op_i [OF that] i assms(4) by (intro rest) simp
  ultimately show ?thesis
    by (subst page_loop.simps) (cases "exec_op fm (c, length b) st"; simp)
qed

lemma page_loop_exec:
  assumes "page_encoding cs bs" "buf = pre @ bs" "pg_i st = int (length pre)" "length buf + 1 < 2 ^ 31"
  shows "page_loop fm buf st = exec_ops fm cs st"
  using assms
proof (induction cs bs arbitrary: pre st rule: page_encoding.induct)
  case enc_nil
  then show ?case by (subst page_loop.simps) simp
next
  case (enc_end r)
  have "page_loop fm buf st' = Some st'" if "pg_i st' = int (length buf + 1)" for st'
    using that by (subst page_loop.simps) simp
  moreover have "sint (word_of_int (int (length pre) + int (length r + 2)) :: 32 word) = int (length buf + 1)"
    using enc_end by (subst sint_position) auto
  ultimately show ?case
    using enc_end by (subst page_loop.simps) (auto simp: page_step_def decode_op_def exec_op_def Let_def)
next
  case (enc_op cs r c)
  have "op_bytes c \<noteq> []" by (cases c) simp_all
  with enc_op show ?case
    by (intro page_loop_step [where pre = pre and r = r]) (simp_all add: decode_plain enc_op.IH [of "pre @ op_bytes c"])
next
  case (enc_bitmap cs r data blen c llx ury urx lly)
  have "page_loop fm buf st = exec_ops fm ((c, length (op_bytes c @ data)) # cs) st"
    using enc_bitmap decode_bitmap(1) [OF enc_bitmap(2,3)]
    by (intro page_loop_step [where pre = pre and r = r]) (simp_all add: enc_bitmap.IH [of "pre @ op_bytes c @ data"])
  then show ?case using enc_bitmap by simp
next
  case (enc_bitmap4 cs r data blen c llx ury urx lly u1 u2 u3 u4)
  let ?b = "op_bytes c @ data @ le u1 @ le u2 @ le u3 @ le u4"
  have "page_loop fm buf st = exec_ops fm ((c, length ?b) # cs) st"
    using enc_bitmap4 decode_bitmap(2) [OF enc_bitmap4(2,3)]
    by (intro page_loop_step [where pre = pre and r = r]) (simp_all add: enc_bitmap4.IH [of "pre @ ?b"])
  then show ?case using enc_bitmap4 by simp
qed

definition draws_bitmap :: "page_op \<Rightarrow> bool" where
  "draws_bitmap c = (case c of Draw_bitmap _ _ _ _ _ _ \<Rightarrow> True | Draw_bitmap4 _ _ _ _ _ _ _ _ _ _ \<Rightarrow> True | _ \<Rightarrow> False)"

lemma exec_ops_returns:
  "\<forall>(c, n) \<in> set cs. \<not> draws_bitmap c \<Longrightarrow> \<exists>st'. exec_ops fm cs st = Some st'"
proof (induction cs arbitrary: st)
  case (Cons x cs)
  obtain c n where x: "x = (c, n)" by (cases x)
  have "\<exists>st'. exec_op fm x st = Some st'"
    using Cons(2) by (cases c) (auto simp: x exec_op_def Let_def draws_bitmap_def)
  then show ?case using Cons by auto
qed simp

text \<open>A page of commands instead of bytes.\<close>

definition render_page ::
  "print_env \<Rightarrow> fontmap_entry list \<Rightarrow> int \<Rightarrow> bool \<Rightarrow> (page_op \<times> nat) list \<Rightarrow> page \<Rightarrow> page option" where
  "render_page env fm n lastp cs st = do {
     st \<leftarrow> (if n = 0 then do {
              header \<leftarrow> page_header env;
              Some (emit header (st\<lparr>pg_minx := 9999, pg_miny := 9999, pg_maxx := 0, pg_maxy := 0, pg_fonts := []\<rparr>)) }
            else Some st);
     st \<leftarrow> exec_ops fm cs (emit (''%%Page: '' @ spaced [decimal (n + 1), decimal (n + 1)] @ nl) (st\<lparr>pg_i := 0, pg_boffset := 0\<rparr>));
     let st = emit (''showpage'' @ nl) st;
     Some (if lastp then page_trailer n st else st) }"

lemma convertPage_renders:
  assumes "page_encoding cs bs" "length bs + 1 < 2 ^ 31"
  shows "convertPage env fm n lastp bs st = render_page env fm n lastp cs st"
proof -
  have loop: "page_loop fm bs (emit s (st\<lparr>pg_i := 0, pg_boffset := 0\<rparr>)) = exec_ops fm cs (emit s (st\<lparr>pg_i := 0, pg_boffset := 0\<rparr>))" for s st
    using assms by (intro page_loop_exec [where pre = "[]"]) simp_all
  show ?thesis by (simp add: convertPage_def render_page_def Let_def loop)
qed

text \<open>
  C29: A page is drawn as the device described it. For any sequence of the commands, with texts
  and names of up to 8191 bytes, any polygons and bitmaps, up to the end of the page or of the
  data, the bytes are read back as these commands, whatever bytes they contain, and the output is
  that of the commands in order. Without bitmaps, and with the prolog file, the conversion returns.
\<close>

theorem print_page_draws:
  assumes "page_encoding cs bs" and "length bs + 1 < 2 ^ 31"
  shows "convertPage env fm n lastp bs st = render_page env fm n lastp cs st \<and>
    ((\<forall>(c, k) \<in> set cs. \<not> draws_bitmap c) \<and> pe_prolog env \<noteq> None \<longrightarrow>
       (\<exists>st'. convertPage env fm n lastp bs st = Some st'))"
proof -
  have "\<exists>st'. render_page env fm n lastp cs st = Some st'"
    if a: "\<forall>(c, k) \<in> set cs. \<not> draws_bitmap c" and b: "pe_prolog env \<noteq> None"
  proof -
    have "\<exists>st'. do { st \<leftarrow> exec_ops fm cs s; Some (f st) } = Some st'" for s and f :: "page \<Rightarrow> page"
      using exec_ops_returns [OF a, of fm s] by auto
    moreover obtain h where "page_header env = Some h" using b by (auto simp: page_header_def)
    ultimately show ?thesis by (simp add: render_page_def Let_def)
  qed
  then show ?thesis using convertPage_renders [OF assms] by auto
qed

definition print_env_sample :: print_env where
  "print_env_sample = \<lparr>pe_version = ''1'', pe_ctime = ''now'', pe_prolog = Some []\<rparr>"

definition page_sample :: page where
  "page_sample = \<lparr>pg_i = 0, pg_boffset = 0, pg_minx = 0, pg_maxx = 0, pg_miny = 0, pg_maxy = 0,
     pg_fonts = [], pg_out = []\<rparr>"

theorem print_page_draws_witness:
  "\<exists>st'. convertPage print_env_sample default_fontmap 0 True
     (op_bytes (Set_font [65] 0 0 2 240 0) @ op_bytes (Draw_label [0x28, 0x41] 100 200) @ [0x01]) page_sample = Some st'"
proof -
  have "page_encoding [(End_of_page, length ([] :: bytes) + 2)] [0x01]" by (rule enc_end)
  from enc_op [OF enc_op [OF this], of "Draw_label [0x28, 0x41] 100 200" "Set_font [65] 0 0 2 240 0"]
  have "page_encoding [(Set_font [65] 0 0 2 240 0, length (op_bytes (Set_font [65] 0 0 2 240 0))),
      (Draw_label [0x28, 0x41] 100 200, length (op_bytes (Draw_label [0x28, 0x41] 100 200))), (End_of_page, 2)]
    (op_bytes (Set_font [65] 0 0 2 240 0) @ op_bytes (Draw_label [0x28, 0x41] 100 200) @ [0x01])" by (simp add: numeral_2_eq_2)
  note page = print_page_draws [OF this, THEN conjunct2, THEN mp, of print_env_sample]
  show ?thesis by (rule page) (simp_all add: draws_bitmap_def print_env_sample_def str_bytes_def)
qed

section \<open>The bounding box\<close>

definition clips :: "(page_op \<times> nat) list \<Rightarrow> (32 word \<times> 32 word \<times> 32 word \<times> 32 word) list" where
  "clips cs = concat (map (\<lambda>(c, n). case c of Clip_rect l t r b \<Rightarrow> [(l, t, r, b)] | _ \<Rightarrow> []) cs)"

lemma ulong_simps:
  "uint m < 2 ^ 31 \<Longrightarrow> ulong l < ulong_int m \<longleftrightarrow> uint l < uint m"
  "uint m < 2 ^ 31 \<Longrightarrow> ulong l > ulong_int m \<longleftrightarrow> uint l > uint m"
proof -
  have s: "uint (ulong_int m) = uint m" if "uint m < 2 ^ 31"
  proof -
    have "sint m = uint m"
      unfolding sint_uint using that
      by (intro signed_take_bit_int_eq_self) (simp_all add: order_trans [OF _ uint_ge_0])
    then show ?thesis using unsigned_less [of m, where ?'a = int] by (simp add: ulong_int_def scast_eq unsigned_ucast_eq take_bit_int_eq_self)
  qed
  have u: "uint (ulong l) = uint l"
    using unsigned_less [of l, where ?'a = int] by (simp add: ulong_def unsigned_ucast_eq take_bit_int_eq_self)
  show "uint m < 2 ^ 31 \<Longrightarrow> ulong l < ulong_int m \<longleftrightarrow> uint l < uint m"
    "uint m < 2 ^ 31 \<Longrightarrow> ulong l > ulong_int m \<longleftrightarrow> uint l > uint m"
    by (simp_all add: word_less_def s u)
qed

text \<open>One bound after a rectangle, and after all of them.\<close>

definition bounded :: "page \<Rightarrow> bool" where
  "bounded st \<longleftrightarrow> (\<forall>w \<in> set (bbox st). uint w < 2 ^ 31)"

lemma clip_bounds_spec:
  assumes "bounded st" "uint l < 2 ^ 31" "uint t < 2 ^ 31" "uint r < 2 ^ 31" "uint b < 2 ^ 31"
  shows "bounded (clip_bounds l t r b st)"
    and "uint (pg_minx (clip_bounds l t r b st)) = min (uint (pg_minx st)) (uint l)"
    and "uint (pg_maxx (clip_bounds l t r b st)) = max (uint (pg_maxx st)) (uint r)"
    and "uint (pg_miny (clip_bounds l t r b st)) = min (uint (pg_miny st)) (uint t)"
    and "uint (pg_maxy (clip_bounds l t r b st)) = max (uint (pg_maxy st)) (uint b)"
  using assms by (auto simp: clip_bounds_def bounded_def bbox_def ulong_simps Let_def)

lemma exec_op_bbox:
  assumes "exec_op fm (c, n) st = Some st'" "clips [(c, n)] = []"
  shows "bbox st' = bbox st"
  using assms by (cases c) (auto simp: exec_op_def exec_font_def exec_label_def exec_justified_def Let_def clips_def
      bbox_def dest: ps_bitmap_keeps split: prod.splits)

lemma exec_ops_bbox:
  assumes "exec_ops fm cs st = Some st'" "bounded st"
    "\<forall>(l, t, r, b) \<in> set (clips cs). uint l < 2 ^ 31 \<and> uint t < 2 ^ 31 \<and> uint r < 2 ^ 31 \<and> uint b < 2 ^ 31"
  shows "bounded st' \<and>
    uint (pg_minx st') = fold min (map (\<lambda>(l, t, r, b). uint l) (clips cs)) (uint (pg_minx st)) \<and>
    uint (pg_maxx st') = fold max (map (\<lambda>(l, t, r, b). uint r) (clips cs)) (uint (pg_maxx st)) \<and>
    uint (pg_miny st') = fold min (map (\<lambda>(l, t, r, b). uint t) (clips cs)) (uint (pg_miny st)) \<and>
    uint (pg_maxy st') = fold max (map (\<lambda>(l, t, r, b). uint b) (clips cs)) (uint (pg_maxy st))"
  using assms
proof (induction cs arbitrary: st)
  case (Cons x cs)
  obtain c n where x: "x = (c, n)" by (cases x)
  obtain s where s: "exec_op fm (c, n) st = Some s" "exec_ops fm cs s = Some st'"
    using Cons(2) by (auto simp: x bind_eq_Some_conv)
  have clips: "clips (x # cs) = clips [(c, n)] @ clips cs" by (simp add: clips_def x)
  show ?case
  proof (cases "\<exists>l t r b. c = Clip_rect l t r b")
    case False
    then have none: "clips [(c, n)] = []" by (cases c) (auto simp: clips_def)
    then have "bbox s = bbox st" using exec_op_bbox [OF s(1)] by simp
    then show ?thesis using Cons.IH [OF s(2)] Cons(3,4) none clips by (auto simp: bounded_def bbox_def)
  next
    case True
    then obtain l t r b where c: "c = Clip_rect l t r b" by blast
    then have bb: "bbox s = bbox (clip_bounds l t r b (st\<lparr>pg_i := pg_i s\<rparr>))"
      using s(1) exec_op_i [OF s(1)] by (auto simp: exec_op_def Let_def)
    have clips': "clips (x # cs) = (l, t, r, b) # clips cs" using clips c by (simp add: clips_def)
    have st: "bounded (st\<lparr>pg_i := pg_i s\<rparr>)" using Cons(3) by (simp add: bounded_def bbox_def)
    have lim: "uint l < 2 ^ 31" "uint t < 2 ^ 31" "uint r < 2 ^ 31" "uint b < 2 ^ 31"
      using Cons(4) clips' by auto
    note spec = clip_bounds_spec [OF st lim]
    have "bounded s" using spec(1) bb by (simp add: bounded_def)
    then show ?thesis
      using Cons.IH [OF s(2)] Cons(4) clips' bb spec by (auto simp: bbox_def min.commute max.commute)
  qed
qed (simp add: clips_def)

lemma page_trailer_simps [simp]:
  "pg_minx (page_trailer n st) = pg_minx st" "pg_maxx (page_trailer n st) = pg_maxx st"
  "pg_miny (page_trailer n st) = pg_miny st" "pg_maxy (page_trailer n st) = pg_maxy st"
  by (simp_all add: page_trailer_def Let_def)



section \<open>A page without end\<close>

definition endless_page :: bytes where
  "endless_page = 0x25 # le 0 @ le 0 @ le 0 @ le 0 @ le 0xFFFFFFEF @ le 0xFFFFFFEF @ le 0 @ le 1 @ le 0 @ le 0 @ le 1 @
     le 0 @ le 0 @ le 0"

lemma endless_decode:
  "decode_op endless_page = Some (Draw_bitmap 0 0 0 0 0xFFFFFFEF (drop 17 endless_page), 17 + unat (0xFFFFFFEF :: 32 word))"
  by (simp add: endless_page_def decode_op_def rd_bitmap_def)

lemma endless_bitmap: "decodeBitmap (drop 17 endless_page) [] = Some (True, 0, 1, [])"
  using getDWord_le(1) [of 0 "[]"] by (simp add: decodeBitmap_def endless_page_def decode_raw.simps Let_def)

lemma endless_step:
  assumes "pg_i st = 0" "page_step fm endless_page st = Some st'"
  shows "pg_i st' = 0"
  using assms by (auto simp: page_step_def endless_decode exec_op_def Let_def ps_bitmap_def endless_bitmap)

lemma endless_loop:
  assumes "page_loop fm buf st = Some r" "buf = endless_page" "pg_i st = 0"
  shows False
proof -
  have "buf = endless_page \<longrightarrow> pg_i st = 0 \<longrightarrow> False"
  proof (rule page_loop.raw_induct [where P = "\<lambda>fm buf st r. buf = endless_page \<longrightarrow> pg_i st = 0 \<longrightarrow> False", OF _ assms(1)],
      intro impI)
    fix f :: "fontmap_entry list \<Rightarrow> bytes \<Rightarrow> page \<Rightarrow> page option" and fm buf st r
    assume IH: "\<And>fm buf st r. f fm buf st = Some r \<Longrightarrow> buf = endless_page \<longrightarrow> pg_i st = 0 \<longrightarrow> False"
      and step: "(if pg_i st < int (length buf) then do { st \<leftarrow> page_step fm buf st; f fm buf st } else Some st) = Some r"
      and buf: "buf = endless_page" and i: "pg_i st = 0"
    have "0 < int (length buf)" by (simp add: buf endless_page_def)
    then obtain st' where "page_step fm buf st = Some st'" "f fm buf st' = Some r"
      using step i by (auto simp: bind_eq_Some_conv)
    then show False using IH buf i endless_step by blast
  qed
  then show ?thesis using assms(2,3) by blast
qed


section \<open>Text in PostScript\<close>

text \<open>The string literal of PostScript, from behind its opening parenthesis, without nested ones.\<close>

fun ps_literal :: "bytes \<Rightarrow> (bytes \<times> bytes) option" where
  "ps_literal [] = None"
| "ps_literal (c # cs) =
     (if c = 0x29 then Some ([], cs)
      else if c = 0x28 then None
      else if c = 0x5c then (case cs of [] \<Rightarrow> None
        | d # ds \<Rightarrow> do { (t, r) \<leftarrow> ps_literal ds; Some (d # t, r) })
      else do { (t, r) \<leftarrow> ps_literal cs; Some (c # t, r) })"

text \<open>
  Text in the output is the text of the page: with its parentheses escaped it reads back as one
  string literal of PostScript, if it has no backslash. A backslash is not escaped: one in front of
  the end swallows the closing parenthesis.
\<close>

theorem print_text_literal:
  "0x5c \<notin> set t \<Longrightarrow>
     ps_literal (ps_escape t @ 0x29 # rest) = Some (t, rest) \<and>
     ps_literal (ps_escape (t @ [0x5c]) @ 0x29 # rest) = map_option (\<lambda>(u, r). (t @ 0x29 # u, r)) (ps_literal rest)"
proof (induction t)
  case Nil
  then show ?case by (cases "ps_literal rest") auto
next
  case (Cons c t)
  then have "c \<noteq> 0x5c" by auto
  with Cons show ?case by (cases "ps_literal rest") auto
qed

theorem print_text_literal_witness:
  "ps_literal (ps_escape [0x28, 0x41] @ 0x29 # [0x20]) = Some ([0x28, 0x41], [0x20])"
  using print_text_literal [of "[0x28, 0x41]" "[0x20]"] by simp

end
