(* ===== verification/PrintSpool_Lemmas.thy ===== *)
theory PrintSpool_Lemmas
  imports PrintSpool PrintPage_Lemmas
begin

text \<open>
  Print jobs as a device sends them: what arrives in packets of any size is printed page by page;
  and what becomes of the daemon when a job is cancelled.
\<close>

section \<open>Packets\<close>

text \<open>The daemon with packets \<open>ps\<close> before it gets from \<open>st\<close> to \<open>st'\<close>, whatever follows.\<close>

definition consumes :: "spool_env \<Rightarrow> timeenv \<Rightarrow> bytes list \<Rightarrow> spool \<Rightarrow> spool \<Rightarrow> bool" where
  "consumes env t ps st st' \<longleftrightarrow>
     (\<forall>w sent rs. wp_status w \<noteq> E_PSI_FILE_DISC \<longrightarrow> wp_world w = (sent, ps @ rs) \<longrightarrow>
        (\<exists>sent'. service_loop env (scripted t) st w =
                 service_loop env (scripted t) st' (w\<lparr>wp_world := (sent', rs)\<rparr>)))"

lemma consumes_Nil: "consumes env t [] st st"
  unfolding consumes_def
proof (intro allI impI)
  fix w :: "(bytes list \<times> bytes list) wprt" and sent rs
  assume "wp_world w = (sent, [] @ rs)"
  then have "w = w\<lparr>wp_world := (sent, rs)\<rparr>" by simp
  then show "\<exists>sent'. service_loop env (scripted t) st w =
      service_loop env (scripted t) st (w\<lparr>wp_world := (sent', rs)\<rparr>)" by metis
qed

lemma consumes_append:
  assumes "consumes env t ps st st1" "consumes env t qs st1 st2"
  shows "consumes env t (ps @ qs) st st2"
  unfolding consumes_def
proof (intro allI impI)
  fix w :: "(bytes list \<times> bytes list) wprt" and sent rs
  assume w: "wp_status w \<noteq> E_PSI_FILE_DISC" "wp_world w = (sent, (ps @ qs) @ rs)"
  obtain s1 where 1: "service_loop env (scripted t) st w =
      service_loop env (scripted t) st1 (w\<lparr>wp_world := (s1, qs @ rs)\<rparr>)"
    using assms(1) [unfolded consumes_def, rule_format, of w sent "qs @ rs"] w by auto
  obtain s2 where "service_loop env (scripted t) st1 (w\<lparr>wp_world := (s1, qs @ rs)\<rparr>) =
      service_loop env (scripted t) st2 (w\<lparr>wp_world := (s2, rs)\<rparr>)"
    using assms(2) [unfolded consumes_def, rule_format, of "w\<lparr>wp_world := (s1, qs @ rs)\<rparr>" s1 rs] w(1) by auto
  with 1 show "\<exists>sent'. service_loop env (scripted t) st w =
      service_loop env (scripted t) st2 (w\<lparr>wp_world := (sent', rs)\<rparr>)" by auto
qed

lemma getData_scripted:
  assumes "wp_status w \<noteq> E_PSI_FILE_DISC" "wp_world w = (sent, p # rs)"
  shows "getData (scripted t) [] w = (E_PSI_GEN_NONE, p, w\<lparr>wp_world := (sent @ [[WPRT_GET]], rs)\<rparr>)"
  using assms
  by (simp add: getData_def wprt_sendCommand_def wprt_send_def wprt_getResponse_def wprt_recv_def)

lemma getData_end:
  assumes "wp_status w \<noteq> E_PSI_FILE_DISC" "wp_world w = (sent, [])"
  shows "fst (getData (scripted t) [] w) = E_PSI_FILE_DISC"
  using assms
  by (simp add: getData_def wprt_sendCommand_def wprt_send_def wprt_getResponse_def wprt_recv_def)

lemma service_ends:
  assumes "wp_status w \<noteq> E_PSI_FILE_DISC" "wp_world w = (sent, [])"
  shows "\<exists>w'. service_loop env (scripted t) st w = Some (st, w')"
  using getData_end [OF assms, of t]
  by (subst service_loop.simps) (auto simp: spool_round_def split: prod.splits)

lemma gen_none_disc: "E_PSI_GEN_NONE \<noteq> E_PSI_FILE_DISC"
  by (simp add: E_PSI_GEN_NONE_def E_PSI_FILE_DISC_def)

lemma consumes_one:
  assumes "\<And>w :: (bytes list \<times> bytes list) wprt. spool_packet env (scripted t) p st w = Some (st', w)"
  shows "consumes env t [p] st st'"
  unfolding consumes_def
proof (intro allI impI)
  fix w :: "(bytes list \<times> bytes list) wprt" and sent rs
  assume w: "wp_status w \<noteq> E_PSI_FILE_DISC" "wp_world w = (sent, [p] @ rs)"
  have "service_loop env (scripted t) st w =
      service_loop env (scripted t) st' (w\<lparr>wp_world := (sent @ [[WPRT_GET]], rs)\<rparr>)"
    using getData_scripted [OF w(1), of sent p rs t] w(2) assms gen_none_disc
    by (subst service_loop.simps) (simp add: spool_round_def)
  then show "\<exists>sent'. service_loop env (scripted t) st w =
      service_loop env (scripted t) st' (w\<lparr>wp_world := (sent', rs)\<rparr>)" by blast
qed

lemma packet_None:
  assumes "wp_status w \<noteq> E_PSI_FILE_DISC" "wp_world w = (sent, p # rs)"
    and "\<And>w :: (bytes list \<times> bytes list) wprt. spool_packet env (scripted t) p st w = None"
  shows "service_loop env (scripted t) st w = None"
  using getData_scripted [OF assms(1,2), of t] assms(3) gen_none_disc
  by (subst service_loop.simps) (simp add: spool_round_def)

section \<open>A job\<close>

text \<open>
  The packets behind the first of a page: a mark, which is another one for the last packet of the
  job, and a piece of the data. The first packet has the length of the page and nine bytes more.
\<close>

definition packet_mark :: "bool \<Rightarrow> byte" where
  "packet_mark jobEnd = (if jobEnd then 0xff else 0x2a)"

fun rest_packets :: "bool \<Rightarrow> bytes list \<Rightarrow> bytes list" where
  "rest_packets e [] = []"
| "rest_packets e (c # cs) = (packet_mark (e \<and> cs = []) # c) # rest_packets e cs"

definition page_packets :: "bool \<Rightarrow> byte \<times> bytes \<times> bytes \<times> bytes list \<Rightarrow> bytes list" where
  "page_packets e = (\<lambda>(x, hdr, c, cs).
     (packet_mark (e \<and> cs = []) # x # le32 (int (length (concat (c # cs)) + 8)) @ hdr @ c) # rest_packets e cs)"

definition page_data :: "byte \<times> bytes \<times> bytes \<times> bytes list \<Rightarrow> bytes" where
  "page_data = (\<lambda>(x, hdr, c, cs). concat (c # cs))"

definition page_ok :: "byte \<times> bytes \<times> bytes \<times> bytes list \<Rightarrow> bool" where
  "page_ok = (\<lambda>(x, hdr, c, cs). length hdr = 8 \<and> [] \<notin> set cs \<and> length (concat (c # cs)) + 8 < 2 ^ 32)"

fun job_packets :: "(byte \<times> bytes \<times> bytes \<times> bytes list) list \<Rightarrow> bytes list" where
  "job_packets [] = []"
| "job_packets (p # ps) = page_packets (ps = []) p @ job_packets ps"

text \<open>The text of a job: its pages converted in order.\<close>

fun job_pages :: "spool_env \<Rightarrow> int \<Rightarrow> (byte \<times> bytes \<times> bytes \<times> bytes list) list \<Rightarrow> page \<Rightarrow> page option" where
  "job_pages env n [] st = Some st"
| "job_pages env n (p # ps) st = do {
     st \<leftarrow> convertPage (se_print env) (se_fontmap env) n (ps = []) (page_data p) st;
     job_pages env (n + 1) ps st }"

text \<open>A job in progress.\<close>

definition receiving :: "spool \<Rightarrow> bool" where
  "receiving st \<longleftrightarrow> sp_spoolOpen st \<and> \<not> sp_cancelled st \<and> sp_file st"

definition page_received :: "spool_env \<Rightarrow> bool \<Rightarrow> bytes \<Rightarrow> spool \<Rightarrow> spool option" where
  "page_received env e data st = do {
     st \<leftarrow> spool_convert env e (st\<lparr>sp_pageBuf := data, sp_plen := 0\<rparr>);
     if e then spool_end env st else Some st }"

lemma packet_receiving:
  assumes "receiving st" "packet_mark e # c \<noteq> fakePage"
  shows "spool_packet env so (packet_mark e # c) st w =
    do { st \<leftarrow> spool_data env e (packet_mark e # c) st;
         st \<leftarrow> (if e then spool_end env st else Some st);
         Some (st, w) }"
  using assms by (cases e) (simp_all add: spool_packet_def spool_create_def receiving_def packet_mark_def)

lemma rest_packets_received:
  assumes "receiving st" "\<not> sp_pageStart st" "cs \<noteq> []" "[] \<notin> set cs"
    "sp_plen st = of_nat (length (concat cs))" "length (concat cs) < 2 ^ 32"
    "fakePage \<notin> set (rest_packets e cs)"
    "page_received env e (sp_pageBuf st @ concat cs) st = Some st'"
  shows "consumes env t (rest_packets e cs) st st'"
  using assms
proof (induction cs arbitrary: st)
  case (Cons c cs)
  let ?e = "e \<and> cs = []"
  have ne: "packet_mark ?e # c \<noteq> fakePage" using Cons.prems(7) by auto
  let ?st = "st\<lparr>sp_pageBuf := sp_pageBuf st @ c, sp_plen := of_nat (length (concat cs))\<rparr>"
  have plen: "sp_plen st - of_nat (length c) = of_nat (length (concat cs))"
    using Cons.prems(5) by simp
  show ?case
  proof (cases "cs = []")
    case True
    have "spool_packet env (scripted t) (packet_mark ?e # c) st w = Some (st', w)" for w
      unfolding packet_receiving [OF Cons.prems(1) ne]
      using Cons.prems(2,8) True plen by (auto simp: spool_data_def page_received_def Let_def bind_eq_Some_conv)
    then have "consumes env t [packet_mark ?e # c] st st'" by (rule consumes_one)
    then show ?thesis by (simp add: True)
  next
    case False
    then have "length (concat cs) > 0" using Cons.prems(4) by (cases cs) auto
    then have "(of_nat (length (concat cs)) :: 64 word) \<noteq> 0"
      using Cons.prems(6) by (intro notI) (drule word_of_nat_eq_0_iff [THEN iffD1], auto dest: dvd_imp_le)
    then have "sp_plen st \<noteq> of_nat (length c)" using plen by auto
    then have "spool_packet env (scripted t) (packet_mark ?e # c) st w = Some (?st, w)" for w
      unfolding packet_receiving [OF Cons.prems(1) ne]
      using Cons.prems(2) False plen by (simp add: spool_data_def Let_def)
    then have "consumes env t [packet_mark ?e # c] st ?st" by (rule consumes_one)
    moreover have "consumes env t (rest_packets e cs) ?st st'"
      using Cons.prems False by (intro Cons.IH) (auto simp: receiving_def page_received_def)
    ultimately show ?thesis
      using consumes_append [of env t "[packet_mark ?e # c]" st ?st "rest_packets e cs" st'] by simp
  qed
qed simp


lemma page_received_start: "page_received env e d (st\<lparr>sp_pageStart := b\<rparr>) = page_received env e d st"
  and page_received_buf: "page_received env e d (st\<lparr>sp_pageBuf := x\<rparr>) = page_received env e d st"
  and page_received_plen: "page_received env e d (st\<lparr>sp_plen := l\<rparr>) = page_received env e d st"
  by (simp_all add: page_received_def spool_convert_def)

lemma announced_length:
  assumes "n + 8 < 2 ^ 32"
  shows "(ucast (word_of_int (int (n + 8)) - 8 :: 32 word) :: 64 word) = of_nat n"
proof -
  have "(word_of_int (int (n + 8)) - 8 :: 32 word) = of_nat n" by simp
  then show ?thesis using assms by (simp add: ucast_eq unsigned_of_nat take_bit_nat_eq_self)
qed

lemma page_packets_received:
  assumes "receiving st" "sp_pageStart st" "page_ok p" "fakePage \<notin> set (page_packets e p)"
    and "page_received env e (page_data p) st = Some st'"
  shows "consumes env t (page_packets e p) st st'"
proof -
  obtain x hdr c cs where p: "p = (x, hdr, c, cs)" by (cases p)
  let ?n = "length (concat (c # cs))" and ?e = "e \<and> cs = []"
  let ?buf = "packet_mark ?e # x # le32 (int (?n + 8)) @ hdr @ c"
  have ok: "length hdr = 8" "[] \<notin> set cs" "?n + 8 < 2 ^ 32" using assms(3) by (simp_all add: page_ok_def p)
  have ne: "?buf \<noteq> fakePage" using assms(4) by (auto simp: page_packets_def p)
  have d: "getDWord (drop 1 ?buf) 1 = Some (word_of_int (int (?n + 8)))" "drop 13 (drop 1 ?buf) = c"
    using ok(1) getDWord_le32 [of "int (?n + 8)" "hdr @ c"] getDWord_Cons(1) [of x "le32 (int (?n + 8)) @ hdr @ c" 0]
    by simp_all
  have data: "spool_data env ?e ?buf st =
      (let s = st\<lparr>sp_pageStart := False, sp_pageBuf := c, sp_plen := of_nat (length (concat cs))\<rparr>
       in if of_nat (length (concat cs)) = (0 :: 64 word) then spool_convert env ?e s else Some s)"
    using assms(2) d announced_length [OF ok(3)] ok(1) by (auto simp: spool_data_def Let_def)
  let ?s = "st\<lparr>sp_pageStart := False, sp_pageBuf := c, sp_plen := of_nat (length (concat cs))\<rparr>"
  show ?thesis
  proof (cases "cs = []")
    case True
    have "page_received env e c (st\<lparr>sp_pageStart := False\<rparr>) = Some st'"
      using assms(5) by (simp add: page_received_start p page_data_def True)
    then have "spool_packet env (scripted t) ?buf st w = Some (st', w)" for w
      unfolding packet_receiving [OF assms(1) ne] data
      by (auto simp: True page_received_def Let_def bind_eq_Some_conv)
    then have "consumes env t [?buf] st st'" by (rule consumes_one)
    then show ?thesis by (simp add: page_packets_def p True)
  next
    case False
    then have "length (concat cs) > 0" using ok(2) by (cases cs) auto
    then have "(of_nat (length (concat cs)) :: 64 word) \<noteq> 0"
      using ok(3) by (intro notI) (drule word_of_nat_eq_0_iff [THEN iffD1], auto dest: dvd_imp_le)
    then have "spool_packet env (scripted t) ?buf st w = Some (?s, w)" for w
      unfolding packet_receiving [OF assms(1) ne] data using False by (simp add: Let_def)
    then have "consumes env t [?buf] st ?s" by (rule consumes_one)
    moreover have "consumes env t (rest_packets e cs) ?s st'"
      using assms ok False
      by (intro rest_packets_received)
         (auto simp: receiving_def page_received_start page_received_buf page_received_plen p page_data_def page_packets_def)
    ultimately show ?thesis
      using consumes_append [of env t "[?buf]" st ?s "rest_packets e cs" st'] by (simp add: page_packets_def p)
  qed
qed

text \<open>The state after the last page of a job.\<close>

definition job_done :: "page \<Rightarrow> int \<Rightarrow> string \<Rightarrow> spool \<Rightarrow> spool" where
  "job_done page n name st =
     st\<lparr>sp_spoolOpen := False, sp_pageStart := True, sp_plen := 0, sp_pageCount := n, sp_pageBuf := [],
        sp_file := False, sp_page := page, sp_log := sp_log st @ [Ev_spooled (pg_out page), Ev_unlink name]\<rparr>"

lemma job_packets_received:
  assumes "receiving st" "sp_pageStart st" "pages \<noteq> []" "\<forall>p \<in> set pages. page_ok p"
    "fakePage \<notin> set (job_packets pages)" "se_printcmd env" "se_popen env" "sp_pageCount st \<ge> 0"
    "job_pages env (sp_pageCount st) pages (sp_page st) = Some page"
  shows "consumes env t (job_packets pages) st
    (job_done page (sp_pageCount st + int (length pages)) (sp_jname st) st)"
  using assms
proof (induction pages arbitrary: st)
  case (Cons p ps)
  obtain pg where pg: "convertPage (se_print env) (se_fontmap env) (sp_pageCount st) (ps = []) (page_data p) (sp_page st) = Some pg"
      "job_pages env (sp_pageCount st + 1) ps pg = Some page"
    using Cons.prems(9) by (auto simp: bind_eq_Some_conv)
  let ?s = "st\<lparr>sp_page := pg, sp_pageCount := sp_pageCount st + 1, sp_pageBuf := [], sp_pageStart := True, sp_plen := 0\<rparr>"
  have conv: "spool_convert env (ps = []) (st\<lparr>sp_pageBuf := page_data p, sp_plen := 0\<rparr>) = Some ?s"
    using pg(1) Cons.prems(1) by (simp add: spool_convert_def receiving_def)
  show ?case
  proof (cases "ps = []")
    case True
    have "page_received env True (page_data p) st = Some (job_done page (sp_pageCount st + 1) (sp_jname st) st)"
      using conv True pg(2) Cons.prems(1,6-8)
      by (simp add: page_received_def spool_end_def spool_close_def spool_print_def spool_note_def receiving_def job_done_def)
    then show ?thesis
      using Cons.prems True page_packets_received [OF Cons.prems(1,2), of p True] by simp
  next
    case False
    have "page_received env False (page_data p) st = Some ?s"
      using conv False by (simp add: page_received_def)
    then have "consumes env t (page_packets False p) st ?s"
      using Cons.prems(4,5) False page_packets_received [OF Cons.prems(1,2), of p False] by simp
    moreover have "consumes env t (job_packets ps) ?s (job_done page (sp_pageCount st + 1 + int (length ps)) (sp_jname st) ?s)"
      using Cons.IH [of ?s] Cons.prems False pg(2) by (simp add: receiving_def)
    moreover have "job_done page (sp_pageCount st + 1 + int (length ps)) (sp_jname st) ?s =
        job_done page (sp_pageCount st + int (length (p # ps))) (sp_jname st) st"
      by (simp add: job_done_def add.commute)
    ultimately show ?thesis using consumes_append False by fastforce
  qed
qed simp


lemma first_packet:
  assumes "\<not> sp_spoolOpen st" "\<not> sp_cancelled st" "se_mkstemp env (sp_created st) = (True, name)"
    "wp_status w \<noteq> E_PSI_FILE_DISC" "wp_world w = (sent, p # rs)" "p \<noteq> fakePage"
  shows "service_loop env (scripted t) st w =
    service_loop env (scripted t) (spool_note (Ev_create name) (st\<lparr>sp_jname := name, sp_created := sp_created st + 1,
      sp_spoolOpen := True, sp_pageStart := True, sp_pageCount := 0, sp_file := True,
      sp_page := (sp_page st)\<lparr>pg_out := []\<rparr>, sp_plen := 0\<rparr>)) w" (is "_ = service_loop env _ ?s w")
proof -
  have "spool_packet env (scripted t) p st v = spool_packet env (scripted t) p ?s v" for v
    using assms(1-3,6) by (simp add: spool_packet_def spool_create_def spool_note_def)
  then have "spool_round env (scripted t) st w = spool_round env (scripted t) ?s w"
    using getData_scripted [OF assms(4,5), of t] gen_none_disc by (simp add: spool_round_def)
  then show ?thesis
    by (subst (1 2) service_loop.simps) simp
qed

text \<open>
  C32: A print job is printed as a whole. A daemon that waits for a job creates a spool file, converts
  the pages in order, however the device has cut them into packets (the pieces behind the first of a
  page are not empty, and no packet looks like the page for cancelling), gives the text to
  the print command, deletes the file and waits for the next job; the packets behind the job are
  left alone, and if there are none the daemon returns when the connection ends.
\<close>

theorem print_job_spooled:
  assumes "\<not> sp_spoolOpen st" and "\<not> sp_cancelled st" and "se_mkstemp env (sp_created st) = (True, name)"
    and "se_printcmd env" and "se_popen env" and "pages \<noteq> []" and "\<forall>p \<in> set pages. page_ok p"
    and "fakePage \<notin> set (job_packets pages)"
    and "job_pages env 0 pages ((sp_page st)\<lparr>pg_out := []\<rparr>) = Some page"
    and "wp_status w \<noteq> E_PSI_FILE_DISC" and "wp_world w = (sent, job_packets pages @ rs)"
  shows "\<exists>st' sent'. service_loop env (scripted t) st w =
      service_loop env (scripted t) st' (w\<lparr>wp_world := (sent', rs)\<rparr>) \<and>
    sp_log st' = sp_log st @ [Ev_create name, Ev_spooled (pg_out page), Ev_unlink name] \<and>
    \<not> sp_spoolOpen st' \<and> \<not> sp_cancelled st' \<and>
    (rs = [] \<longrightarrow> (\<exists>w'. service_loop env (scripted t) st w = Some (st', w')))"
proof -
  let ?s = "spool_note (Ev_create name) (st\<lparr>sp_jname := name, sp_created := sp_created st + 1,
      sp_spoolOpen := True, sp_pageStart := True, sp_pageCount := 0, sp_file := True,
      sp_page := (sp_page st)\<lparr>pg_out := []\<rparr>, sp_plen := 0\<rparr>)"
  let ?st' = "job_done page (int (length pages)) name ?s"
  obtain p ps where packets: "job_packets pages = p # ps"
    using assms(6) by (cases pages) (auto simp: page_packets_def split: prod.splits)
  then have "p \<noteq> fakePage" using assms(8) by auto
  then have "service_loop env (scripted t) st w = service_loop env (scripted t) ?s w"
    using assms(1-3,10,11) packets by (intro first_packet) simp_all
  moreover have "consumes env t (job_packets pages) ?s ?st'"
    using job_packets_received [of ?s pages env page t] assms by (simp add: receiving_def spool_note_def)
  then obtain sent' where "service_loop env (scripted t) ?s w =
      service_loop env (scripted t) ?st' (w\<lparr>wp_world := (sent', rs)\<rparr>)"
    using assms(10,11) unfolding consumes_def by blast
  ultimately have run: "service_loop env (scripted t) st w =
      service_loop env (scripted t) ?st' (w\<lparr>wp_world := (sent', rs)\<rparr>)" by simp
  have "\<exists>w'. service_loop env (scripted t) st w = Some (?st', w')" if "rs = []"
    using service_ends [of "w\<lparr>wp_world := (sent', rs)\<rparr>" sent' env t ?st'] assms(10) that run by simp
  moreover have "sp_log ?st' = sp_log st @ [Ev_create name, Ev_spooled (pg_out page), Ev_unlink name]"
    "\<not> sp_spoolOpen ?st'" "\<not> sp_cancelled ?st'"
    using assms(2) by (simp_all add: job_done_def spool_note_def)
  ultimately show ?thesis using run by blast
qed

definition spool_env_sample :: spool_env where
  "spool_env_sample = \<lparr>se_print = print_env_sample, se_fontmap = default_fontmap,
     se_mkstemp = (\<lambda>n. (True, ''job'')), se_printcmd = True, se_popen = True\<rparr>"

text \<open>One page with nothing but its end.\<close>

theorem print_job_spooled_witness:
  "\<forall>t. \<exists>text' st' w'. service_loop spool_env_sample (scripted t) (spool_start 0 [] page_sample 0 [])
       \<lparr>wp_status = E_PSI_GEN_NONE, wp_world = ([], job_packets [(0x2a, replicate 8 0, [], [[0x01]])])\<rparr> = Some (st', w') \<and>
     sp_log st' = [Ev_create ''job'', Ev_spooled text', Ev_unlink ''job'']"
proof
  fix t
  let ?pages = "[(0x2a, replicate 8 0, [], [[0x01]])] :: (byte \<times> bytes \<times> bytes \<times> bytes list) list"
  let ?st = "spool_start 0 [] page_sample 0 []"
  have enc: "page_encoding [(End_of_page, length ([] :: bytes) + 2)] [0x01]" by (rule enc_end)
  obtain page where page: "job_pages spool_env_sample 0 ?pages ((sp_page ?st)\<lparr>pg_out := []\<rparr>) = Some page"
    by (simp add: page_data_def convertPage_renders [OF enc] spool_env_sample_def print_env_sample_def render_page_def
        page_header_def exec_op_def Let_def)
  have ne: "fakePage \<notin> set (job_packets ?pages)"
    by (simp add: page_packets_def fakePage_def packet_mark_def le32_def numeral_eq_Suc)
  have ok: "\<forall>p \<in> set ?pages. page_ok p" by (simp add: page_ok_def)
  show "\<exists>text' st' w'. service_loop spool_env_sample (scripted t) ?st
       \<lparr>wp_status = E_PSI_GEN_NONE, wp_world = ([], job_packets ?pages)\<rparr> = Some (st', w') \<and>
     sp_log st' = [Ev_create ''job'', Ev_spooled text', Ev_unlink ''job'']"
    using print_job_spooled [of ?st spool_env_sample "''job''" ?pages page
        "\<lparr>wp_status = E_PSI_GEN_NONE, wp_world = ([], job_packets ?pages)\<rparr>" "[]" "[]" t] page ne ok gen_none_disc
    by (auto simp: spool_start_def spool_env_sample_def simp del: job_packets.simps job_pages.simps)
qed


section \<open>Cancelled jobs\<close>

text \<open>The number of packets that end a job.\<close>

definition job_ends :: "bytes list \<Rightarrow> nat" where
  "job_ends ps = length (filter (\<lambda>p. hd p = 0xff) ps)"

definition marked :: "bytes \<Rightarrow> bool" where
  "marked p \<longleftrightarrow> p \<noteq> fakePage \<and> (\<exists>c. p = 0x2a # c \<or> p = 0xff # c)"

lemma markedE:
  assumes "marked p" obtains e c where "p = packet_mark e # c" "p \<noteq> fakePage"
proof -
  obtain c where c: "p = 0x2a # c \<or> p = 0xff # c" and ne: "p \<noteq> fakePage"
    using assms by (auto simp: marked_def)
  then have "p = packet_mark (p = 0xff # c) # c" by (auto simp: packet_mark_def)
  then show thesis using ne that by blast
qed

lemma cancelled_drops:
  assumes "sp_cancelled st" "sp_spoolOpen st \<longrightarrow> sp_file st" "\<forall>p \<in> set ps. marked p"
  shows "\<exists>st'. consumes env t ps st st' \<and> sp_cancelled st' \<and>
    sp_log st' = sp_log st @ replicate (job_ends ps) (Ev_unlink (sp_jname st)) \<and> sp_created st' = sp_created st"
  using assms
proof (induction ps arbitrary: st)
  case Nil
  then show ?case using consumes_Nil by (fastforce simp: job_ends_def)
next
  case (Cons p ps)
  have "marked p" using Cons.prems(3) by simp
  then obtain e c where p: "p = packet_mark e # c" "p \<noteq> fakePage" by (rule markedE)
  let ?s = "if e then spool_note (Ev_unlink (sp_jname st)) (st\<lparr>sp_file := (\<not> sp_spoolOpen st \<and> sp_file st), sp_spoolOpen := False\<rparr>) else st"
  have "spool_packet env (scripted t) p st w = Some (?s, w)" for w
    using Cons.prems(1,2) p
    by (cases e) (auto simp: spool_packet_def spool_create_def spool_end_def spool_close_def spool_note_def packet_mark_def)
  then have 1: "consumes env t [p] st ?s" by (rule consumes_one)
  have keep: "sp_cancelled ?s" "sp_spoolOpen ?s \<longrightarrow> sp_file ?s"
    using Cons.prems(1,2) by (simp_all add: spool_note_def)
  obtain st' where "consumes env t ps ?s st'" "sp_cancelled st'"
      "sp_log st' = sp_log ?s @ replicate (job_ends ps) (Ev_unlink (sp_jname ?s))" "sp_created st' = sp_created ?s"
    using Cons.IH [OF keep] Cons.prems(3) by auto
  moreover have "consumes env t (p # ps) st st'"
    using consumes_append [OF 1 calculation(1)] by simp
  moreover have "hd p = 0xff \<longleftrightarrow> e" by (simp add: p packet_mark_def)
  ultimately show ?case
    by (intro exI [of _ st']) (auto simp: job_ends_def spool_note_def)
qed

text \<open>
  A cancelled job takes all later jobs with it. After a packet of an unknown kind the daemon asks
  the device to cancel the job; nothing but the page for cancelling resets the variable, so that
  whatever jobs the device sends from then on are dropped: no spool file is created and nothing is
  printed, the name of the old file is deleted once for each of them.
\<close>

theorem print_cancel_sticks:
  assumes "receiving st" and "p \<noteq> [] \<and> hd p \<noteq> 0x2a \<and> hd p \<noteq> 0xff" and "\<forall>q \<in> set ps. marked q"
    and "wp_status w \<noteq> E_PSI_FILE_DISC" and "wp_world w = (sent, p # answer # ps)"
  shows "\<exists>st' w'. service_loop env (scripted t) st w = Some (st', w') \<and> sp_cancelled st' \<and>
    sp_log st' = sp_log st @ replicate (job_ends ps) (Ev_unlink (sp_jname st)) \<and> sp_created st' = sp_created st"
proof -
  let ?s = "st\<lparr>sp_cancelled := True\<rparr>"
  obtain b c where p: "p = b # c" "b \<noteq> 0x2a" "b \<noteq> 0xff" using assms(2) by (cases p) auto
  have packet: "spool_packet env (scripted t) p st v = Some (?s, snd (cancelJob (scripted t) v))" for v
    using assms(1) p by (simp add: spool_packet_def spool_create_def receiving_def fakePage_def)
  obtain v' sent' where cancel: "snd (cancelJob (scripted t) (w\<lparr>wp_world := (sent @ [[WPRT_GET]], answer # ps)\<rparr>)) =
      w\<lparr>wp_world := (sent', ps)\<rparr>"
    using assms(4) by (simp add: cancelJob_def wprt_sendCommand_def wprt_send_def wprt_getResponse_def wprt_recv_def)
  have run: "service_loop env (scripted t) st w = service_loop env (scripted t) ?s (w\<lparr>wp_world := (sent', ps)\<rparr>)"
    using getData_scripted [OF assms(4,5), of t] packet cancel gen_none_disc
    by (subst service_loop.simps) (simp add: spool_round_def)
  obtain st' where st': "consumes env t ps ?s st'" "sp_cancelled st'"
      "sp_log st' = sp_log st @ replicate (job_ends ps) (Ev_unlink (sp_jname st))" "sp_created st' = sp_created st"
    using cancelled_drops [of ?s ps env t] assms(1,3) by (auto simp: receiving_def)
  obtain sent'' where "service_loop env (scripted t) ?s (w\<lparr>wp_world := (sent', ps)\<rparr>) =
      service_loop env (scripted t) st' (w\<lparr>wp_world := (sent', ps)\<rparr>\<lparr>wp_world := (sent'', [])\<rparr>)"
    using st'(1) [unfolded consumes_def, rule_format, of "w\<lparr>wp_world := (sent', ps)\<rparr>" sent' "[]"] assms(4) by auto
  moreover obtain w' where "service_loop env (scripted t) st' (w\<lparr>wp_world := (sent'', [])\<rparr>) = Some (st', w')"
    using service_ends [of "w\<lparr>wp_world := (sent'', [])\<rparr>" sent'' env t st'] assms(4) by auto
  ultimately show ?thesis using run st'(2-4) by auto
qed

definition spool_sample :: spool where
  "spool_sample = (spool_start 0 ''job'' page_sample 1 [])\<lparr>sp_spoolOpen := True, sp_file := True\<rparr>"

theorem print_cancel_sticks_witness:
  "\<forall>t. \<exists>st' w'. service_loop spool_env_sample (scripted t) spool_sample
      \<lparr>wp_status = E_PSI_GEN_NONE, wp_world = ([], [0x00] # [] # [[0x2a, 1], [0xff, 1]])\<rparr> = Some (st', w') \<and>
    sp_log st' = [Ev_unlink ''job'']"
proof
  fix t
  have "\<forall>q \<in> set [[0x2a, 1], [0xff, 1]]. marked q" by (simp add: marked_def fakePage_def)
  moreover have "receiving spool_sample" by (simp add: receiving_def spool_sample_def spool_start_def)
  ultimately show "\<exists>st' w'. service_loop spool_env_sample (scripted t) spool_sample
      \<lparr>wp_status = E_PSI_GEN_NONE, wp_world = ([], [0x00] # [] # [[0x2a, 1], [0xff, 1]])\<rparr> = Some (st', w') \<and>
    sp_log st' = [Ev_unlink ''job'']"
    using print_cancel_sticks [of spool_sample "[0x00]" "[[0x2a, 1], [0xff, 1]]"
        "\<lparr>wp_status = E_PSI_GEN_NONE, wp_world = ([], [0x00] # [] # [[0x2a, 1], [0xff, 1]])\<rparr>" "[]" "[]" spool_env_sample t]
      gen_none_disc
    by (auto simp: job_ends_def spool_sample_def spool_start_def)
qed

lemma spool_data_closed:
  "spool_data env e b st = Some s \<Longrightarrow> \<not> sp_file st \<Longrightarrow> sp_spoolOpen st \<Longrightarrow> \<not> sp_file s \<and> sp_spoolOpen s"
  by (auto simp: spool_data_def spool_convert_def Let_def bind_eq_Some_conv split: if_splits)

lemma spool_end_closed: "\<not> sp_file st \<Longrightarrow> sp_spoolOpen st \<Longrightarrow> spool_end env st = None"
  by (simp add: spool_end_def spool_close_def)

text \<open>
  Cancelling a job from the device leads to the use of a closed stream. The page for cancelling closes
  the spool file and deletes it, but the job still counts as open: the packet that ends the next job
  closes the stream again, or writes to it.
\<close>

theorem print_cancel_closed_stream:
  assumes "receiving st" and "hd p = 0xff" and "p \<noteq> []"
    and "wp_status w \<noteq> E_PSI_FILE_DISC" and "wp_world w = (sent, fakePage # p # rs)"
  shows "spool_packet env (scripted t) fakePage st w =
      Some (spool_note (Ev_unlink (sp_jname st)) (st\<lparr>sp_file := False\<rparr>), w) \<and>
    service_loop env (scripted t) st w = None"
proof -
  let ?s = "spool_note (Ev_unlink (sp_jname st)) (st\<lparr>sp_file := False\<rparr>)"
  have fake: "spool_packet env (scripted t) fakePage st v = Some (?s, v)" for v :: "(bytes list \<times> bytes list) wprt"
    using assms(1) by (simp add: spool_packet_def spool_fake_def spool_close_def receiving_def spool_note_def)
  obtain c where p: "p = 0xff # c" using assms(2,3) by (cases p) auto
  have "spool_packet env (scripted t) p ?s v = None" for v :: "(bytes list \<times> bytes list) wprt"
  proof -
    have s: "sp_spoolOpen ?s" "\<not> sp_cancelled ?s" "\<not> sp_file ?s"
      using assms(1) by (simp_all add: receiving_def spool_note_def)
    have "do { st \<leftarrow> spool_data env True p ?s; spool_end env st } = None"
      by (cases "spool_data env True p ?s") (auto dest: spool_data_closed [OF _ s(3,1)] simp: spool_end_closed)
    then show ?thesis
      using s(1,2) by (cases "spool_data env True p ?s") (simp_all add: spool_packet_def spool_create_def p fakePage_def)
  qed
  then have none: "service_loop env (scripted t) ?s (w\<lparr>wp_world := (sent @ [[WPRT_GET]], p # rs)\<rparr>) = None"
    using assms(4) by (intro packet_None) simp_all
  have "service_loop env (scripted t) st w = None"
    using getData_scripted [OF assms(4,5), of t] fake none gen_none_disc
    by (subst service_loop.simps) (simp add: spool_round_def)
  with fake show ?thesis by blast
qed

theorem print_cancel_closed_stream_witness:
  "\<forall>t. service_loop spool_env_sample (scripted t) spool_sample
      \<lparr>wp_status = E_PSI_GEN_NONE, wp_world = ([], fakePage # [0xff] # [])\<rparr> = None"
  using print_cancel_closed_stream [of spool_sample "[0xff]"
      "\<lparr>wp_status = E_PSI_GEN_NONE, wp_world = ([], fakePage # [0xff] # [])\<rparr>" "[]" "[]" spool_env_sample] gen_none_disc
  by (simp add: receiving_def spool_sample_def spool_start_def)

end
