(* ===== verification/PlpFuse.thy ===== *)
theory PlpFuse
  imports Rfsv32 "HOL-Library.Signed_Division"
begin

text \<open>
  The file system \<open>plpfuse\<close>: the operations of \<open>plpfuse/fuse.c\<close> over the remote file access of
  \<open>plpfuse/main.cc\<close>. The record \<open>remote\<close> holds the methods of the object \<open>a\<close> of class
  \<open>RFSV\<close>; \<open>rfsv32_remote\<close> is that of an EPOC machine. A path of FUSE begins with a slash. \<open>None\<close> is an
  operation that does not return. Mounting, the options and the debugging output are not modelled.
\<close>

section \<open>Error numbers\<close>

text \<open>The numbers of Linux.\<close>

definition EPERM :: int where "EPERM = 1"
definition ENOENT :: int where "ENOENT = 2"
definition EINTR :: int where "EINTR = 4"
definition EIO :: int where "EIO = 5"
definition EBADF :: int where "EBADF = 9"
definition EACCES :: int where "EACCES = 13"
definition EBUSY :: int where "EBUSY = 16"
definition EEXIST :: int where "EEXIST = 17"
definition ENODEV :: int where "ENODEV = 19"
definition EINVAL :: int where "EINVAL = 22"
definition EFBIG :: int where "EFBIG = 27"
definition ENOSPC :: int where "ENOSPC = 28"
definition ENODATA :: int where "ENODATA = 61"
definition ENOTSUP :: int where "ENOTSUP = 95"
definition ENOMEDIUM :: int where "ENOMEDIUM = 123"

lemmas errno_defs =
  EPERM_def ENOENT_def EINTR_def EIO_def EBADF_def EACCES_def EBUSY_def EEXIST_def ENODEV_def EINVAL_def
  EFBIG_def ENOSPC_def ENODATA_def ENOTSUP_def ENOMEDIUM_def

definition to_int :: "int \<Rightarrow> int" where
  "to_int n = sint (word_of_int n :: 32 word)"

definition epocerr_to_errno :: "int \<Rightarrow> int" where
  "epocerr_to_errno epocerr =
     (if epocerr < 0 then
        (if epocerr = E_PSI_GEN_NONE then 0
         else if epocerr = E_PSI_FILE_EXIST then - EEXIST
         else if epocerr \<in> {E_PSI_FILE_NXIST, E_PSI_FILE_DIR} then - ENOENT
         else if epocerr \<in> {E_PSI_FILE_WRITE, E_PSI_FILE_READ, E_PSI_FILE_EOF, E_PSI_FILE_ALLOC,
           E_PSI_FILE_UNKNOWN, E_PSI_FILE_DIRFULL} then - EPERM
         else if epocerr = E_PSI_FILE_FULL then - ENOSPC
         else if epocerr \<in> {E_PSI_FILE_NAME, E_PSI_FILE_RECORD, E_PSI_FILE_VOLUME} then - EINVAL
         else if epocerr \<in> {E_PSI_FILE_ACCESS, E_PSI_FILE_LOCKED, E_PSI_FILE_RDONLY, E_PSI_FILE_PROTECT}
           then - EACCES
         else if epocerr \<in> {E_PSI_GEN_INUSE, E_PSI_FILE_DEVICE, E_PSI_FILE_PENDING, E_PSI_FILE_NOTREADY}
           then - EBUSY
         else if epocerr = E_PSI_FILE_CANCEL then - EINTR
         else if epocerr \<in> {E_PSI_FILE_DISC, E_PSI_FILE_CONNECT} then - ENODEV
         else if epocerr = E_PSI_FILE_TOOBIG then - EFBIG
         else if epocerr = E_PSI_FILE_HANDLE then - EBADF
         else - EIO)
      else to_int epocerr)"

section \<open>The remote file access\<close>

text \<open>The methods that are used, and what uninitialised handles, bits and drives hold.\<close>

record 'w remote =
  rm_getStatus :: "'w \<Rightarrow> int"
  rm_dir :: "string \<Rightarrow> 'w \<Rightarrow> (int \<times> plpdirent list \<times> 'w) option"
  rm_dircount :: "string \<Rightarrow> 'w \<Rightarrow> (int \<times> 32 word \<times> 'w) option"
  rm_rmdir :: "string \<Rightarrow> 'w \<Rightarrow> int \<times> 'w"
  rm_mkdir :: "string \<Rightarrow> 'w \<Rightarrow> int \<times> 'w"
  rm_remove :: "string \<Rightarrow> 'w \<Rightarrow> int \<times> 'w"
  rm_rename :: "string \<Rightarrow> string \<Rightarrow> 'w \<Rightarrow> int \<times> 'w"
  rm_fclose :: "32 word \<Rightarrow> 'w \<Rightarrow> int \<times> 'w"
  rm_fcreatefile :: "32 word \<Rightarrow> string \<Rightarrow> 32 word \<Rightarrow> 'w \<Rightarrow> int \<times> 32 word \<times> 'w"
  rm_opMode :: "32 word \<Rightarrow> 32 word"
  rm_fopen :: "32 word \<Rightarrow> string \<Rightarrow> 32 word \<Rightarrow> 'w \<Rightarrow> int \<times> 32 word \<times> 'w"
  rm_fseek :: "32 word \<Rightarrow> 32 word \<Rightarrow> 32 word \<Rightarrow> 32 word \<Rightarrow> 'w \<Rightarrow> int \<times> 32 word \<times> 'w"
  rm_fread :: "32 word \<Rightarrow> 32 word \<Rightarrow> 'w \<Rightarrow> (int \<times> bytes \<times> 32 word \<times> 'w) option"
  rm_fwrite :: "32 word \<Rightarrow> bytes \<Rightarrow> 32 word \<Rightarrow> 'w \<Rightarrow> int \<times> 32 word \<times> 'w"
  rm_fsetmtime :: "string \<Rightarrow> int \<Rightarrow> 'w \<Rightarrow> int \<times> 'w"
  rm_fsetsize :: "32 word \<Rightarrow> 32 word \<Rightarrow> 'w \<Rightarrow> int \<times> 'w"
  rm_fsetattr :: "string \<Rightarrow> 32 word \<Rightarrow> 32 word \<Rightarrow> 'w \<Rightarrow> int \<times> 'w"
  rm_fgeteattr :: "string \<Rightarrow> 'w \<Rightarrow> int \<times> plpdirent \<times> 'w"
  rm_devlist :: "32 word \<Rightarrow> 'w \<Rightarrow> (int \<times> 32 word \<times> 'w) option"
  rm_devinfo :: "char \<Rightarrow> drive \<Rightarrow> 'w \<Rightarrow> int \<times> drive \<times> 'w"
  rm_junk :: "32 word"
  rm_drive :: drive

definition rfsv32_remote :: "'v socket \<Rightarrow> psitime \<Rightarrow> drive \<Rightarrow> 'v rfsv remote" where
  "rfsv32_remote so raw junk =
     \<lparr>rm_getStatus = r_status, rm_dir = dir so raw, rm_dircount = dircount so, rm_rmdir = rmdir so,
      rm_mkdir = mkdir so, rm_remove = remove so, rm_rename = rename so, rm_fclose = fclose so, rm_fcreatefile = fcreatefile so,
      rm_opMode = opMode, rm_fopen = fopen so, rm_fseek = fseek so, rm_fread = fread so,
      rm_fwrite = fwrite so, rm_fsetmtime = (\<lambda>name t. fsetmtime so name (PsiTime_unix (so_time so) t raw)),
      rm_fsetsize = fsetsize so, rm_fsetattr = fsetattr so,
      rm_fgeteattr = (\<lambda>name. fgeteattr so name (plpdirent_new (so_time so) raw)),
      rm_devlist = (\<lambda>bits s. Some (devlist so bits s)), rm_devinfo = devinfo so,
      rm_junk = so_junk so, rm_drive = junk\<rparr>"

record dentry =
  dn_name :: string
  dn_time :: int
  dn_attr :: "32 word"
  dn_size :: int

record device =
  dv_letter :: char
  dv_name :: string
  dv_total :: "64 word"
  dv_free :: "64 word"
  dv_attrib :: "32 word"

text \<open>
  The state: the remote object once there is one, the results of further attempts to create it,
  the list of drives of the last query, and the user and group of the caller, as \<open>fuse_get_context\<close> tells them.
\<close>

record 'w fuse =
  fs_a :: "'w option"
  fs_create :: "'w option list"
  fs_devices :: "device list"
  fs_uid :: int
  fs_gid :: int

definition rfsv_isalive :: "'w remote \<Rightarrow> 'w fuse \<Rightarrow> bool \<times> 'w fuse" where
  "rfsv_isalive rm st =
     (let st = (if fs_a st = None then
                  st\<lparr>fs_a := (case fs_create st of [] \<Rightarrow> None | x # _ \<Rightarrow> x), fs_create := drop 1 (fs_create st)\<rparr>
                else st)
      in (case fs_a st of None \<Rightarrow> (False, st) | Some w \<Rightarrow> (rm_getStatus rm w = E_PSI_GEN_NONE, st)))"

text \<open>A call of a method: \<open>-ENODEV\<close> without the object.\<close>

definition on_remote :: "('w \<Rightarrow> int \<times> 'w) \<Rightarrow> 'w fuse \<Rightarrow> int \<times> 'w fuse" where
  "on_remote f st =
     (case fs_a st of
        None \<Rightarrow> (- ENODEV, st)
      | Some w \<Rightarrow> let (ret, w) = f w in (epocerr_to_errno ret, st\<lparr>fs_a := Some w\<rparr>))"

definition dentry_of :: "plpdirent \<Rightarrow> dentry" where
  "dentry_of e = \<lparr>dn_name = de_name e, dn_time = utv_sec (de_time e), dn_attr = de_attr e, dn_size = uint (de_size e)\<rparr>"

text \<open>Each entry is put in front of the list.\<close>

definition fuse_rfsv_dir :: "'w remote \<Rightarrow> string \<Rightarrow> 'w fuse \<Rightarrow> (int \<times> dentry list \<times> 'w fuse) option" where
  "fuse_rfsv_dir rm file st =
     (case fs_a st of
        None \<Rightarrow> Some (- ENODEV, [], st)
      | Some w \<Rightarrow> do {
          (ret, entries, w) \<leftarrow> rm_dir rm file w;
          Some (epocerr_to_errno ret, fold (\<lambda>e es. dentry_of e # es) entries [], st\<lparr>fs_a := Some w\<rparr>) })"

definition fuse_rfsv_dircount :: "'w remote \<Rightarrow> string \<Rightarrow> 32 word \<Rightarrow> 'w fuse \<Rightarrow> (int \<times> 32 word \<times> 'w fuse) option" where
  "fuse_rfsv_dircount rm file count st =
     (case fs_a st of
        None \<Rightarrow> Some (- ENODEV, count, st)
      | Some w \<Rightarrow> do {
          (ret, count, w) \<leftarrow> rm_dircount rm file w;
          Some (epocerr_to_errno ret, count, st\<lparr>fs_a := Some w\<rparr>) })"

definition fuse_rfsv_rmdir :: "'w remote \<Rightarrow> string \<Rightarrow> 'w fuse \<Rightarrow> int \<times> 'w fuse" where
  "fuse_rfsv_rmdir rm name = on_remote (rm_rmdir rm name)"

definition fuse_rfsv_mkdir :: "'w remote \<Rightarrow> string \<Rightarrow> 'w fuse \<Rightarrow> int \<times> 'w fuse" where
  "fuse_rfsv_mkdir rm name = on_remote (rm_mkdir rm name)"

definition fuse_rfsv_remove :: "'w remote \<Rightarrow> string \<Rightarrow> 'w fuse \<Rightarrow> int \<times> 'w fuse" where
  "fuse_rfsv_remove rm name = on_remote (rm_remove rm name)"

definition fuse_rfsv_fclose :: "'w remote \<Rightarrow> 32 word \<Rightarrow> 'w fuse \<Rightarrow> int \<times> 'w fuse" where
  "fuse_rfsv_fclose rm handle = on_remote (rm_fclose rm handle)"

definition fuse_rfsv_fcreate :: "'w remote \<Rightarrow> 32 word \<Rightarrow> string \<Rightarrow> 'w fuse \<Rightarrow> int \<times> 32 word \<times> 'w fuse" where
  "fuse_rfsv_fcreate rm attr file st =
     (case fs_a st of
        None \<Rightarrow> (- ENODEV, rm_junk rm, st)
      | Some w \<Rightarrow> let (ret, ph, w) = rm_fcreatefile rm attr file (rm_junk rm) w
          in (epocerr_to_errno ret, ph, st\<lparr>fs_a := Some w\<rparr>))"

text \<open>A hundred attempts to open the file.\<close>

fun open_retry :: "'w remote \<Rightarrow> 32 word \<Rightarrow> string \<Rightarrow> nat \<Rightarrow> int \<Rightarrow> 32 word \<Rightarrow> 'w \<Rightarrow> int \<times> 32 word \<times> 'w" where
  "open_retry rm mode name 0 ret handle w = (ret, handle, w)"
| "open_retry rm mode name (Suc n) ret handle w =
     (let (ret, handle, w) = rm_fopen rm (rm_opMode rm mode) name handle w
      in if ret \<noteq> E_PSI_GEN_NONE then open_retry rm mode name n ret handle w else (ret, handle, w))"

definition PSI_O_RDWR :: "32 word" where "PSI_O_RDWR = 2"

definition fuse_rfsv_open :: "'w remote \<Rightarrow> string \<Rightarrow> bool \<Rightarrow> 'w fuse \<Rightarrow> int \<times> 32 word \<times> 'w fuse" where
  "fuse_rfsv_open rm name rdonly st =
     (case fs_a st of
        None \<Rightarrow> (- ENODEV, rm_junk rm, st)
      | Some w \<Rightarrow> let (ret, handle, w) = open_retry rm (if rdonly then PSI_O_RDONLY else PSI_O_RDWR) name 100
                        E_PSI_GEN_NONE (rm_junk rm) w
          in (epocerr_to_errno ret, handle, st\<lparr>fs_a := Some w\<rparr>))"

text \<open>
  Reading and writing: the file is opened and closed for each call. \<open>ret\<close> is unsigned, so that the
  -1 of a failure is a large number for \<open>epocerr_to_errno\<close>, and -1 again as an \<open>int\<close>.
\<close>

definition seek_to :: "'w remote \<Rightarrow> 32 word \<Rightarrow> int \<Rightarrow> 'w \<Rightarrow> bool \<times> 'w" where
  "seek_to rm handle offset w =
     (let (res, r_offset, w) = rm_fseek rm handle (word_of_int offset) PSI_SEEK_SET (rm_junk rm) w
      in (res = E_PSI_GEN_NONE \<and> offset = uint r_offset, w))"

definition fuse_rfsv_read :: "'w remote \<Rightarrow> int \<Rightarrow> int \<Rightarrow> string \<Rightarrow> 'w fuse \<Rightarrow> (int \<times> bytes \<times> 'w fuse) option" where
  "fuse_rfsv_read rm offset len name st =
     (let (ret, handle, st) = fuse_rfsv_open rm name True st
      in if ret \<noteq> 0 then Some (ret, [], st)
      else case fs_a st of None \<Rightarrow> Some (- ENODEV, [], st) | Some w \<Rightarrow>
        let (ok, w) = seek_to rm handle offset w in do {
          (ret, buf, w) \<leftarrow> (if \<not> ok then Some (- 1, [], w)
             else do {
               (res, buf, n, w) \<leftarrow> rm_fread rm handle (word_of_int len) w;
               Some (if res \<noteq> E_PSI_GEN_NONE then (- 1, buf, w) else (n, buf, w)) });
          let (_, st) = fuse_rfsv_fclose rm handle (st\<lparr>fs_a := Some w\<rparr>);
          Some (epocerr_to_errno (uint ret), buf, st) })"

definition fuse_rfsv_write :: "'w remote \<Rightarrow> bytes \<Rightarrow> int \<Rightarrow> int \<Rightarrow> string \<Rightarrow> 'w fuse \<Rightarrow> int \<times> 'w fuse" where
  "fuse_rfsv_write rm buf offset len name st =
     (let (ret, handle, st) = fuse_rfsv_open rm name False st
      in if ret \<noteq> 0 then (ret, st)
      else case fs_a st of None \<Rightarrow> (- ENODEV, st) | Some w \<Rightarrow>
        let (ok, w) = seek_to rm handle offset w;
            (ret, w) = (if \<not> ok then (- 1, w)
              else let (res, n, w) = rm_fwrite rm handle buf (word_of_int len) w
                in if res \<noteq> E_PSI_GEN_NONE then (- 1, w) else (n, w));
            (_, st) = fuse_rfsv_fclose rm handle (st\<lparr>fs_a := Some w\<rparr>)
        in (epocerr_to_errno (uint ret), st))"

definition fuse_rfsv_setmtime :: "'w remote \<Rightarrow> string \<Rightarrow> int \<Rightarrow> 'w fuse \<Rightarrow> int \<times> 'w fuse" where
  "fuse_rfsv_setmtime rm name t = on_remote (rm_fsetmtime rm name t)"

definition fuse_rfsv_setsize :: "'w remote \<Rightarrow> string \<Rightarrow> int \<Rightarrow> 'w fuse \<Rightarrow> int \<times> 'w fuse" where
  "fuse_rfsv_setsize rm name sz =
     on_remote (\<lambda>w. let (ret, ph, w) = rm_fopen rm (rm_opMode rm PSI_O_RDWR) name (rm_junk rm) w
       in if ret = 0 then let (ret, w) = rm_fsetsize rm ph (word_of_int sz) w; (_, w) = rm_fclose rm ph w in (ret, w)
          else (ret, w))"

definition fuse_rfsv_setattr :: "'w remote \<Rightarrow> string \<Rightarrow> 32 word \<Rightarrow> 32 word \<Rightarrow> 'w fuse \<Rightarrow> int \<times> 'w fuse" where
  "fuse_rfsv_setattr rm name sattr dattr = on_remote (rm_fsetattr rm name sattr dattr)"

definition fuse_rfsv_rename :: "'w remote \<Rightarrow> string \<Rightarrow> string \<Rightarrow> 'w fuse \<Rightarrow> int \<times> 'w fuse" where
  "fuse_rfsv_rename rm oldname newname = on_remote (rm_rename rm oldname newname)"

text \<open>The attributes, the size and the time of a file; without the object they stay uninitialised.\<close>

definition fuse_rfsv_getattr ::
  "'w remote \<Rightarrow> string \<Rightarrow> 'w fuse \<Rightarrow> int \<times> (32 word \<times> int \<times> int) option \<times> 'w fuse" where
  "fuse_rfsv_getattr rm name st =
     (case fs_a st of
        None \<Rightarrow> (- ENODEV, None, st)
      | Some w \<Rightarrow> let (res, e, w) = rm_fgeteattr rm name w
          in (epocerr_to_errno res, Some (de_attr e, uint (de_size e), utv_sec (de_time e)), st\<lparr>fs_a := Some w\<rparr>))"

fun drivelist_loop :: "'w remote \<Rightarrow> 32 word \<Rightarrow> nat list \<Rightarrow> device list \<Rightarrow> 'w \<Rightarrow> device list \<times> 'w" where
  "drivelist_loop rm devbits [] dlist w = (dlist, w)"
| "drivelist_loop rm devbits (i # is) dlist w =
     (let (dlist, w) =
        (if devbits AND 1 \<noteq> 0 then
           (let (res, d, w) = rm_devinfo rm (char_of (65 + i)) (rm_drive rm) w
            in if res = E_PSI_GEN_NONE
               then (\<lparr>dv_letter = char_of (65 + i), dv_name = d_name d, dv_total = d_size d,
                      dv_free = d_space d, dv_attrib = d_mediaType d\<rparr> # dlist, w)
               else (dlist, w))
         else (dlist, w))
      in drivelist_loop rm (drop_bit 1 devbits) is dlist w)"

definition fuse_rfsv_drivelist :: "'w remote \<Rightarrow> 'w fuse \<Rightarrow> (int \<times> device list \<times> 'w fuse) option" where
  "fuse_rfsv_drivelist rm st =
     (case fs_a st of
        None \<Rightarrow> Some (- ENODEV, [], st)
      | Some w \<Rightarrow> do {
          (ret, devbits, w) \<leftarrow> rm_devlist rm (rm_junk rm) w;
          let (dlist, w) = (if ret = 0 then drivelist_loop rm devbits [0..<26] [] w else ([], w));
          Some (epocerr_to_errno ret, dlist, st\<lparr>fs_a := Some w\<rparr>) })"

end
