(* ===== verification/PlpFuseOps.thy ===== *)
theory PlpFuseOps
  imports PlpFuse
begin

text \<open>
  The operations of \<open>plpfuse/fuse.c\<close>, over the functions \<open>rfsv_...\<close> of \<open>PlpFuse\<close>. A \<open>long\<close> that holds
  attributes is kept as the word of 32 bits that it comes from and goes to. Buffers that an operation fills are
  results; what is left in them otherwise is \<open>None\<close>, or an argument where the code goes on to read it.
\<close>

section \<open>Attributes\<close>

definition XATTR_NAME :: string where "XATTR_NAME = ''user.epoc''"
definition XATTR_MAXLEN :: nat where "XATTR_MAXLEN = 3"
definition BLOCKSIZE :: int where "BLOCKSIZE = 512"
definition FID :: int where "FID = 7"
definition S_IFDIR :: "32 word" where "S_IFDIR = 0x4000"
definition S_IFREG :: "32 word" where "S_IFREG = 0x8000"
definition S_IFMT :: "32 word" where "S_IFMT = 0xF000"
definition S_IRUSR :: "32 word" where "S_IRUSR = 0x100"
definition S_IWUSR :: "32 word" where "S_IWUSR = 0x80"
definition S_IRWXU :: "32 word" where "S_IRWXU = 0x1C0"

lemmas mode_defs = S_IFDIR_def S_IFREG_def S_IFMT_def S_IRUSR_def S_IWUSR_def S_IRWXU_def

record stat =
  st_mode :: "32 word"
  st_nlink :: int
  st_uid :: int
  st_gid :: int
  st_size :: int
  st_blocks :: int
  st_mtime :: int
  st_ctime :: int
  st_atime :: int

definition stat_zero :: stat where
  "stat_zero = \<lparr>st_mode = 0, st_nlink = 0, st_uid = 0, st_gid = 0, st_size = 0, st_blocks = 0,
     st_mtime = 0, st_ctime = 0, st_atime = 0\<rparr>"

text \<open>One flag of the extended attribute: the bits to set and those to clear.\<close>

definition xattr_flag ::
  "char \<Rightarrow> 32 word \<Rightarrow> string \<Rightarrow> string \<Rightarrow> 32 word \<times> 32 word \<Rightarrow> 32 word \<times> 32 word" where
  "xattr_flag c bit' oxattr nxattr sd =
     (let (psisattr, psidattr) = sd
      in if (c \<notin> set oxattr) \<noteq> (c \<notin> set nxattr)
         then (if c \<in> set nxattr then (psisattr OR bit', psidattr) else (psisattr, psidattr OR bit'))
         else (psisattr, psidattr))"

definition xattr2pattr :: "string \<Rightarrow> string \<Rightarrow> 32 word \<times> 32 word \<Rightarrow> 32 word \<times> 32 word" where
  "xattr2pattr oxattr nxattr sd =
     xattr_flag CHR ''s'' PSI_A_SYSTEM oxattr nxattr
       (xattr_flag CHR ''h'' PSI_A_HIDDEN oxattr nxattr
         (xattr_flag CHR ''a'' PSI_A_ARCHIVE oxattr nxattr sd))"

definition attr2pattr :: "32 word \<Rightarrow> 32 word \<Rightarrow> string \<Rightarrow> string \<Rightarrow> 32 word \<times> 32 word" where
  "attr2pattr oattr nattr oxattr nxattr =
     (let (psisattr, psidattr) = (0, 0);
          (psisattr, psidattr) =
            (if oattr AND S_IRUSR \<noteq> nattr AND S_IRUSR
             then (if nattr AND S_IRUSR \<noteq> 0 then (psisattr OR PSI_A_READ, psidattr)
                   else (psisattr, psidattr OR PSI_A_READ))
             else (psisattr, psidattr));
          (psisattr, psidattr) =
            (if oattr AND S_IWUSR \<noteq> nattr AND S_IWUSR
             then (if nattr AND S_IWUSR \<noteq> 0 then (psisattr, psidattr OR PSI_A_RDONLY)
                   else (psisattr OR PSI_A_RDONLY, psidattr))
             else (psisattr, psidattr))
      in xattr2pattr oxattr nxattr (psisattr, psidattr))"

definition pattr2xattr :: "32 word \<Rightarrow> string" where
  "pattr2xattr psiattr =
     (if psiattr AND PSI_A_HIDDEN \<noteq> 0 then ''h'' else []) @
     (if psiattr AND PSI_A_SYSTEM \<noteq> 0 then ''s'' else []) @
     (if psiattr AND PSI_A_ARCHIVE \<noteq> 0 then ''a'' else [])"

definition pattr2attr :: "'w fuse \<Rightarrow> 32 word \<Rightarrow> int \<Rightarrow> int \<Rightarrow> stat \<times> string" where
  "pattr2attr fs psiattr sz ftime =
     (let st = stat_zero\<lparr>st_uid := fs_uid fs, st_gid := fs_gid fs\<rparr>;
          st = (if psiattr AND PSI_A_DIR \<noteq> 0
                then st\<lparr>st_mode := S_IRWXU OR S_IFDIR, st_blocks := 1, st_size := BLOCKSIZE, st_nlink := 2\<rparr>
                else st\<lparr>st_blocks := (sz + BLOCKSIZE - 1) sdiv BLOCKSIZE, st_size := sz, st_nlink := 1,
                  st_mode := S_IFREG OR (if psiattr AND PSI_A_READ \<noteq> 0 then S_IRUSR else 0)
                    OR (if psiattr AND PSI_A_RDONLY = 0 then S_IWUSR else 0)\<rparr>)
      in (st\<lparr>st_mtime := ftime, st_ctime := ftime, st_atime := ftime\<rparr>, pattr2xattr psiattr))"

section \<open>Drives and directories\<close>

text \<open>\<open>query_devices\<close> is true when it fails.\<close>

definition query_devices :: "'w remote \<Rightarrow> 'w fuse \<Rightarrow> (bool \<times> 'w fuse) option" where
  "query_devices rm fs = do {
     (ret, devices, fs) \<leftarrow> fuse_rfsv_drivelist rm (fs\<lparr>fs_devices := []\<rparr>);
     Some (ret \<noteq> 0, fs\<lparr>fs_devices := devices\<rparr>) }"

definition plp_dirname :: "string \<Rightarrow> string" where
  "plp_dirname d = d @ [CHR 0x5C]"

definition plp_filname :: "string \<Rightarrow> string" where
  "plp_filname d = rev (takeWhile (\<lambda>c. c \<noteq> CHR 0x5C) (rev d))"

definition plp_dircount :: "'w remote \<Rightarrow> string \<Rightarrow> 'w fuse \<Rightarrow> (int \<times> nat \<times> 'w fuse) option" where
  "plp_dircount rm path fs = do {
     (ret, es, fs) \<leftarrow> fuse_rfsv_dir rm (plp_dirname path) fs;
     Some (if ret \<noteq> 0 then (ret, 0, fs)
       else (ret, length [e \<leftarrow> es. st_nlink (fst (pattr2attr fs (dn_attr e) (dn_size e) (dn_time e))) > 1], fs)) }"

definition getlinks :: "'w remote \<Rightarrow> string \<Rightarrow> stat \<Rightarrow> 'w fuse \<Rightarrow> (int \<times> stat \<times> 'w fuse) option" where
  "getlinks rm path st fs = do {
     (ret, dcount, fs) \<leftarrow> plp_dircount rm path fs;
     Some (ret, if ret = 0 then st\<lparr>st_nlink := int dcount + 2\<rparr> else st, fs) }"

text \<open>What a request for the drives that fails is answered.\<close>

definition no_devices :: "'w remote \<Rightarrow> 'w fuse \<Rightarrow> int \<times> 'w fuse" where
  "no_devices rm fs = (let (alive, fs) = rfsv_isalive rm fs in (if alive then - ENOENT else - ENOMEDIUM, fs))"

definition plp_getattr :: "'w remote \<Rightarrow> string \<Rightarrow> stat \<Rightarrow> 'w fuse \<Rightarrow> (int \<times> stat \<times> 'w fuse) option" where
  "plp_getattr rm path st fs =
     (let path = drop 1 path
      in if path = [] then do {
           let (st, _) = pattr2attr fs PSI_A_DIR 0 0;
           (failed, fs) \<leftarrow> query_devices rm fs;
           Some (if \<not> failed then (0, st\<lparr>st_nlink := st_nlink st + int (length (fs_devices fs))\<rparr>, fs)
             else let (ret, fs) = no_devices rm fs in (ret, st, fs)) }
         else if length path = 2 \<and> path ! 1 = CHR '':'' then do {
           (failed, fs) \<leftarrow> query_devices rm fs;
           if \<not> failed then getlinks rm path (fst (pattr2attr fs PSI_A_DIR 0 0)) fs
           else let (ret, fs) = no_devices rm fs in Some (ret, st, fs) }
         else (case fuse_rfsv_getattr rm path fs of
             (ret, Some (pattr, psize, ptime), fs) \<Rightarrow>
               if ret = 0 then
                 let st = fst (pattr2attr fs pattr psize ptime)
                 in if st_nlink st > 1 then getlinks rm path st fs else Some (ret, st, fs)
               else Some (ret, st, fs)
           | (ret, None, fs) \<Rightarrow> Some (ret, st, fs)))"

text \<open>The function \<open>filler\<close> of FUSE takes the entries until it tells that its buffer is full.\<close>

fun fill_devices ::
  "('b \<Rightarrow> string \<Rightarrow> stat \<Rightarrow> bool \<times> 'b) \<Rightarrow> 'w fuse \<Rightarrow> device list \<Rightarrow> 'b \<Rightarrow> 'b" where
  "fill_devices filler fs [] buf = buf"
| "fill_devices filler fs (d # ds) buf =
     (let (full, buf) = filler buf [dv_letter d, CHR '':''] (fst (pattr2attr fs (dv_attrib d) 1 0))
      in if full then buf else fill_devices filler fs ds buf)"

fun fill_entries ::
  "('b \<Rightarrow> string \<Rightarrow> stat \<Rightarrow> bool \<times> 'b) \<Rightarrow> 'w fuse \<Rightarrow> dentry list \<Rightarrow> 'b \<Rightarrow> 'b" where
  "fill_entries filler fs [] buf = buf"
| "fill_entries filler fs (e # es) buf =
     (let (full, buf) = filler buf (plp_filname (dn_name e))
        (fst (pattr2attr fs (dn_attr e) (dn_size e) (dn_time e)))
      in if full then buf else fill_entries filler fs es buf)"

definition plp_readdir ::
  "'w remote \<Rightarrow> ('b \<Rightarrow> string \<Rightarrow> stat \<Rightarrow> bool \<times> 'b) \<Rightarrow> string \<Rightarrow> 'b \<Rightarrow> 'w fuse \<Rightarrow> (int \<times> 'b \<times> 'w fuse) option" where
  "plp_readdir rm filler path buf fs =
     (let path = drop 1 path
      in if path = [] then do {
           (failed, fs) \<leftarrow> query_devices rm fs;
           Some (0, if \<not> failed then fill_devices filler fs (fs_devices fs) buf else buf, fs) }
         else do {
           (ret, es, fs) \<leftarrow> fuse_rfsv_dir rm (plp_dirname path) fs;
           Some (if ret \<noteq> 0 then (ret, buf, fs) else (0, fill_entries filler fs es buf, fs)) })"

section \<open>Files\<close>

definition plp_access :: "string \<Rightarrow> 32 word \<Rightarrow> int" where
  "plp_access path amode = 0"

definition plp_readlink :: "string \<Rightarrow> int" where
  "plp_readlink path = - EINVAL"

definition plp_mknod :: "'w remote \<Rightarrow> string \<Rightarrow> 32 word \<Rightarrow> int \<Rightarrow> 'w fuse \<Rightarrow> int \<times> 'w fuse" where
  "plp_mknod rm path mode dev fs =
     (if mode AND S_IFMT = S_IFREG \<and> dev = 0 then
        let (ret, phandle, fs) = fuse_rfsv_fcreate rm 0x200 (drop 1 path) fs
        in if ret = 0 then let (_, fs) = fuse_rfsv_fclose rm phandle fs in (ret, fs) else (ret, fs)
      else (- EINVAL, fs))"

definition plp_mkdir :: "'w remote \<Rightarrow> string \<Rightarrow> 32 word \<Rightarrow> 'w fuse \<Rightarrow> int \<times> 'w fuse" where
  "plp_mkdir rm path mode = fuse_rfsv_mkdir rm (drop 1 path)"

definition plp_unlink :: "'w remote \<Rightarrow> string \<Rightarrow> 'w fuse \<Rightarrow> int \<times> 'w fuse" where
  "plp_unlink rm path = fuse_rfsv_remove rm (drop 1 path)"

definition plp_rmdir :: "'w remote \<Rightarrow> string \<Rightarrow> 'w fuse \<Rightarrow> int \<times> 'w fuse" where
  "plp_rmdir rm path = fuse_rfsv_rmdir rm (drop 1 path)"

definition plp_symlink :: "string \<Rightarrow> string \<Rightarrow> int" where
  "plp_symlink from' to' = - EPERM"

definition plp_rename :: "'w remote \<Rightarrow> string \<Rightarrow> string \<Rightarrow> 'w fuse \<Rightarrow> int \<times> 'w fuse" where
  "plp_rename rm from' to' fs =
     (let (_, fs) = fuse_rfsv_remove rm (drop 1 to') fs
      in fuse_rfsv_rename rm (drop 1 from') (drop 1 to') fs)"

definition plp_link :: "string \<Rightarrow> string \<Rightarrow> int" where
  "plp_link from' to' = - EPERM"

definition plp_chmod :: "'w remote \<Rightarrow> string \<Rightarrow> 32 word \<Rightarrow> 'w fuse \<Rightarrow> int \<times> 'w fuse" where
  "plp_chmod rm path mode fs =
     (case fuse_rfsv_getattr rm (drop 1 path) fs of
        (ret, Some (pattr, psize, ptime), fs) \<Rightarrow>
          if ret = 0 then
            let (st, xattr) = pattr2attr fs pattr psize ptime;
                (psisattr, psidattr) = attr2pattr (st_mode st) mode [] []
            in fuse_rfsv_setattr rm (drop 1 path) psisattr psidattr fs
          else (ret, fs)
      | (ret, None, fs) \<Rightarrow> (ret, fs))"

text \<open>
  The result, and the bytes written to \<open>value\<close>, with the zero that ends them. The code writes them without
  a look at the size that is left.
\<close>

definition plp_getxattr ::
  "'w remote \<Rightarrow> string \<Rightarrow> string \<Rightarrow> nat \<Rightarrow> 'w fuse \<Rightarrow> int \<times> string option \<times> 'w fuse" where
  "plp_getxattr rm path name len fs =
     (if name = XATTR_NAME then
        (if XATTR_MAXLEN \<le> len then
           (case fuse_rfsv_getattr rm (drop 1 path) fs of
              (ret, Some (pattr, psize, ptime), fs) \<Rightarrow>
                if ret = 0 then (int (length (pattr2xattr pattr)), Some (pattr2xattr pattr @ [CHR 0x00]), fs)
                else (ret, None, fs)
            | (ret, None, fs) \<Rightarrow> (ret, None, fs))
         else (int XATTR_MAXLEN, None, fs))
      else (0, None, fs))"

definition c_str :: "string \<Rightarrow> string" where
  "c_str = takeWhile (\<lambda>c. c \<noteq> CHR 0x00)"

text \<open>
  \<open>junk\<close> is what \<open>oxattr\<close> holds when \<open>getxattr\<close> has failed; \<open>val'\<close> is the memory from
  \<open>value\<close> on, which the code reads up to the next zero. The copy \<open>nxattr\<close>, which ends after \<open>len\<close>
  bytes, is not used.
\<close>

definition XATTR_CREATE :: "32 word" where "XATTR_CREATE = 1"
definition XATTR_REPLACE :: "32 word" where "XATTR_REPLACE = 2"

definition plp_setxattr ::
  "'w remote \<Rightarrow> string \<Rightarrow> string \<Rightarrow> string \<Rightarrow> string \<Rightarrow> nat \<Rightarrow> 32 word \<Rightarrow> 'w fuse \<Rightarrow> int \<times> 'w fuse" where
  "plp_setxattr rm junk path name val' len flags fs =
     (if name = XATTR_NAME then
        (if flags AND XATTR_CREATE \<noteq> 0 then (- EEXIST, fs)
         else
           let (_, out, fs) = plp_getxattr rm path name XATTR_MAXLEN fs;
               oxattr = (case out of Some x \<Rightarrow> x | None \<Rightarrow> junk);
               (psisattr, psidattr) = xattr2pattr (c_str oxattr) (c_str val') (0, 0);
               (ret, fs) = fuse_rfsv_setattr rm (drop 1 path) psisattr psidattr fs
           in if ret \<noteq> 0 then (ret, fs) else (0, fs))
      else if flags AND XATTR_REPLACE \<noteq> 0 then (- ENODATA, fs) else (- ENOTSUP, fs))"

definition plp_listxattr :: "string \<Rightarrow> nat \<Rightarrow> int \<times> string option" where
  "plp_listxattr path len =
     (int (length XATTR_NAME + 1), if len > length XATTR_NAME + 1 then Some (XATTR_NAME @ [CHR 0x00]) else None)"

definition plp_removexattr :: "string \<Rightarrow> string \<Rightarrow> int" where
  "plp_removexattr path name = - ENOTSUP"

definition plp_chown :: "string \<Rightarrow> int \<Rightarrow> int \<Rightarrow> int" where
  "plp_chown path uid gid = - EPERM"

definition plp_truncate :: "'w remote \<Rightarrow> string \<Rightarrow> int \<Rightarrow> 'w fuse \<Rightarrow> int \<times> 'w fuse" where
  "plp_truncate rm path sz = fuse_rfsv_setsize rm (drop 1 path) sz"

text \<open>The times are those of access and of modification.\<close>

definition plp_utimens :: "'w remote \<Rightarrow> string \<Rightarrow> int \<times> int \<Rightarrow> 'w fuse \<Rightarrow> int \<times> 'w fuse" where
  "plp_utimens rm path ts = fuse_rfsv_setmtime rm (drop 1 path) (snd ts)"

definition plp_open :: "string \<Rightarrow> int" where
  "plp_open path = 0"

definition plp_read ::
  "'w remote \<Rightarrow> string \<Rightarrow> nat \<Rightarrow> int \<Rightarrow> 'w fuse \<Rightarrow> (int \<times> bytes \<times> 'w fuse) option" where
  "plp_read rm path len offset = fuse_rfsv_read rm offset (int len) (drop 1 path)"

definition plp_write ::
  "'w remote \<Rightarrow> string \<Rightarrow> bytes \<Rightarrow> int \<Rightarrow> 'w fuse \<Rightarrow> int \<times> 'w fuse" where
  "plp_write rm path buf offset = fuse_rfsv_write rm buf offset (int (length buf)) (drop 1 path)"

record statvfs =
  f_bsize :: int
  f_frsize :: int
  f_blocks :: "64 word"
  f_bfree :: "64 word"
  f_bavail :: "64 word"
  f_files :: int
  f_ffree :: int
  f_favail :: int
  f_fsid :: int
  f_flag :: int
  f_namemax :: int

text \<open>The \<open>long\<close> number of blocks of a drive.\<close>

definition blocks_of :: "64 word \<Rightarrow> 64 word" where
  "blocks_of n = word_of_int (sint (n + word_of_int (BLOCKSIZE - 1)) sdiv BLOCKSIZE)"

definition add_device :: "device \<Rightarrow> statvfs \<Rightarrow> statvfs" where
  "add_device d b = b\<lparr>f_blocks := f_blocks b + blocks_of (dv_total d), f_bfree := f_bfree b + blocks_of (dv_free d)\<rparr>"

definition plp_statfs :: "'w remote \<Rightarrow> statvfs \<Rightarrow> 'w fuse \<Rightarrow> (int \<times> statvfs \<times> 'w fuse) option" where
  "plp_statfs rm stbuf fs = do {
     let stbuf = stbuf\<lparr>f_bsize := BLOCKSIZE, f_frsize := BLOCKSIZE\<rparr>;
     (failed, fs) \<leftarrow> query_devices rm fs;
     let stbuf = (if \<not> failed then fold add_device (fs_devices fs) stbuf else stbuf);
     Some (0, stbuf\<lparr>f_bavail := f_bfree stbuf, f_files := 0, f_ffree := 0, f_favail := 0,
       f_fsid := FID, f_flag := 0, f_namemax := 255\<rparr>, fs) }"

end
