(* ===== verification/PlpFuse_Files.thy ===== *)
theory PlpFuse_Files
  imports PlpFuseOps Rfsv32_Files
begin

text \<open>
  Reading and writing through \<open>plpfuse\<close>: the contract \<open>remote_file\<close> of a file that the remote file
  access serves, what the operations of \<open>fuse.c\<close> do under it, and that \<open>RFSV32\<close> keeps it with a device that
  serves the file.
\<close>

section \<open>A served file\<close>

lemma epocerr_nonneg: "0 \<le> e \<Longrightarrow> epocerr_to_errno e = to_int e"
  by (simp add: epocerr_to_errno_def)

lemma epocerr_ok [simp]: "epocerr_to_errno E_PSI_GEN_NONE = 0"
  by (simp add: epocerr_nonneg E_PSI_GEN_NONE_def to_int_def)

lemma to_int_small: "0 \<le> n \<Longrightarrow> n < 2 ^ 31 \<Longrightarrow> to_int n = n"
  by (simp add: to_int_def signed_of_int signed_take_bit_int_eq_self)

lemma epocerr_count: "n < 2 ^ 31 \<Longrightarrow> epocerr_to_errno (uint (of_nat n :: 32 word)) = int n"
  by (simp add: epocerr_nonneg to_int_small uint_word_of_int_eq take_bit_int_eq_self unsigned_of_nat
      take_bit_nat_eq_self)

lemma open_retry_ok:
  assumes "rm_fopen rm (rm_opMode rm mode) name h0 w = (E_PSI_GEN_NONE, h, w')" and "0 < n"
  shows "open_retry rm mode name n r h0 w = (E_PSI_GEN_NONE, h, w')"
  using assms by (cases n) simp_all

locale remote_file =
  fixes rm :: "'w remote" and name :: string and I :: "'w \<Rightarrow> bool" and h :: "32 word"
    and cont :: "'w \<Rightarrow> bytes" and pos :: "'w \<Rightarrow> nat"
  assumes opens: "I w \<Longrightarrow> \<exists>w'. rm_fopen rm (rm_opMode rm m) name h0 w = (E_PSI_GEN_NONE, h, w') \<and> I w' \<and> cont w' = cont w"
    and seeks: "I w \<Longrightarrow> unat p \<le> length (cont w) \<Longrightarrow>
      \<exists>w'. rm_fseek rm h p PSI_SEEK_SET j w = (E_PSI_GEN_NONE, p, w') \<and> I w' \<and> cont w' = cont w \<and> pos w' = unat p"
    and gets: "I w \<Longrightarrow> \<exists>w'. rm_fread rm h n w =
        Some (E_PSI_GEN_NONE, take (unat n) (drop (pos w) (cont w)),
          of_nat (length (take (unat n) (drop (pos w) (cont w)))), w') \<and> I w' \<and> cont w' = cont w"
    and puts: "I w \<Longrightarrow> pos w \<le> length (cont w) \<Longrightarrow> length b < 2 ^ 31 \<Longrightarrow>
      \<exists>w'. rm_fwrite rm h b (of_nat (length b)) w = (E_PSI_GEN_NONE, of_nat (length b), w') \<and> I w' \<and>
        cont w' = take (pos w) (cont w) @ b @ drop (pos w + length b) (cont w)"
    and closes: "I w \<Longrightarrow> \<exists>e w'. rm_fclose rm h w = (e, w') \<and> I w' \<and> cont w' = cont w"
begin

lemma open_ok:
  assumes "I w" and "fs_a fs = Some w"
  obtains w' where "fuse_rfsv_open rm name rdonly fs = (0, h, fs\<lparr>fs_a := Some w'\<rparr>)" "I w'" "cont w' = cont w"
proof -
  obtain w' where w': "rm_fopen rm (rm_opMode rm (if rdonly then PSI_O_RDONLY else PSI_O_RDWR)) name (rm_junk rm) w =
      (E_PSI_GEN_NONE, h, w')" "I w'" "cont w' = cont w"
    using opens [OF assms(1)] by blast
  have "fuse_rfsv_open rm name rdonly fs = (0, h, fs\<lparr>fs_a := Some w'\<rparr>)"
    using assms(2) open_retry_ok [where n = 100, OF w'(1)]
    by (simp only: fuse_rfsv_open_def) simp
  then show thesis using that w'(2,3) by blast
qed

lemma seek_ok:
  assumes "I w" and "offset \<le> length (cont w)" and "offset < 2 ^ 32"
  obtains w' where "seek_to rm h (int offset) w = (True, w')" "I w'" "cont w' = cont w" "pos w' = offset"
proof -
  have p: "unat (of_nat offset :: 32 word) = offset"
    using assms(3) by (simp add: unat_of_nat take_bit_eq_mod)
  then have u: "uint (of_nat offset :: 32 word) = int offset" by (metis uint_nat)
  obtain w' where "rm_fseek rm h (of_nat offset) PSI_SEEK_SET (rm_junk rm) w = (E_PSI_GEN_NONE, of_nat offset, w')"
      "I w'" "cont w' = cont w" "pos w' = offset"
    using seeks [OF assms(1), of "of_nat offset"] assms(2) unfolding p by blast
  then show thesis using that u by (simp add: seek_to_def)
qed

lemma close_ok:
  assumes "I w" and "fs_a fs = Some w"
  obtains e w' where "fuse_rfsv_fclose rm h fs = (e, fs\<lparr>fs_a := Some w'\<rparr>)" "I w'" "cont w' = cont w"
  using closes [OF assms(1)] assms(2) that by (fastforce simp: fuse_rfsv_fclose_def on_remote_def)

lemma read_ok:
  assumes "I w" and "fs_a fs = Some w" and "offset \<le> length (cont w)" and "offset < 2 ^ 32" and "len < 2 ^ 31"
  obtains w' where "fuse_rfsv_read rm (int offset) (int len) name fs =
      Some (int (length (take len (drop offset (cont w)))), take len (drop offset (cont w)), fs\<lparr>fs_a := Some w'\<rparr>)"
    "I w'" "cont w' = cont w"
proof -
  let ?d = "take len (drop offset (cont w))"
  obtain w1 where w1: "fuse_rfsv_open rm name True fs = (0, h, fs\<lparr>fs_a := Some w1\<rparr>)" "I w1" "cont w1 = cont w"
    using open_ok [OF assms(1,2)] .
  obtain w2 where w2: "seek_to rm h (int offset) w1 = (True, w2)" "I w2" "cont w2 = cont w1" "pos w2 = offset"
    using seek_ok [OF w1(2)] assms(3,4) unfolding w1(3) by blast
  have n: "unat (of_nat len :: 32 word) = len"
    using assms(5) by (simp add: unat_of_nat take_bit_eq_mod)
  obtain w3 where w3: "rm_fread rm h (of_nat len) w2 = Some (E_PSI_GEN_NONE, ?d, of_nat (length ?d), w3)"
      "I w3" "cont w3 = cont w"
    using gets [OF w2(2), of "of_nat len"] unfolding n w2(3,4) w1(3) by blast
  obtain e w4 where w4: "fuse_rfsv_fclose rm h (fs\<lparr>fs_a := Some w3\<rparr>) = (e, fs\<lparr>fs_a := Some w4\<rparr>)" "I w4" "cont w4 = cont w3"
    using close_ok [OF w3(2), of "fs\<lparr>fs_a := Some w3\<rparr>"] by auto
  have "length ?d < 2 ^ 31" using assms(5) by simp
  from epocerr_count [OF this] have "fuse_rfsv_read rm (int offset) (int len) name fs =
      Some (int (length ?d), ?d, fs\<lparr>fs_a := Some w4\<rparr>)"
    unfolding fuse_rfsv_read_def w1(1) Let_def prod.case
    by (simp add: w2(1) w3(1) w4(1) del: length_take)
  then show thesis using that w4(2,3) w3(3) by simp
qed

lemma write_ok:
  assumes "I w" and "fs_a fs = Some w" and "offset \<le> length (cont w)" and "offset < 2 ^ 32" and "length b < 2 ^ 31"
  obtains w' where "fuse_rfsv_write rm b (int offset) (int (length b)) name fs =
      (int (length b), fs\<lparr>fs_a := Some w'\<rparr>)"
    "I w'" "cont w' = take offset (cont w) @ b @ drop (offset + length b) (cont w)"
proof -
  let ?c = "take offset (cont w) @ b @ drop (offset + length b) (cont w)"
  obtain w1 where w1: "fuse_rfsv_open rm name False fs = (0, h, fs\<lparr>fs_a := Some w1\<rparr>)" "I w1" "cont w1 = cont w"
    using open_ok [OF assms(1,2)] .
  obtain w2 where w2: "seek_to rm h (int offset) w1 = (True, w2)" "I w2" "cont w2 = cont w1" "pos w2 = offset"
    using seek_ok [OF w1(2)] assms(3,4) unfolding w1(3) by blast
  obtain w3 where w3: "rm_fwrite rm h b (of_nat (length b)) w2 = (E_PSI_GEN_NONE, of_nat (length b), w3)"
      "I w3" "cont w3 = ?c"
    using puts [OF w2(2) _ assms(5)] assms(3) unfolding w2(3,4) w1(3) by blast
  obtain e w4 where w4: "fuse_rfsv_fclose rm h (fs\<lparr>fs_a := Some w3\<rparr>) = (e, fs\<lparr>fs_a := Some w4\<rparr>)" "I w4" "cont w4 = cont w3"
    using close_ok [OF w3(2), of "fs\<lparr>fs_a := Some w3\<rparr>"] by auto
  have "fuse_rfsv_write rm b (int offset) (int (length b)) name fs = (int (length b), fs\<lparr>fs_a := Some w4\<rparr>)"
    unfolding fuse_rfsv_write_def w1(1) Let_def prod.case
    by (simp add: w2(1) w3(1) w4(1) epocerr_count [OF assms(5)])
  then show thesis using that w4(2,3) w3(3) by simp
qed

end

section \<open>A file of an EPOC device\<close>

text \<open>
  The device serves the file \<open>name\<close> with the handle \<open>h\<close>: its contents are \<open>cont\<close>, the position is
  \<open>pos\<close>. A read returns at most what was asked for, and nothing only at the end.
\<close>

definition file_server ::
  "(int \<Rightarrow> bytes \<Rightarrow> 'w \<Rightarrow> int \<times> bytes \<times> 'w) \<Rightarrow> string \<Rightarrow> 32 word \<Rightarrow> ('w \<Rightarrow> bytes) \<Rightarrow> ('w \<Rightarrow> nat) \<Rightarrow> bool" where
  "file_server answer name h cont pos \<longleftrightarrow>
     (\<forall>w. (\<forall>attr. \<exists>w'. answer OPEN_FILE (dword attr @ name_arg (convertSlash name)) w = (0, dword h, w') \<and>
              cont w' = cont w \<and> pos w' = 0) \<and>
          (\<forall>p. unat p \<le> length (cont w) \<longrightarrow>
              (\<exists>w'. answer SEEK_FILE (dword p @ dword h @ dword PSI_SEEK_SET) w = (0, dword p, w') \<and>
                cont w' = cont w \<and> pos w' = unat p)) \<and>
          (\<forall>n. \<exists>k w'. answer READ_FILE (dword h @ dword n) w = (0, take k (drop (pos w) (cont w)), w') \<and>
              cont w' = cont w \<and> pos w' = pos w + k \<and> k \<le> unat n \<and>
              (n \<noteq> 0 \<and> pos w < length (cont w) \<longrightarrow> 0 < k)) \<and>
          (\<forall>b. pos w \<le> length (cont w) \<longrightarrow>
              (\<exists>r w'. answer WRITE_FILE (dword h @ b) w = (0, r, w') \<and> pos w' = pos w + length b \<and>
                cont w' = take (pos w) (cont w) @ b @ drop (pos w + length b) (cont w))) \<and>
          (\<exists>e r w'. answer CLOSE_HANDLE (dword h) w = (e, r, w') \<and> status32 e \<and> cont w' = cont w))"

lemma file_server_rules:
  assumes "file_server answer name h cont pos"
  shows "\<exists>w'. answer OPEN_FILE (dword attr @ name_arg (convertSlash name)) w = (0, dword h, w') \<and>
      cont w' = cont w \<and> pos w' = 0"
    and "unat p \<le> length (cont w) \<Longrightarrow>
      \<exists>w'. answer SEEK_FILE (dword p @ dword h @ dword PSI_SEEK_SET) w = (0, dword p, w') \<and>
        cont w' = cont w \<and> pos w' = unat p"
    and "\<exists>k w'. answer READ_FILE (dword h @ dword n) w = (0, take k (drop (pos w) (cont w)), w') \<and>
      cont w' = cont w \<and> pos w' = pos w + k \<and> k \<le> unat n \<and> (n \<noteq> 0 \<and> pos w < length (cont w) \<longrightarrow> 0 < k)"
    and "pos w \<le> length (cont w) \<Longrightarrow>
      \<exists>r w'. answer WRITE_FILE (dword h @ b) w = (0, r, w') \<and> pos w' = pos w + length b \<and>
        cont w' = take (pos w) (cont w) @ b @ drop (pos w + length b) (cont w)"
    and "\<exists>e r w'. answer CLOSE_HANDLE (dword h) w = (e, r, w') \<and> status32 e \<and> cont w' = cont w"
  using assms unfolding file_server_def by simp_all

lemma served_open:
  assumes "serves so answer" and "file_server answer name h cont pos" and "live s"
  shows "\<exists>s'. fopen so attr name h0 s = (E_PSI_GEN_NONE, h, s') \<and> live s' \<and>
    cont (r_world s') = cont (r_world s) \<and> pos (r_world s') = 0"
proof -
  obtain w1 where "answer OPEN_FILE (dword attr @ name_arg (convertSlash name)) (r_world s) = (0, dword h, w1)"
      "cont w1 = cont (r_world s)" "pos w1 = 0"
    using file_server_rules(1) [OF assms(2)] by blast
  then show ?thesis using fopen_answered [OF assms(1,3)] by metis
qed

lemma served_seek:
  assumes "serves so answer" and "file_server answer name h cont pos" and "live s"
    and "unat p \<le> length (cont (r_world s))"
  shows "\<exists>s'. fseek so h p PSI_SEEK_SET j s = (E_PSI_GEN_NONE, p, s') \<and> live s' \<and>
    cont (r_world s') = cont (r_world s) \<and> pos (r_world s') = unat p"
proof -
  obtain w1 where w1: "answer SEEK_FILE (dword p @ dword h @ dword PSI_SEEK_SET) (r_world s) = (0, dword p, w1)"
      "cont w1 = cont (r_world s)" "pos w1 = unat p"
    using file_server_rules(2) [OF assms(2,4)] by blast
  obtain s1 where "request so SEEK_FILE (dword p @ dword h @ dword PSI_SEEK_SET) s =
      (E_PSI_GEN_NONE, dword p, s1)" "live s1" "r_world s1 = w1"
    using request_ok [OF assms(1,3) _ w1(1)] by (auto simp: SEEK_FILE_def)
  then show ?thesis
    using w1(2,3) by (auto simp: fseek_def fseek_real_def PSI_SEEK_SET_def PSI_SEEK_CUR_def PSI_SEEK_END_def)
qed

lemma served_close:
  assumes "serves so answer" and "file_server answer name h cont pos" and "live s"
  shows "\<exists>e s'. fclose so h s = (e, s') \<and> live s' \<and> cont (r_world s') = cont (r_world s)"
proof -
  obtain e r w' where e: "answer CLOSE_HANDLE (dword h) (r_world s) = (e, r, w')" "status32 e" "cont w' = cont (r_world s)"
    using file_server_rules(5) [OF assms(2)] by blast
  obtain n where "request so CLOSE_HANDLE (dword h) s =
      (err2psierr e, r, s\<lparr>r_operationId := n, r_world := w'\<rparr>)"
    using request_answered [OF assms(1,3) _ e(1,2)] by (auto simp: CLOSE_HANDLE_def)
  then show ?thesis using assms(3) e(3) by (simp add: fclose_def live_def)
qed

lemma served_read:
  assumes "serves so answer" and "file_server answer name h cont pos" and "live s"
  shows "\<exists>s'. fread so h n s =
      Some (E_PSI_GEN_NONE, take (unat n) (drop (pos (r_world s)) (cont (r_world s))),
        of_nat (length (take (unat n) (drop (pos (r_world s)) (cont (r_world s))))), s') \<and>
    live s' \<and> cont (r_world s') = cont (r_world s)"
proof -
  let ?I = "\<lambda>t. live t \<and> cont (r_world t) = cont (r_world s)"
  let ?rest = "\<lambda>t. drop (pos (r_world t)) (cont (r_world t))"
  have "reads_blocks ?I ?rest (of_nat RFSV_SENDLEN) E_PSI_GEN_NONE (\<lambda>n. request so READ_FILE (dword h @ dword n))"
    unfolding reads_blocks_def
  proof (intro allI impI, elim conjE)
    fix n and t :: "'a rfsv"
    assume t: "live t" "cont (r_world t) = cont (r_world s)"
    obtain k w' where k: "answer READ_FILE (dword h @ dword n) (r_world t) = (0, take k (?rest t), w')"
        "cont w' = cont (r_world t)" "pos w' = pos (r_world t) + k" "k \<le> unat n"
        "n \<noteq> 0 \<and> pos (r_world t) < length (cont (r_world t)) \<longrightarrow> 0 < k"
      using file_server_rules(3) [OF assms(2)] by blast
    obtain t1 where "request so READ_FILE (dword h @ dword n) t = (E_PSI_GEN_NONE, take k (?rest t), t1)"
        "live t1" "r_world t1 = w'"
      using request_ok [OF assms(1) t(1) _ k(1)] by (auto simp: READ_FILE_def)
    then show "\<exists>k t'. request so READ_FILE (dword h @ dword n) t =
        (if n \<noteq> 0 \<and> ?rest t = [] then E_PSI_GEN_NONE else E_PSI_GEN_NONE, take k (?rest t), t') \<and>
        ?I t' \<and> k \<le> unat n \<and> ?rest t' = drop k (?rest t) \<and> (n \<noteq> 0 \<and> ?rest t \<noteq> [] \<longrightarrow> 0 < k)"
      using k(2-5) t(2) by (intro exI [of _ k] exI [of _ t1]) (simp add: add.commute)
  qed
  from fread_loop_reads [OF this sendlen(2), of s 0 n "unat n" "[]"] assms(3)
  obtain res s' where s': "fread so h n s =
      Some (res, [] @ take (unat n) (?rest s), 0 + of_nat (length (take (unat n) (?rest s))), s')"
      "?I s'" "res = E_PSI_GEN_NONE \<or> res = E_PSI_GEN_NONE"
    unfolding fread_def by (simp only: word_zero_le diff_zero) blast
  then show ?thesis by (simp only: append_Nil add_0 disj_absorb) blast
qed

text \<open>Writing keeps what is before the first position and what is behind the end of the block.\<close>

lemma served_write:
  assumes "serves so answer" and "file_server answer name h cont pos" and "live s"
    and "pos (r_world s) \<le> length (cont (r_world s))" and "length b < 2 ^ 31"
  shows "\<exists>s'. fwrite so h b (of_nat (length b)) s = (E_PSI_GEN_NONE, of_nat (length b), s') \<and> live s' \<and>
    cont (r_world s') = take (pos (r_world s)) (cont (r_world s)) @ b @
      drop (pos (r_world s) + length b) (cont (r_world s))"
proof -
  let ?c = "cont (r_world s)" and ?p = "pos (r_world s)"
  let ?pos = "\<lambda>t. pos (r_world t)" and ?cont = "\<lambda>t. cont (r_world t)"
  let ?I = "\<lambda>t. live t \<and> ?pos t \<le> length (?cont t) \<and> drop (?pos t) (?cont t) = drop (?pos t) ?c"
  let ?file = "\<lambda>t. take (?pos t) (?cont t)"
  have "writes_blocks ?I ?file (of_nat RFSV_SENDLEN) (\<lambda>b. request so WRITE_FILE (dword h @ b))"
    unfolding writes_blocks_def
  proof (intro allI impI, elim conjE)
    fix b and t :: "'a rfsv"
    assume t: "live t" "?pos t \<le> length (?cont t)" "drop (?pos t) (?cont t) = drop (?pos t) ?c"
    obtain r w' where w': "answer WRITE_FILE (dword h @ b) (r_world t) = (0, r, w')" "pos w' = ?pos t + length b"
        "cont w' = ?file t @ b @ drop (?pos t + length b) (?cont t)"
      using file_server_rules(4) [OF assms(2) t(2)] by blast
    obtain t1 where t1: "request so WRITE_FILE (dword h @ b) t = (E_PSI_GEN_NONE, r, t1)" "live t1" "r_world t1 = w'"
      using request_ok [OF assms(1) t(1) _ w'(1)] by (auto simp: WRITE_FILE_def)
    have "drop (length b + ?pos t) (?cont t) = drop (length b + ?pos t) ?c"
      using arg_cong [OF t(3), of "drop (length b)"] by simp
    then have "?I t1" "?file t1 = ?file t @ b"
      using t(2) t1(2,3) w'(2,3) by (simp_all add: add.commute)
    then show "\<exists>r t'. request so WRITE_FILE (dword h @ b) t = (E_PSI_GEN_NONE, r, t') \<and> ?I t' \<and> ?file t' = ?file t @ b"
      using t1(1) by blast
  qed
  moreover have "?I s" using assms(3,4) by simp
  moreover have "unat (of_nat (length b) :: 32 word) = length b"
    using assms(5) by (simp add: unat_of_nat take_bit_eq_mod)
  ultimately obtain s' where s': "fwrite so h b (of_nat (length b)) s = (E_PSI_GEN_NONE, of_nat (length b), s')"
      "live s'" "?pos s' \<le> length (?cont s')" "drop (?pos s') (?cont s') = drop (?pos s') ?c"
      "?file s' = take ?p ?c @ b"
    using fwrite_loop_writes [OF _ sendlen(2), of ?I ?file "\<lambda>b. request so WRITE_FILE (dword h @ b)" s 0
        "of_nat (length b)" "length b" b]
    unfolding fwrite_def by (auto simp del: append_take_drop_id)
  have "?pos s' = ?p + length b"
    using s'(3) arg_cong [OF s'(5), of length] assms(4) by simp
  then have "?cont s' = take ?p ?c @ b @ drop (?p + length b) ?c"
    using append_take_drop_id [of "?pos s'" "?cont s'"] s'(4,5) by (metis append_assoc)
  then show ?thesis using s'(1,2) by blast
qed

lemma rfsv32_remote_file:
  assumes "serves so answer" and "file_server answer name h cont pos"
  shows "remote_file (rfsv32_remote so raw junk) name live h (\<lambda>s. cont (r_world s)) (\<lambda>s. pos (r_world s))"
proof
  show "\<exists>s'. rm_fopen (rfsv32_remote so raw junk) (rm_opMode (rfsv32_remote so raw junk) m) name h0 s =
      (E_PSI_GEN_NONE, h, s') \<and> live s' \<and> cont (r_world s') = cont (r_world s)" if "live s" for s m h0
    using served_open [OF assms that, of "opMode m" h0] by (auto simp: rfsv32_remote_def)
  show "\<exists>s'. rm_fseek (rfsv32_remote so raw junk) h p PSI_SEEK_SET j s = (E_PSI_GEN_NONE, p, s') \<and> live s' \<and>
      cont (r_world s') = cont (r_world s) \<and> pos (r_world s') = unat p"
    if "live s" "unat p \<le> length (cont (r_world s))" for s p j
    using served_seek [OF assms that] by (simp add: rfsv32_remote_def)
  show "\<exists>s'. rm_fread (rfsv32_remote so raw junk) h n s =
      Some (E_PSI_GEN_NONE, take (unat n) (drop (pos (r_world s)) (cont (r_world s))),
        of_nat (length (take (unat n) (drop (pos (r_world s)) (cont (r_world s))))), s') \<and>
      live s' \<and> cont (r_world s') = cont (r_world s)" if "live s" for s n
    using served_read [OF assms that] by (simp add: rfsv32_remote_def)
  show "\<exists>s'. rm_fwrite (rfsv32_remote so raw junk) h b (of_nat (length b)) s =
      (E_PSI_GEN_NONE, of_nat (length b), s') \<and> live s' \<and>
      cont (r_world s') = take (pos (r_world s)) (cont (r_world s)) @ b @
        drop (pos (r_world s) + length b) (cont (r_world s))"
    if "live s" "pos (r_world s) \<le> length (cont (r_world s))" "length b < 2 ^ 31" for s b
    using served_write [OF assms that] by (simp add: rfsv32_remote_def)
  show "\<exists>e s'. rm_fclose (rfsv32_remote so raw junk) h s = (e, s') \<and> live s' \<and>
      cont (r_world s') = cont (r_world s)" if "live s" for s
    using served_close [OF assms that] by (simp add: rfsv32_remote_def)
qed

text \<open>
  C33: writing through the mounted file system and reading back. A block that is written at any position of
  the file, to its end at most, is taken as a whole and replaces what was there; every later read gives the bytes of
  the new contents from its position on, as many as there are.
\<close>

theorem fuse_write_read:
  assumes "serves so answer" and "file_server answer (drop 1 path) h cont pos"
    and "fs_a fs = Some s" and "live s"
    and "offset \<le> length (cont (r_world s))" and "offset < 2 ^ 32" and "length buf < 2 ^ 31"
  shows "\<exists>fs' s'. plp_write (rfsv32_remote so raw junk) path buf (int offset) fs = (int (length buf), fs') \<and>
    fs_a fs' = Some s' \<and>
    cont (r_world s') = take offset (cont (r_world s)) @ buf @ drop (offset + length buf) (cont (r_world s)) \<and>
    (\<forall>from' len. from' \<le> length (cont (r_world s')) \<and> from' < 2 ^ 32 \<and> len < 2 ^ 31 \<longrightarrow>
       (\<exists>fs''. plp_read (rfsv32_remote so raw junk) path len (int from') fs' =
          Some (int (length (take len (drop from' (cont (r_world s'))))),
            take len (drop from' (cont (r_world s'))), fs'')))"
proof -
  let ?rm = "rfsv32_remote so raw junk"
  note served = rfsv32_remote_file [OF assms(1,2), of raw junk]
  obtain s' where s': "fuse_rfsv_write ?rm buf (int offset) (int (length buf)) (drop 1 path) fs =
      (int (length buf), fs\<lparr>fs_a := Some s'\<rparr>)" "live s'"
      "cont (r_world s') = take offset (cont (r_world s)) @ buf @ drop (offset + length buf) (cont (r_world s))"
    using remote_file.write_ok [OF served assms(4,3) assms(5-7)] by blast
  have "\<exists>fs''. plp_read ?rm path len (int from') (fs\<lparr>fs_a := Some s'\<rparr>) =
      Some (int (length (take len (drop from' (cont (r_world s'))))), take len (drop from' (cont (r_world s'))), fs'')"
    if "from' \<le> length (cont (r_world s'))" "from' < 2 ^ 32" "len < 2 ^ 31" for from' len
    using remote_file.read_ok [OF served s'(2), of "fs\<lparr>fs_a := Some s'\<rparr>" from' len] that
    unfolding plp_read_def by auto
  then show ?thesis
    using s'(1,3) unfolding plp_write_def by (intro exI [of _ "fs\<lparr>fs_a := Some s'\<rparr>"] exI [of _ s']) simp
qed

text \<open>A device with one file, handle 7, that reads three bytes at a time: its contents and the position.\<close>

definition store_answer :: "int \<Rightarrow> bytes \<Rightarrow> bytes \<times> nat \<Rightarrow> int \<times> bytes \<times> (bytes \<times> nat)" where
  "store_answer cc data d =
     (let w = join32 (data ! 0) (data ! 1) (data ! 2) (data ! 3)
      in if cc = OPEN_FILE then (0, dword 7, (fst d, 0))
      else if cc = SEEK_FILE then (0, dword w, (fst d, unat w))
      else if cc = READ_FILE then
        (let k = min 3 (unat (join32 (data ! 4) (data ! 5) (data ! 6) (data ! 7)))
         in (0, take k (drop (snd d) (fst d)), (fst d, snd d + k)))
      else if cc = WRITE_FILE then
        (let b = drop 4 data
         in (0, [], (take (snd d) (fst d) @ b @ drop (snd d + length b) (fst d), snd d + length b)))
      else (0, [], d))"

lemma join32_first_dword:
  "join32 ((dword p @ b) ! 0) ((dword p @ b) ! 1) ((dword p @ b) ! 2) ((dword p @ b) ! 3) = p"
  using join32_split [of "uint p"] by (simp add: nth_append, simp add: dword_def le32_def)

lemma store_answer_serves:
  "file_server (device_answer store_answer) name 7 (\<lambda>w. fst (fst w)) (\<lambda>w. snd (fst w))"
proof -
  have "\<exists>w'. device_answer store_answer SEEK_FILE (dword p @ dword 7 @ dword PSI_SEEK_SET) w = (0, dword p, w') \<and>
      fst (fst w') = fst (fst w) \<and> snd (fst w') = unat p" for p and w :: "(bytes \<times> nat) \<times> bytes"
    unfolding device_answer_def store_answer_def join32_first_dword
    by (simp add: command_defs)
  moreover have "\<exists>k w'. device_answer store_answer READ_FILE (dword 7 @ dword n) w =
        (0, take k (drop (snd (fst w)) (fst (fst w))), w') \<and>
      fst (fst w') = fst (fst w) \<and> snd (fst w') = snd (fst w) + k \<and> k \<le> unat n \<and>
      (n \<noteq> 0 \<and> snd (fst w) < length (fst (fst w)) \<longrightarrow> 0 < k)" for n and w :: "(bytes \<times> nat) \<times> bytes"
    unfolding device_answer_def store_answer_def join32_second_dword
    by (intro exI [of _ "min 3 (unat n)"]) (simp add: command_defs unat_gt_0 Let_def)
  ultimately show ?thesis
    unfolding file_server_def
    by (simp add: device_answer_def store_answer_def command_defs status32_def E_EPOC_DIR_FULL_def E_EPOC_NONE_def)
qed

interpretation store: remote_file "rfsv32_remote (device_socket env_sample store_answer) raw junk" "''C:/note''" live 7
    "\<lambda>s. fst (fst (r_world s))" "\<lambda>s. snd (fst (r_world s))"
  for raw junk
  by (rule rfsv32_remote_file [OF device_socket_serves store_answer_serves])

definition drive_zero :: drive where
  "drive_zero = \<lparr>d_mediaType = 0, d_driveAttributes = 0, d_mediaAttributes = 0, d_uid = 0, d_size = 0, d_space = 0,
     d_driveLetter = CHR ''A'', d_name = []\<rparr>"

definition mounted :: "'d \<Rightarrow> ('d \<times> bytes) rfsv fuse" where
  "mounted d = \<lparr>fs_a = Some (device_session d), fs_create = [], fs_devices = [], fs_uid = 1000, fs_gid = 1000\<rparr>"

theorem fuse_write_read_witness:
  "\<exists>fs' fs'' s'. plp_write (rfsv32_remote (device_socket env_sample store_answer) (time_sample 0) drive_zero) ''/C:/note''
      (ascii ''new'') 2 (mounted (ascii ''an old note'', 0)) = (3, fs') \<and>
    fs_a fs' = Some s' \<and> fst (fst (r_world s')) = ascii ''annewd note'' \<and>
    plp_read (rfsv32_remote (device_socket env_sample store_answer) (time_sample 0) drive_zero) ''/C:/note'' 100 3 fs' =
      Some (8, ascii ''ewd note'', fs'')"
proof -
  let ?fs = "mounted (ascii ''an old note'', 0)" and ?s = "device_session (ascii ''an old note'', 0 :: nat)"
  let ?rm = "rfsv32_remote (device_socket env_sample store_answer) (time_sample 0) drive_zero"
  have fs: "fs_a ?fs = Some ?s" by (simp add: mounted_def)
  have size: "2 \<le> length (fst (fst (r_world ?s)))" "(2 :: nat) < 2 ^ 32" "length (ascii ''new'') < 2 ^ 31"
    by (simp_all add: ascii_def)
  obtain fs' s' where *: "plp_write ?rm ''/C:/note'' (ascii ''new'') (int 2) ?fs = (int (length (ascii ''new'')), fs')"
    "fs_a fs' = Some s'"
    "fst (fst (r_world s')) = take 2 (fst (fst (r_world ?s))) @ ascii ''new'' @
       drop (2 + length (ascii ''new'')) (fst (fst (r_world ?s)))"
    "\<forall>from' len. from' \<le> length (fst (fst (r_world s'))) \<and> from' < 2 ^ 32 \<and> len < 2 ^ 31 \<longrightarrow>
       (\<exists>fs''. plp_read ?rm ''/C:/note'' len (int from') fs' =
          Some (int (length (take len (drop from' (fst (fst (r_world s')))))),
            take len (drop from' (fst (fst (r_world s')))), fs''))"
    using fuse_write_read [OF device_socket_serves [of env_sample store_answer] store_answer_serves fs
        device_session_simps(1) size, where path = "''/C:/note''" and raw = "time_sample 0" and junk = drive_zero]
    by (elim exE conjE)
  have new: "fst (fst (r_world s')) = ascii ''annewd note''" using *(3) by (simp add: ascii_def)
  obtain fs'' where "plp_read ?rm ''/C:/note'' 100 (int 3) fs' =
      Some (int (length (take 100 (drop 3 (ascii ''annewd note'')))), take 100 (drop 3 (ascii ''annewd note'')), fs'')"
    using *(4) [THEN spec, THEN spec, of 3 100] unfolding new by (auto simp: ascii_def)
  then show ?thesis
    using *(1,2) new by (intro exI [of _ fs'] exI [of _ fs''] exI [of _ s']) (simp add: ascii_def)
qed

section \<open>Reading behind the end\<close>

lemma request_refused:
  assumes "serves so answer" and "live s" and "0 \<le> cc \<and> cc < 0x10000"
    and "answer cc data (r_world s) = (e, reply, w')" and "status32 e"
  obtains s' where "request so cc data s = (err2psierr e, reply, s')" "live s'" "r_world s' = w'"
  using request_answered [OF assms] assms(2) that by (auto simp: live_def)

lemma opMode_rdonly: "opMode PSI_O_RDONLY = EPOC_OMODE_SHARE_READERS"
  by (simp add: opMode_def PSI_O_RDONLY_def PSI_O_EXCL_def PSI_O_SHARE_def EPOC_OMODE_SHARE_READERS_def)

text \<open>
  C36: reading behind the end of a file. To reach the position, the file is asked to grow to it; a device that
  refuses, as the file is open for reading only, makes \<open>read\<close> fail with \<open>EPERM\<close> where the end of the
  file should be told by a count of zero.
\<close>

theorem fuse_read_behind_end:
  assumes "serves so answer" and "fs_a fs = Some s" and "live s"
    and "answer OPEN_FILE (dword EPOC_OMODE_SHARE_READERS @ name_arg (convertSlash (drop 1 path))) (r_world s) =
      (0, dword h, w1)"
    and "answer SEEK_FILE (dword (of_nat offset) @ dword h @ dword PSI_SEEK_SET) w1 = (0, dword sz, w2)"
    and "sz < of_nat offset"
    and "answer SET_SIZE (dword h @ dword (of_nat offset)) w2 = (e, r, w3)"
    and "status32 e" and "err2psierr e \<noteq> E_PSI_GEN_NONE"
    and "answer CLOSE_HANDLE (dword h) w3 = (c, r', w4)" and "status32 c"
  shows "\<exists>s'. plp_read (rfsv32_remote so raw junk) path len (int offset) fs =
    Some (- EPERM, [], fs\<lparr>fs_a := Some s'\<rparr>) \<and> r_world s' = w4"
proof -
  let ?rm = "rfsv32_remote so raw junk" and ?p = "of_nat offset :: 32 word"
  obtain s1 where s1: "fopen so EPOC_OMODE_SHARE_READERS (drop 1 path) (so_junk so) s = (E_PSI_GEN_NONE, h, s1)"
      "live s1" "r_world s1 = w1"
    using fopen_answered [OF assms(1,3,4)] by blast
  obtain s2 where s2: "request so SEEK_FILE (dword ?p @ dword h @ dword PSI_SEEK_SET) s1 = (E_PSI_GEN_NONE, dword sz, s2)"
      "live s2" "r_world s2 = w2"
    using request_ok [OF assms(1) s1(2), of SEEK_FILE "dword ?p @ dword h @ dword PSI_SEEK_SET"] assms(5) s1(3)
    by (auto simp: SEEK_FILE_def)
  obtain s3 where s3: "request so SET_SIZE (dword h @ dword ?p) s2 = (err2psierr e, r, s3)" "live s3" "r_world s3 = w3"
    using request_refused [OF assms(1) s2(2), of SET_SIZE "dword h @ dword ?p"] assms(7,8) s2(3)
    by (auto simp: SET_SIZE_def)
  obtain s4 where s4: "request so CLOSE_HANDLE (dword h) s3 = (err2psierr c, r', s4)" "r_world s4 = w4"
    using request_refused [OF assms(1) s3(2), of CLOSE_HANDLE "dword h"] assms(10,11) s3(3)
    by (auto simp: CLOSE_HANDLE_def)
  have open1: "open_retry ?rm PSI_O_RDONLY (drop 1 path) 100 E_PSI_GEN_NONE (so_junk so) s = (E_PSI_GEN_NONE, h, s1)"
    by (rule open_retry_ok) (use s1(1) in \<open>simp_all add: rfsv32_remote_def opMode_rdonly\<close>)
  have opened: "fuse_rfsv_open ?rm (drop 1 path) True fs = (0, h, fs\<lparr>fs_a := Some s1\<rparr>)"
    using open1 assms(2) unfolding fuse_rfsv_open_def by (simp add: rfsv32_remote_def)
  have "fseek so h ?p PSI_SEEK_SET (so_junk so) s1 = (err2psierr e, so_junk so, s3)"
    using assms(6,9) s2(1) s3(1)
    by (simp add: fseek_def fseek_real_def PSI_SEEK_SET_def PSI_SEEK_CUR_def PSI_SEEK_END_def)
  then have seek: "seek_to ?rm h (int offset) s1 = (False, s3)"
    using assms(9) by (simp add: seek_to_def rfsv32_remote_def)
  have close: "fuse_rfsv_fclose ?rm h (f\<lparr>fs_a := Some s3\<rparr>) = (epocerr_to_errno (err2psierr c), f\<lparr>fs_a := Some s4\<rparr>)" for f
    using s4(1) by (simp add: fuse_rfsv_fclose_def on_remote_def rfsv32_remote_def fclose_def)
  have "to_int (uint (- 1 :: 32 word)) = - EPERM" by (simp add: to_int_def EPERM_def)
  then show ?thesis
    unfolding plp_read_def fuse_rfsv_read_def opened
    using seek close [of fs] s4(2) by (intro exI [of _ s4]) (simp add: epocerr_nonneg)
qed

text \<open>A device with a file of \<open>d\<close> bytes that does not let it grow: it tells the end for every position.\<close>

definition readonly_answer :: "int \<Rightarrow> bytes \<Rightarrow> 32 word \<Rightarrow> int \<times> bytes \<times> 32 word" where
  "readonly_answer cc data d =
     (if cc = OPEN_FILE then (0, dword 7, d)
      else if cc = SEEK_FILE then (0, dword d, d)
      else if cc = SET_SIZE then (- 21, [], d)
      else (0, [], d))"

theorem fuse_read_behind_end_witness:
  "\<exists>s'. plp_read (rfsv32_remote (device_socket env_sample readonly_answer) (time_sample 0) drive_zero) ''/C:/note'' 4096 (int 100)
      (mounted 40) = Some (- EPERM, [], (mounted 40)\<lparr>fs_a := Some s'\<rparr>) \<and> r_world s' = (40, [])"
proof (rule fuse_read_behind_end [OF device_socket_serves])
  let ?a = "device_answer readonly_answer"
  show "fs_a (mounted (40 :: 32 word)) = Some (device_session 40)" by (simp add: mounted_def)
  show "?a OPEN_FILE (dword EPOC_OMODE_SHARE_READERS @ name_arg (convertSlash (drop 1 ''/C:/note'')))
      (r_world (device_session 40)) = (0, dword 7, (40, []))"
    by (simp add: device_answer_def readonly_answer_def)
  show "?a SEEK_FILE (dword (of_nat 100) @ dword 7 @ dword PSI_SEEK_SET) (40, []) = (0, dword 40, (40, []))"
    by (simp add: device_answer_def readonly_answer_def command_defs)
  show "?a SET_SIZE (dword 7 @ dword (of_nat 100)) (40, []) = (- 21, [], (40, []))"
    by (simp add: device_answer_def readonly_answer_def command_defs)
  show "?a CLOSE_HANDLE (dword 7) (40, []) = (0, [], (40, []))"
    by (simp add: device_answer_def readonly_answer_def command_defs)
  show "(40 :: 32 word) < of_nat 100" "status32 (- 21)" "status32 0"
    by (simp_all add: status32_def E_EPOC_DIR_FULL_def E_EPOC_NONE_def)
  show "err2psierr (- 21) \<noteq> E_PSI_GEN_NONE" by code_simp
qed simp

end
