(* ===== verification/PlpFuse_Attr.thy ===== *)
theory PlpFuse_Attr
  imports PlpFuse_Files
begin

unbundle bit_operations_syntax

text \<open>
  Attributes through \<open>plpfuse\<close>: the modes and the extended attribute that \<open>fuse.c\<close> makes of the attributes
  of the Psion, and what changing them does to a file of an EPOC device.
\<close>

section \<open>Bits\<close>

lemma translate_bit:
  "bit (fold (\<lambda>(src, dst) res. if attr AND src \<noteq> 0 then res OR dst else res) table acc) n \<longleftrightarrow>
     bit acc n \<or> (\<exists>(src, dst) \<in> set table. attr AND src \<noteq> 0 \<and> bit dst n)" for acc :: "32 word"
  by (induction table arbitrary: acc) (auto simp: bit_or_iff split: if_splits)

lemma flag_bit: "w AND 2 ^ n \<noteq> 0 \<longleftrightarrow> bit w n" for w :: "32 word"
  by (simp add: and_exp_eq_0_iff_not_bit)

lemma attr2std_bit:
  "bit (attr2std a) n \<longleftrightarrow> bit PSI_A_READ n \<or>
     a AND EPOC_ATTR_RONLY \<noteq> 0 \<and> bit PSI_A_RDONLY n \<or> a AND EPOC_ATTR_HIDDEN \<noteq> 0 \<and> bit PSI_A_HIDDEN n \<or>
     a AND EPOC_ATTR_SYSTEM \<noteq> 0 \<and> bit PSI_A_SYSTEM n \<or> a AND EPOC_ATTR_DIRECTORY \<noteq> 0 \<and> bit PSI_A_DIR n \<or>
     a AND EPOC_ATTR_ARCHIVE \<noteq> 0 \<and> bit PSI_A_ARCHIVE n \<or> a AND EPOC_ATTR_VOLUME \<noteq> 0 \<and> bit PSI_A_VOLUME n \<or>
     a AND EPOC_ATTR_NORMAL \<noteq> 0 \<and> bit PSI_A_NORMAL n \<or> a AND EPOC_ATTR_TEMPORARY \<noteq> 0 \<and> bit PSI_A_TEMP n \<or>
     a AND EPOC_ATTR_COMPRESSED \<noteq> 0 \<and> bit PSI_A_COMPRESSED n"
  unfolding attr2std_def translate_def bit_or_iff translate_bit by simp blast

lemma psi_flags:
  "attr2std a AND PSI_A_RDONLY \<noteq> 0 \<longleftrightarrow> a AND EPOC_ATTR_RONLY \<noteq> 0"
  "attr2std a AND PSI_A_HIDDEN \<noteq> 0 \<longleftrightarrow> a AND EPOC_ATTR_HIDDEN \<noteq> 0"
  "attr2std a AND PSI_A_SYSTEM \<noteq> 0 \<longleftrightarrow> a AND EPOC_ATTR_SYSTEM \<noteq> 0"
  "attr2std a AND PSI_A_DIR \<noteq> 0 \<longleftrightarrow> a AND EPOC_ATTR_DIRECTORY \<noteq> 0"
  "attr2std a AND PSI_A_ARCHIVE \<noteq> 0 \<longleftrightarrow> a AND EPOC_ATTR_ARCHIVE \<noteq> 0"
  "attr2std a AND PSI_A_READ \<noteq> 0"
proof -
  have e: "PSI_A_RDONLY = 2 ^ 0" "PSI_A_HIDDEN = 2 ^ 1" "PSI_A_SYSTEM = 2 ^ 2" "PSI_A_DIR = 2 ^ 3"
    "PSI_A_ARCHIVE = 2 ^ 4" "PSI_A_READ = 2 ^ 9" "PSI_A_VOLUME = 2 ^ 5" "PSI_A_NORMAL = 2 ^ 6" "PSI_A_TEMP = 2 ^ 7"
    "PSI_A_COMPRESSED = 2 ^ 8"
    by (simp_all add: psi_attr_defs)
  note b = attr2std_bit [unfolded e bit_exp_iff]
  show "attr2std a AND PSI_A_RDONLY \<noteq> 0 \<longleftrightarrow> a AND EPOC_ATTR_RONLY \<noteq> 0"
    unfolding e(1) flag_bit b by simp
  show "attr2std a AND PSI_A_HIDDEN \<noteq> 0 \<longleftrightarrow> a AND EPOC_ATTR_HIDDEN \<noteq> 0"
    unfolding e(2) flag_bit b by simp
  show "attr2std a AND PSI_A_SYSTEM \<noteq> 0 \<longleftrightarrow> a AND EPOC_ATTR_SYSTEM \<noteq> 0"
    unfolding e(3) flag_bit b by simp
  show "attr2std a AND PSI_A_DIR \<noteq> 0 \<longleftrightarrow> a AND EPOC_ATTR_DIRECTORY \<noteq> 0"
    unfolding e(4) flag_bit b by simp
  show "attr2std a AND PSI_A_ARCHIVE \<noteq> 0 \<longleftrightarrow> a AND EPOC_ATTR_ARCHIVE \<noteq> 0"
    unfolding e(5) flag_bit b by simp
  show "attr2std a AND PSI_A_READ \<noteq> 0"
    unfolding e(6) flag_bit b by simp
qed

lemma and_flag: "w AND 2 ^ n = (if bit w n then 2 ^ n else 0)" for w :: "32 word"
  by (rule bit_word_eqI) (auto simp: bit_and_iff bit_exp_iff)

lemma mode_flags:
  "mode AND S_IRUSR = (if bit mode 8 then S_IRUSR else 0)" "mode AND S_IWUSR = (if bit mode 7 then S_IWUSR else 0)"
  using and_flag [of mode 8] and_flag [of mode 7] by (simp_all add: mode_defs)

text \<open>What \<open>attr2pattr\<close> asks for when a file has the permissions \<open>r\<close> and \<open>w\<close>.\<close>

definition file_mode :: "bool \<Rightarrow> bool \<Rightarrow> 32 word" where
  "file_mode r w = S_IFREG OR (if r then S_IRUSR else 0) OR (if w then S_IWUSR else 0)"

lemma attr2pattr_file:
  "attr2pattr (file_mode r w) mode [] [] =
     ((if \<not> r \<and> bit mode 8 then PSI_A_READ else 0) OR (if w \<and> \<not> bit mode 7 then PSI_A_RDONLY else 0),
      (if r \<and> \<not> bit mode 8 then PSI_A_READ else 0) OR (if \<not> w \<and> bit mode 7 then PSI_A_RDONLY else 0))"
proof -
  have "file_mode r w AND S_IRUSR = (if r then S_IRUSR else 0)" "file_mode r w AND S_IWUSR = (if w then S_IWUSR else 0)"
    by (cases r; cases w; simp add: file_mode_def mode_defs)+
  moreover have "S_IRUSR \<noteq> 0" "S_IWUSR \<noteq> 0" by (simp_all add: mode_defs)
  ultimately show ?thesis
    by (simp add: attr2pattr_def xattr2pattr_def xattr_flag_def mode_flags)
qed

lemma file_stat:
  assumes "attr AND PSI_A_DIR = 0"
  shows "st_mode (fst (pattr2attr fs attr sz t)) = file_mode (attr AND PSI_A_READ \<noteq> 0) (attr AND PSI_A_RDONLY = 0)"
    and "st_nlink (fst (pattr2attr fs attr sz t)) = 1"
  using assms by (simp_all add: pattr2attr_def file_mode_def)

lemma std2attr_modes:
  "std2attr 0 = 0" "std2attr PSI_A_RDONLY = EPOC_ATTR_RONLY" "std2attr PSI_A_READ = 0"
  "std2attr (PSI_A_READ OR PSI_A_RDONLY) = EPOC_ATTR_RONLY"
  by (simp_all add: std2attr_def translate_def psi_attr_defs epoc_attr_defs)

section \<open>A device that keeps attributes\<close>

text \<open>
  The attributes \<open>attrs\<close> of the file \<open>name\<close>: the second word of its entry, in which a request sets
  and clears bits.
\<close>

definition attr_server ::
  "(int \<Rightarrow> bytes \<Rightarrow> 'w \<Rightarrow> int \<times> bytes \<times> 'w) \<Rightarrow> string \<Rightarrow> ('w \<Rightarrow> 32 word) \<Rightarrow> bool" where
  "attr_server answer name attrs \<longleftrightarrow>
     (\<forall>w. (\<exists>x r w'. answer REMOTE_ENTRY (name_arg (convertSlash name)) w = (0, dword x @ dword (attrs w) @ r, w') \<and>
              attrs w' = attrs w) \<and>
          (\<forall>s u. \<exists>r w'. answer SET_ATT (dword s @ dword u @ name_arg (convertSlash name)) w = (0, r, w') \<and>
              attrs w' = (attrs w OR s) AND NOT u))"

lemma fs_getattr_served:
  assumes "serves so answer" and "attr_server answer name attrs" and "fs_a fs = Some s" and "live s"
  obtains s' sz t where "fuse_rfsv_getattr (rfsv32_remote so raw junk) name fs =
      (0, Some (attr2std (attrs (r_world s)), sz, t), fs\<lparr>fs_a := Some s'\<rparr>)"
    "live s'" "attrs (r_world s') = attrs (r_world s)"
proof -
  obtain x r w' where w': "answer REMOTE_ENTRY (name_arg (convertSlash name)) (r_world s) =
      (0, dword x @ dword (attrs (r_world s)) @ r, w')" "attrs w' = attrs (r_world s)"
    using assms(2) unfolding attr_server_def by blast
  obtain s' where s': "request so REMOTE_ENTRY (name_arg (convertSlash name)) s =
      (E_PSI_GEN_NONE, dword x @ dword (attrs (r_world s)) @ r, s')" "live s'" "r_world s' = w'"
    using request_ok [OF assms(1,4) _ w'(1)] by (auto simp: REMOTE_ENTRY_def)
  have "peekDWord so (dword x @ dword (attrs (r_world s)) @ r) 4 = attrs (r_world s)" by simp
  with s' w'(2) assms(3) show thesis
    using that by (simp add: fuse_rfsv_getattr_def rfsv32_remote_def fgeteattr_def entry_fields_def Let_def)
qed

lemma fs_setattr_served:
  assumes "serves so answer" and "attr_server answer name attrs" and "fs_a fs = Some s" and "live s"
  obtains s' where "fuse_rfsv_setattr (rfsv32_remote so raw junk) name seta unseta fs = (0, fs\<lparr>fs_a := Some s'\<rparr>)"
    "live s'" "attrs (r_world s') = (attrs (r_world s) OR std2attr seta) AND NOT (std2attr unseta)"
proof -
  obtain r w' where w': "answer SET_ATT (dword (std2attr seta) @ dword (std2attr unseta) @ name_arg (convertSlash name))
      (r_world s) = (0, r, w')" "attrs w' = (attrs (r_world s) OR std2attr seta) AND NOT (std2attr unseta)"
    using assms(2) unfolding attr_server_def by blast
  obtain s' where "request so SET_ATT (dword (std2attr seta) @ dword (std2attr unseta) @ name_arg (convertSlash name)) s =
      (E_PSI_GEN_NONE, r, s')" "live s'" "r_world s' = w'"
    using request_ok [OF assms(1,4) _ w'(1)] by (auto simp: SET_ATT_def)
  with w'(2) assms(3) show thesis
    using that by (simp add: fuse_rfsv_setattr_def on_remote_def rfsv32_remote_def fsetattr_def)
qed

section \<open>Changing the mode\<close>

definition with_ronly :: "bool \<Rightarrow> 32 word \<Rightarrow> 32 word" where
  "with_ronly ro a = (if ro then a OR EPOC_ATTR_RONLY else a AND NOT EPOC_ATTR_RONLY)"

lemma ronly_bit: "a AND EPOC_ATTR_RONLY \<noteq> 0 \<longleftrightarrow> bit a 0"
  using flag_bit [of a 0] by (simp add: EPOC_ATTR_RONLY_def)

lemma with_ronly_flags:
  "with_ronly ro a AND EPOC_ATTR_RONLY \<noteq> 0 \<longleftrightarrow> ro"
  "a AND EPOC_ATTR_DIRECTORY = 0 \<Longrightarrow> with_ronly ro a AND EPOC_ATTR_DIRECTORY = 0"
proof -
  show "with_ronly ro a AND EPOC_ATTR_RONLY \<noteq> 0 \<longleftrightarrow> ro"
    unfolding ronly_bit by (simp add: with_ronly_def EPOC_ATTR_RONLY_def bit_or_iff bit_and_iff bit_not_iff)
  have dir: "x AND EPOC_ATTR_DIRECTORY \<noteq> 0 \<longleftrightarrow> bit x 4" for x
    using flag_bit [of x 4] by (simp add: EPOC_ATTR_DIRECTORY_def)
  have "bit (with_ronly ro a) 4 \<longleftrightarrow> bit a 4"
    by (simp add: with_ronly_def EPOC_ATTR_RONLY_def bit_or_iff bit_and_iff bit_not_iff bit_1_iff)
  then show "a AND EPOC_ATTR_DIRECTORY = 0 \<Longrightarrow> with_ronly ro a AND EPOC_ATTR_DIRECTORY = 0"
    using dir by blast
qed

lemma with_ronly_same: "a AND EPOC_ATTR_RONLY \<noteq> 0 \<longleftrightarrow> ro \<Longrightarrow> with_ronly ro a = a"
  unfolding ronly_bit
  by (rule bit_word_eqI) (auto simp: with_ronly_def EPOC_ATTR_RONLY_def bit_or_iff bit_and_iff bit_not_iff bit_1_iff
      intro: gr0I)

lemma chmod_bits:
  fixes a mode :: "32 word"
  defines "sd \<equiv> attr2pattr (file_mode True (a AND EPOC_ATTR_RONLY = 0)) mode [] []"
  shows "(a OR std2attr (fst sd)) AND NOT (std2attr (snd sd)) = with_ronly (\<not> bit mode 7) a"
proof -
  have same: "a OR 0 AND NOT 0 = a" by simp
  show ?thesis
    unfolding sd_def attr2pattr_file
    using with_ronly_same [of a "\<not> bit mode 7"]
    by (cases "a AND EPOC_ATTR_RONLY = 0"; cases "bit mode 8"; cases "bit mode 7")
       (simp_all add: std2attr_modes, simp_all add: with_ronly_def)
qed

text \<open>
  C34: changing the mode of a file on an EPOC device. \<open>chmod\<close> succeeds, clears the device's attribute
  "read only" if the mode lets the owner write and sets it otherwise, and leaves every other attribute; a later
  \<open>getattr\<close> tells the permission to write that was asked for, and the permission to read whether or not it
  was asked for.
\<close>

theorem fuse_chmod:
  assumes "serves so answer" and "attr_server answer (drop 1 path) attrs"
    and "fs_a fs = Some s" and "live s" and "attrs (r_world s) AND EPOC_ATTR_DIRECTORY = 0"
    and "drop 1 path \<noteq> []" and "length path \<noteq> 3 \<or> path ! 2 \<noteq> CHR '':''"
  shows "\<exists>fs' s'. plp_chmod (rfsv32_remote so raw junk) path mode fs = (0, fs') \<and> fs_a fs' = Some s' \<and>
    attrs (r_world s') = with_ronly (mode AND S_IWUSR = 0) (attrs (r_world s)) \<and>
    (\<exists>st fs''. plp_getattr (rfsv32_remote so raw junk) path st0 fs' = Some (0, st, fs'') \<and>
       st_mode st = S_IFREG OR S_IRUSR OR (mode AND S_IWUSR))"
proof -
  let ?rm = "rfsv32_remote so raw junk" and ?a = "attrs (r_world s)"
  have w: "mode AND S_IWUSR = 0 \<longleftrightarrow> \<not> bit mode 7" using mode_flags(2) [of mode] by (simp add: mode_defs)
  obtain s1 sz t where s1: "fuse_rfsv_getattr ?rm (drop 1 path) fs =
      (0, Some (attr2std ?a, sz, t), fs\<lparr>fs_a := Some s1\<rparr>)" "live s1" "attrs (r_world s1) = ?a"
    using fs_getattr_served [OF assms(1-4)] by blast
  let ?fs1 = "fs\<lparr>fs_a := Some s1\<rparr>" and ?sd = "attr2pattr (file_mode True (?a AND EPOC_ATTR_RONLY = 0)) mode [] []"
  have fs1: "fs_a ?fs1 = Some s1" by simp
  obtain s2 where s2: "fuse_rfsv_setattr ?rm (drop 1 path) (fst ?sd) (snd ?sd) ?fs1 = (0, ?fs1\<lparr>fs_a := Some s2\<rparr>)" "live s2"
      "attrs (r_world s2) = (attrs (r_world s1) OR std2attr (fst ?sd)) AND NOT (std2attr (snd ?sd))"
    using fs_setattr_served [OF assms(1,2) fs1 s1(2)] by blast
  let ?fs2 = "fs\<lparr>fs_a := Some s2\<rparr>"
  have a2: "attrs (r_world s2) = with_ronly (\<not> bit mode 7) ?a"
    unfolding s2(3) s1(3) by (rule chmod_bits)
  have st: "st_mode (fst (pattr2attr f (attr2std b) sz t)) = file_mode True (b AND EPOC_ATTR_RONLY = 0)"
      "st_nlink (fst (pattr2attr f (attr2std b) sz t)) = 1"
    if "b AND EPOC_ATTR_DIRECTORY = 0" for b sz t and f :: "'a rfsv fuse"
    using file_stat [of "attr2std b" f sz t] psi_flags(1,4,6) [of b] that by simp_all
  have "plp_chmod ?rm path mode fs = (0, ?fs2)"
    using s2(1) unfolding plp_chmod_def s1(1)
    by (simp add: st(1) [OF assms(5)] case_prod_beta)
  moreover have fs2: "fs_a ?fs2 = Some s2" by simp
  moreover obtain s3 sz t where s3: "fuse_rfsv_getattr ?rm (drop 1 path) ?fs2 =
      (0, Some (attr2std (attrs (r_world s2)), sz, t), ?fs2\<lparr>fs_a := Some s3\<rparr>)"
    using fs_getattr_served [OF assms(1,2) fs2 s2(2), of raw junk] by blast
  moreover have "st_mode (fst (pattr2attr f (attr2std (attrs (r_world s2))) sz t)) = S_IFREG OR S_IRUSR OR (mode AND S_IWUSR)"
      "st_nlink (fst (pattr2attr f (attr2std (attrs (r_world s2))) sz t)) = 1" for f :: "'a rfsv fuse"
    using st [OF with_ronly_flags(2) [OF assms(5)], of f "\<not> bit mode 7" sz t] with_ronly_flags(1) [of "\<not> bit mode 7" ?a]
    unfolding a2 mode_flags by (auto simp: file_mode_def)
  moreover have "\<not> (length (drop 1 path) = 2 \<and> drop 1 path ! 1 = CHR '':'')"
    using assms(7) by (auto simp: numeral_2_eq_2)
  ultimately show ?thesis
    using a2 assms(6) unfolding w plp_getattr_def by (intro exI [of _ ?fs2] exI [of _ s2]) (auto simp: Let_def)
qed

text \<open>A device with one file, of which it keeps the attributes.\<close>

definition attr_answer :: "int \<Rightarrow> bytes \<Rightarrow> 32 word \<Rightarrow> int \<times> bytes \<times> 32 word" where
  "attr_answer cc data d =
     (if cc = REMOTE_ENTRY then (0, dword 0 @ dword d @ replicate 24 0, d)
      else if cc = SET_ATT then
        (0, [], (d OR join32 (data ! 0) (data ! 1) (data ! 2) (data ! 3)) AND
          NOT (join32 (data ! 4) (data ! 5) (data ! 6) (data ! 7)))
      else (0, [], d))"

lemma join32_two:
  "join32 ((dword p @ dword q @ b) ! 0) ((dword p @ dword q @ b) ! 1) ((dword p @ dword q @ b) ! 2)
     ((dword p @ dword q @ b) ! 3) = p"
  "join32 ((dword p @ dword q @ b) ! 4) ((dword p @ dword q @ b) ! 5) ((dword p @ dword q @ b) ! 6)
     ((dword p @ dword q @ b) ! 7) = q"
proof (rule join32_first_dword)
  show "join32 ((dword p @ dword q @ b) ! 4) ((dword p @ dword q @ b) ! 5) ((dword p @ dword q @ b) ! 6)
      ((dword p @ dword q @ b) ! 7) = q"
    using join32_first_dword [of q "[]"] by (simp add: nth_append)
qed

lemma attr_answer_serves: "attr_server (device_answer attr_answer) name (\<lambda>w. fst w)"
  unfolding attr_server_def
proof (intro allI conjI)
  fix w :: "32 word \<times> bytes" and s u :: "32 word"
  show "\<exists>x r w'. device_answer attr_answer REMOTE_ENTRY (name_arg (convertSlash name)) w =
      (0, dword x @ dword (fst w) @ r, w') \<and> fst w' = fst w"
    by (auto simp: device_answer_def attr_answer_def)
  show "\<exists>r w'. device_answer attr_answer SET_ATT (dword s @ dword u @ name_arg (convertSlash name)) w = (0, r, w') \<and>
      fst w' = (fst w OR s) AND NOT u"
    unfolding device_answer_def attr_answer_def join32_two by (simp add: command_defs)
qed

theorem fuse_chmod_witness:
  "\<exists>fs' s'. plp_chmod (rfsv32_remote (device_socket env_sample attr_answer) (time_sample 0) drive_zero) ''/C:/note'' 0x140
      (mounted 0x22) = (0, fs') \<and> fs_a fs' = Some s' \<and> fst (r_world s') = 0x23 \<and>
    (\<exists>st fs''. plp_getattr (rfsv32_remote (device_socket env_sample attr_answer) (time_sample 0) drive_zero) ''/C:/note'' stat_zero fs' =
       Some (0, st, fs'') \<and> st_mode st = 0x8100)"
proof -
  have fs: "fs_a (mounted 0x22 :: (32 word \<times> bytes) rfsv fuse) = Some (device_session 0x22)"
    by (simp add: mounted_def)
  have served: "fst (r_world (device_session (0x22 :: 32 word))) AND EPOC_ATTR_DIRECTORY = 0" "drop 1 ''/C:/note'' \<noteq> []"
    "length ''/C:/note'' \<noteq> 3 \<or> ''/C:/note'' ! 2 \<noteq> CHR '':''"
    by (simp_all add: EPOC_ATTR_DIRECTORY_def)
  show ?thesis
    using fuse_chmod [OF device_socket_serves [of env_sample attr_answer] attr_answer_serves fs
        device_session_simps(1) served, of "time_sample 0" drive_zero "0x140" stat_zero]
    by (simp add: with_ronly_def EPOC_ATTR_RONLY_def mode_defs)
qed

section \<open>The extended attribute\<close>

definition psi_flag_word :: "bool \<Rightarrow> bool \<Rightarrow> bool \<Rightarrow> 32 word" where
  "psi_flag_word a h s =
     (if a then PSI_A_ARCHIVE else 0) OR (if h then PSI_A_HIDDEN else 0) OR (if s then PSI_A_SYSTEM else 0)"

definition epoc_flag_word :: "bool \<Rightarrow> bool \<Rightarrow> bool \<Rightarrow> 32 word" where
  "epoc_flag_word a h s =
     (if a then EPOC_ATTR_ARCHIVE else 0) OR (if h then EPOC_ATTR_HIDDEN else 0) OR (if s then EPOC_ATTR_SYSTEM else 0)"

lemma xattr2pattr_flags:
  "xattr2pattr ox nx (0, 0) =
     (psi_flag_word (CHR ''a'' \<notin> set ox \<and> CHR ''a'' \<in> set nx) (CHR ''h'' \<notin> set ox \<and> CHR ''h'' \<in> set nx)
        (CHR ''s'' \<notin> set ox \<and> CHR ''s'' \<in> set nx),
      psi_flag_word (CHR ''a'' \<in> set ox \<and> CHR ''a'' \<notin> set nx) (CHR ''h'' \<in> set ox \<and> CHR ''h'' \<notin> set nx)
        (CHR ''s'' \<in> set ox \<and> CHR ''s'' \<notin> set nx))"
  by (simp add: xattr2pattr_def xattr_flag_def psi_flag_word_def or.assoc)

lemma std2attr_flags: "std2attr (psi_flag_word a h s) = epoc_flag_word a h s"
  by (cases a; cases h; cases s)
     (simp_all add: std2attr_def translate_def psi_flag_word_def epoc_flag_word_def psi_attr_defs epoc_attr_defs)

lemma pattr2xattr_set:
  "CHR ''a'' \<in> set (pattr2xattr p) \<longleftrightarrow> p AND PSI_A_ARCHIVE \<noteq> 0"
  "CHR ''h'' \<in> set (pattr2xattr p) \<longleftrightarrow> p AND PSI_A_HIDDEN \<noteq> 0"
  "CHR ''s'' \<in> set (pattr2xattr p) \<longleftrightarrow> p AND PSI_A_SYSTEM \<noteq> 0"
  by (simp_all add: pattr2xattr_def)

lemma pattr2xattr_c_str: "c_str (pattr2xattr p @ [CHR 0x00]) = pattr2xattr p"
  by (simp add: pattr2xattr_def c_str_def)

definition xattr_word :: "string \<Rightarrow> 32 word \<Rightarrow> 32 word" where
  "xattr_word v a = (a AND NOT (epoc_flag_word True True True)) OR
     epoc_flag_word (CHR ''a'' \<in> set v) (CHR ''h'' \<in> set v) (CHR ''s'' \<in> set v)"

lemma epoc_flag_bit: "bit (epoc_flag_word a h s) n \<longleftrightarrow> a \<and> n = 5 \<or> h \<and> n = 1 \<or> s \<and> n = 2"
proof -
  have e: "EPOC_ATTR_ARCHIVE = 2 ^ 5" "EPOC_ATTR_HIDDEN = 2 ^ 1" "EPOC_ATTR_SYSTEM = 2 ^ 2"
    by (simp_all add: epoc_attr_defs)
  have "bit EPOC_ATTR_ARCHIVE n \<longleftrightarrow> n = 5" "bit EPOC_ATTR_HIDDEN n \<longleftrightarrow> n = 1" "bit EPOC_ATTR_SYSTEM n \<longleftrightarrow> n = 2"
    unfolding e bit_exp_iff by auto
  then show ?thesis unfolding epoc_flag_word_def bit_or_iff by simp
qed

lemma epoc_flags:
  "a AND EPOC_ATTR_ARCHIVE \<noteq> 0 \<longleftrightarrow> bit a 5" "a AND EPOC_ATTR_HIDDEN \<noteq> 0 \<longleftrightarrow> bit a 1"
  "a AND EPOC_ATTR_SYSTEM \<noteq> 0 \<longleftrightarrow> bit a 2"
  using flag_bit [of a 5] flag_bit [of a 1] flag_bit [of a 2] by (simp_all add: epoc_attr_defs)

lemma setxattr_bits:
  fixes a :: "32 word"
  assumes "CHR ''a'' \<in> set ox \<longleftrightarrow> bit a 5" and "CHR ''h'' \<in> set ox \<longleftrightarrow> bit a 1" and "CHR ''s'' \<in> set ox \<longleftrightarrow> bit a 2"
  shows "(a OR std2attr (fst (xattr2pattr ox v (0, 0)))) AND NOT (std2attr (snd (xattr2pattr ox v (0, 0)))) = xattr_word v a"
  unfolding xattr2pattr_flags fst_conv snd_conv std2attr_flags xattr_word_def
  by (rule bit_word_eqI) (simp only: bit_and_iff bit_or_iff bit_not_iff epoc_flag_bit assms, auto)

lemma xattr_word_flags:
  "bit (xattr_word v a) 5 \<longleftrightarrow> CHR ''a'' \<in> set v" "bit (xattr_word v a) 1 \<longleftrightarrow> CHR ''h'' \<in> set v"
  "bit (xattr_word v a) 2 \<longleftrightarrow> CHR ''s'' \<in> set v"
  by (simp_all add: xattr_word_def bit_or_iff bit_and_iff bit_not_iff epoc_flag_bit)



end
