(* ===== verification/Device.thy ===== *)
theory Device
  imports PlpFuse Ini Clients
begin

unbundle bit_operations_syntax

text \<open>
  The identity of a device: \<open>lib/deviceconfiguration.cc\<close>, \<open>lib/device.cc\<close>, which keeps the configuration in
  a file on the device, \<open>lib/uuid.cc\<close> and \<open>lib/deviceendpoint.cc\<close>. The random bytes are an argument. The
  function \<open>epoc_dirname\<close> is called but commented out in \<open>lib/pathutils.cc\<close>; it is a parameter here.
\<close>

section \<open>The configuration\<close>

record device_config =
  dc_id :: string
  dc_name :: string

definition config_serialize :: "device_config \<Rightarrow> string" where
  "config_serialize dc = ini_serialize [(''id'', dc_id dc), (''name'', dc_name dc)]"

definition config_deserialize :: "string \<Rightarrow> device_config option" where
  "config_deserialize s = do {
     contents \<leftarrow> ini_deserialize s;
     i \<leftarrow> map_of contents ''id'';
     n \<leftarrow> map_of contents ''name'';
     Some \<lparr>dc_id = i, dc_name = n\<rparr> }"

text \<open>Sixteen random bytes in hexadecimal, with the version and the variant.\<close>

definition uuid_digit :: "byte \<Rightarrow> char" where
  "uuid_digit n = ''0123456789abcdef'' ! (unat n mod 16)"

definition uuid_hex :: "byte \<Rightarrow> string" where
  "uuid_hex b = [uuid_digit (drop_bit 4 b), uuid_digit (b AND 0x0F)]"

definition uuid4 :: "bytes \<Rightarrow> string" where
  "uuid4 b =
     (let b = b[6 := (b ! 6 AND 0x0F) OR 0x40]; b = b[8 := (b ! 8 AND 0x3F) OR 0x80];
          part = (\<lambda>i n. concat (map uuid_hex (take n (drop i b))))
      in part 0 4 @ ''-'' @ part 4 2 @ ''-'' @ part 6 2 @ ''-'' @ part 8 2 @ ''-'' @ part 10 6)"

section \<open>The file on the device\<close>

record 'w config_remote = "'w remote" +
  rm_freplacefile :: "32 word \<Rightarrow> string \<Rightarrow> 32 word \<Rightarrow> 'w \<Rightarrow> int \<times> 32 word \<times> 'w"
  rm_configPath :: string

definition PSI_O_WRONLY :: "32 word" where "PSI_O_WRONLY = 1"

definition write_configuration ::
  "'w config_remote \<Rightarrow> (string \<Rightarrow> string) \<Rightarrow> device_config \<Rightarrow> 'w \<Rightarrow> int \<times> 'w" where
  "write_configuration rm epoc_dirname dc w =
     (let path = rm_configPath rm;
          (error, w) = rm_mkdir rm (epoc_dirname path) w
      in if error \<noteq> E_PSI_GEN_NONE \<and> error \<noteq> E_PSI_FILE_EXIST then (error, w)
      else
        let mode = rm_opMode rm PSI_O_WRONLY;
            (error, handle, w) = rm_fcreatefile rm mode path (rm_junk rm) w;
            (error, handle, w) = (if error = E_PSI_FILE_EXIST then rm_freplacefile rm mode path handle w
                                  else (error, handle, w))
        in if error \<noteq> E_PSI_GEN_NONE then (error, w)
        else
          let contents = ascii (config_serialize dc);
              (error, count, w) = rm_fwrite rm handle contents (of_nat (length contents)) w
          in if error \<noteq> E_PSI_GEN_NONE then let (_, w) = rm_fclose rm handle w in (error, w)
             else rm_fclose rm handle w)"

text \<open>The buffer has the size of the file, and is zero where nothing has been read.\<close>

definition read_configuration :: "'w config_remote \<Rightarrow> 'w \<Rightarrow> (device_config option \<times> int \<times> 'w) option" where
  "read_configuration rm w =
     (let path = rm_configPath rm;
          (error, dirent, w) = rm_fgeteattr rm path w
      in if error \<noteq> E_PSI_GEN_NONE then Some (None, error, w)
      else let (error, handle, w) = rm_fopen rm PSI_O_RDONLY path (rm_junk rm) w
      in if error \<noteq> E_PSI_GEN_NONE then Some (None, error, w)
      else do {
        (error, buf, count, w) \<leftarrow> rm_fread rm handle (de_size dirent) w;
        Some (if error \<noteq> E_PSI_GEN_NONE then let (_, w) = rm_fclose rm handle w in (None, error, w)
          else let (error, w) = rm_fclose rm handle w
          in if error \<noteq> E_PSI_GEN_NONE then (None, error, w)
          else
            let n = unat (de_size dirent);
                contents = chars (take n (buf @ replicate (n - length buf) 0))
            in case config_deserialize contents of
                 None \<Rightarrow> (None, E_PSI_FILE_CORRUPT, w)
               | Some dc \<Rightarrow> (Some dc, error, w)) })"

section \<open>The end point\<close>

record 'w endpoint =
  ep_rfsv :: 'w
  ep_id :: string
  ep_name :: "string option"
  ep_hasPersistentConfiguration :: bool

text \<open>
  \<open>DeviceEndpoint::connect\<close>: the results of the three connections are arguments, an error code where there is
  none.
\<close>

definition endpoint_connect ::
  "'w config_remote \<Rightarrow> bytes \<Rightarrow> int + 'w \<Rightarrow> int \<Rightarrow> int \<Rightarrow> (int + 'w endpoint) option" where
  "endpoint_connect rm random rfsv_conn rpcs_error clip_error =
     (case rfsv_conn of
        Inl e \<Rightarrow> Some (Inl e)
      | Inr w \<Rightarrow> do {
          (dc, _, w) \<leftarrow> read_configuration rm w;
          Some (if rpcs_error \<noteq> FACERR_NONE then Inl rpcs_error
            else if clip_error \<noteq> FACERR_NONE then Inl clip_error
            else Inr \<lparr>ep_rfsv = w, ep_id = (case dc of Some c \<Rightarrow> dc_id c | None \<Rightarrow> uuid4 random),
              ep_name = map_option dc_name dc, ep_hasPersistentConfiguration = (dc \<noteq> None)\<rparr>) })"

definition endpoint_setName ::
  "'w config_remote \<Rightarrow> (string \<Rightarrow> string) \<Rightarrow> string \<Rightarrow> 'w endpoint \<Rightarrow> int \<times> 'w endpoint" where
  "endpoint_setName rm epoc_dirname name ep =
     (let (res, w) = write_configuration rm epoc_dirname \<lparr>dc_id = ep_id ep, dc_name = name\<rparr> (ep_rfsv ep);
          ep = ep\<lparr>ep_rfsv := w\<rparr>
      in if res = E_PSI_GEN_NONE then (res, ep\<lparr>ep_name := Some name, ep_hasPersistentConfiguration := True\<rparr>)
         else (res, ep))"

definition config_path :: string where
  "config_path = ''C:'' @ [CHR 0x5C] @ ''System'' @ [CHR 0x5C] @ ''Sync'' @ [CHR 0x5C] @ ''config.ini''"

definition rfsv32_config :: "'v socket \<Rightarrow> psitime \<Rightarrow> drive \<Rightarrow> 'v rfsv config_remote" where
  "rfsv32_config so raw junk =
     remote.extend (rfsv32_remote so raw junk)
       \<lparr>rm_freplacefile = freplacefile so, rm_configPath = config_path\<rparr>"

end
