(* ===== verification/Device_Lemmas.thy ===== *)
theory Device_Lemmas
  imports Device PlpFuse_Files
begin

text \<open>
  The identity of a device survives: the configuration file is read back as it was written, and a new
  identifier is one that can be written.
\<close>

section \<open>The configuration\<close>

lemma config_read_back:
  assumes "value_ok (dc_id dc)" and "value_ok (dc_name dc)"
  shows "config_deserialize (config_serialize dc) = Some dc"
proof -
  let ?es = "[(''id'', dc_id dc), (''name'', dc_name dc)]"
  have es: "distinct (map fst ?es)" "\<forall>(k, v)\<in>set ?es. key_ok k \<and> value_ok v"
    using assms by (auto simp: key_ok_def isalpha_def less_eq_char_def)
  obtain res where "ini_deserialize (ini_serialize ?es) = Some res" "map_of res = map_of ?es"
    using ini_parse_entries [OF es] by (simp add: ini_deserialize_def ini_start_def Let_def)
  then show ?thesis by (simp add: config_deserialize_def config_serialize_def)
qed

lemma uuid_no_space: "list_all (\<lambda>c. \<not> isspace c) (uuid4 b)"
proof -
  have plain: "list_all (\<lambda>c. \<not> isspace c) ''0123456789abcdef''" by code_simp
  have digit: "\<not> isspace (uuid_digit n)" for n
  proof -
    have "uuid_digit n \<in> set ''0123456789abcdef''" unfolding uuid_digit_def by (rule nth_mem) simp
    with plain show ?thesis unfolding list_all_iff by blast
  qed
  have "list_all (\<lambda>c. \<not> isspace c) (concat (map uuid_hex xs))" for xs
    by (induction xs) (simp_all add: uuid_hex_def digit)
  moreover have "\<not> isspace CHR ''-''" by code_simp
  ultimately show ?thesis by (simp add: uuid4_def Let_def)
qed

lemma value_ok_no_space: "v \<noteq> [] \<Longrightarrow> list_all (\<lambda>c. \<not> isspace c) v \<Longrightarrow> value_ok v"
  by (auto simp: value_ok_def list_all_iff)

lemma uuid_value_ok: "value_ok (uuid4 b)"
  by (rule value_ok_no_space [OF _ uuid_no_space]) (simp add: uuid4_def Let_def)

section \<open>The file on the device\<close>

text \<open>
  The device serves the configuration file with the handle \<open>h\<close> as in \<open>file_server\<close>, tells its size in
  the entry, creates or replaces it empty, and keeps it when its directory is made.
\<close>

definition config_server ::
  "(int \<Rightarrow> bytes \<Rightarrow> 'w \<Rightarrow> int \<times> bytes \<times> 'w) \<Rightarrow> string \<Rightarrow> string \<Rightarrow> 32 word \<Rightarrow> ('w \<Rightarrow> bytes) \<Rightarrow> ('w \<Rightarrow> nat) \<Rightarrow> bool" where
  "config_server answer folder name h cont pos \<longleftrightarrow>
     file_server answer name h cont pos \<and>
     (\<forall>w. (\<exists>e r w'. answer MK_DIR_ALL (name_arg (dir_name (convertSlash folder))) w = (e, r, w') \<and>
              (e = 0 \<or> e = - 11)) \<and>
          (\<exists>e r w'. answer CREATE_FILE (dword EPOC_OMODE_READ_WRITE @ name_arg (convertSlash name)) w = (e, r, w') \<and>
              (e = 0 \<and> r = dword h \<and> cont w' = [] \<and> pos w' = 0 \<or> e = - 11)) \<and>
          (\<exists>w'. answer REPLACE_FILE (dword EPOC_OMODE_READ_WRITE @ name_arg (convertSlash name)) w = (0, dword h, w') \<and>
              cont w' = [] \<and> pos w' = 0) \<and>
          (\<exists>r w'. answer CLOSE_HANDLE (dword h) w = (0, r, w') \<and> cont w' = cont w) \<and>
          (\<exists>e r w'. answer REMOTE_ENTRY (name_arg (convertSlash name)) w = (e, r, w') \<and> cont w' = cont w \<and>
              (e = 0 \<and> (\<exists>x a r'. r = dword x @ dword a @ dword (of_nat (length (cont w))) @ r') \<or>
               e = - 1 \<and> cont w = [])))"

lemma config_server_rules:
  assumes "config_server answer folder name h cont pos"
  shows "file_server answer name h cont pos"
    and "\<exists>e r w'. answer MK_DIR_ALL (name_arg (dir_name (convertSlash folder))) w = (e, r, w') \<and> (e = 0 \<or> e = - 11)"
    and "\<exists>e r w'. answer CREATE_FILE (dword EPOC_OMODE_READ_WRITE @ name_arg (convertSlash name)) w = (e, r, w') \<and>
      (e = 0 \<and> r = dword h \<and> cont w' = [] \<and> pos w' = 0 \<or> e = - 11)"
    and "\<exists>w'. answer REPLACE_FILE (dword EPOC_OMODE_READ_WRITE @ name_arg (convertSlash name)) w = (0, dword h, w') \<and>
      cont w' = [] \<and> pos w' = 0"
    and "\<exists>r w'. answer CLOSE_HANDLE (dword h) w = (0, r, w') \<and> cont w' = cont w"
    and "\<exists>e r w'. answer REMOTE_ENTRY (name_arg (convertSlash name)) w = (e, r, w') \<and> cont w' = cont w \<and>
      (e = 0 \<and> (\<exists>x a r'. r = dword x @ dword a @ dword (of_nat (length (cont w))) @ r') \<or> e = - 1 \<and> cont w = [])"
  using assms unfolding config_server_def by blast+

lemma epoc_errors: "err2psierr (- 11) = E_PSI_FILE_EXIST" "err2psierr (- 1) = E_PSI_FILE_NXIST"
  "status32 (- 11)" "status32 (- 1)" "status32 0"
  "E_PSI_FILE_EXIST \<noteq> E_PSI_GEN_NONE" "E_PSI_FILE_NXIST \<noteq> E_PSI_GEN_NONE"
  by (code_simp, code_simp, simp_all add: status32_def E_EPOC_DIR_FULL_def E_EPOC_NONE_def E_PSI_FILE_EXIST_def
      E_PSI_FILE_NXIST_def E_PSI_GEN_NONE_def)

lemma opMode_wronly: "opMode PSI_O_WRONLY = EPOC_OMODE_READ_WRITE"
  by (simp add: opMode_def PSI_O_WRONLY_def PSI_O_RDONLY_def PSI_O_EXCL_def PSI_O_SHARE_def EPOC_OMODE_READ_WRITE_def)

lemma config_mkdir:
  assumes "serves so answer" and "config_server answer folder name h cont pos" and "live s"
  shows "\<exists>e s'. mkdir so folder s = (e, s') \<and> live s' \<and> (e = E_PSI_GEN_NONE \<or> e = E_PSI_FILE_EXIST)"
proof -
  obtain e r w' where w': "answer MK_DIR_ALL (name_arg (dir_name (convertSlash folder))) (r_world s) = (e, r, w')"
      "e = 0 \<or> e = - 11"
    using config_server_rules(2) [OF assms(2)] by blast
  have "status32 e" "err2psierr e = E_PSI_GEN_NONE \<or> err2psierr e = E_PSI_FILE_EXIST"
    using w'(2) epoc_errors by auto
  with w'(1) assms(1,3) show ?thesis
    by (auto simp: mkdir_def MK_DIR_ALL_def intro: request_refused [where cc = MK_DIR_ALL])
qed

lemma config_created:
  assumes "serves so answer" and "config_server answer folder name h cont pos" and "live s"
  shows "\<exists>e hd' s'. fcreatefile so EPOC_OMODE_READ_WRITE name h0 s = (e, hd', s') \<and> live s' \<and>
    (e = E_PSI_GEN_NONE \<and> hd' = h \<and> cont (r_world s') = [] \<and> pos (r_world s') = 0 \<or> e = E_PSI_FILE_EXIST)"
proof -
  obtain e r w' where w': "answer CREATE_FILE (dword EPOC_OMODE_READ_WRITE @ name_arg (convertSlash name)) (r_world s) =
      (e, r, w')" "e = 0 \<and> r = dword h \<and> cont w' = [] \<and> pos w' = 0 \<or> e = - 11"
    using config_server_rules(3) [OF assms(2)] by blast
  have "status32 e" using w'(2) epoc_errors by auto
  then obtain s' where "request so CREATE_FILE (dword EPOC_OMODE_READ_WRITE @ name_arg (convertSlash name)) s =
      (err2psierr e, r, s')" "live s'" "r_world s' = w'"
    using request_refused [OF assms(1,3) _ w'(1)] by (auto simp: CREATE_FILE_def)
  then show ?thesis using w'(2) epoc_errors by (auto simp: fcreatefile_def)
qed

lemma config_replaced:
  assumes "serves so answer" and "config_server answer folder name h cont pos" and "live s"
  shows "\<exists>s'. freplacefile so EPOC_OMODE_READ_WRITE name h0 s = (E_PSI_GEN_NONE, h, s') \<and> live s' \<and>
    cont (r_world s') = [] \<and> pos (r_world s') = 0"
proof -
  obtain w' where w': "answer REPLACE_FILE (dword EPOC_OMODE_READ_WRITE @ name_arg (convertSlash name)) (r_world s) =
      (0, dword h, w')" "cont w' = []" "pos w' = 0"
    using config_server_rules(4) [OF assms(2)] by blast
  obtain s' where "request so REPLACE_FILE (dword EPOC_OMODE_READ_WRITE @ name_arg (convertSlash name)) s =
      (E_PSI_GEN_NONE, dword h, s')" "live s'" "r_world s' = w'"
    using request_ok [OF assms(1,3) _ w'(1)] by (auto simp: REPLACE_FILE_def)
  then show ?thesis using w'(2,3) by (simp add: freplacefile_def)
qed

lemma config_closed:
  assumes "serves so answer" and "config_server answer folder name h cont pos" and "live s"
  shows "\<exists>s'. fclose so h s = (E_PSI_GEN_NONE, s') \<and> live s' \<and> cont (r_world s') = cont (r_world s)"
proof -
  obtain r w' where w': "answer CLOSE_HANDLE (dword h) (r_world s) = (0, r, w')" "cont w' = cont (r_world s)"
    using config_server_rules(5) [OF assms(2)] by blast
  obtain s' where "request so CLOSE_HANDLE (dword h) s = (E_PSI_GEN_NONE, r, s')" "live s'" "r_world s' = w'"
    using request_ok [OF assms(1,3) _ w'(1)] by (auto simp: CLOSE_HANDLE_def)
  then show ?thesis using w'(2) by (simp add: fclose_def)
qed

lemma config_entry:
  assumes "serves so answer" and "config_server answer folder name h cont pos" and "live s"
  shows "\<exists>e d s'. fgeteattr so name d0 s = (e, d, s') \<and> live s' \<and> cont (r_world s') = cont (r_world s) \<and>
    (e = E_PSI_GEN_NONE \<and> de_size d = of_nat (length (cont (r_world s))) \<or>
     e = E_PSI_FILE_NXIST \<and> cont (r_world s) = [])"
proof -
  obtain e r w' where w': "answer REMOTE_ENTRY (name_arg (convertSlash name)) (r_world s) = (e, r, w')"
      "cont w' = cont (r_world s)"
      "e = 0 \<and> (\<exists>x a r'. r = dword x @ dword a @ dword (of_nat (length (cont (r_world s)))) @ r') \<or>
       e = - 1 \<and> cont (r_world s) = []"
    using config_server_rules(6) [OF assms(2)] by blast
  have "status32 e" using w'(3) epoc_errors by auto
  then obtain s' where s': "request so REMOTE_ENTRY (name_arg (convertSlash name)) s = (err2psierr e, r, s')"
      "live s'" "r_world s' = w'"
    using request_refused [OF assms(1,3) _ w'(1)] by (auto simp: REMOTE_ENTRY_def)
  show ?thesis
    using w'(2,3) s' epoc_errors by (auto simp: fgeteattr_def entry_fields_def Let_def)
qed

lemma rfsv32_config_fields:
  "rm_mkdir (rfsv32_config so raw junk) = mkdir so" "rm_fclose (rfsv32_config so raw junk) = fclose so"
  "rm_fcreatefile (rfsv32_config so raw junk) = fcreatefile so" "rm_opMode (rfsv32_config so raw junk) = opMode"
  "rm_fopen (rfsv32_config so raw junk) = fopen so" "rm_fread (rfsv32_config so raw junk) = fread so"
  "rm_fwrite (rfsv32_config so raw junk) = fwrite so" "rm_junk (rfsv32_config so raw junk) = so_junk so"
  "rm_fgeteattr (rfsv32_config so raw junk) = (\<lambda>name. fgeteattr so name (plpdirent_new (so_time so) raw))"
  "rm_freplacefile (rfsv32_config so raw junk) = freplacefile so" "rm_configPath (rfsv32_config so raw junk) = config_path"
  by (simp_all add: rfsv32_config_def rfsv32_remote_def remote.defs)

lemma config_written:
  assumes "serves so answer" and "config_server answer (d config_path) config_path h cont pos" and "live s"
    and "length (config_serialize dc) < 2 ^ 31"
  shows "\<exists>s'. write_configuration (rfsv32_config so raw junk) d dc s = (E_PSI_GEN_NONE, s') \<and> live s' \<and>
    cont (r_world s') = ascii (config_serialize dc)"
proof -
  let ?c = "ascii (config_serialize dc)"
  note served = config_server_rules(1) [OF assms(2)]
  obtain e s1 where s1: "mkdir so (d config_path) s = (e, s1)" "live s1" "e = E_PSI_GEN_NONE \<or> e = E_PSI_FILE_EXIST"
    using config_mkdir [OF assms(1-3)] by blast
  obtain e' h' s2 where s2: "fcreatefile so EPOC_OMODE_READ_WRITE config_path (so_junk so) s1 = (e', h', s2)" "live s2"
      "e' = E_PSI_GEN_NONE \<and> h' = h \<and> cont (r_world s2) = [] \<and> pos (r_world s2) = 0 \<or> e' = E_PSI_FILE_EXIST"
    using config_created [OF assms(1,2) s1(2)] by blast
  obtain s3 where s3: "(if e' = E_PSI_FILE_EXIST then freplacefile so EPOC_OMODE_READ_WRITE config_path h' s2 else (e', h', s2)) =
      (E_PSI_GEN_NONE, h, s3)" "live s3" "cont (r_world s3) = []" "pos (r_world s3) = 0"
  proof (cases "e' = E_PSI_FILE_EXIST")
    case True
    then show thesis using that config_replaced [OF assms(1,2) s2(2), of h'] by auto
  next
    case False
    then show thesis using that s2(2,3) by auto
  qed
  have len: "length ?c < 2 ^ 31" using assms(4) by (simp add: ascii_def)
  obtain s4 where s4: "fwrite so h ?c (of_nat (length ?c)) s3 = (E_PSI_GEN_NONE, of_nat (length ?c), s4)" "live s4"
      "cont (r_world s4) = ?c"
    using served_write [OF assms(1) served s3(2) _ len] s3(3,4) by auto
  obtain s5 where s5: "fclose so h s4 = (E_PSI_GEN_NONE, s5)" "live s5" "cont (r_world s5) = ?c"
    using config_closed [OF assms(1,2) s4(2)] s4(3) by auto
  have len': "length ?c = length (config_serialize dc)" by (simp add: ascii_def)
  have "write_configuration (rfsv32_config so raw junk) d dc s = (E_PSI_GEN_NONE, s5)"
  proof (cases "e' = E_PSI_FILE_EXIST")
    case True
    then have "freplacefile so EPOC_OMODE_READ_WRITE config_path h' s2 = (E_PSI_GEN_NONE, h, s3)" using s3(1) by simp
    then show ?thesis
      using True s1(1,3) s2(1) s4(1) s5(1)
      unfolding write_configuration_def rfsv32_config_fields opMode_wronly by (auto simp: Let_def len')
  next
    case False
    then have "e' = E_PSI_GEN_NONE" "h' = h" "s2 = s3" using s3(1) by simp_all
    then show ?thesis
      using False s1(1,3) s2(1) s4(1) s5(1)
      unfolding write_configuration_def rfsv32_config_fields opMode_wronly by (auto simp: Let_def len')
  qed
  then show ?thesis using s5(2,3) by simp
qed

lemma config_read:
  assumes "serves so answer" and "config_server answer folder config_path h cont pos" and "live s"
    and "length (cont (r_world s)) < 2 ^ 32"
  shows "\<exists>e s'. read_configuration (rfsv32_config so raw junk) s =
      Some (config_deserialize (chars (cont (r_world s))), e, s') \<and> live s' \<and> cont (r_world s') = cont (r_world s)"
proof -
  let ?c = "cont (r_world s)" and ?d0 = "plpdirent_new (so_time so) raw"
  note served = config_server_rules(1) [OF assms(2)]
  obtain e d s1 where s1: "fgeteattr so config_path ?d0 s = (e, d, s1)" "live s1" "cont (r_world s1) = ?c"
      "e = E_PSI_GEN_NONE \<and> de_size d = of_nat (length ?c) \<or> e = E_PSI_FILE_NXIST \<and> ?c = []"
    using config_entry [OF assms(1-3)] by blast
  show ?thesis
  proof (cases "e = E_PSI_GEN_NONE")
    case False
    then have "?c = []" "config_deserialize (chars []) = None"
      using s1(4) by (auto simp: config_deserialize_def ini_deserialize_def ini_start_def chars_def)
    then show ?thesis
      using False s1 unfolding read_configuration_def rfsv32_config_fields by (simp add: Let_def)
  next
    case True
    then have size: "unat (de_size d) = length ?c"
      using s1(4) assms(4) epoc_errors(7) by (auto simp: unat_of_nat take_bit_eq_mod)
    obtain s2 where s2: "fopen so PSI_O_RDONLY config_path (so_junk so) s1 = (E_PSI_GEN_NONE, h, s2)" "live s2"
        "cont (r_world s2) = ?c" "pos (r_world s2) = 0"
      using served_open [OF assms(1) served s1(2), of PSI_O_RDONLY "so_junk so"] s1(3) by auto
    obtain s3 where s3: "fread so h (de_size d) s2 = Some (E_PSI_GEN_NONE, ?c, of_nat (length ?c), s3)" "live s3"
        "cont (r_world s3) = ?c"
      using served_read [OF assms(1) served s2(2), of "de_size d"] s2(3,4) size by auto
    obtain s4 where s4: "fclose so h s3 = (E_PSI_GEN_NONE, s4)" "live s4" "cont (r_world s4) = ?c"
      using config_closed [OF assms(1,2) s3(2)] s3(3) by auto
    show ?thesis
      using True s1(1) s2(1) s3(1) s4 size
      unfolding read_configuration_def rfsv32_config_fields by (simp add: Let_def split: option.split)
  qed
qed

section \<open>The identity of a device\<close>

lemma config_length:
  "length (config_serialize dc) = length (dc_id dc) + length (dc_name dc) + 16"
proof -
  have "sort_key fst [(''id'', dc_id dc), (''name'', dc_name dc)] = [(''id'', dc_id dc), (''name'', dc_name dc)]"
    by (simp add: less_eq_char_def less_char_def)
  then show ?thesis by (simp add: config_serialize_def ini_serialize_def ini_line_def)
qed

lemma uuid_length: "length b = 16 \<Longrightarrow> length (uuid4 b) = 36"
proof -
  have "length (concat (map uuid_hex xs)) = 2 * length xs" for xs
    by (induction xs) (simp_all add: uuid_hex_def)
  then show "length b = 16 \<Longrightarrow> length (uuid4 b) = 36" by (simp add: uuid4_def Let_def)
qed

lemma connect_without:
  assumes "serves so answer" and "config_server answer folder config_path h cont pos" and "live s"
    and "length (cont (r_world s)) < 2 ^ 32" and "config_deserialize (chars (cont (r_world s))) = None"
  shows "\<exists>s'. endpoint_connect (rfsv32_config so raw junk) random (Inr s) FACERR_NONE FACERR_NONE =
    Some (Inr \<lparr>ep_rfsv = s', ep_id = uuid4 random, ep_name = None, ep_hasPersistentConfiguration = False\<rparr>) \<and> live s'"
  using config_read [OF assms(1-4), of raw junk] assms(5) by (auto simp: endpoint_connect_def)

lemma connect_with:
  assumes "serves so answer" and "config_server answer folder config_path h cont pos" and "live s"
    and "cont (r_world s) = ascii (config_serialize dc)" and "length (config_serialize dc) < 2 ^ 32"
    and "value_ok (dc_id dc)" and "value_ok (dc_name dc)"
  shows "\<exists>s'. endpoint_connect (rfsv32_config so raw junk) random (Inr s) FACERR_NONE FACERR_NONE =
    Some (Inr \<lparr>ep_rfsv = s', ep_id = dc_id dc, ep_name = Some (dc_name dc), ep_hasPersistentConfiguration = True\<rparr>)"
proof -
  have "length (cont (r_world s)) < 2 ^ 32" "config_deserialize (chars (cont (r_world s))) = Some dc"
    using assms(4,5) config_read_back [OF assms(6,7)] by simp_all
  then show ?thesis
    using config_read [OF assms(1-3), of raw junk] by (auto simp: endpoint_connect_def)
qed

text \<open>
  C37: the identity of a device. The first connection to a device without a valid configuration gives it a
  fresh identifier; when its name is set, the identifier is written with the name to the configuration file, and every later
  connection gives the same identifier and that name, whatever random bytes it would have used. This holds whether
  the file and its directory were there before, for every name of the configuration's values.
\<close>

theorem device_identity_persists:
  assumes "serves so answer" and "config_server answer (d config_path) config_path h cont pos" and "live s"
    and "length (cont (r_world s)) < 2 ^ 32" and "config_deserialize (chars (cont (r_world s))) = None"
    and "value_ok name" and "length name < 2 ^ 30" and "length random = 16"
  shows "\<exists>ep ep'. endpoint_connect (rfsv32_config so raw junk) random (Inr s) FACERR_NONE FACERR_NONE = Some (Inr ep) \<and>
    ep_id ep = uuid4 random \<and> \<not> ep_hasPersistentConfiguration ep \<and>
    endpoint_setName (rfsv32_config so raw junk) d name ep = (E_PSI_GEN_NONE, ep') \<and> ep_name ep' = Some name \<and>
    (\<forall>random'. \<exists>s'. endpoint_connect (rfsv32_config so raw junk) random' (Inr (ep_rfsv ep')) FACERR_NONE FACERR_NONE =
       Some (Inr \<lparr>ep_rfsv = s', ep_id = uuid4 random, ep_name = Some name, ep_hasPersistentConfiguration = True\<rparr>))"
proof -
  let ?rm = "rfsv32_config so raw junk" and ?dc = "\<lparr>dc_id = uuid4 random, dc_name = name\<rparr>"
  obtain s1 where s1: "endpoint_connect ?rm random (Inr s) FACERR_NONE FACERR_NONE =
      Some (Inr \<lparr>ep_rfsv = s1, ep_id = uuid4 random, ep_name = None, ep_hasPersistentConfiguration = False\<rparr>)" "live s1"
    using connect_without [OF assms(1-5)] by blast
  have len: "length (config_serialize ?dc) < 2 ^ 31"
    using assms(7) uuid_length [OF assms(8)] by (simp add: config_length)
  obtain s2 where s2: "write_configuration ?rm d ?dc s1 = (E_PSI_GEN_NONE, s2)" "live s2"
      "cont (r_world s2) = ascii (config_serialize ?dc)"
    using config_written [where d = d, OF assms(1,2) s1(2) len] by blast
  let ?ep = "\<lparr>ep_rfsv = s1, ep_id = uuid4 random, ep_name = None, ep_hasPersistentConfiguration = False\<rparr>"
  let ?ep' = "\<lparr>ep_rfsv = s2, ep_id = uuid4 random, ep_name = Some name, ep_hasPersistentConfiguration = True\<rparr>"
  have "endpoint_setName ?rm d name ?ep = (E_PSI_GEN_NONE, ?ep')"
    using s2(1) by (simp add: endpoint_setName_def)
  moreover have "\<exists>s'. endpoint_connect ?rm random' (Inr s2) FACERR_NONE FACERR_NONE =
      Some (Inr \<lparr>ep_rfsv = s', ep_id = uuid4 random, ep_name = Some name, ep_hasPersistentConfiguration = True\<rparr>)" for random'
    using connect_with [OF assms(1,2) s2(2,3), of raw junk random'] len uuid_value_ok assms(6) by simp
  ultimately show ?thesis
    using s1(1) by (intro exI [of _ ?ep] exI [of _ ?ep']) simp
qed

text \<open>A device on which the file is not there yet.\<close>

definition config_answer :: "int \<Rightarrow> bytes \<Rightarrow> bytes \<times> nat \<Rightarrow> int \<times> bytes \<times> (bytes \<times> nat)" where
  "config_answer cc data d =
     (if cc = MK_DIR_ALL then (- 11, [], d)
      else if cc = CREATE_FILE then (if fst d = [] then (0, dword 7, ([], 0)) else (- 11, [], d))
      else if cc = REPLACE_FILE then (0, dword 7, ([], 0))
      else if cc = REMOTE_ENTRY then
        (if fst d = [] then (- 1, [], d)
         else (0, dword 0 @ dword 0 @ dword (of_nat (length (fst d))) @ replicate 20 0, d))
      else store_answer cc data d)"

lemma config_answer_serves:
  "config_server (device_answer config_answer) folder name 7 (\<lambda>w. fst (fst w)) (\<lambda>w. snd (fst w))"
proof -
  have same: "device_answer config_answer cc = device_answer store_answer cc"
    if "cc \<in> {OPEN_FILE, SEEK_FILE, READ_FILE, WRITE_FILE, CLOSE_HANDLE}" for cc
    using that by (auto simp: fun_eq_iff device_answer_def config_answer_def command_defs)
  have "file_server (device_answer config_answer) name 7 (\<lambda>w. fst (fst w)) (\<lambda>w. snd (fst w))"
    using store_answer_serves [of name] unfolding file_server_def by (simp add: same)
  then show ?thesis
    unfolding config_server_def
    by (auto simp: device_answer_def config_answer_def store_answer_def command_defs)
qed

theorem device_identity_persists_witness:
  "\<exists>ep ep' s'. endpoint_connect (rfsv32_config (device_socket env_sample config_answer) (time_sample 0) drive_zero)
      (replicate 16 0xAB) (Inr (device_session ([], 0))) FACERR_NONE FACERR_NONE = Some (Inr ep) \<and>
    endpoint_setName (rfsv32_config (device_socket env_sample config_answer) (time_sample 0) drive_zero) rev ''Netbook'' ep =
      (E_PSI_GEN_NONE, ep') \<and>
    endpoint_connect (rfsv32_config (device_socket env_sample config_answer) (time_sample 0) drive_zero)
      (replicate 16 0) (Inr (ep_rfsv ep')) FACERR_NONE FACERR_NONE =
      Some (Inr \<lparr>ep_rfsv = s', ep_id = ''abababab-abab-4bab-abab-abababababab'', ep_name = Some ''Netbook'',
        ep_hasPersistentConfiguration = True\<rparr>)"
proof -
  let ?s = "device_session ([], 0 :: nat)"
  have start: "length (fst (fst (r_world ?s))) < 2 ^ 32" "config_deserialize (chars (fst (fst (r_world ?s)))) = None"
    by (simp_all add: chars_def config_deserialize_def ini_deserialize_def ini_start_def)
  have name: "value_ok ''Netbook''" "length ''Netbook'' < 2 ^ 30" "length (replicate 16 (0xAB :: byte)) = 16"
    by (simp_all add: value_ok_def isspace_def less_eq_char_def)
  have "uuid4 (replicate 16 0xAB) = ''abababab-abab-4bab-abab-abababababab''" by code_simp
  then show ?thesis
    using device_identity_persists [where d = rev, OF device_socket_serves [of env_sample config_answer]
        config_answer_serves [of "rev config_path" config_path] device_session_simps(1) start name,
        of "time_sample 0" drive_zero] by fastforce
qed

end
