(* ===== verification/Ftp.thy ===== *)
theory Ftp
  imports Device
begin

text \<open>
  The helpers of \<open>plpftp/ftp.cc\<close>: reading local files, the command line, saving and starting programs,
  and the clipboard file. A local file is a string, and \<open>None\<close> where it cannot be opened; the progress output
  is not modelled.
\<close>

section \<open>Strings and local files\<close>

fun join_string_vector :: "string list \<Rightarrow> string \<Rightarrow> string" where
  "join_string_vector [] sep = []"
| "join_string_vector [w] sep = w"
| "join_string_vector (w # ws) sep = w @ sep @ join_string_vector ws sep"

text \<open>
  A line, and what follows it in the file. \<open>strchr\<close> finds the zero at the end of \<open>term\<close> as well. Blocks that
  \<open>realloc\<close> enlarges are taken to keep their place, as the pointer into the block is kept.
\<close>

fun get_upto :: "string \<Rightarrow> string \<Rightarrow> string \<times> string" where
  "get_upto term' [] = ([], [])"
| "get_upto term' (c # cs) =
     (if c \<in> set term' \<or> c = CHR 0x00 then ([], cs) else let (l, r) = get_upto term' cs in (c # l, r))"

definition getln :: "string \<Rightarrow> string \<times> string" where
  "getln = get_upto [CHR 0x0A]"

definition slurp :: "string \<Rightarrow> string" where
  "slurp fp = fst (get_upto [] fp)"

section \<open>The command line\<close>

text \<open>
  The loop of \<open>getCommand\<close>: the line with the zeros that it writes, and the positions at which words begin.
\<close>

fun command_loop :: "nat \<Rightarrow> string \<Rightarrow> bool \<Rightarrow> bool \<Rightarrow> string \<times> nat list" where
  "command_loop i [] ws quote = ([], [])"
| "command_loop i (c # cs) ws quote =
     (if c = CHR '' '' \<or> c = CHR 0x09 then
        (if \<not> quote then let (b, ps) = command_loop (i + 1) cs True quote in (CHR 0x00 # b, ps)
         else let (b, ps) = command_loop (i + 1) cs ws quote in (c # b, ps))
      else if c = CHR 0x22 then
        (let quote = (\<not> quote); (b, ps) = command_loop (i + 1) cs ws quote
         in ((if \<not> quote then CHR 0x00 else c) # b, ps))
      else let (b, ps) = command_loop (i + 1) cs False quote in (c # b, if ws then i # ps else ps))"

definition command_words :: "string \<Rightarrow> string list" where
  "command_words line =
     (let (buf, starts) = command_loop 0 line True False
      in map (\<lambda>i. takeWhile (\<lambda>c. c \<noteq> CHR 0x00) (drop i buf)) starts)"

text \<open>\<open>None\<close> is the end of the input.\<close>

definition getCommand :: "string option \<Rightarrow> string list" where
  "getCommand l = (case l of Some line \<Rightarrow> command_words line | None \<Rightarrow> [''bye''])"

text \<open>The attributes to set and to clear that the argument of \<open>sattr\<close> asks for.\<close>

definition sattr_on :: "32 word \<Rightarrow> bool \<Rightarrow> 32 word \<times> 32 word \<Rightarrow> 32 word \<times> 32 word" where
  "sattr_on flag' first a =
     (if first then (fst a OR flag', snd a AND NOT flag') else (fst a AND NOT flag', snd a OR flag'))"

fun sattr_loop :: "string \<Rightarrow> bool \<Rightarrow> 32 word \<times> 32 word \<Rightarrow> 32 word \<times> 32 word" where
  "sattr_loop [] first a = a"
| "sattr_loop (c # cs) first a =
     (if c = CHR ''+'' then sattr_loop cs True a
      else if c = CHR ''-'' then sattr_loop cs False a
      else if c = CHR ''r'' then
        sattr_loop cs first (if first then ((fst a OR PSI_A_READ) AND NOT PSI_A_READ, snd a)
                             else (fst a, (snd a OR PSI_A_READ) AND NOT PSI_A_READ))
      else if c = CHR ''w'' then sattr_loop cs first (sattr_on PSI_A_RDONLY (\<not> first) a)
      else if c = CHR ''h'' then sattr_loop cs first (sattr_on PSI_A_HIDDEN first a)
      else if c = CHR ''s'' then sattr_loop cs first (sattr_on PSI_A_SYSTEM first a)
      else if c = CHR ''a'' then sattr_loop cs first (sattr_on PSI_A_ARCHIVE first a)
      else sattr_loop cs first a)"

definition sattr_bits :: "string \<Rightarrow> 32 word \<times> 32 word" where
  "sattr_bits p = sattr_loop p True (0, 0)"

section \<open>The clipboard file\<close>

definition CLIPFILE :: string where "CLIPFILE = ''C:/System/Data/Clpboard.cbd''"

definition psi_char :: "char \<Rightarrow> char" where
  "psi_char c =
     (if c \<in> {CHR 0x06, CHR 0x07} then CHR 0x0A
      else if c = CHR 0x08 then CHR 0x0C
      else if c = CHR 0x0A then CHR 0x09
      else if c \<in> {CHR 0x0B, CHR 0x0C} then CHR ''-''
      else if c \<in> {CHR 0x0F, CHR 0x10} then CHR '' ''
      else c)"

definition psiText2ascii :: "string \<Rightarrow> string" where
  "psiText2ascii = map psi_char"

definition ascii_char :: "char \<Rightarrow> char" where
  "ascii_char c =
     (if c = CHR 0x00 \<or> c = CHR 0x0A then CHR 0x06
      else if c = CHR 0x0C then CHR 0x08
      else if c = CHR ''-'' then CHR 0x0B
      else c)"

definition ascii2PsiText :: "string \<Rightarrow> string" where
  "ascii2PsiText = map ascii_char"

definition clip_file :: "string \<Rightarrow> bytes" where
  "clip_file data =
     le32 0x10000037 @ le32 0x1000003b @ le32 0 @ le32 0x4739d53b @
     le32 0x14 @ [2] @ le32 0x10000033 @ le32 0x1d @ le32 (int (length data)) @ stringT data"

text \<open>Reading the buffer; outside it is undefined.\<close>

definition clip_dword :: "bytes \<Rightarrow> nat \<Rightarrow> 32 word option" where
  "clip_dword buf i =
     (if i + 4 \<le> length buf then Some (join32 (buf ! i) (buf ! (i + 1)) (buf ! (i + 2)) (buf ! (i + 3))) else None)"

definition clip_string :: "bytes \<Rightarrow> nat \<Rightarrow> string option" where
  "clip_string buf i =
     (if 0 \<in> set (drop i buf) then Some (chars (takeWhile (\<lambda>b. b \<noteq> 0) (drop i buf))) else None)"

definition clip_convert :: "nat \<Rightarrow> nat \<Rightarrow> bytes \<Rightarrow> bytes option" where
  "clip_convert p n buf =
     (if p + n \<le> length buf
      then Some (take p buf @ ascii (psiText2ascii (chars (take n (drop p buf)))) @ drop (p + n) buf) else None)"

text \<open>
  The loop over the section table, at the position \<open>td\<close>: the buffer, in which the text is converted, and the text so
  far.
\<close>

function clip_sections :: "int \<Rightarrow> nat \<Rightarrow> bytes \<Rightarrow> string \<Rightarrow> string option" where
  "clip_sections lcount td buf clipText =
     (if lcount > 0 then do {
        sType \<leftarrow> clip_dword buf td;
        (buf, clipText) \<leftarrow>
          (if sType = 0x10000033 then do {
             p \<leftarrow> clip_dword buf (td + 4);
             len \<leftarrow> clip_dword buf (unat p);
             buf \<leftarrow> clip_convert (unat p + 4) (unat len) buf;
             s \<leftarrow> clip_string buf (unat p + 4);
             Some (buf, clipText @ s) }
           else Some (buf, clipText));
        clip_sections (lcount - 2) (td + 8) buf clipText }
      else Some clipText)"
  by pat_completeness auto
termination by (relation "measure (\<lambda>(lcount, td, buf, t). nat lcount)") auto

declare clip_sections.simps [simp del]

datatype clip_result = ClipUndefined | ClipBad | ClipText string

definition clip_check :: "bytes \<Rightarrow> bool option" where
  "clip_check buf = do {
     a \<leftarrow> clip_dword buf 0;
     if a \<noteq> 0x10000037 then Some False else do {
     b \<leftarrow> clip_dword buf 4;
     if b \<noteq> 0x1000003b then Some False else do {
     c \<leftarrow> clip_dword buf 8;
     if c \<noteq> 0 then Some False else do {
     d \<leftarrow> clip_dword buf 12;
     Some (d = 0x4739d53b) }}}}"

definition clip_parse :: "bytes \<Rightarrow> clip_result" where
  "clip_parse buf =
     (case clip_check buf of
        None \<Rightarrow> ClipUndefined
      | Some False \<Rightarrow> ClipBad
      | Some True \<Rightarrow>
          (case (do {
             off \<leftarrow> clip_dword buf 16;
             let p = unat off;
             lcount \<leftarrow> (if p < length buf then Some (sint (buf ! p)) else None);
             clip_sections lcount (p + 1) buf [] }) of
             None \<Rightarrow> ClipUndefined
           | Some t \<Rightarrow> ClipText t))"

end
