(* ===== verification/FtpSession.thy ===== *)
theory FtpSession
  imports Ftp Rpcs PathUtils
begin

unbundle bit_operations_syntax

text \<open>
  \<open>FTP::session\<close> of \<open>plpftp/ftp.cc\<close>: its commands and its loop, over the methods of \<open>RFSV\<close>, \<open>RPCS\<close>
  and \<open>rclip\<close> that it calls. \<open>'w\<close> is the object \<open>rfsv\<close> with the local files, \<open>'r\<close> the objects of the other two
  connections. What is printed is a list of values of \<open>ftp_out\<close>; the layout of tables and the measured speed are
  not modelled. \<open>None\<close> is a command that does not return.
\<close>

section \<open>The objects\<close>

record ('w, 'r) ftp_remote = "'w config_remote" +
  fr_getProtocolVersion :: int
  fr_defaultInternalDriveLetter :: char
  fr_setVolumeName :: "char \<Rightarrow> string \<Rightarrow> 'w \<Rightarrow> int \<times> 'w"
  fr_copyOnPsion :: "string \<Rightarrow> string \<Rightarrow> 'w \<Rightarrow> (int \<times> 'w) option"
  fr_copyFromPsion :: "string \<Rightarrow> string \<Rightarrow> 'w \<Rightarrow> (int \<times> 'w) option"
  fr_copyToPsion :: "string \<Rightarrow> string \<Rightarrow> 'w \<Rightarrow> (int \<times> 'w) option"
  fr_touch :: "string \<Rightarrow> 'w \<Rightarrow> int \<times> 'w"
  fr_fgetattr :: "string \<Rightarrow> 'w \<Rightarrow> int \<times> 32 word \<times> 'w"
  fr_fgetmtime :: "string \<Rightarrow> 'w \<Rightarrow> int \<times> psitime \<times> 'w"
  fr_getSpeed :: "'w \<Rightarrow> int \<times> 'w"
  rp_execProgram :: "string \<Rightarrow> string \<Rightarrow> 'r \<Rightarrow> int \<times> 'r"
  rp_stopProgram :: "string \<Rightarrow> 'r \<Rightarrow> int \<times> 'r"
  rp_queryPrograms :: "'r \<Rightarrow> int \<times> psiprocess list \<times> 'r"
  rp_setTime :: "'r \<Rightarrow> int \<times> 'r"
  rp_getOwnerInfo :: "'r \<Rightarrow> int \<times> bytes list \<times> 'r"
  rp_getMachineType :: "'r \<Rightarrow> int \<times> int \<times> 'r"
  rp_getMachineInfo :: "'r \<Rightarrow> int \<times> machineInfo \<times> 'r"
  rp_configRead :: "32 word \<Rightarrow> 'r \<Rightarrow> (int \<times> bytes \<times> 'r) option"
  rp_initClipbd :: "'r \<Rightarrow> int \<times> 'r"

datatype ftp_out =
    Err int | Usage | SyntaxError | Said string | Entry plpdirent | Count "32 word" | Attr "32 word" | Time psitime
  | DriveLine char drive | Proc psiprocess | NotStarted string int | NoProcess | System string
  | MachInfo machineInfo | Connected "string option" int int

section \<open>Programs\<close>

text \<open>The local file that \<open>killsave\<close> writes.\<close>

definition process_file :: "psiprocess list \<Rightarrow> string" where
  "process_file ps = ''#plpftp processlist'' @ [CHR 0x0A] @ concat (map (\<lambda>p. pp_args p @ [CHR 0x0A]) ps)"

fun stop_all :: "('w, 'r) ftp_remote \<Rightarrow> psiprocess list \<Rightarrow> 'r \<Rightarrow> 'r" where
  "stop_all rm [] r = r"
| "stop_all rm (p # ps) r = (let (_, r) = rp_stopProgram rm (getProcId p) r in stop_all rm ps r)"

text \<open>The loop until no program is left. The message after five seconds and the wait for the user are left out.\<close>

partial_function (option) stop_loop ::
  "('w, 'r) ftp_remote \<Rightarrow> psiprocess list \<Rightarrow> 'r \<Rightarrow> (int \<times> ftp_out list \<times> 'r) option" where
  "stop_loop rm ps r =
     (if ps = [] then Some (0, [], r)
      else let (res, ps, r) = rp_queryPrograms rm (stop_all rm ps r)
      in if res \<noteq> E_PSI_GEN_NONE then Some (1, [Err res], r) else stop_loop rm ps r)"

text \<open>Whether the local file can be created; its contents.\<close>

definition stopPrograms ::
  "('w, 'r) ftp_remote \<Rightarrow> bool \<Rightarrow> 'r \<Rightarrow> (int \<times> string option \<times> ftp_out list \<times> 'r) option" where
  "stopPrograms rm opened r =
     (if \<not> opened then Some (1, None, [Said ''Could not open command list file''], r)
      else let (res, ps, r) = rp_queryPrograms rm r
      in if res \<noteq> E_PSI_GEN_NONE then Some (1, Some (process_file []), [Err res], r)
      else do {
        (ret, out, r) \<leftarrow> stop_loop rm ps r;
        Some (ret, Some (process_file ps), out, r) })"

text \<open>The attempts to find a program on the drives.\<close>

definition app_path :: "nat \<Rightarrow> string \<Rightarrow> string" where
  "app_path i prog =
     char_of (65 + i) # '':'' @ [CHR 0x5C] @ ''System'' @ [CHR 0x5C] @ ''Apps'' @ [CHR 0x5C] @ prog @ [CHR 0x5C] @ prog @ ''.app''"

fun exec_drives :: "('w, 'r) ftp_remote \<Rightarrow> 32 word \<Rightarrow> string \<Rightarrow> nat list \<Rightarrow> int \<Rightarrow> 'r \<Rightarrow> int \<times> 'r" where
  "exec_drives rm devbits prog [] res r = (res, r)"
| "exec_drives rm devbits prog (i # is) res r =
     (if devbits AND push_bit i 1 \<noteq> 0 then
        let (res, r) = rp_execProgram rm (app_path i prog) [] r
        in if res = E_PSI_GEN_NONE then (res, r) else exec_drives rm devbits prog is res r
      else exec_drives rm devbits prog is res r)"

text \<open>
  The program of a line of the list and the argument it is started with: without a blank, the argument is the
  line again; an argument that is a path is started in place of the program.
\<close>

definition line_program :: "string \<Rightarrow> string \<times> string" where
  "line_program cmd =
     (let prog = takeWhile (\<lambda>c. c \<noteq> CHR '' '') cmd;
          arg = (if CHR '' '' \<in> set cmd then drop (length prog + 1) cmd else cmd)
      in if length arg > 2 \<and> arg ! 1 = CHR '':'' \<and> CHR ''A'' \<le> arg ! 0 \<and> arg ! 0 \<le> CHR ''Z'' then (arg, []) else (prog, arg))"

definition start_line ::
  "('w, 'r) ftp_remote \<Rightarrow> string \<Rightarrow> 'w \<Rightarrow> 'r \<Rightarrow> (ftp_out list \<times> 'w \<times> 'r) option" where
  "start_line rm cmd w r =
     (let prog = takeWhile (\<lambda>c. c \<noteq> CHR '' '') cmd
      in if prog = [] then Some ([], w, r)
      else
        let (p, a) = line_program cmd; (res, r) = rp_execProgram rm p a r
        in do {
          (res, w, r) \<leftarrow>
            (if res \<noteq> E_PSI_GEN_NONE \<and> CHR 0x5C \<notin> set prog then do {
               (res, devbits, w) \<leftarrow> rm_devlist rm (rm_junk rm) w;
               if res = E_PSI_GEN_NONE
               then let (res, r) = exec_drives rm devbits prog [0..<26] res r in Some (res, w, r)
               else Some (res, w, r) }
             else Some (res, w, r));
          Some (if res \<noteq> E_PSI_GEN_NONE then [NotStarted cmd res] else [], w, r) })"

lemma get_upto_rest: "length (snd (get_upto t s)) \<le> length s - (if s = [] then 0 else 1)"
  by (induction s) (auto split: prod.splits)

text \<open>The lines up to the first empty one.\<close>

function start_lines ::
  "('w, 'r) ftp_remote \<Rightarrow> string \<Rightarrow> 'w \<Rightarrow> 'r \<Rightarrow> (ftp_out list \<times> 'w \<times> 'r) option" where
  "start_lines rm fp w r =
     (let (cmd, rest) = getln fp
      in if cmd = [] then Some ([], w, r)
      else do {
        (out, w, r) \<leftarrow> start_line rm cmd w r;
        (outs, w, r) \<leftarrow> start_lines rm rest w r;
        Some (out @ outs, w, r) })"
  by pat_completeness auto
termination
proof (relation "measure (\<lambda>(rm, fp, w, r). length fp)")
  fix rm :: "('w, 'r) ftp_remote" and fp cmd rest :: string and w :: 'w and r :: 'r and out w' r' x y p
  assume "x = getln fp" "(cmd, rest) = x" "cmd \<noteq> []"
  then have "fp \<noteq> []" "rest = snd (get_upto [CHR 0x0A] fp)" by (auto simp: getln_def) (metis snd_conv)
  then have "length rest < length fp" using get_upto_rest [of "[CHR 0x0A]" fp] by (cases fp) auto
  then show "((rm, rest, w', r'), rm, fp, w, r) \<in> measure (\<lambda>(rm, fp, w, r). length fp)" by simp
qed simp

declare start_lines.simps [simp del]

definition startPrograms ::
  "('w, 'r) ftp_remote \<Rightarrow> string option \<Rightarrow> 'w \<Rightarrow> 'r \<Rightarrow> (int \<times> ftp_out list \<times> 'w \<times> 'r) option" where
  "startPrograms rm file w r =
     (case file of
        None \<Rightarrow> Some (1, [Said ''Could not open command list file''], w, r)
      | Some fp \<Rightarrow>
          let (cmd, rest) = getln fp
          in if cmd \<noteq> ''#plpftp processlist''
             then Some (1, [Said ''is not a process list saved with killsave''], w, r)
             else do { (out, w, r) \<leftarrow> start_lines rm rest w r; Some (0, out, w, r) })"

section \<open>The clipboard\<close>

definition checkClipConnection :: "('w, 'r) ftp_remote \<Rightarrow> 'r \<Rightarrow> bool \<times> ftp_out list \<times> 'r" where
  "checkClipConnection rm r =
     (if fr_getProtocolVersion rm = 3 then (False, [Said ''Clipboard protocol not supported by Psion Series 3.''], r)
      else let (ret, r) = rp_initClipbd rm r
      in if ret = E_PSI_GEN_NONE then (True, [], r)
      else (False, if ret = E_PSI_GEN_NSUP then [Said ''Your Psion does not support the clipboard protocol.''] else [], r))"

definition putClipText ::
  "('w, 'r) ftp_remote \<Rightarrow> string option \<Rightarrow> 'w \<Rightarrow> 'r \<Rightarrow> int \<times> ftp_out list \<times> 'w \<times> 'r" where
  "putClipText rm file w r =
     (let (ok, out, r) = checkClipConnection rm r
      in if \<not> ok then (1, out, w, r)
      else case file of
        None \<Rightarrow> (1, out, w, r)
      | Some fp \<Rightarrow>
          let data = ascii2PsiText (slurp fp);
              (res, fh, w) = rm_freplacefile rm 0x200 CLIPFILE (rm_junk rm) w
          in if res = E_PSI_GEN_NONE then
               let b = clip_file data;
                   (_, _, w) = rm_fwrite rm fh b (of_nat (length b)) w;
                   (_, w) = rm_fclose rm fh w;
                   (_, w) = rm_fsetattr rm CLIPFILE 0x20 0x07 w
               in (0, out, w, r)
             else (0, out, w, r))"

text \<open>
  The text of the clipboard; \<open>ClipUndefined\<close> if the file refers to places outside it. \<open>created\<close> tells whether
  the local file can be created; its contents are the second result.
\<close>

definition clip_read :: "('w, 'r) ftp_remote \<Rightarrow> 'w \<Rightarrow> (clip_result \<times> 'w) option" where
  "clip_read rm w =
     (let (res, de, w) = rm_fgeteattr rm CLIPFILE w
      in if res \<noteq> E_PSI_GEN_NONE \<or> de_attr de AND PSI_A_ARCHIVE = 0 then Some (ClipText [], w)
      else let len = de_size de;
               (res, fh, w) = rm_fopen rm (rm_opMode rm (PSI_O_RDONLY OR PSI_O_SHARE)) CLIPFILE (rm_junk rm) w
      in if res \<noteq> E_PSI_GEN_NONE then Some (ClipText [], w)
      else do {
        (res, buf, tmp, w) \<leftarrow> rm_fread rm fh len w;
        let (_, w) = rm_fclose rm fh w;
        Some (if res = E_PSI_GEN_NONE \<and> tmp = len then clip_parse buf else ClipText [], w) })"

definition getClipData ::
  "('w, 'r) ftp_remote \<Rightarrow> bool \<Rightarrow> 'w \<Rightarrow> 'r \<Rightarrow> (int \<times> string option \<times> ftp_out list \<times> 'w \<times> 'r) option" where
  "getClipData rm created w r =
     (let (ok, out, r) = checkClipConnection rm r
      in if \<not> ok then Some (1, None, out, w, r)
      else do {
        (c, w) \<leftarrow> clip_read rm w;
        case c of
          ClipUndefined \<Rightarrow> None
        | ClipBad \<Rightarrow> Some (1, None, out, w, r)
        | ClipText t \<Rightarrow> Some (if \<not> created then (1, None, out, w, r) else (0, Some t, out, w, r)) })"

section \<open>The session\<close>

text \<open>What the host provides; \<open>fh_chdir\<close> takes the working directory and a name; \<open>fh_resolve\<close> is \<open>resolve_epoc_path\<close>, which is commented out in \<open>lib/pathutils.cc\<close>.\<close>

record ftp_host =
  fh_resolve :: "string \<Rightarrow> string \<Rightarrow> string"
  fh_dirname :: "string \<Rightarrow> string"
  fh_fnmatch :: "string \<Rightarrow> string \<Rightarrow> bool"
  fh_chdir :: "string \<Rightarrow> string \<Rightarrow> string option"
  fh_readdir :: "string \<Rightarrow> (string \<times> bool) list option"
  fh_file :: "string \<Rightarrow> string option"
  fh_creates :: "string \<Rightarrow> bool"
  fh_DDRIVE :: string
  fh_DBASEDIR :: string

text \<open>\<open>ft_cwd\<close> is the working directory of the process, \<open>ft_yes\<close> are the answers that the user will give.\<close>

record ('w, 'r) ftp =
  ft_ep :: "'w endpoint"
  ft_rpcs :: 'r
  ft_defDrive :: string
  ft_psionDir :: string
  ft_cwd :: string
  ft_localDir :: string
  ft_prompt :: bool
  ft_hash :: bool
  ft_continueRunning :: bool
  ft_yes :: "bool list"

definition set_rfsv :: "'w \<Rightarrow> ('w, 'r) ftp \<Rightarrow> ('w, 'r) ftp" where
  "set_rfsv w st = st\<lparr>ft_ep := (ft_ep st)\<lparr>ep_rfsv := w\<rparr>\<rparr>"

definition err_out :: "int \<Rightarrow> ftp_out list" where
  "err_out res = (if res \<noteq> E_PSI_GEN_NONE then [Err res] else [])"

text \<open>A command that calls one method and prints its error.\<close>

definition rfsv_call :: "('w \<Rightarrow> int \<times> 'w) \<Rightarrow> ('w, 'r) ftp \<Rightarrow> (ftp_out list \<times> ('w, 'r) ftp) option" where
  "rfsv_call f st = (let (res, w) = f (ep_rfsv (ft_ep st)) in Some (err_out res, set_rfsv w st))"

definition psion_path :: "string \<Rightarrow> ('w, 'r) ftp \<Rightarrow> string" where
  "psion_path name st = ft_psionDir st @ name"

definition local_path :: "string \<Rightarrow> ('w, 'r) ftp \<Rightarrow> string" where
  "local_path name st = ft_localDir st @ ''/'' @ name"

definition epoc_dir_from :: "ftp_host \<Rightarrow> string \<Rightarrow> ('w, 'r) ftp \<Rightarrow> string" where
  "epoc_dir_from fh path st =
     (let f1 = fh_resolve fh path (ft_psionDir st)
      in if last f1 \<noteq> CHR ''/'' \<and> last f1 \<noteq> CHR 0x5C then f1 @ [CHR 0x5C] else f1)"

definition resetUnixWd :: "('w, 'r) ftp \<Rightarrow> ('w, 'r) ftp" where
  "resetUnixWd st = st\<lparr>ft_localDir := ft_cwd st\<rparr>"

text \<open>
  \<open>yesno\<close> is asked only while prompting is on. Without it \<open>mget\<close> goes on with yes; \<open>mput\<close> prints the y but
  leaves \<open>yes\<close> false.
\<close>

definition ask_yes :: "bool \<Rightarrow> ('w, 'r) ftp \<Rightarrow> bool \<times> ('w, 'r) ftp" where
  "ask_yes otherwise st =
     (if ft_prompt st then (case ft_yes st of [] \<Rightarrow> (False, st) | a # as \<Rightarrow> (a, st\<lparr>ft_yes := as\<rparr>)) else (otherwise, st))"

definition transfer ::
  "('w \<Rightarrow> (int \<times> 'w) option) \<Rightarrow> ('w, 'r) ftp \<Rightarrow> (bool \<times> ftp_out list \<times> ('w, 'r) ftp) option" where
  "transfer f st = do {
     (res, w) \<leftarrow> f (ep_rfsv (ft_ep st));
     let st = set_rfsv w st;
     Some (if res \<noteq> E_PSI_GEN_NONE then (False, [Err res], st\<lparr>ft_continueRunning := True\<rparr>)
           else (True, [Said ''Transfer complete''], st)) }"

fun mget_loop ::
  "('w, 'r) ftp_remote \<Rightarrow> ftp_host \<Rightarrow> string \<Rightarrow> plpdirent list \<Rightarrow> ('w, 'r) ftp \<Rightarrow>
   (ftp_out list \<times> ('w, 'r) ftp) option" where
  "mget_loop rm fh pattern [] st = Some ([], st)"
| "mget_loop rm fh pattern (e # es) st =
     (if de_attr e AND (PSI_A_DIR OR PSI_A_VOLUME) \<noteq> 0 \<or> \<not> fh_fnmatch fh pattern (de_name e)
      then mget_loop rm fh pattern es st
      else let (yes, st) = ask_yes True st
      in if yes then do {
           (ok, out, st) \<leftarrow> transfer (fr_copyFromPsion rm (psion_path (de_name e) st) (local_path (de_name e) st)) st;
           if ok then do { (outs, st) \<leftarrow> mget_loop rm fh pattern es st; Some (out @ outs, st) } else Some (out, st) }
         else mget_loop rm fh pattern es st)"

fun mput_loop ::
  "('w, 'r) ftp_remote \<Rightarrow> ftp_host \<Rightarrow> string \<Rightarrow> (string \<times> bool) list \<Rightarrow> ('w, 'r) ftp \<Rightarrow>
   (ftp_out list \<times> ('w, 'r) ftp) option" where
  "mput_loop rm fh pattern [] st = Some ([], st)"
| "mput_loop rm fh pattern ((name, regular) # es) st =
     (if \<not> fh_fnmatch fh pattern name \<or> \<not> regular then mput_loop rm fh pattern es st
      else let (yes, st) = ask_yes False st
      in if yes then do {
           (ok, out, st) \<leftarrow> transfer (fr_copyToPsion rm (local_path name st) (psion_path name st)) st;
           if ok then do { (outs, st) \<leftarrow> mput_loop rm fh pattern es st; Some (out @ outs, st) } else Some (out, st) }
         else mput_loop rm fh pattern es st)"

fun devs_loop :: "('w, 'r) ftp_remote \<Rightarrow> 32 word \<Rightarrow> nat list \<Rightarrow> 'w \<Rightarrow> ftp_out list \<times> 'w" where
  "devs_loop rm devbits [] w = ([], w)"
| "devs_loop rm devbits (i # is) w =
     (if devbits AND 1 \<noteq> 0 then
        let (res, d, w) = rm_devinfo rm (char_of (65 + i)) (rm_drive rm) w;
            (outs, w) = devs_loop rm (drop_bit 1 devbits) is w
        in (if res = E_PSI_GEN_NONE then DriveLine (char_of (65 + i)) d # outs else outs, w)
      else devs_loop rm (drop_bit 1 devbits) is w)"

fun kill_pid :: "('w, 'r) ftp_remote \<Rightarrow> int \<Rightarrow> psiprocess list \<Rightarrow> bool \<Rightarrow> 'r \<Rightarrow> bool \<times> 'r" where
  "kill_pid rm kpid [] anykilled r = (anykilled, r)"
| "kill_pid rm kpid (p # ps) anykilled r =
     (if kpid = - 1 \<or> kpid = pp_pid p
      then let (_, r) = rp_stopProgram rm (getProcId p) r in kill_pid rm kpid ps True r
      else kill_pid rm kpid ps anykilled r)"

text \<open>An argument that is no number leaves the variable uninitialised.\<close>

fun kill_loop :: "('w, 'r) ftp_remote \<Rightarrow> string list \<Rightarrow> psiprocess list \<Rightarrow> bool \<Rightarrow> 'r \<Rightarrow> bool \<times> 'r" where
  "kill_loop rm [] ps anykilled r = (anykilled, r)"
| "kill_loop rm (a # as) ps anykilled r =
     (let kpid = (if a = ''all'' then - 1 else case scan_int a of Some n \<Rightarrow> n | None \<Rightarrow> sint (rm_junk rm));
          (anykilled, r) = kill_pid rm kpid ps anykilled r
      in if kpid = - 1 then (anykilled, r) else kill_loop rm as ps anykilled r)"

section \<open>Its commands\<close>

definition cmd_cd ::
  "('w, 'r) ftp_remote \<Rightarrow> ftp_host \<Rightarrow> string list \<Rightarrow> ('w, 'r) ftp \<Rightarrow> (ftp_out list \<times> ('w, 'r) ftp) option" where
  "cmd_cd rm fh argv st =
     (if length argv = 1 then Some ([], st\<lparr>ft_psionDir := ft_defDrive st @ fh_DBASEDIR fh\<rparr>)
      else let newDir = epoc_dir_from fh (argv ! 1) st in do {
        (res, tmp, w) \<leftarrow> rm_dircount rm newDir (ep_rfsv (ft_ep st));
        let st = set_rfsv w st;
        Some (if res \<noteq> E_PSI_GEN_NONE then ([Err res, Said ''Keeping original directory''], st)
              else ([], st\<lparr>ft_psionDir := newDir\<rparr>)) })"

definition cmd_lcd :: "ftp_host \<Rightarrow> string list \<Rightarrow> ('w, 'r) ftp \<Rightarrow> (ftp_out list \<times> ('w, 'r) ftp) option" where
  "cmd_lcd fh argv st =
     Some (if length argv = 1 then ([], resetUnixWd st)
           else case fh_chdir fh (ft_cwd st) (argv ! 1) of
             Some d \<Rightarrow> ([], resetUnixWd (st\<lparr>ft_cwd := d\<rparr>))
           | None \<Rightarrow> ([Said ''No such directory''], st))"

definition cmd_dir ::
  "('w, 'r) ftp_remote \<Rightarrow> ftp_host \<Rightarrow> string list \<Rightarrow> ('w, 'r) ftp \<Rightarrow> (ftp_out list \<times> ('w, 'r) ftp) option" where
  "cmd_dir rm fh argv st = do {
     (res, files, w) \<leftarrow> rm_dir rm (if length argv > 1 then epoc_dir_from fh (argv ! 1) st else ft_psionDir st)
       (ep_rfsv (ft_ep st));
     Some (if res \<noteq> E_PSI_GEN_NONE then [Err res] else map Entry files, set_rfsv w st) }"

definition cmd_get ::
  "('w, 'r) ftp_remote \<Rightarrow> ftp_host \<Rightarrow> string list \<Rightarrow> ('w, 'r) ftp \<Rightarrow> (ftp_out list \<times> ('w, 'r) ftp) option" where
  "cmd_get rm fh argv st =
     (let f1 = fh_resolve fh (argv ! 1) (ft_psionDir st);
          f2 = local_path (if length argv = 2 then epoc_basename f1 else argv ! 2) st
      in do { (ok, out, st) \<leftarrow> transfer (fr_copyFromPsion rm f1 f2) st; Some (out, st) })"

definition cmd_mget ::
  "('w, 'r) ftp_remote \<Rightarrow> ftp_host \<Rightarrow> string list \<Rightarrow> ('w, 'r) ftp \<Rightarrow> (ftp_out list \<times> ('w, 'r) ftp) option" where
  "cmd_mget rm fh argv st = do {
     (res, files, w) \<leftarrow> rm_dir rm (ft_psionDir st) (ep_rfsv (ft_ep st));
     let st = set_rfsv w st;
     if res \<noteq> E_PSI_GEN_NONE then Some ([Err res], st) else mget_loop rm fh (argv ! 1) files st }"

definition cmd_put ::
  "('w, 'r) ftp_remote \<Rightarrow> string list \<Rightarrow> ('w, 'r) ftp \<Rightarrow> (ftp_out list \<times> ('w, 'r) ftp) option" where
  "cmd_put rm argv st = do {
     (ok, out, st) \<leftarrow> transfer (fr_copyToPsion rm (local_path (argv ! 1) st)
       (psion_path (if length argv = 2 then argv ! 1 else argv ! 2) st)) st;
     Some (out, st) }"

definition cmd_mput ::
  "('w, 'r) ftp_remote \<Rightarrow> ftp_host \<Rightarrow> string list \<Rightarrow> ('w, 'r) ftp \<Rightarrow> (ftp_out list \<times> ('w, 'r) ftp) option" where
  "cmd_mput rm fh argv st =
     (case fh_readdir fh (ft_localDir st) of
        None \<Rightarrow> Some ([Said ''Error in directory name''], st)
      | Some es \<Rightarrow> mput_loop rm fh (argv ! 1) es st)"

definition cmd_devs :: "('w, 'r) ftp_remote \<Rightarrow> ('w, 'r) ftp \<Rightarrow> (ftp_out list \<times> ('w, 'r) ftp) option" where
  "cmd_devs rm st = do {
     (res, devbits, w) \<leftarrow> rm_devlist rm (rm_junk rm) (ep_rfsv (ft_ep st));
     let (out, w) = (if res = E_PSI_GEN_NONE then devs_loop rm devbits [0..<26] w else ([Err res], w));
     Some (out, set_rfsv w st) }"

definition cmd_kill ::
  "('w, 'r) ftp_remote \<Rightarrow> string list \<Rightarrow> ('w, 'r) ftp \<Rightarrow> (ftp_out list \<times> ('w, 'r) ftp) option" where
  "cmd_kill rm argv st =
     (let (res, ps, r) = rp_queryPrograms rm (ft_rpcs st)
      in if res \<noteq> E_PSI_GEN_NONE then Some ([Err res], st\<lparr>ft_rpcs := r\<rparr>)
      else let (anykilled, r) = kill_loop rm (drop 1 argv) ps False r
      in Some (if anykilled then [] else [NoProcess], st\<lparr>ft_rpcs := r\<rparr>))"

text \<open>What \<open>setupinfo\<close> prints of the scratch memory, a line for each entry.\<close>

definition setup_dword :: "bytes \<Rightarrow> nat \<Rightarrow> 32 word" where
  "setup_dword db i = join32 (db ! i) (db ! (i + 1)) (db ! (i + 2)) (db ! (i + 3))"

definition setup_lines :: "bytes \<Rightarrow> string list" where
  "setup_lines db =
     (let dw = setup_dword db;
          volume = (\<lambda>i. if dw i \<noteq> 0 then if dw (i + 4) \<noteq> 0 then ''high'' else ''low'' else ''off'');
          yes_no = (\<lambda>i. if dw i \<noteq> 0 then ''yes'' else ''no'')
      in [''Setup information:'',
          ''  Screen contrast:                  '' @ decimal (uint (dw 0x4c + 1)),
          ''  Keyboard click:                   '' @ volume 0x200,
          ''  Screen click:                     '' @ volume 0x20c,
          ''  Error sound:                      '' @ volume 0x214,
          ''  Auto-switch off:                  '' @
            (if dw 0x228 = 0 then ''never'' else if dw 0x228 = 1 then ''if running on battery power''
             else if dw 0x228 = 2 then ''always'' else [])] @
         (if dw 0x228 \<noteq> 0 then [''  Switch off after:                 '' @ decimal (uint (dw 0x22c)) @ '' seconds'']
          else []) @
         [''  Backlight off after:              '' @ decimal (uint (dw 0x234)) @ '' seconds'',
          ''  Switch on when tapping on screen: '' @ yes_no 0x238,
          ''  Switch on when opening:           '' @ yes_no 0x23c,
          ''  Switch off when closing:          '' @ yes_no 0x23c,
          ''  Ask for password on startup:      '' @ yes_no 0x29c,
          ''  Show Owner info on startup:       '' @
            (if db ! 0x3b0 = 0x31 then ''never'' else if db ! 0x3b0 = 0x32 then ''once a day''
             else if db ! 0x3b0 = 0x33 then ''always'' else [])])"

definition cmd_setupinfo :: "('w, 'r) ftp_remote \<Rightarrow> ('w, 'r) ftp \<Rightarrow> (ftp_out list \<times> ('w, 'r) ftp) option" where
  "cmd_setupinfo rm st = do {
     (res, db, r) \<leftarrow> rp_configRead rm 0 (ft_rpcs st);
     Some (if res \<noteq> E_PSI_GEN_NONE then [Err res]
           else if length db < 1152 then [Said ''Unknown setup info received'']
           else map Said (setup_lines db), st\<lparr>ft_rpcs := r\<rparr>) }"

text \<open>The argument of the program begins with its own name.\<close>

definition cmd_run ::
  "('w, 'r) ftp_remote \<Rightarrow> string list \<Rightarrow> ('w, 'r) ftp \<Rightarrow> (ftp_out list \<times> ('w, 'r) ftp) option" where
  "cmd_run rm argv st =
     (let arg = join_string_vector (drop 1 argv) '' '';
          cmd = (if CHR '':'' \<notin> set (argv ! 1) then psion_path (argv ! 1) st else argv ! 1);
          (_, r) = rp_execProgram rm cmd arg (ft_rpcs st)
      in Some ([], st\<lparr>ft_rpcs := r\<rparr>))"

text \<open>
  The commands of one line, in the order of the code; the first argument is the command.
\<close>

definition ftp_rfsv_command ::
  "('w, 'r) ftp_remote \<Rightarrow> ftp_host \<Rightarrow> string list \<Rightarrow> ('w, 'r) ftp \<Rightarrow> (ftp_out list \<times> ('w, 'r) ftp) option option" where
  "ftp_rfsv_command rm fh argv st =
     (let c = argv ! 0; argc = length argv; w = ep_rfsv (ft_ep st);
          f1 = (if argc > 1 then psion_path (argv ! 1) st else []); f2 = (if argc > 2 then psion_path (argv ! 2) st else [])
      in if c = ''volname'' \<and> argc = 3 \<and> length (argv ! 1) = 1 then
           Some (rfsv_call (fr_setVolumeName rm (toupper (argv ! 1 ! 0)) (argv ! 2)) st)
         else if c = ''ren'' \<and> argc = 3 then Some (rfsv_call (rm_rename rm f1 f2) st)
         else if c = ''cp'' \<and> argc = 3 then
           Some (do { (res, w) \<leftarrow> fr_copyOnPsion rm f1 f2 w; Some (err_out res, set_rfsv w st) })
         else if c = ''touch'' \<and> argc = 2 then Some (rfsv_call (fr_touch rm f1) st)
         else if c = ''test'' \<and> argc = 2 then
           Some (let (res, e, w) = rm_fgeteattr rm f1 w
                 in Some (if res \<noteq> E_PSI_GEN_NONE then [Err res] else [Entry e], set_rfsv w st))
         else if c = ''gattr'' \<and> argc = 2 then
           Some (let (res, a, w) = fr_fgetattr rm f1 w
                 in Some (if res \<noteq> E_PSI_GEN_NONE then [Err res] else [Attr a, Said (attr2String a)], set_rfsv w st))
         else if c = ''gtime'' \<and> argc = 2 then
           Some (let (res, t, w) = fr_fgetmtime rm f1 w
                 in Some (if res \<noteq> E_PSI_GEN_NONE then [Err res] else [Time t], set_rfsv w st))
         else if c = ''sattr'' \<and> argc = 3 then
           Some (let (a0, a1) = sattr_bits (argv ! 1) in rfsv_call (rm_fsetattr rm f2 a0 a1) st)
         else if c = ''deviceid'' \<and> argc = 1 then
           Some (Some (Said (ep_id (ft_ep st)) #
             (if ep_hasPersistentConfiguration (ft_ep st) then [] else [Said ''Warning: device id not persistent'']), st))
         else if c = ''devicename'' \<and> argc = 1 then
           Some (Some ([case ep_name (ft_ep st) of Some n \<Rightarrow> Said n | None \<Rightarrow> Said ''Error: device name not set''], st))
         else if c = ''setdevicename'' \<and> argc = 2 then
           Some (let (res, ep) = endpoint_setName (config_remote.truncate rm) (fh_dirname fh) (argv ! 1) (ft_ep st)
                 in Some (err_out res, st\<lparr>ft_ep := ep\<rparr>))
         else if c = ''dircnt'' then
           Some (do { (res, cnt, w) \<leftarrow> rm_dircount rm (ft_psionDir st) w;
                      Some (if res \<noteq> E_PSI_GEN_NONE then [Err res] else [Count cnt], set_rfsv w st) })
         else if c = ''devs'' then Some (cmd_devs rm st)
         else if c = ''ls'' \<or> c = ''dir'' then Some (cmd_dir rm fh argv st)
         else if c = ''lcd'' then Some (cmd_lcd fh argv st)
         else if c = ''cd'' then Some (cmd_cd rm fh argv st)
         else if c = ''get'' \<and> argc > 1 then Some (cmd_get rm fh argv st)
         else if c = ''mget'' \<and> argc = 2 then Some (cmd_mget rm fh argv st)
         else if c = ''put'' \<and> argc \<ge> 2 then Some (cmd_put rm argv st)
         else if c = ''mput'' \<and> argc = 2 then Some (cmd_mput rm fh argv st)
         else if (c = ''del'' \<or> c = ''rm'') \<and> argc = 2 then Some (rfsv_call (rm_remove rm f1) st)
         else if c = ''mkdir'' \<and> argc = 2 then Some (rfsv_call (rm_mkdir rm f1) st)
         else if c = ''rmdir'' \<and> argc = 2 then Some (rfsv_call (rm_rmdir rm f1) st)
         else if c \<noteq> [] \<and> c ! 0 = CHR ''!'' then Some (Some ([System (join_string_vector argv '' '')], st))
         else None)"

definition ftp_rpcs_command ::
  "('w, 'r) ftp_remote \<Rightarrow> ftp_host \<Rightarrow> string list \<Rightarrow> ('w, 'r) ftp \<Rightarrow> (ftp_out list \<times> ('w, 'r) ftp) option option" where
  "ftp_rpcs_command rm fh argv st =
     (let c = argv ! 0; argc = length argv; w = ep_rfsv (ft_ep st); r = ft_rpcs st; a = (if argc > 1 then argv ! 1 else [])
      in if c = ''settime'' then Some (let (res, r) = rp_setTime rm r in Some (err_out res, st\<lparr>ft_rpcs := r\<rparr>))
         else if c = ''setupinfo'' then Some (cmd_setupinfo rm st)
         else if c = ''run'' \<and> argc \<ge> 2 then Some (cmd_run rm argv st)
         else if c = ''ownerinfo'' then
           Some (let (res, b, r) = rp_getOwnerInfo rm r
                 in Some (if res \<noteq> E_PSI_GEN_NONE then [Err res] else map (\<lambda>l. Said (''  '' @ chars (takeWhile (\<lambda>x. x \<noteq> 0) l))) b, st\<lparr>ft_rpcs := r\<rparr>))
         else if c = ''machinfo'' then
           Some (let (res, mi, r) = rp_getMachineInfo rm r
                 in Some ([if res \<noteq> E_PSI_GEN_NONE then Err res else MachInfo mi], st\<lparr>ft_rpcs := r\<rparr>))
         else if c = ''runrestore'' \<and> argc = 2 then
           Some (do { (ret, out, w, r) \<leftarrow> startPrograms rm (fh_file fh a) w r;
                      Some (out, (set_rfsv w st)\<lparr>ft_rpcs := r\<rparr>) })
         else if c = ''killsave'' \<and> argc = 2 then
           Some (do { (ret, file', out, r) \<leftarrow> stopPrograms rm (fh_creates fh a) r; Some (out, st\<lparr>ft_rpcs := r\<rparr>) })
         else if c = ''putclip'' \<and> argc = 2 then
           Some (let (ret, out, w, r) = putClipText rm (fh_file fh a) w r
                 in Some (out @ (if ret \<noteq> 0 then [Said ''Error setting clipboard''] else []),
                          (set_rfsv w st)\<lparr>ft_rpcs := r\<rparr>))
         else if c = ''getclip'' \<and> argc = 2 then
           Some (do { (ret, file', out, w, r) \<leftarrow> getClipData rm (fh_creates fh a) w r;
                      Some (out @ (if ret \<noteq> 0 then [Said ''Error getting clipboard''] else []),
                            (set_rfsv w st)\<lparr>ft_rpcs := r\<rparr>) })
         else if c = ''kill'' \<and> argc \<ge> 2 then Some (cmd_kill rm argv st)
         else if c = ''ps'' then
           Some (let (res, ps, r) = rp_queryPrograms rm r
                 in Some (if res \<noteq> E_PSI_GEN_NONE then [Err res] else map Proc ps, st\<lparr>ft_rpcs := r\<rparr>))
         else None)"

definition on_off :: "bool \<Rightarrow> string" where
  "on_off b = (if b then ''on'' else ''off'')"

definition ftp_command ::
  "('w, 'r) ftp_remote \<Rightarrow> ftp_host \<Rightarrow> string list \<Rightarrow> ('w, 'r) ftp \<Rightarrow> (ftp_out list \<times> ('w, 'r) ftp) option" where
  "ftp_command rm fh argv st =
     (if argv = [] then Some ([], st)
      else let c = argv ! 0
      in if c = ''help'' \<or> c = ''?'' then Some ([Usage], st)
         else if c = ''prompt'' then Some ([Said (''Prompting now '' @ on_off (\<not> ft_prompt st))], st\<lparr>ft_prompt := \<not> ft_prompt st\<rparr>)
         else if c = ''hash'' then Some ([Said (''Hash printing now '' @ on_off (\<not> ft_hash st))], st\<lparr>ft_hash := \<not> ft_hash st\<rparr>)
         else if c = ''pwd'' then Some ([Said (ft_localDir st), Said (ft_psionDir st)], st)
         else case ftp_rfsv_command rm fh argv st of
           Some res \<Rightarrow> res
         | None \<Rightarrow>
             (case ftp_rpcs_command rm fh argv st of
                Some res \<Rightarrow> res
              | None \<Rightarrow>
                  Some (if c = ''bye'' \<or> c = ''quit'' then ([], st\<lparr>ft_continueRunning := False\<rparr>)
                        else ([SyntaxError], st))))"

text \<open>The greeting asks the device for its type, and for the speed unless a single command is given.\<close>

definition ftp_start ::
  "('w, 'r) ftp_remote \<Rightarrow> ftp_host \<Rightarrow> bool \<Rightarrow> 'w endpoint \<Rightarrow> string \<Rightarrow> 'r \<Rightarrow> bool list \<Rightarrow> ftp_out list \<times> ('w, 'r) ftp" where
  "ftp_start rm fh once ep cwd r yes =
     (let (_, machType, r) = rp_getMachineType rm r;
          (out, w) = (if \<not> once then let (speed, w) = fr_getSpeed rm (ep_rfsv ep) in ([Connected (ep_name ep) machType speed], w)
                      else ([], ep_rfsv ep));
          d = (if fh_DDRIVE fh = ''AUTO'' then [fr_defaultInternalDriveLetter rm, CHR '':''] else fh_DDRIVE fh);
          dir' = d @ fh_DBASEDIR fh
      in (out @ (if \<not> once then [Said (''Psion dir is: '' @ dir')] else []),
          \<lparr>ft_ep = ep\<lparr>ep_rfsv := w\<rparr>, ft_rpcs = r, ft_defDrive = d, ft_psionDir = dir', ft_cwd = cwd, ft_localDir = cwd,
           ft_prompt = True, ft_hash = False, ft_continueRunning = True, ft_yes = yes\<rparr>))"

text \<open>The lines that the user will enter; behind them the input ends.\<close>

fun ftp_loop ::
  "('w, 'r) ftp_remote \<Rightarrow> ftp_host \<Rightarrow> string list \<Rightarrow> ('w, 'r) ftp \<Rightarrow> (ftp_out list \<times> ('w, 'r) ftp) option" where
  "ftp_loop rm fh [] st = ftp_command rm fh (getCommand None) st"
| "ftp_loop rm fh (l # ls) st = do {
     (out, st) \<leftarrow> ftp_command rm fh (getCommand (Some l)) st;
     if ft_continueRunning st then do { (outs, st) \<leftarrow> ftp_loop rm fh ls st; Some (out @ outs, st) }
     else Some (out, st) }"

text \<open>Commands of the command line of the program are carried out once.\<close>

definition ftp_session ::
  "('w, 'r) ftp_remote \<Rightarrow> ftp_host \<Rightarrow> 'w endpoint \<Rightarrow> string \<Rightarrow> string list \<Rightarrow> string list \<Rightarrow> bool list \<Rightarrow> 'r \<Rightarrow>
   (int \<times> ftp_out list \<times> ('w, 'r) ftp) option" where
  "ftp_session rm fh ep cwd argv lines yes r =
     (let once = (argv \<noteq> []); (start, st) = ftp_start rm fh once ep cwd r yes
      in do {
        (out, st) \<leftarrow> (if once then ftp_command rm fh argv st else ftp_loop rm fh lines st);
        Some (rm_getStatus rm (ep_rfsv (ft_ep st)), start @ out, st) })"

end
