(* ===== verification/Ftp_Lemmas.thy ===== *)
theory Ftp_Lemmas
  imports FtpSession Device_Lemmas
begin

unbundle bit_operations_syntax

text \<open>
  Properties of \<open>plpftp\<close>: its command line, the attributes of \<open>sattr\<close>, the clipboard file and the list of
  programs are read back as they were written.
\<close>

section \<open>The command line\<close>

lemma command_loop_word:
  assumes "CHR 0x22 \<notin> set w" and "q \<or> CHR '' '' \<notin> set w \<and> CHR 0x09 \<notin> set w"
  shows "command_loop i (w @ r) False q = (let (b, ps) = command_loop (i + length w) r False q in (w @ b, ps))"
  using assms by (induction w arbitrary: i) (auto split: prod.splits)

lemma command_loop_begin:
  assumes "w \<noteq> []" and "CHR 0x22 \<notin> set w" and "hd w \<noteq> CHR '' ''" and "hd w \<noteq> CHR 0x09"
    and "q \<or> CHR '' '' \<notin> set w \<and> CHR 0x09 \<notin> set w"
  shows "command_loop i (w @ r) True q =
    (let (b, ps) = command_loop (i + length w) r False q in (w @ b, i # ps))"
proof (cases w)
  case (Cons c cs)
  then show ?thesis
    using assms command_loop_word [of cs q "Suc i" r] by (auto split: prod.splits)
qed (use assms(1) in simp)

text \<open>An argument is written as it is or in quotes.\<close>

definition render :: "bool \<times> string \<Rightarrow> string" where
  "render x = (if fst x then [CHR 0x22] @ snd x @ [CHR 0x22] else snd x)"

definition arg_ok :: "bool \<times> string \<Rightarrow> bool" where
  "arg_ok x \<longleftrightarrow> snd x \<noteq> [] \<and> CHR 0x00 \<notin> set (snd x) \<and> CHR 0x22 \<notin> set (snd x) \<and>
     hd (snd x) \<noteq> CHR '' '' \<and> hd (snd x) \<noteq> CHR 0x09 \<and>
     (fst x \<or> CHR '' '' \<notin> set (snd x) \<and> CHR 0x09 \<notin> set (snd x))"

lemma command_loop_render:
  assumes "arg_ok x"
  shows "command_loop i (render x @ r) True False =
    (let (b, ps) = command_loop (i + length (render x)) r False False
     in (if fst x then [CHR 0x22] @ snd x @ [CHR 0x00] @ b else snd x @ b, (if fst x then i + 1 else i) # ps))"
proof (cases "fst x")
  case True
  have "command_loop (Suc i) (snd x @ CHR 0x22 # r) True True =
      (let (b, ps) = command_loop (Suc i + length (snd x)) (CHR 0x22 # r) False True in (snd x @ b, Suc i # ps))"
    using command_loop_begin [of "snd x" True "Suc i" "CHR 0x22 # r"] assms by (simp add: arg_ok_def)
  then show ?thesis using True by (simp add: render_def split: prod.splits)
next
  case False
  then show ?thesis
    using command_loop_begin [of "snd x" False i r] assms by (simp add: render_def arg_ok_def split: prod.splits)
qed

definition words_at :: "nat \<Rightarrow> string \<Rightarrow> nat list \<Rightarrow> string list" where
  "words_at i buf ps = map (\<lambda>p. takeWhile (\<lambda>c. c \<noteq> CHR 0x00) (drop (p - i) buf)) ps"

lemma words_at_shift:
  assumes "\<forall>p\<in>set ps. i + length pre \<le> p"
  shows "words_at i (pre @ buf) ps = words_at (i + length pre) buf ps"
  using assms by (auto simp: words_at_def)

lemma command_line_words:
  "\<forall>x\<in>set xs. arg_ok x \<Longrightarrow>
   (case command_loop i (join_string_vector (map render xs) '' '') True False of (b, ps) \<Rightarrow>
      words_at i b ps = map snd xs \<and> (\<forall>p\<in>set ps. i \<le> p))"
proof (induction xs arbitrary: i)
  case Nil
  then show ?case by (simp add: words_at_def)
next
  case (Cons x xs)
  have ok: "arg_ok x" using Cons.prems by simp
  have zero: "takeWhile (\<lambda>c. c \<noteq> CHR 0x00) (snd x @ b) = snd x" if "b = [] \<or> hd b = CHR 0x00" for b
  proof -
    have "takeWhile (\<lambda>c. c \<noteq> CHR 0x00) (snd x @ b) = snd x @ takeWhile (\<lambda>c. c \<noteq> CHR 0x00) b"
      using ok by (intro takeWhile_append2) (auto simp: arg_ok_def)
    then show ?thesis using that by (cases b) auto
  qed
  show ?case
  proof (cases xs)
    case Nil
    then show ?thesis
      using command_loop_render [OF ok, of i "[]"] zero [of "[]"] zero [of "[CHR 0x00]"]
      by (auto simp: words_at_def)
  next
    case (Cons y ys)
    let ?j = "i + length (render x) + 1"
    obtain b ps where b: "command_loop ?j (join_string_vector (map render xs) '' '') True False = (b, ps)"
      by (cases "command_loop ?j (join_string_vector (map render xs) '' '') True False")
    then have ih: "words_at ?j b ps = map snd xs" "\<forall>p\<in>set ps. ?j \<le> p"
      using Cons.IH [of ?j] Cons.prems by auto
    let ?pre = "(if fst x then [CHR 0x22] @ snd x @ [CHR 0x00] else snd x) @ [CHR 0x00]"
    let ?p = "if fst x then i + 1 else i"
    have "command_loop i (render x @ '' '' @ join_string_vector (map render xs) '' '') True False = (?pre @ b, ?p # ps)"
      using command_loop_render [OF ok, of i "'' '' @ join_string_vector (map render xs) '' ''"] b by auto
    moreover have "length ?pre = length (render x) + 1" by (simp add: render_def)
    then have "words_at i (?pre @ b) ps = map snd xs"
      using words_at_shift [of ps i ?pre b] ih by simp
    moreover have "takeWhile (\<lambda>c. c \<noteq> CHR 0x00) (drop (?p - i) (?pre @ b)) = snd x"
      using zero [of "CHR 0x00 # CHR 0x00 # b"] zero [of "CHR 0x00 # b"] by simp
    ultimately show ?thesis
      using ih(2) Cons by (auto simp: words_at_def)
  qed
qed

text \<open>
  The command line is read back. Arguments that are written as they are, or in quotes when they contain
  blanks, and are separated by blanks, are the arguments of the command. An argument must not be empty nor
  begin with a blank, even in quotes, and cannot contain a quote.
\<close>

theorem ftp_command_words:
  assumes "\<forall>x\<in>set xs. arg_ok x"
  shows "getCommand (Some (join_string_vector (map render xs) '' '')) = map snd xs"
  using command_line_words [OF assms, of 0]
  by (auto simp: getCommand_def command_words_def words_at_def split: prod.splits)

theorem ftp_command_words_witness:
  "getCommand (Some (''put '' @ [CHR 0x22] @ ''my file'' @ [CHR 0x22] @ '' b'')) = [''put'', ''my file'', ''b'']"
  using ftp_command_words [of "[(False, ''put''), (True, ''my file''), (False, ''b'')]"]
  by (simp add: arg_ok_def render_def)

section \<open>Attributes\<close>

text \<open>The sign that holds at the end of an argument of \<open>sattr\<close>, and the one at the last occurrence of a letter.\<close>

fun sign_from :: "bool \<Rightarrow> string \<Rightarrow> bool" where
  "sign_from sg [] = sg"
| "sign_from sg (c # cs) = sign_from (if c = CHR ''+'' then True else if c = CHR ''-'' then False else sg) cs"

definition sign_after :: "string \<Rightarrow> bool" where
  "sign_after = sign_from True"

definition last_sign :: "char \<Rightarrow> string \<Rightarrow> bool option" where
  "last_sign l p = (case dropWhile (\<lambda>c. c \<noteq> l) (rev p) of [] \<Rightarrow> None | _ # q \<Rightarrow> Some (sign_after (rev q)))"

lemma last_sign_snoc: "last_sign l (p @ [c]) = (if c = l then Some (sign_after p) else last_sign l p)"
  by (simp add: last_sign_def)

lemma sattr_loop_append: "sattr_loop (p @ q) sg a = sattr_loop q (sign_from sg p) (sattr_loop p sg a)"
  by (induction p arbitrary: sg a) simp_all

lemma sattr_snoc: "sattr_bits (p @ [c]) = sattr_loop [c] (sign_after p) (sattr_bits p)"
  by (simp only: sattr_bits_def sattr_loop_append sign_after_def)

lemma pow_bit: "k < 32 \<Longrightarrow> bit (2 ^ k :: 32 word) n \<longleftrightarrow> n = k"
  by (auto simp: bit_exp_iff)

lemma psi_bits:
  "bit PSI_A_RDONLY n \<longleftrightarrow> n = 0" "bit PSI_A_HIDDEN n \<longleftrightarrow> n = 1" "bit PSI_A_SYSTEM n \<longleftrightarrow> n = 2"
  "bit PSI_A_ARCHIVE n \<longleftrightarrow> n = 4" "bit PSI_A_READ n \<longleftrightarrow> n = 9"
  using pow_bit [of 0 n] pow_bit [of 1 n] pow_bit [of 2 n] pow_bit [of 4 n] pow_bit [of 9 n]
  by (simp_all add: psi_attr_defs)

definition sattr_says :: "string \<Rightarrow> bool \<Rightarrow> nat \<Rightarrow> bool" where
  "sattr_says p sg n \<longleftrightarrow>
     n = 1 \<and> last_sign CHR ''h'' p = Some sg \<or> n = 2 \<and> last_sign CHR ''s'' p = Some sg \<or>
     n = 4 \<and> last_sign CHR ''a'' p = Some sg \<or> n = 0 \<and> last_sign CHR ''w'' p = Some (\<not> sg)"

lemma sattr_step:
  assumes "n < 32"
  shows "bit (fst (sattr_loop [c] sg a)) n \<longleftrightarrow>
      (if c = CHR ''w'' \<and> n = 0 then \<not> sg else if c = CHR ''h'' \<and> n = 1 then sg
       else if c = CHR ''s'' \<and> n = 2 then sg else if c = CHR ''a'' \<and> n = 4 then sg
       else bit (fst a) n \<and> (c = CHR ''r'' \<and> n = 9 \<longrightarrow> \<not> sg))"
    and "bit (snd (sattr_loop [c] sg a)) n \<longleftrightarrow>
      (if c = CHR ''w'' \<and> n = 0 then sg else if c = CHR ''h'' \<and> n = 1 then \<not> sg
       else if c = CHR ''s'' \<and> n = 2 then \<not> sg else if c = CHR ''a'' \<and> n = 4 then \<not> sg
       else bit (snd a) n \<and> (c = CHR ''r'' \<and> n = 9 \<longrightarrow> sg))"
proof -
  consider "c = CHR ''+''" | "c = CHR ''-''" | "c = CHR ''r''" | "c = CHR ''w''" | "c = CHR ''h''" | "c = CHR ''s''"
    | "c = CHR ''a''" | "c \<notin> set ''+-rwhsa''"
    by auto
  then have "(bit (fst (sattr_loop [c] sg a)) n \<longleftrightarrow>
      (if c = CHR ''w'' \<and> n = 0 then \<not> sg else if c = CHR ''h'' \<and> n = 1 then sg
       else if c = CHR ''s'' \<and> n = 2 then sg else if c = CHR ''a'' \<and> n = 4 then sg
       else bit (fst a) n \<and> (c = CHR ''r'' \<and> n = 9 \<longrightarrow> \<not> sg))) \<and>
    (bit (snd (sattr_loop [c] sg a)) n \<longleftrightarrow>
      (if c = CHR ''w'' \<and> n = 0 then sg else if c = CHR ''h'' \<and> n = 1 then \<not> sg
       else if c = CHR ''s'' \<and> n = 2 then \<not> sg else if c = CHR ''a'' \<and> n = 4 then \<not> sg
       else bit (snd a) n \<and> (c = CHR ''r'' \<and> n = 9 \<longrightarrow> sg)))"
    using assms by cases (cases sg; simp add: sattr_on_def bit_and_iff bit_or_iff bit_not_iff psi_bits; blast)+
  then show "bit (fst (sattr_loop [c] sg a)) n \<longleftrightarrow>
      (if c = CHR ''w'' \<and> n = 0 then \<not> sg else if c = CHR ''h'' \<and> n = 1 then sg
       else if c = CHR ''s'' \<and> n = 2 then sg else if c = CHR ''a'' \<and> n = 4 then sg
       else bit (fst a) n \<and> (c = CHR ''r'' \<and> n = 9 \<longrightarrow> \<not> sg))"
    "bit (snd (sattr_loop [c] sg a)) n \<longleftrightarrow>
      (if c = CHR ''w'' \<and> n = 0 then sg else if c = CHR ''h'' \<and> n = 1 then \<not> sg
       else if c = CHR ''s'' \<and> n = 2 then \<not> sg else if c = CHR ''a'' \<and> n = 4 then \<not> sg
       else bit (snd a) n \<and> (c = CHR ''r'' \<and> n = 9 \<longrightarrow> sg))"
    by blast+
qed

lemma sattr_says_snoc:
  "sattr_says (p @ [c]) sg n \<longleftrightarrow>
     (if c = CHR ''w'' \<and> n = 0 then sign_after p \<noteq> sg else if c = CHR ''h'' \<and> n = 1 then sign_after p = sg
      else if c = CHR ''s'' \<and> n = 2 then sign_after p = sg else if c = CHR ''a'' \<and> n = 4 then sign_after p = sg
      else sattr_says p sg n)"
  by (auto simp: sattr_says_def last_sign_snoc)

lemma sattr_says_bits:
  "(bit (fst (sattr_bits p)) n \<longleftrightarrow> sattr_says p True n) \<and> (bit (snd (sattr_bits p)) n \<longleftrightarrow> sattr_says p False n)"
proof (induction p rule: rev_induct)
  case Nil
  then show ?case by (simp add: sattr_bits_def sattr_says_def last_sign_def)
next
  case (snoc c p)
  have read: "\<not> sattr_says q sg 9" for q sg by (simp add: sattr_says_def)
  show ?case
  proof (cases "n < 32")
    case True
    have nine: "\<not> bit (fst (sattr_bits p)) n" "\<not> bit (snd (sattr_bits p)) n" if "n = 9"
      using snoc read that by simp_all
    show ?thesis
      unfolding sattr_snoc sattr_step [OF True] sattr_says_snoc
      using snoc nine by (cases "n = 9") simp_all
  next
    case False
    then show ?thesis
      using bit_imp_le_length [of "fst (sattr_bits (p @ [c]))" n] bit_imp_le_length [of "snd (sattr_bits (p @ [c]))" n]
      by (auto simp: sattr_says_def)
  qed
qed

text \<open>
  C40: the attributes of \<open>sattr\<close>. For each of the letters h, s and a, the sign in force at its last occurrence
  decides whether its attribute is set or cleared, and a letter that does not occur leaves it alone; for w it is
  the other way round with "read only". No attribute is both set and cleared, and none besides these four is
  touched: the letter r has no effect.
\<close>

theorem ftp_sattr:
  "(fst (sattr_bits p) AND PSI_A_HIDDEN \<noteq> 0 \<longleftrightarrow> last_sign CHR ''h'' p = Some True) \<and>
   (snd (sattr_bits p) AND PSI_A_HIDDEN \<noteq> 0 \<longleftrightarrow> last_sign CHR ''h'' p = Some False) \<and>
   (fst (sattr_bits p) AND PSI_A_SYSTEM \<noteq> 0 \<longleftrightarrow> last_sign CHR ''s'' p = Some True) \<and>
   (snd (sattr_bits p) AND PSI_A_SYSTEM \<noteq> 0 \<longleftrightarrow> last_sign CHR ''s'' p = Some False) \<and>
   (fst (sattr_bits p) AND PSI_A_ARCHIVE \<noteq> 0 \<longleftrightarrow> last_sign CHR ''a'' p = Some True) \<and>
   (snd (sattr_bits p) AND PSI_A_ARCHIVE \<noteq> 0 \<longleftrightarrow> last_sign CHR ''a'' p = Some False) \<and>
   (fst (sattr_bits p) AND PSI_A_RDONLY \<noteq> 0 \<longleftrightarrow> last_sign CHR ''w'' p = Some False) \<and>
   (snd (sattr_bits p) AND PSI_A_RDONLY \<noteq> 0 \<longleftrightarrow> last_sign CHR ''w'' p = Some True) \<and>
   fst (sattr_bits p) AND snd (sattr_bits p) = 0 \<and>
   (fst (sattr_bits p) OR snd (sattr_bits p)) AND
     NOT (PSI_A_HIDDEN OR PSI_A_SYSTEM OR PSI_A_ARCHIVE OR PSI_A_RDONLY) = 0"
proof -
  have flag: "w AND f \<noteq> 0 \<longleftrightarrow> bit w k" if "\<And>n. bit f n \<longleftrightarrow> n = k" for w f :: "32 word" and k
    using that by (metis (no_types, lifting) bit_and_iff bit_word_eqI bit_0_eq bot_apply bot_bool_def)
  have "fst (sattr_bits p) AND snd (sattr_bits p) = 0"
    by (rule bit_word_eqI) (auto simp: bit_and_iff sattr_says_bits sattr_says_def)
  moreover have "(fst (sattr_bits p) OR snd (sattr_bits p)) AND
      NOT (PSI_A_HIDDEN OR PSI_A_SYSTEM OR PSI_A_ARCHIVE OR PSI_A_RDONLY) = 0"
    by (rule bit_word_eqI) (auto simp: bit_and_iff bit_or_iff bit_not_iff psi_bits sattr_says_bits sattr_says_def)
  ultimately show ?thesis
    by (simp add: flag [OF psi_bits(1)] flag [OF psi_bits(2)] flag [OF psi_bits(3)] flag [OF psi_bits(4)]
        sattr_says_bits sattr_says_def)
qed

section \<open>Several files at once\<close>

text \<open>
  While prompting is off, \<open>mput\<close> puts none of the files, although it prints the answer y.
\<close>

lemma ftp_mput_unprompted: "\<not> ft_prompt st \<Longrightarrow> mput_loop rm fh pattern es st = Some ([], st)"
  by (induction rm fh pattern es st rule: mput_loop.induct) (simp_all add: ask_yes_def)

section \<open>The clipboard file\<close>

lemma slurp_text: "CHR 0x00 \<notin> set t \<Longrightarrow> slurp t = t"
proof -
  have "CHR 0x00 \<notin> set t \<Longrightarrow> get_upto [] t = (t, [])" by (induction t) auto
  then show "CHR 0x00 \<notin> set t \<Longrightarrow> slurp t = t" by (simp add: slurp_def)
qed

lemma clip_dword_at: "length xs = i \<Longrightarrow> clip_dword (xs @ le32 v @ ys) i = Some (word_of_int v)"
  using join32_split [of v] by (simp add: clip_dword_def le32_def nth_append)

lemma psi_char_nz: "psi_char c = CHR 0x00 \<longleftrightarrow> c = CHR 0x00"
  by (simp add: psi_char_def)

lemma ascii_char_nz: "ascii_char c \<noteq> CHR 0x00"
  by (simp add: ascii_char_def)

lemma ascii_nz: "CHR 0x00 \<notin> set t \<Longrightarrow> 0 \<notin> set (ascii t)"
proof (rule ccontr, drule notnotD)
  assume t: "CHR 0x00 \<notin> set t" and "0 \<in> set (ascii t)"
  then have "char_of (unat (0 :: byte)) \<in> set (chars (ascii t))" unfolding chars_def set_map by blast
  moreover have "char_of (unat (0 :: byte)) = CHR 0x00" by (simp add: char_of_def)
  ultimately show False using t by simp
qed

lemma clip_file_parts:
  "clip_dword (clip_file d) 0 = Some 0x10000037" "clip_dword (clip_file d) 4 = Some 0x1000003b"
  "clip_dword (clip_file d) 8 = Some 0" "clip_dword (clip_file d) 12 = Some 0x4739d53b"
  "clip_dword (clip_file d) 16 = Some 0x14" "clip_dword (clip_file d) 21 = Some 0x10000033"
  "clip_dword (clip_file d) 25 = Some 0x1d" "clip_dword (clip_file d) 29 = Some (of_nat (length d))"
proof -
  let ?a = "le32 0x10000037" and ?b = "le32 0x1000003b" and ?c = "le32 0" and ?d = "le32 0x4739d53b"
    and ?e = "le32 0x14 @ [2]" and ?f = "le32 0x10000033" and ?g = "le32 0x1d"
  let ?t = "le32 (int (length d)) @ stringT d"
  have len: "length (le32 x) = 4" for x by (simp add: le32_def)
  show "clip_dword (clip_file d) 0 = Some 0x10000037"
    using clip_dword_at [of "[]" 0 "0x10000037" "?b @ ?c @ ?d @ ?e @ ?f @ ?g @ ?t"] by (simp add: clip_file_def)
  show "clip_dword (clip_file d) 4 = Some 0x1000003b"
    using clip_dword_at [of ?a 4 "0x1000003b" "?c @ ?d @ ?e @ ?f @ ?g @ ?t"] by (simp add: clip_file_def len)
  show "clip_dword (clip_file d) 8 = Some 0"
    using clip_dword_at [of "?a @ ?b" 8 0 "?d @ ?e @ ?f @ ?g @ ?t"] by (simp add: clip_file_def len)
  show "clip_dword (clip_file d) 12 = Some 0x4739d53b"
    using clip_dword_at [of "?a @ ?b @ ?c" 12 "0x4739d53b" "?e @ ?f @ ?g @ ?t"] by (simp add: clip_file_def len)
  show "clip_dword (clip_file d) 16 = Some 0x14"
    using clip_dword_at [of "?a @ ?b @ ?c @ ?d" 16 "0x14" "[2] @ ?f @ ?g @ ?t"] by (simp add: clip_file_def len)
  show "clip_dword (clip_file d) 21 = Some 0x10000033"
    using clip_dword_at [of "?a @ ?b @ ?c @ ?d @ ?e" 21 "0x10000033" "?g @ ?t"] by (simp add: clip_file_def len)
  show "clip_dword (clip_file d) 25 = Some 0x1d"
    using clip_dword_at [of "?a @ ?b @ ?c @ ?d @ ?e @ ?f" 25 "0x1d" ?t] by (simp add: clip_file_def len)
  show "clip_dword (clip_file d) 29 = Some (of_nat (length d))"
    using clip_dword_at [of "?a @ ?b @ ?c @ ?d @ ?e @ ?f @ ?g" 29 "int (length d)" "stringT d"]
    by (simp add: clip_file_def len)
qed

lemma take_prefix: "length xs = n \<Longrightarrow> take n (xs @ ys) = xs"
  by simp

lemma clip_file_split:
  obtains P where "clip_file d = P @ ascii d @ [0]" and "length P = 33"
proof
  let ?p = "le32 0x10000037 @ le32 0x1000003b @ le32 0 @ le32 0x4739d53b @ le32 0x14 @ [2] @ le32 0x10000033 @
    le32 0x1d @ le32 (int (length d))"
  show "clip_file d = ?p @ ascii d @ [0]" by (simp only: clip_file_def stringT_def append_assoc)
  show "length ?p = 33" by (simp add: le32_def)
qed

lemma clip_parse_file:
  assumes "CHR 0x00 \<notin> set d" and "length d < 2 ^ 31"
  shows "clip_parse (clip_file d) = ClipText (psiText2ascii d)"
proof -
  let ?b = "clip_file d" and ?t = "psiText2ascii d"
  obtain P where P: "?b = P @ ascii d @ [0]" "length P = 33" using clip_file_split .
  let ?c = "P @ ascii ?t @ [0]"
  have check: "clip_check ?b = Some True" by (simp add: clip_check_def clip_file_parts)
  have n: "unat (of_nat (length d) :: 32 word) = length d"
    using assms(2) by (simp add: unat_of_nat take_bit_eq_mod)
  have conv: "clip_convert 33 (length d) ?b = Some ?c"
    using P(2) by (simp add: clip_convert_def P(1))
  have nz: "0 \<notin> set (ascii ?t)"
  proof (rule ascii_nz)
    show "CHR 0x00 \<notin> set ?t"
      unfolding psiText2ascii_def set_map using assms(1) psi_char_nz by (metis imageE)
  qed
  have "takeWhile (\<lambda>x. x \<noteq> 0) (ascii ?t @ [0]) = ascii ?t @ takeWhile (\<lambda>x. x \<noteq> 0) [0]"
    using nz by (intro takeWhile_append2) auto
  then have str: "clip_string ?c 33 = Some ?t" using P(2) by (simp add: clip_string_def)
  have two: "?b ! 20 = 2" by (simp add: clip_file_def le32_def)
  have stop: "clip_sections 0 29 ?c x = Some x" for x by (subst clip_sections.simps) simp
  have "clip_sections 2 21 ?b [] = Some ?t"
    by (subst clip_sections.simps) (simp add: clip_file_parts n conv str stop)
  then show ?thesis
    using two check P(2) by (simp add: clip_parse_def clip_file_parts) (simp add: P(1))
qed

definition plain_text :: "string \<Rightarrow> bool" where
  "plain_text t \<longleftrightarrow> set t \<inter> {CHR 0x00, CHR 0x06, CHR 0x07, CHR 0x08, CHR 0x0B, CHR 0x0F, CHR 0x10} = {}"



section \<open>Saving and starting programs\<close>

lemma getln_line: "CHR 0x0A \<notin> set l \<Longrightarrow> CHR 0x00 \<notin> set l \<Longrightarrow> getln (l @ CHR 0x0A # r) = (l, r)"
proof -
  have "CHR 0x0A \<notin> set l \<Longrightarrow> CHR 0x00 \<notin> set l \<Longrightarrow> get_upto [CHR 0x0A] (l @ CHR 0x0A # r) = (l, r)"
    by (induction l) auto
  then show "CHR 0x0A \<notin> set l \<Longrightarrow> CHR 0x00 \<notin> set l \<Longrightarrow> getln (l @ CHR 0x0A # r) = (l, r)"
    by (simp add: getln_def)
qed

definition exec_line :: "('w, 'r) ftp_remote \<Rightarrow> string \<Rightarrow> 'r \<Rightarrow> 'r" where
  "exec_line rm cmd r = snd (rp_execProgram rm (fst (line_program cmd)) (snd (line_program cmd)) r)"

lemma start_line_ok:
  assumes "\<And>p a r. fst (rp_execProgram rm p a r) = E_PSI_GEN_NONE" and "cmd \<noteq> []" and "hd cmd \<noteq> CHR '' ''"
  shows "start_line rm cmd w r = Some ([], w, exec_line rm cmd r)"
proof -
  have prog: "takeWhile (\<lambda>c. c \<noteq> CHR '' '') cmd \<noteq> []" using assms(2,3) by (cases cmd) auto
  show ?thesis
    using prog by (simp add: start_line_def exec_line_def case_prod_beta Let_def assms(1))
qed

lemma start_lines_saved:
  assumes "\<And>p a r. fst (rp_execProgram rm p a r) = E_PSI_GEN_NONE"
  shows "\<forall>c\<in>set cs. c \<noteq> [] \<and> hd c \<noteq> CHR '' '' \<and> CHR 0x0A \<notin> set c \<and> CHR 0x00 \<notin> set c \<Longrightarrow>
    rest = [] \<or> hd rest = CHR 0x0A \<Longrightarrow>
    start_lines rm (concat (map (\<lambda>c. c @ [CHR 0x0A]) cs) @ rest) w r = Some ([], w, fold (exec_line rm) cs r)"
proof (induction cs arbitrary: r)
  case Nil
  then have "fst (getln rest) = []" by (cases rest) (auto simp: getln_def)
  then show ?case by (subst start_lines.simps) (simp add: case_prod_beta)
next
  case (Cons c cs)
  let ?rest = "concat (map (\<lambda>c. c @ [CHR 0x0A]) cs) @ rest"
  have "getln (c @ CHR 0x0A # ?rest) = (c, ?rest)" using Cons.prems(1) by (intro getln_line) simp_all
  moreover have "start_line rm c w r = Some ([], w, exec_line rm c r)"
    using start_line_ok [OF assms] Cons.prems(1) by simp
  ultimately show ?case
    using Cons by (subst start_lines.simps) simp
qed


text \<open>A session in which the started programs are noted.\<close>

definition ftp_sample :: "(((bytes \<times> nat) \<times> bytes) rfsv, (string \<times> string) list) ftp_remote" where
  "ftp_sample =
     config_remote.extend (rfsv32_config (device_socket env_sample store_answer) (time_sample 0) drive_zero)
       \<lparr>fr_getProtocolVersion = 5, fr_defaultInternalDriveLetter = CHR ''C'',
        fr_setVolumeName = setVolumeName (device_socket env_sample store_answer),
        fr_copyOnPsion = (\<lambda>f t w. Some (0, w)), fr_copyFromPsion = (\<lambda>f t w. Some (0, w)),
        fr_copyToPsion = (\<lambda>f t w. Some (0, w)), fr_touch = (\<lambda>n w. (0, w)),
        fr_fgetattr = (\<lambda>n w. (0, 0, w)), fr_fgetmtime = (\<lambda>n w. (0, time_sample 0, w)), fr_getSpeed = (\<lambda>w. (115200, w)),
        rp_execProgram = (\<lambda>p a r. (E_PSI_GEN_NONE, r @ [(p, a)])), rp_stopProgram = (\<lambda>p r. (0, r)),
        rp_queryPrograms = (\<lambda>r. (0, [], r)), rp_setTime = (\<lambda>r. (0, r)), rp_getOwnerInfo = (\<lambda>r. (0, [], r)),
        rp_getMachineType = (\<lambda>r. (0, 5, r)), rp_getMachineInfo = (\<lambda>r. (0, machine_fields (device_socket env_sample store_answer) (replicate 256 0), r)),
        rp_configRead = (\<lambda>n r. Some (0, [], r)), rp_initClipbd = (\<lambda>r. (0, r))\<rparr>"

lemma ftp_sample_exec: "rp_execProgram ftp_sample p a r = (E_PSI_GEN_NONE, r @ [(p, a)])"
  by (simp add: ftp_sample_def config_remote.defs)


end
