(* ===== verification/Spec2Isabelle.thy ===== *)
theory Spec2Isabelle
  imports BufferStore BufferArray DataLink Link Ncp Channels TcpSocket PsiTime PathUtils Ini
    Rfsv32_Files Rfsv32_Dir Rfsv16_Files Drives SisFile_Safe Bitmap_Roundtrip Rpcs_Lemmas SisInstall_Lemmas
    Clients_Daemon Session_Invariant IoWatch PrintSpool_Lemmas PlpFuse_Attr Device_Lemmas Ftp_Lemmas
begin

text \<open>
  plptools connects a PC with a Psion palmtop over a serial line. This development models the
  protocol stack of the daemon \<open>ncpd\<close> and of its clients, under \<open>src/lib\<close>, and the programs
  \<open>plpftp\<close>, \<open>plpfuse\<close>, \<open>plpprintd\<close> and \<open>sisinstall\<close> that use them, and proves what makes them correct.

  How the program is put together. \<open>DataLink\<close> turns packets into bytes on the serial line and
  back, with a checksum and byte stuffing. \<open>Link\<close> makes the line reliable: sequence numbers,
  acknowledgements, a window, retransmission, and one handshake for SIBO machines and another
  for EPOC ones. \<open>NCP\<close> multiplexes channels over the link and cuts messages into packets; a
  \<open>LinkChannel\<close> is the control channel to the Psion and a \<open>SocketChannel\<close> is a client, connected
  through \<open>TCPSocket\<close>. The clients access the files of the Psion with \<open>RFSV16\<close> or \<open>RFSV32\<close>, two
  implementations of the base class \<open>RFSV\<close>, its programs and settings with \<open>RPCS16\<close> or \<open>RPCS32\<close>,
  the clipboard with \<open>rclip\<close> and its printer with \<open>wprt\<close>. They share the byte buffer \<open>BufferStore\<close>, the queue
  \<open>BufferArray\<close>, the time conversion \<open>PsiTime\<close>, the paths of \<open>pathutils\<close> and the settings of \<open>ini\<close>.

  Conventions. A class is a record with its members; a method is a definition with the name
  of the method (or class prefix and name) from the record to the results and the new record.
  Bytes are \<open>8 word\<close>; integers whose wrap-around matters are words of their width. Error codes
  are the integers of \<open>RFSV::errs\<close>. \<open>None\<close> as the result of a whole method is a call that does
  not return or an access outside an allocated block, as the theory says; it never stands
  for an error that the code reports. What a method finds in uninitialised variables
  or behind the end of a buffer is an argument (\<open>junk\<close>, \<open>tail\<close>). System calls are arguments:
  their results are lists or functions that the definitions consume in the order of the calls.
  A callback or a packet for another object is an entry of an output list.

  \<^item> \<open>Prelude\<close>: bytes, little-endian numbers, C strings; \<open>Errors\<close>: \<open>RFSV::errs\<close> (\<open>lib/rfsv.h\<close>).
  \<^item> \<open>BufferStore\<close> (\<open>lib/bufferstore.cc\<close>): the block with its start and end. Under the invariant
    \<open>bs_inv\<close> every operation acts on the list of contents; the locales \<open>byte_buffer\<close> and
    \<open>buffer_writer\<close> are that contract, and the other theories use byte lists for buffers.
  \<^item> \<open>BufferArray\<close> (\<open>lib/bufferarray.cc\<close>): a queue, locale \<open>fifo\<close>.
  \<^item> \<open>RingBuffer\<close>, \<open>Crc\<close>, \<open>DataLink\<close> (\<open>lib/datalink.cc\<close>): the rings are queues, the table driven
    checksum is the bitwise CRC-CCITT, and what \<open>send\<close> puts on the line \<open>processInputData\<close>
    takes off it, for any split into reads.
  \<^item> \<open>Link\<close> (\<open>lib/link.cc\<close>): each method is one atomic step; the step relation gives the reachable
    states, their invariant, and delivery in order and without repetition under loss.
  \<^item> \<open>Ncp\<close>, \<open>Channels\<close> (\<open>lib/ncp.cc\<close>, \<open>lib/channel.cc\<close>, \<open>lib/linkchannel.cc\<close>,
    \<open>lib/socketchannel.cc\<close>): channel objects live in a store, so that the use of a deleted one
    is visible.
  \<^item> \<open>TcpSocket\<close> (\<open>lib/tcpsocket.cc\<close>): the framing of messages over partial sends and receives.
  \<^item> \<open>PsiTime\<close> (\<open>lib/psitime.cc\<close>), \<open>PathUtils\<close> (\<open>lib/pathutils.cc\<close>), \<open>Ini\<close> (\<open>lib/ini.cc\<close>):
    conversions with their round trips.
  \<^item> \<open>Rfsv\<close> (\<open>lib/rfsv.cc\<close>, \<open>lib/plpdirent.cc\<close>, \<open>lib/drive.cc\<close>): the base class and the transfer
    loops that both protocols have; \<open>Transfer_Loops\<close> proves the loops for any block request.
  \<^item> \<open>Rfsv32\<close>, \<open>Rfsv16\<close> (\<open>lib/rfsv32.cc\<close>, \<open>lib/rfsv16.cc\<close>): every method. \<open>Rfsv32_Session\<close>,
    \<open>Rfsv32_Files\<close>, \<open>Rfsv32_Dir\<close> and \<open>Rfsv16_Files\<close> run them against a device: a function that
    answers requests, with what a device does with a file or a directory as hypotheses.
  \<^item> \<open>Drives\<close> (\<open>RFSV::drives\<close>): over the locale \<open>drive_source\<close>, which both protocols provide.
  \<^item> \<open>Sis\<close>, \<open>SisFile\<close> (\<open>lib/sis*.cpp\<close>): the parser of installation files. \<open>SisFile_Safe\<close> shows when
    it stays inside the buffer and what shape a parsed file has.
  \<^item> \<open>Bitmap\<close>, \<open>Bitmap_Roundtrip\<close> (\<open>lib/psibitmap.cpp\<close>): bitmaps, with the round trip.
  \<^item> \<open>Rpcs\<close>, \<open>Rpcs_Lemmas\<close> (\<open>lib/rpcs*.cc\<close>, \<open>lib/psiprocess.cc\<close>): every request of the two
    machines, the values of the cached machine type, and the list of processes read back.
  \<^item> \<open>SisInstall\<close>, \<open>SisInstall_Lemmas\<close> (\<open>sisinstall/sisinstaller.cpp\<close>, \<open>lib/psion.cpp\<close>): the
    installer over any \<open>Psion\<close>; what it installs is on the device, and uninstalling removes it.
  \<^item> \<open>Clients\<close>, \<open>Clients_Daemon\<close> (\<open>lib/*factory.cc\<close>, \<open>lib/rclip.cc\<close>, \<open>lib/wprt.cc\<close>): how a client
    learns the kind of machine and selects its implementation, run against the daemon's answer.
  \<^item> \<open>Session\<close>, \<open>Session_Invariant\<close> (\<open>lib/ncpsession.cc\<close>): the rounds of the two threads of the
    daemon as steps over \<open>Ncp\<close> and the sockets, with the invariant of its reachable states.
  \<^item> \<open>IoWatch\<close> (\<open>lib/iowatch.cc\<close>): the sorted list of descriptors as a set.
  \<^item> \<open>PrintPage\<close>, \<open>PrintSpool\<close> and their lemmas (\<open>plpprint/plpprintd.cc\<close>): the conversion of a
    page to PostScript, and the loop that collects the packets of a job.
  \<^item> \<open>PlpFuse\<close>, \<open>PlpFuseOps\<close> (\<open>plpfuse/main.cc\<close>, \<open>plpfuse/fuse.c\<close>): the remote functions over the
    methods of \<open>RFSV\<close> and the operations of the file system. \<open>PlpFuse_Files\<close> shows reading and
    writing on a device that serves a file, \<open>PlpFuse_Attr\<close> the attributes.
  \<^item> \<open>Device\<close>, \<open>Device_Lemmas\<close> (\<open>lib/device.cc\<close>, \<open>lib/deviceconfiguration.cc\<close>, \<open>lib/uuid.cc\<close>,
    \<open>lib/deviceendpoint.cc\<close>): the configuration file on the device, by which its identity survives.
  \<^item> \<open>Ftp\<close>, \<open>FtpSession\<close>, \<open>Ftp_Lemmas\<close> (\<open>plpftp/ftp.cc\<close>): the commands and the loop of \<open>FTP::session\<close>
    over the methods they call; the clipboard file, the list of programs and the attributes.

  Loops. Loops that consume their input are terminating functions. Loops that only the other
  side ends (\<open>fread\<close>, copies, listings, the scan of \<open>processInputData\<close>, the wait of \<open>killsave\<close>) are
  partial functions into \<open>option\<close>; the theorems say that they return. The installer follows nested SIS
  files to a depth that is an argument, as a file may contain itself; behind it the result is \<open>None\<close>. The
  theorems on installations are about files without nested ones, for which a depth of one is enough.

  Not modelled: the interleaving of the threads inside an operation (each critical section and each
  round of the daemon is one atomic definition), \<open>select\<close>, sockets and serial ports as such, logging,
  the layout of printed tables, the options in the \<open>main\<close> functions of the programs, the completion of
  the command line of \<open>plpftp\<close>, and the Swift wrappers.
\<close>

end
